(* ===== verification/Mcpg_Prelude.thy ===== *)
theory Mcpg_Prelude
  imports Main "HOL-Library.AList" "HOL-Library.Sublist" "HOL-Library.Char_ord"
    "HOL-Library.List_Lexorder" "HOL-Library.Word"
begin

text \<open>
  The vocabulary every component of the gateway model shares.

  Rust's \<open>String\<close>, \<open>&str\<close> and \<open>Bytes\<close> are byte sequences, so they are HOL's \<open>string\<close> (a list of
  8-bit \<open>char\<close>): \<open>len()\<close> is \<open>length\<close>, and the derived order is the lexicographic one.
  Durations and clock readings are nanoseconds in \<open>nat\<close>; the unsigned \<open>saturating_sub\<close> is exactly
  \<open>nat\<close> subtraction.  Fallible code returns \<open>'e + 'a\<close> with the error on the left; code that also
  changes a state returns the pair of that result and the new state.
\<close>

named_theorems kv_law
  \<open>what the operations of a key-value store return and how they change its rows\<close>
named_theorems ext_law
  \<open>documented behaviour of the code outside the repository\<close>

section \<open>Durations and clocks\<close>

type_synonym duration = nat

definition from_millis :: "nat \<Rightarrow> duration" where
  "from_millis ms = ms * 1000000"

definition from_secs :: "nat \<Rightarrow> duration" where
  "from_secs n = n * 1000000000"

definition as_millis :: "duration \<Rightarrow> nat" where
  "as_millis d = d div 1000000"

text \<open>chrono's \<open>(later - earlier).num_milliseconds()\<close>: signed, and truncated towards zero.\<close>

definition num_milliseconds :: "nat \<Rightarrow> nat \<Rightarrow> int" where
  "num_milliseconds later earlier =
     (if earlier \<le> later then int ((later - earlier) div 1000000)
      else - int ((earlier - later) div 1000000))"

text \<open>
  A reading of the two clocks the code uses: the monotonic \<open>Instant\<close> and the wall clock
  (\<open>SystemTime\<close>, \<open>Utc::now()\<close>) in nanoseconds since the epoch.
\<close>

record clock =
  clk_inst :: nat
  clk_utc :: nat

text \<open>Both clocks at a number of milliseconds, for concrete runs.\<close>

definition at_ms :: "nat \<Rightarrow> clock" where
  "at_ms n = \<lparr>clk_inst = from_millis n, clk_utc = from_millis n\<rparr>"

lemma at_ms_simps [simp]: "clk_inst (at_ms n) = from_millis n" "clk_utc (at_ms n) = from_millis n"
  by (simp_all add: at_ms_def)

lemma as_millis_from_millis [simp]: "as_millis (from_millis n) = n"
  by (simp add: as_millis_def from_millis_def)

lemma from_millis_mono [simp]: "from_millis a \<le> from_millis b \<longleftrightarrow> a \<le> b"
  by (simp add: from_millis_def)

lemma from_millis_pos [simp]: "0 < from_millis a \<longleftrightarrow> 0 < a"
  by (simp add: from_millis_def)

lemma num_milliseconds_nonneg: "earlier \<le> later \<Longrightarrow> 0 \<le> num_milliseconds later earlier"
  by (simp add: num_milliseconds_def)

lemma num_milliseconds_le_from_millis:
  assumes "earlier \<le> later"
  shows "from_millis (nat (num_milliseconds later earlier)) \<le> later - earlier"
  using assms by (simp add: from_millis_def num_milliseconds_def)

section \<open>Strings\<close>

definition strip_prefix :: "string \<Rightarrow> string \<Rightarrow> string option" where
  "strip_prefix s p = (if prefix p s then Some (drop (length p) s) else None)"

lemma strip_prefix_append [simp]: "strip_prefix (p @ s) p = Some s"
  by (simp add: strip_prefix_def)

lemma strip_prefix_SomeD: "strip_prefix s p = Some r \<Longrightarrow> s = p @ r"
  by (auto simp: strip_prefix_def prefix_def split: if_splits)

lemma strip_prefix_Some_iff: "strip_prefix s p = Some r \<longleftrightarrow> s = p @ r"
  by (auto dest: strip_prefix_SomeD)

text \<open>\<open>str::split(c)\<close>: the pieces between the separators, at least one.\<close>

fun split_on :: "char \<Rightarrow> string \<Rightarrow> string list" where
  "split_on c [] = [[]]"
| "split_on c (x # xs) =
     (if x = c then [] # split_on c xs
      else (case split_on c xs of [] \<Rightarrow> [[x]] | w # ws \<Rightarrow> (x # w) # ws))"

lemma split_on_nonempty [simp]: "split_on c s \<noteq> []"
  by (induction s) (auto split: list.splits)

lemma split_on_free: "c \<notin> set s \<Longrightarrow> split_on c s = [s]"
  by (induction s) auto

text \<open>\<open>str::split_once(c)\<close>: around the first separator.\<close>

fun split_once :: "char \<Rightarrow> string \<Rightarrow> (string \<times> string) option" where
  "split_once c [] = None"
| "split_once c (x # xs) =
     (if x = c then Some ([], xs)
      else map_option (\<lambda>(a, b). (x # a, b)) (split_once c xs))"

lemma split_once_append: "c \<notin> set a \<Longrightarrow> split_once c (a @ c # b) = Some (a, b)"
  by (induction a) auto

lemma split_once_None: "split_once c s = None \<longleftrightarrow> c \<notin> set s"
  by (induction s) auto

lemma split_once_SomeD: "split_once c s = Some (a, b) \<Longrightarrow> s = a @ c # b \<and> c \<notin> set a"
  by (induction s arbitrary: a) (auto split: if_splits)

text \<open>Decimal rendering of an unsigned integer, as \<open>to_string\<close> and \<open>format!\<close> do.\<close>

definition digit_char :: "nat \<Rightarrow> char" where
  "digit_char d = char_of (48 + d)"

fun show_nat :: "nat \<Rightarrow> string" where
  "show_nat n = (if n < 10 then [digit_char n] else show_nat (n div 10) @ [digit_char (n mod 10)])"

declare show_nat.simps [simp del]

lemma digit_char_inj: "a < 10 \<Longrightarrow> b < 10 \<Longrightarrow> digit_char a = digit_char b \<longleftrightarrow> a = b"
  by (auto simp: digit_char_def char_of_eq_iff take_bit_nat_eq_self)

lemma digit_char_range: "d < 10 \<Longrightarrow> of_char (digit_char d) \<in> {48..57 :: nat}"
  by (simp add: digit_char_def)

lemma show_nat_digits: "ch \<in> set (show_nat n) \<Longrightarrow> of_char ch \<in> {48..57 :: nat}"
proof (induction n rule: show_nat.induct)
  case (1 n)
  then show ?case
    using digit_char_range [of n] digit_char_range [of "n mod 10"]
    by (cases "n < 10") (auto simp: show_nat.simps [of n] split: if_splits)
qed

lemma show_nat_nonempty [simp]: "show_nat n \<noteq> []"
  by (subst show_nat.simps) simp

lemma show_nat_inj: "show_nat m = show_nat n \<Longrightarrow> m = n"
proof (induction m arbitrary: n rule: show_nat.induct)
  case (1 m)
  have len: "length (show_nat k) = 1 \<longleftrightarrow> k < 10" for k
    by (subst show_nat.simps) auto
  from 1(2) have same: "m < 10 \<longleftrightarrow> n < 10"
    by (metis len)
  show ?case
  proof (cases "m < 10")
    case True
    with same 1(2) show ?thesis
      by (simp add: show_nat.simps [of m] show_nat.simps [of n] digit_char_inj)
  next
    case False
    with same 1(2) have "show_nat (m div 10) = show_nat (n div 10)" "m mod 10 = n mod 10"
      by (auto simp: show_nat.simps [of m] show_nat.simps [of n] digit_char_inj)
    with 1(1) [OF False] show ?thesis
      by (metis div_mult_mod_eq)
  qed
qed

text \<open>The UTF-8 encodings of the characters \<open>str::trim\<close> removes (Unicode \<open>White_Space\<close>).\<close>

definition whitespace :: "string list" where
  "whitespace =
     map (\<lambda>n. [char_of n]) [9::nat, 10, 11, 12, 13, 32]
     @ map (map char_of)
         ([[194, 133], [194, 160], [225, 154, 128], [226, 128, 168], [226, 128, 169], [226, 128, 175],
           [226, 129, 159], [227, 128, 128]] @ map (\<lambda>n. [226, 128, n]) [128..<139::nat])"

definition leading_ws :: "string \<Rightarrow> string option" where
  "leading_ws s = find (\<lambda>w. prefix w s) whitespace"

function trim_start :: "string \<Rightarrow> string" where
  "trim_start s = (case leading_ws s of None \<Rightarrow> s | Some w \<Rightarrow> trim_start (drop (length w) s))"
  by pat_completeness auto

definition trailing_ws :: "string \<Rightarrow> string option" where
  "trailing_ws s = find (\<lambda>w. suffix w s) whitespace"

lemma whitespace_nonempty: "w \<in> set whitespace \<Longrightarrow> w \<noteq> []"
  by (auto simp: whitespace_def)

lemma find_SomeD: "List.find P xs = Some y \<Longrightarrow> P y \<and> y \<in> set xs"
  by (auto simp: find_Some_iff)

lemma leading_wsD: "leading_ws s = Some w \<Longrightarrow> prefix w s \<and> w \<noteq> [] \<and> w \<in> set whitespace"
  using whitespace_nonempty by (auto simp: leading_ws_def dest!: find_SomeD)

lemma trailing_wsD: "trailing_ws s = Some w \<Longrightarrow> suffix w s \<and> w \<noteq> [] \<and> w \<in> set whitespace"
  using whitespace_nonempty by (auto simp: trailing_ws_def dest!: find_SomeD)

termination trim_start
proof (relation "measure length")
  fix s w assume "leading_ws s = Some w"
  then have "prefix w s" "w \<noteq> []" by (auto dest: leading_wsD)
  then show "(drop (length w) s, s) \<in> measure length"
    by (cases w; cases s) auto
qed simp

function trim_end :: "string \<Rightarrow> string" where
  "trim_end s = (case trailing_ws s of None \<Rightarrow> s | Some w \<Rightarrow> trim_end (take (length s - length w) s))"
  by pat_completeness auto

termination trim_end
proof (relation "measure length")
  fix s w assume "trailing_ws s = Some w"
  then have "suffix w s" "w \<noteq> []" by (auto dest: trailing_wsD)
  then show "(take (length s - length w) s, s) \<in> measure length"
    by (auto simp: suffix_def)
qed simp

declare trim_start.simps [simp del] trim_end.simps [simp del]

definition trim :: "string \<Rightarrow> string" where
  "trim s = trim_end (trim_start s)"

lemma trim_end_sublist: "prefix (trim_end s) s \<and> trailing_ws (trim_end s) = None"
proof (induction s rule: trim_end.induct)
  case (1 s)
  show ?case
  proof (cases "trailing_ws s")
    case (Some w)
    with 1 have "prefix (trim_end (take (length s - length w) s)) s" by (meson prefix_order.trans take_is_prefix)
    with 1 Some show ?thesis by (simp add: trim_end.simps [of s])
  qed (simp add: trim_end.simps [of s])
qed

lemma trim_start_sublist: "suffix (trim_start s) s \<and> leading_ws (trim_start s) = None"
proof (induction s rule: trim_start.induct)
  case (1 s)
  show ?case
  proof (cases "leading_ws s")
    case (Some w)
    with 1 have "suffix (trim_start (drop (length w) s)) s" by (meson suffix_order.trans suffix_drop)
    with 1 Some show ?thesis by (simp add: trim_start.simps [of s])
  qed (simp add: trim_start.simps [of s])
qed

lemma leading_ws_prefix: "prefix a b \<Longrightarrow> leading_ws b = None \<Longrightarrow> leading_ws a = None"
  by (auto simp: leading_ws_def find_None_iff dest: prefix_order.trans)

lemma trimmed_ends:
  "leading_ws (trim s) = None" "trailing_ws (trim s) = None" "trim (trim s) = trim s" "sublist (trim s) s"
proof -
  note ts = trim_start_sublist [of s] and te = trim_end_sublist [of "trim_start s"]
  show l: "leading_ws (trim s) = None" using leading_ws_prefix ts te by (auto simp: trim_def)
  show t: "trailing_ws (trim s) = None" using te by (simp add: trim_def)
  show "trim (trim s) = trim s"
    using l t by (subst trim_def) (simp add: trim_start.simps [of "trim s"] trim_end.simps [of "trim s"])
  show "sublist (trim s) s"
    using ts te by (metis prefix_imp_sublist sublist_order.order_trans suffix_imp_sublist trim_def)
qed

lemma whitespace_ascii: "w \<in> set whitespace \<Longrightarrow> \<exists>ch \<in> set w. of_char ch \<notin> {33..127 :: nat}"
  by (auto simp: whitespace_def)

lemma trim_plain:
  assumes "\<forall>ch \<in> set s. of_char ch \<in> {33..127 :: nat}"
  shows "trim s = s"
proof -
  have "\<not> prefix w s" "\<not> suffix w s" if "w \<in> set whitespace" for w
    using whitespace_ascii [OF that] assms set_mono_prefix set_mono_suffix by blast+
  then have "leading_ws s = None" "trailing_ws s = None"
    by (auto simp: leading_ws_def trailing_ws_def find_None_iff)
  then show ?thesis by (simp add: trim_def trim_start.simps [of s] trim_end.simps [of s])
qed

text \<open>\<open>str::parse\<close> for \<open>u64\<close> and \<open>i64\<close>: an optional sign, then at least one digit, in range.\<close>

definition is_digit :: "char \<Rightarrow> bool" where
  "is_digit ch = (of_char ch \<in> {48..57 :: nat})"

definition digits_value :: "string \<Rightarrow> nat" where
  "digits_value ds = foldl (\<lambda>n ch. n * 10 + (of_char ch - 48)) 0 ds"

definition parse_digits :: "string \<Rightarrow> nat option" where
  "parse_digits s = (if s \<noteq> [] \<and> list_all is_digit s then Some (digits_value s) else None)"

definition parse_u64 :: "string \<Rightarrow> nat option" where
  "parse_u64 s =
     (case parse_digits (case s of ch # rest \<Rightarrow> if ch = CHR ''+'' then rest else s | [] \<Rightarrow> []) of
        None \<Rightarrow> None
      | Some n \<Rightarrow> if n < 2 ^ 64 then Some n else None)"

definition parse_i64 :: "string \<Rightarrow> int option" where
  "parse_i64 s =
     (case s of
        [] \<Rightarrow> None
      | ch # rest \<Rightarrow>
          if ch = CHR ''-'' then
            (case parse_digits rest of
               None \<Rightarrow> None | Some n \<Rightarrow> if n \<le> 2 ^ 63 then Some (- int n) else None)
          else
            (case parse_digits (if ch = CHR ''+'' then rest else s) of
               None \<Rightarrow> None | Some n \<Rightarrow> if n < 2 ^ 63 then Some (int n) else None))"

definition show_int :: "int \<Rightarrow> string" where
  "show_int i = (if i < 0 then ''-'' @ show_nat (nat (- i)) else show_nat (nat i))"

lemma digits_value_snoc: "digits_value (ds @ [ch]) = digits_value ds * 10 + (of_char ch - 48)"
  by (simp add: digits_value_def)

lemma digit_char_value [simp]: "d < 10 \<Longrightarrow> of_char (digit_char d) - (48::nat) = d" "d < 10 \<Longrightarrow> is_digit (digit_char d)"
  by (simp_all add: digit_char_def is_digit_def)

lemma parse_digits_show_nat [simp]: "parse_digits (show_nat n) = Some n"
proof -
  have "list_all is_digit (show_nat n)"
    by (auto simp: list_all_iff is_digit_def dest: show_nat_digits)
  moreover have "digits_value (show_nat n) = n"
  proof (induction n rule: show_nat.induct)
    case (1 n)
    then show ?case
      by (subst show_nat.simps) (auto simp: digits_value_snoc digits_value_def [of "[_]"])
  qed
  ultimately show ?thesis by (simp add: parse_digits_def)
qed

lemma show_nat_hd: "ch \<in> set (show_nat n) \<Longrightarrow> is_digit ch"
  by (auto simp: is_digit_def dest: show_nat_digits)

lemma parse_u64_show_nat [simp]: "n < 2 ^ 64 \<Longrightarrow> parse_u64 (show_nat n) = Some n"
  using show_nat_hd [of "CHR ''+''" n] parse_digits_show_nat [of n]
  by (auto simp: parse_u64_def is_digit_def simp del: parse_digits_show_nat split: list.splits)

lemma parse_i64_show_int [simp]: "- (2 ^ 63) \<le> i \<Longrightarrow> i < 2 ^ 63 \<Longrightarrow> parse_i64 (show_int i) = Some i"
proof (cases "i < 0")
  case True
  assume "- (2 ^ 63) \<le> i"
  then have "nat (- i) \<le> 2 ^ 63" by simp
  with True show ?thesis by (simp add: parse_i64_def show_int_def)
next
  case False
  assume "i < 2 ^ 63"
  with False have n: "nat i < 2 ^ 63" by simp
  obtain ch rest where s: "show_nat (nat i) = ch # rest" by (cases "show_nat (nat i)") auto
  then have "is_digit ch" using show_nat_hd [of ch "nat i"] by simp
  then have "ch \<noteq> CHR ''-''" "ch \<noteq> CHR ''+''" by (auto simp: is_digit_def)
  with False n s show ?thesis
    using parse_digits_show_nat [of "nat i"] by (simp add: parse_i64_def show_int_def)
qed

section \<open>Signed 64-bit arithmetic\<close>

definition fits_i64 :: "int \<Rightarrow> bool" where
  "fits_i64 n \<longleftrightarrow> - (2 ^ 63) \<le> n \<and> n < 2 ^ 63"

definition sat_i64 :: "int \<Rightarrow> int" where
  "sat_i64 n = max (- (2 ^ 63)) (min (2 ^ 63 - 1) n)"

definition wrap_i64 :: "int \<Rightarrow> int" where
  "wrap_i64 n = (n + 2 ^ 63) mod 2 ^ 64 - 2 ^ 63"

lemma sat_i64_fits [simp]: "fits_i64 n \<Longrightarrow> sat_i64 n = n" "fits_i64 (sat_i64 n)"
  by (auto simp: sat_i64_def fits_i64_def)

lemma wrap_i64_fits [simp]: "fits_i64 n \<Longrightarrow> wrap_i64 n = n"
  by (auto simp: wrap_i64_def fits_i64_def)

section \<open>JSON values\<close>

text \<open>
  \<open>serde_json::Value\<close>, as the gateway inspects it: \<open>is_null\<close>, \<open>as_str\<close>, \<open>as_object\<close>, \<open>get\<close> and the
  object's \<open>insert\<close>.  A number is kept as its lexeme.  An object keeps one value for each key.
\<close>

datatype json =
    JNull
  | JBool bool
  | JNum string
  | JStr string
  | JArr "json list"
  | JObj "(string \<times> json) list"

definition is_null :: "json \<Rightarrow> bool" where
  "is_null v = (v = JNull)"

fun as_str :: "json \<Rightarrow> string option" where
  "as_str (JStr s) = Some s"
| "as_str _ = None"

fun as_object :: "json \<Rightarrow> (string \<times> json) list option" where
  "as_object (JObj o') = Some o'"
| "as_object _ = None"

definition json_get :: "json \<Rightarrow> string \<Rightarrow> json option" where
  "json_get v k = (case as_object v of None \<Rightarrow> None | Some o' \<Rightarrow> map_of o' k)"

end
