(* ===== verification/Kv_Api.thy ===== *)
theory Kv_Api
  imports Mcpg_Prelude
begin

text \<open>
  The key-value store interface of the cluster API (\<open>mcpg_cluster_api::KeyValueStore\<close>), through
  which every store of the gateway keeps its state.

  The trait is declared outside the repository, so a store is a parameter of the model: the record
  \<open>kv_ops\<close> of its operations, the way the code holds an \<open>Arc<dyn KeyValueStore>\<close>.  What the stores
  rely on is the locale \<open>kv_store\<close>, stated over the rows a store shows: each key has a payload and
  possibly a deadline on the monotonic clock.  The locale is interpreted on the in-process
  implementation in \<open>Memory_Kv\<close>.  Payloads are opaque bytes to a store, so their type is a
  parameter; the serialisers that produce and read them are outside the repository too.

  An operation takes the reading of the clocks at the time of the call and the store's state, and
  returns its result and the new state.  \<open>ClusterError\<close> is only ever rendered, so it is its text.
\<close>

type_synonym cluster_error = string

record 'v kv_entry =
  ent_bytes :: 'v
  ent_expires_at :: "nat option"

record 'v kv_page =
  page_entries :: "(string \<times> 'v kv_entry) list"
  page_next :: "string option"

type_synonym ('s, 'a) kv_result = "(cluster_error + 'a) \<times> 's"

record ('s, 'v) kv_ops =
  kv_get :: "string \<Rightarrow> clock \<Rightarrow> 's \<Rightarrow> ('s, 'v kv_entry option) kv_result"
  kv_put :: "string \<Rightarrow> 'v \<Rightarrow> duration option \<Rightarrow> clock \<Rightarrow> 's \<Rightarrow> ('s, unit) kv_result"
  kv_put_if_absent :: "string \<Rightarrow> 'v \<Rightarrow> duration option \<Rightarrow> clock \<Rightarrow> 's \<Rightarrow> ('s, bool) kv_result"
  kv_delete :: "string \<Rightarrow> clock \<Rightarrow> 's \<Rightarrow> ('s, bool) kv_result"
  kv_list_page :: "string \<Rightarrow> string option \<Rightarrow> nat \<Rightarrow> clock \<Rightarrow> 's \<Rightarrow> ('s, 'v kv_page) kv_result"
  kv_list_prefix :: "string \<Rightarrow> nat \<Rightarrow> clock \<Rightarrow> 's \<Rightarrow> ('s, (string \<times> 'v kv_entry) list) kv_result"
  kv_expire :: "string \<Rightarrow> duration option \<Rightarrow> clock \<Rightarrow> 's \<Rightarrow> ('s, bool) kv_result"
  kv_incr :: "string \<Rightarrow> int \<Rightarrow> duration option \<Rightarrow> clock \<Rightarrow> 's \<Rightarrow> ('s, int) kv_result"
  kv_incr_floor :: "string \<Rightarrow> int \<Rightarrow> int \<Rightarrow> duration option \<Rightarrow> clock \<Rightarrow> 's \<Rightarrow> ('s, int) kv_result"

section \<open>Rows and their deadlines\<close>

type_synonym 'v rows = "string \<rightharpoonup> 'v \<times> nat option"

definition expired_by :: "nat option \<Rightarrow> nat \<Rightarrow> bool" where
  "expired_by d now = (case d of None \<Rightarrow> False | Some t \<Rightarrow> t \<le> now)"

definition live_at :: "'v rows \<Rightarrow> nat \<Rightarrow> 'v rows" where
  "live_at m now k =
     (case m k of None \<Rightarrow> None | Some (v, d) \<Rightarrow> if expired_by d now then None else Some (v, d))"

definition deadline :: "duration option \<Rightarrow> clock \<Rightarrow> nat option" where
  "deadline ttl c = map_option (\<lambda>d. clk_inst c + d) ttl"

text \<open>Two row maps no reader can tell apart from \<open>now\<close> on.\<close>

definition same_from :: "nat \<Rightarrow> 'v rows \<Rightarrow> 'v rows \<Rightarrow> bool" where
  "same_from now m m' \<longleftrightarrow> (\<forall>t \<ge> now. live_at m t = live_at m' t)"

lemma expired_by_mono: "expired_by d t \<Longrightarrow> t \<le> t' \<Longrightarrow> expired_by d t'"
  by (auto simp: expired_by_def split: option.splits)

lemma expired_by_None [simp]: "\<not> expired_by None t"
  by (simp add: expired_by_def)

lemma expired_by_Some [simp]: "expired_by (Some d) t \<longleftrightarrow> d \<le> t"
  by (simp add: expired_by_def)

lemma deadline_simps [simp]:
  "deadline None c = None" "deadline (Some d) c = Some (clk_inst c + d)"
  by (simp_all add: deadline_def)

lemma live_at_Some_iff:
  "live_at m t k = Some (v, d) \<longleftrightarrow> m k = Some (v, d) \<and> \<not> expired_by d t"
  by (auto simp: live_at_def split: option.splits)

lemma live_at_antimono: "live_at m t k = None \<Longrightarrow> t \<le> t' \<Longrightarrow> live_at m t' k = None"
  by (auto simp: live_at_def expired_by_mono split: option.splits if_splits)

lemma live_at_upd_same:
  "live_at (m(k \<mapsto> (v, d))) t k = (if expired_by d t then None else Some (v, d))"
  by (simp add: live_at_def)

lemma live_at_upd_other [simp]: "k' \<noteq> k \<Longrightarrow> live_at (m(k := x)) t k' = live_at m t k'"
  by (simp add: live_at_def)

lemma live_at_delete [simp]: "live_at (m(k := None)) t k = None"
  by (simp add: live_at_def)

lemma same_from_refl [simp]: "same_from t m m"
  by (simp add: same_from_def)

lemma same_from_sym: "same_from t m m' \<Longrightarrow> same_from t m' m"
  by (simp add: same_from_def)

lemma same_from_trans: "same_from t m m' \<Longrightarrow> same_from t' m' m'' \<Longrightarrow> t' \<le> t \<Longrightarrow> same_from t m m''"
  by (simp add: same_from_def)

lemma same_from_later: "same_from t m m' \<Longrightarrow> t \<le> t' \<Longrightarrow> same_from t' m m'"
  by (simp add: same_from_def)

lemma same_from_live: "same_from t m m' \<Longrightarrow> t \<le> t' \<Longrightarrow> live_at m t' = live_at m' t'"
  by (simp add: same_from_def)

lemma same_from_upd: "same_from t m m' \<Longrightarrow> same_from t (m(k := x)) (m'(k := x))"
  by (auto simp: same_from_def live_at_def fun_eq_iff)

lemma same_from_remove_expired:
  "live_at m t k = None \<Longrightarrow> same_from t (m(k := None)) m"
  by (auto simp: same_from_def fun_eq_iff live_at_def dest: expired_by_mono
      split: option.splits if_splits)

section \<open>The contract of a store\<close>

locale kv_store =
  fixes kv :: "('s, 'v) kv_ops"
    and view :: "'s \<Rightarrow> 'v rows"
    and ok :: "'s \<Rightarrow> bool"
  assumes get_law: "ok s \<Longrightarrow> \<exists>r s'. kv_get kv k c s = (Inr r, s') \<and> ok s'
      \<and> map_option ent_bytes r = map_option fst (live_at (view s) (clk_inst c) k)
      \<and> same_from (clk_inst c) (view s') (view s)"
    and put_law: "ok s \<Longrightarrow> \<exists>s'. kv_put kv k v ttl c s = (Inr (), s') \<and> ok s'
      \<and> same_from (clk_inst c) (view s') ((view s)(k \<mapsto> (v, deadline ttl c)))"
    and put_if_absent_law: "ok s \<Longrightarrow>
      \<exists>s'. kv_put_if_absent kv k v ttl c s = (Inr (live_at (view s) (clk_inst c) k = None), s') \<and> ok s'
      \<and> same_from (clk_inst c) (view s')
          (if live_at (view s) (clk_inst c) k = None then (view s)(k \<mapsto> (v, deadline ttl c)) else view s)"
    and delete_law: "ok s \<Longrightarrow> \<exists>b s'. kv_delete kv k c s = (Inr b, s') \<and> ok s'
      \<and> (live_at (view s) (clk_inst c) k \<noteq> None \<longrightarrow> b)
      \<and> same_from (clk_inst c) (view s') ((view s)(k := None))"
    and expire_law: "ok s \<Longrightarrow>
      \<exists>s'. kv_expire kv k ttl c s = (Inr (live_at (view s) (clk_inst c) k \<noteq> None), s') \<and> ok s'
      \<and> same_from (clk_inst c) (view s')
          (case live_at (view s) (clk_inst c) k of None \<Rightarrow> view s
           | Some (v, _) \<Rightarrow> (view s)(k \<mapsto> (v, deadline ttl c)))"
    and list_prefix_law: "ok s \<Longrightarrow> \<exists>xs s'. kv_list_prefix kv p n c s = (Inr xs, s') \<and> ok s'
      \<and> distinct (map fst xs) \<and> length xs \<le> n
      \<and> (\<forall>(k, e) \<in> set xs. prefix p k \<and> (\<exists>d. live_at (view s) (clk_inst c) k = Some (ent_bytes e, d)))
      \<and> (length xs < n \<longrightarrow> {k. prefix p k \<and> live_at (view s) (clk_inst c) k \<noteq> None} \<subseteq> fst ` set xs)
      \<and> same_from (clk_inst c) (view s') (view s)"

context kv_store
begin

lemma get_cases:
  assumes "ok s"
  obtains (gone) s' where "kv_get kv k c s = (Inr None, s')" "ok s'"
      "live_at (view s) (clk_inst c) k = None" "same_from (clk_inst c) (view s') (view s)"
  | (row) e d s' where "kv_get kv k c s = (Inr (Some e), s')" "ok s'"
      "live_at (view s) (clk_inst c) k = Some (ent_bytes e, d)" "same_from (clk_inst c) (view s') (view s)"
proof -
  from get_law [OF assms, of k c] obtain r s' where g: "kv_get kv k c s = (Inr r, s')" "ok s'"
      "map_option ent_bytes r = map_option fst (live_at (view s) (clk_inst c) k)"
      "same_from (clk_inst c) (view s') (view s)"
    by blast
  show thesis
  proof (cases r)
    case None
    with g show thesis by (intro gone) auto
  next
    case (Some e)
    with g(3) obtain d where "live_at (view s) (clk_inst c) k = Some (ent_bytes e, d)"
      by (cases "live_at (view s) (clk_inst c) k") auto
    with g Some show thesis by (intro row) auto
  qed
qed

end

text \<open>
  The crate's \<open>list_all\<close> helper pages through a store with \<open>list_page\<close>; the stores rely on it to
  return every live row under a prefix, each once.
\<close>

locale kv_listing = kv_store +
  fixes list_all_rows :: "('s, 'v) kv_ops \<Rightarrow> string \<Rightarrow> clock \<Rightarrow> 's \<Rightarrow> ('s, (string \<times> 'v kv_entry) list) kv_result"
  assumes list_all_law: "ok s \<Longrightarrow> \<exists>xs s'. list_all_rows kv p c s = (Inr xs, s') \<and> ok s'
      \<and> distinct (map fst xs)
      \<and> (\<forall>(k, e) \<in> set xs. prefix p k \<and> (\<exists>d. live_at (view s) (clk_inst c) k = Some (ent_bytes e, d)))
      \<and> {k. prefix p k \<and> live_at (view s) (clk_inst c) k \<noteq> None} \<subseteq> fst ` set xs
      \<and> same_from (clk_inst c) (view s') (view s)"

text \<open>
  Counters: the value of a row that decodes as one, zero when there is no live row.  An increment is one
  atomic step, answers the new value and sets the deadline it is given.  \<open>incr_floor\<close> first raises the
  counter to a floor.
\<close>

definition row_count :: "('v \<Rightarrow> cluster_error + int) \<Rightarrow> 'v rows \<Rightarrow> nat \<Rightarrow> string \<Rightarrow> cluster_error + int" where
  "row_count count m t k = (case live_at m t k of None \<Rightarrow> Inr 0 | Some (v, _) \<Rightarrow> count v)"

lemma row_count_free [simp]: "live_at m t k = None \<Longrightarrow> row_count count m t k = Inr 0"
  by (simp add: row_count_def)

lemma row_count_same_from:
  "same_from t m m' \<Longrightarrow> t \<le> t' \<Longrightarrow> row_count count m t' k = row_count count m' t' k"
  by (simp add: row_count_def same_from_live)

lemma row_count_written:
  "count b = Inr n \<Longrightarrow> row_count count (m(k \<mapsto> (b, Some d))) t k = (if t < d then Inr n else Inr 0)"
  by (simp add: row_count_def live_at_upd_same)

lemma row_count_other: "k' \<noteq> k \<Longrightarrow> row_count count (m(k := y)) t k' = row_count count m t k'"
  by (simp add: row_count_def)

locale kv_counters = kv_store kv view ok for kv :: "('s, 'v) kv_ops" and view ok +
  fixes count :: "'v \<Rightarrow> cluster_error + int"
  assumes incr_law: "ok s \<Longrightarrow> row_count count (view s) (clk_inst c) k = Inr n \<Longrightarrow> fits_i64 (n + d) \<Longrightarrow>
      \<exists>b s'. kv_incr kv k d (Some ttl) c s = (Inr (n + d), s') \<and> ok s' \<and> count b = Inr (n + d)
        \<and> same_from (clk_inst c) (view s') ((view s)(k \<mapsto> (b, Some (clk_inst c + ttl))))"
    and incr_floor_law: "ok s \<Longrightarrow> row_count count (view s) (clk_inst c) k = Inr n \<Longrightarrow> fits_i64 (max n fl + d) \<Longrightarrow>
      \<exists>b s'. kv_incr_floor kv k d fl (Some ttl) c s = (Inr (max n fl + d), s') \<and> ok s' \<and> count b = Inr (max n fl + d)
        \<and> same_from (clk_inst c) (view s') ((view s)(k \<mapsto> (b, Some (clk_inst c + ttl))))"

context kv_counters
begin

text \<open>What an increment does to the counts that are read from then on.\<close>

lemma incr_counts:
  assumes "ok s" "row_count count (view s) (clk_inst c) k = Inr n" "fits_i64 (n + d)"
  obtains s' where "kv_incr kv k d (Some ttl) c s = (Inr (n + d), s')" "ok s'"
    "\<And>t. clk_inst c \<le> t \<Longrightarrow> row_count count (view s') t k = (if t < clk_inst c + ttl then Inr (n + d) else Inr 0)"
    "\<And>t k'. clk_inst c \<le> t \<Longrightarrow> k' \<noteq> k \<Longrightarrow> live_at (view s') t k' = live_at (view s) t k'"
proof -
  from incr_law [OF assms, of ttl] obtain b s' where st: "kv_incr kv k d (Some ttl) c s = (Inr (n + d), s')" "ok s'"
    "count b = Inr (n + d)" "same_from (clk_inst c) (view s') ((view s)(k \<mapsto> (b, Some (clk_inst c + ttl))))" by blast
  show thesis
  proof (rule that [OF st(1,2)])
    show "row_count count (view s') t k = (if t < clk_inst c + ttl then Inr (n + d) else Inr 0)" if "clk_inst c \<le> t" for t
      using row_count_same_from [OF st(4) that] row_count_written [where count = count, OF st(3)] by simp
    show "live_at (view s') t k' = live_at (view s) t k'" if "clk_inst c \<le> t" "k' \<noteq> k" for t k'
      using same_from_live [OF st(4) that(1)] that(2) by simp
  qed
qed

lemma incr_floor_counts:
  assumes "ok s" "row_count count (view s) (clk_inst c) k = Inr n" "fits_i64 (max n fl + d)"
  obtains s' where "kv_incr_floor kv k d fl (Some ttl) c s = (Inr (max n fl + d), s')" "ok s'"
    "\<And>t. clk_inst c \<le> t \<Longrightarrow> row_count count (view s') t k = (if t < clk_inst c + ttl then Inr (max n fl + d) else Inr 0)"
proof -
  from incr_floor_law [OF assms, of ttl] obtain b s' where st:
    "kv_incr_floor kv k d fl (Some ttl) c s = (Inr (max n fl + d), s')" "ok s'"
    "count b = Inr (max n fl + d)" "same_from (clk_inst c) (view s') ((view s)(k \<mapsto> (b, Some (clk_inst c + ttl))))" by blast
  show thesis
  proof (rule that [OF st(1,2)])
    show "row_count count (view s') t k = (if t < clk_inst c + ttl then Inr (max n fl + d) else Inr 0)" if "clk_inst c \<le> t" for t
      using row_count_same_from [OF st(4) that] row_count_written [where count = count, OF st(3)] by simp
  qed
qed

end

end
