(* ===== verification/Memory_Kv.thy ===== *)
theory Memory_Kv
  imports Kv_Api
begin

text \<open>
  The in-process primitives of \<open>src/builtins/cluster_primitives/memory.rs\<close>: the key-value store
  \<open>MemoryKv\<close> and the topic matching of \<open>MemoryBus\<close>.

  The sharded map is an association list with one row for each key; its order stands for the map's
  iteration order, on which no lemma depends.  The main result is the interpretation of the store
  contract on \<open>memory_kv\<close>, on which the capability stores rest.
\<close>

section \<open>State\<close>

record 'v stored_entry =
  se_bytes :: 'v
  se_expires_system :: "nat option"
  se_expires_instant :: "nat option"

type_synonym 'v memory = "(string \<times> 'v stored_entry) list"

text \<open>The helpers of the cluster API crate the store calls.\<close>

record 'v cluster_lib =
  cl_parse_counter :: "'v \<Rightarrow> cluster_error + int"
  cl_counter_bytes :: "int \<Rightarrow> 'v"
  cl_counter_overflow :: cluster_error
  cl_floor_add :: "int \<Rightarrow> int \<Rightarrow> int \<Rightarrow> cluster_error + int"
  cl_from_unordered :: "(string \<times> 'v kv_entry) list \<Rightarrow> string \<Rightarrow> string option \<Rightarrow> nat \<Rightarrow> 'v kv_page"

text \<open>A concrete instance without counters, for concrete runs.\<close>

definition plain_lib :: "'v \<Rightarrow> 'v cluster_lib" where
  "plain_lib v = \<lparr>cl_parse_counter = (\<lambda>_. Inl ''not a counter''), cl_counter_bytes = (\<lambda>n. v),
     cl_counter_overflow = ''overflow'', cl_floor_add = (\<lambda>a f d. Inr (max f (a + d))),
     cl_from_unordered = (\<lambda>xs p cu n. \<lparr>page_entries = take n xs, page_next = None\<rparr>)\<rparr>"

definition is_expired :: "'v stored_entry \<Rightarrow> nat \<Rightarrow> bool" where
  "is_expired e now = (case se_expires_instant e of None \<Rightarrow> False | Some d \<Rightarrow> d \<le> now)"

definition compute_deadline :: "duration option \<Rightarrow> clock \<Rightarrow> nat option \<times> nat option" where
  "compute_deadline ttl c =
     (case ttl of Some d \<Rightarrow> (Some (clk_utc c + d), Some (clk_inst c + d)) | None \<Rightarrow> (None, None))"

definition stored :: "'v \<Rightarrow> nat option \<times> nat option \<Rightarrow> 'v stored_entry" where
  "stored v d = \<lparr>se_bytes = v, se_expires_system = fst d, se_expires_instant = snd d\<rparr>"

definition entry_of :: "'v stored_entry \<Rightarrow> 'v kv_entry" where
  "entry_of e = \<lparr>ent_bytes = se_bytes e, ent_expires_at = se_expires_system e\<rparr>"

section \<open>Operations\<close>

definition live_entries ::
    "'v memory \<Rightarrow> string \<Rightarrow> string option \<Rightarrow> nat \<Rightarrow> clock \<Rightarrow> (string \<times> 'v kv_entry) list" where
  "live_entries m p cursor limit c =
     map (\<lambda>(k, e). (k, entry_of e))
       (take limit
         (filter (\<lambda>(k, e). prefix p k \<and> (case cursor of None \<Rightarrow> True | Some cu \<Rightarrow> cu < k)
                    \<and> \<not> is_expired e (clk_inst c)) m))"

text \<open>One tick of the background sweeper.\<close>

definition memory_sweep :: "clock \<Rightarrow> 'v memory \<Rightarrow> 'v memory" where
  "memory_sweep c m = filter (\<lambda>(_, e). \<not> is_expired e (clk_inst c)) m"

text \<open>
  \<open>get\<close> reads under the shard lock, releases it, and removes the row in a second step when it found
  it expired: \<open>memory_probe\<close> is the first step and says whether the second one, \<open>memory_evict\<close>, follows.
\<close>

definition memory_probe :: "string \<Rightarrow> clock \<Rightarrow> 'v memory \<Rightarrow> 'v kv_entry option \<times> bool" where
  "memory_probe k c m =
     (case map_of m k of
        Some e \<Rightarrow> if is_expired e (clk_inst c) then (None, True) else (Some (entry_of e), False)
      | None \<Rightarrow> (None, False))"

definition memory_evict :: "string \<Rightarrow> 'v memory \<Rightarrow> 'v memory" where
  "memory_evict k m = AList.delete k m"

definition memory_get :: "string \<Rightarrow> clock \<Rightarrow> 'v memory \<Rightarrow> ('v memory, 'v kv_entry option) kv_result" where
  "memory_get k c m =
     (case memory_probe k c m of
        (r, evict) \<Rightarrow> (Inr r, if evict then memory_evict k m else m))"

definition memory_put ::
    "string \<Rightarrow> 'v \<Rightarrow> duration option \<Rightarrow> clock \<Rightarrow> 'v memory \<Rightarrow> ('v memory, unit) kv_result" where
  "memory_put k v ttl c m = (Inr (), AList.update k (stored v (compute_deadline ttl c)) m)"

definition memory_put_if_absent ::
    "string \<Rightarrow> 'v \<Rightarrow> duration option \<Rightarrow> clock \<Rightarrow> 'v memory \<Rightarrow> ('v memory, bool) kv_result" where
  "memory_put_if_absent k v ttl c m =
     (let new = stored v (compute_deadline ttl c) in
      case map_of m k of
        Some e \<Rightarrow> if is_expired e (clk_inst c) then (Inr True, AList.update k new m) else (Inr False, m)
      | None \<Rightarrow> (Inr True, AList.update k new m))"

definition memory_delete :: "string \<Rightarrow> clock \<Rightarrow> 'v memory \<Rightarrow> ('v memory, bool) kv_result" where
  "memory_delete k c m = (Inr (map_of m k \<noteq> None), AList.delete k m)"

definition memory_list_page ::
    "'v cluster_lib \<Rightarrow> string \<Rightarrow> string option \<Rightarrow> nat \<Rightarrow> clock \<Rightarrow> 'v memory \<Rightarrow> ('v memory, 'v kv_page) kv_result"
where
  "memory_list_page lib p cursor limit c m =
     (Inr (cl_from_unordered lib (live_entries m p cursor (2 ^ 64 - 1) c) p cursor limit), m)"

definition memory_list_prefix ::
    "string \<Rightarrow> nat \<Rightarrow> clock \<Rightarrow> 'v memory \<Rightarrow> ('v memory, (string \<times> 'v kv_entry) list) kv_result" where
  "memory_list_prefix p limit c m = (Inr (live_entries m p None limit c), m)"

definition memory_expire ::
    "string \<Rightarrow> duration option \<Rightarrow> clock \<Rightarrow> 'v memory \<Rightarrow> ('v memory, bool) kv_result" where
  "memory_expire k ttl c m =
     (case map_of m k of
        Some e \<Rightarrow>
          if is_expired e (clk_inst c) then (Inr False, m)
          else (Inr True, AList.update k (stored (se_bytes e) (compute_deadline ttl c)) m)
      | None \<Rightarrow> (Inr False, m))"

definition checked_add_i64 :: "int \<Rightarrow> int \<Rightarrow> int option" where
  "checked_add_i64 a b = (if - (2 ^ 63) \<le> a + b \<and> a + b < 2 ^ 63 then Some (a + b) else None)"

definition update_counter ::
    "'v cluster_lib \<Rightarrow> string \<Rightarrow> duration option \<Rightarrow> (int \<Rightarrow> cluster_error + int) \<Rightarrow> clock \<Rightarrow>
     'v memory \<Rightarrow> ('v memory, int) kv_result" where
  "update_counter lib k ttl step c m =
     (case map_of m k of
        Some e \<Rightarrow>
          (let live = \<not> is_expired e (clk_inst c) in
           case (if live then cl_parse_counter lib (se_bytes e) else Inr 0) of
             Inl err \<Rightarrow> (Inl err, m)
           | Inr current \<Rightarrow>
               (case step current of
                  Inl err \<Rightarrow> (Inl err, m)
                | Inr nxt \<Rightarrow>
                    (Inr nxt,
                     AList.update k
                       (stored (cl_counter_bytes lib nxt)
                          (if ttl \<noteq> None then compute_deadline ttl c
                           else if live then (se_expires_system e, se_expires_instant e)
                           else (None, None))) m)))
      | None \<Rightarrow>
          (case step 0 of
             Inl err \<Rightarrow> (Inl err, m)
           | Inr nxt \<Rightarrow>
               (Inr nxt,
                AList.update k (stored (cl_counter_bytes lib nxt) (compute_deadline ttl c)) m)))"

definition memory_incr ::
    "'v cluster_lib \<Rightarrow> string \<Rightarrow> int \<Rightarrow> duration option \<Rightarrow> clock \<Rightarrow> 'v memory \<Rightarrow> ('v memory, int) kv_result"
where
  "memory_incr lib k delta ttl =
     update_counter lib k ttl
       (\<lambda>current. case checked_add_i64 current delta of
                    Some n \<Rightarrow> Inr n | None \<Rightarrow> Inl (cl_counter_overflow lib))"

definition memory_incr_floor ::
    "'v cluster_lib \<Rightarrow> string \<Rightarrow> int \<Rightarrow> int \<Rightarrow> duration option \<Rightarrow> clock \<Rightarrow> 'v memory \<Rightarrow>
     ('v memory, int) kv_result" where
  "memory_incr_floor lib k delta floor ttl =
     update_counter lib k ttl (\<lambda>current. cl_floor_add lib current floor delta)"

text \<open>The \<open>impl KeyValueStore for MemoryKv\<close>.\<close>

definition memory_kv :: "'v cluster_lib \<Rightarrow> ('v memory, 'v) kv_ops" where
  "memory_kv lib = \<lparr>kv_get = memory_get, kv_put = memory_put,
     kv_put_if_absent = memory_put_if_absent, kv_delete = memory_delete,
     kv_list_page = memory_list_page lib, kv_list_prefix = memory_list_prefix,
     kv_expire = memory_expire, kv_incr = memory_incr lib, kv_incr_floor = memory_incr_floor lib\<rparr>"

section \<open>The rows a memory shows\<close>

definition memory_view :: "'v memory \<Rightarrow> 'v rows" where
  "memory_view m k = map_option (\<lambda>e. (se_bytes e, se_expires_instant e)) (map_of m k)"

definition memory_ok :: "'v memory \<Rightarrow> bool" where
  "memory_ok m \<longleftrightarrow> distinct (map fst m)"

lemma is_expired_expired_by: "is_expired e now = expired_by (se_expires_instant e) now"
  by (simp add: is_expired_def expired_by_def)

lemma stored_simps [simp]:
  "se_bytes (stored v d) = v" "se_expires_instant (stored v d) = snd d"
  "se_expires_system (stored v d) = fst d"
  by (simp_all add: stored_def)

lemma entry_of_simps [simp]:
  "ent_bytes (entry_of e) = se_bytes e" "ent_expires_at (entry_of e) = se_expires_system e"
  by (simp_all add: entry_of_def)

lemma snd_compute_deadline [simp]: "snd (compute_deadline ttl c) = deadline ttl c"
  by (simp add: compute_deadline_def deadline_def split: option.splits)

lemma memory_view_update:
  "memory_view (AList.update k e m) = (memory_view m)(k \<mapsto> (se_bytes e, se_expires_instant e))"
  by (simp add: memory_view_def fun_eq_iff update_conv')

lemma memory_view_delete: "memory_view (AList.delete k m) = (memory_view m)(k := None)"
  by (simp add: memory_view_def fun_eq_iff delete_conv')

lemma memory_ok_update [simp]: "memory_ok m \<Longrightarrow> memory_ok (AList.update k e m)"
  by (simp add: memory_ok_def distinct_update)

lemma memory_ok_delete [simp]: "memory_ok m \<Longrightarrow> memory_ok (AList.delete k m)"
  by (simp add: memory_ok_def distinct_delete)

lemma memory_ok_Nil [simp]: "memory_ok []"
  by (simp add: memory_ok_def)

lemma live_memory_view:
  "live_at (memory_view m) t k =
     (case map_of m k of None \<Rightarrow> None
      | Some e \<Rightarrow> if is_expired e t then None else Some (se_bytes e, se_expires_instant e))"
  by (simp add: live_at_def memory_view_def is_expired_expired_by split: option.splits)

lemma memory_sweep_invisible:
  assumes "memory_ok m"
  shows "same_from (clk_inst c) (memory_view (memory_sweep c m)) (memory_view m) \<and> memory_ok (memory_sweep c m)"
proof -
  have dist: "distinct (map fst m)" using assms by (simp add: memory_ok_def)
  have row: "map_of (memory_sweep c m) k =
      (case map_of m k of None \<Rightarrow> None | Some e \<Rightarrow> if is_expired e (clk_inst c) then None else Some e)" for k
    using dist
    by (induction m) (auto simp: memory_sweep_def map_of_eq_None_iff image_iff split: option.splits)
  have "same_from (clk_inst c) (memory_view (memory_sweep c m)) (memory_view m)"
    by (auto simp: same_from_def fun_eq_iff live_memory_view row is_expired_expired_by
        dest: expired_by_mono split: option.splits)
  moreover have "memory_ok (memory_sweep c m)"
    using dist by (simp add: memory_ok_def memory_sweep_def distinct_map_filter)
  ultimately show ?thesis by blast
qed

section \<open>Listing\<close>

lemma live_entries_mem:
  assumes "memory_ok m" and "(k, e) \<in> set (live_entries m p cu n c)"
  shows "prefix p k \<and> (\<exists>d. live_at (memory_view m) (clk_inst c) k = Some (ent_bytes e, d))"
proof -
  from assms(2) obtain e' where e': "(k, e') \<in> set m" "prefix p k" "\<not> is_expired e' (clk_inst c)"
      "e = entry_of e'"
    by (auto simp: live_entries_def dest!: in_set_takeD)
  with assms(1) have "map_of m k = Some e'" by (simp add: memory_ok_def)
  with e' show ?thesis by (simp add: live_memory_view)
qed

lemma live_entries_distinct: "memory_ok m \<Longrightarrow> distinct (map fst (live_entries m p cu n c))"
proof -
  assume "memory_ok m"
  then have "distinct (map fst (filter P m))" for P
    by (simp add: memory_ok_def distinct_map_filter)
  then have "distinct (map fst (take n (filter P m)))" for P
    by (metis distinct_take take_map)
  then show ?thesis
    by (simp add: live_entries_def comp_def case_prod_beta)
qed

lemma live_entries_all:
  assumes "length (live_entries m p None n c) < n"
    and "prefix p k" and "live_at (memory_view m) (clk_inst c) k \<noteq> None"
  shows "k \<in> fst ` set (live_entries m p None n c)"
proof -
  let ?P = "\<lambda>(k, e). prefix p k \<and> True \<and> \<not> is_expired e (clk_inst c)"
  from assms(3) obtain e where e: "map_of m k = Some e" "\<not> is_expired e (clk_inst c)"
    by (auto simp: live_memory_view split: option.splits if_splits)
  then have "(k, e) \<in> set (filter ?P m)"
    using assms(2) by (auto dest: map_of_SomeD)
  moreover have "take n (filter ?P m) = filter ?P m"
    using assms(1) by (simp add: live_entries_def)
  ultimately show ?thesis
    by (force simp: live_entries_def)
qed

section \<open>The store contract holds for the in-process store\<close>

lemmas memory_op_defs = memory_kv_def memory_get_def memory_probe_def memory_evict_def memory_put_def
  memory_put_if_absent_def memory_delete_def memory_expire_def memory_list_prefix_def

lemma memory_get_law:
  assumes "memory_ok m"
  shows "\<exists>r m'. memory_get k c m = (Inr r, m') \<and> memory_ok m'
      \<and> map_option ent_bytes r = map_option fst (live_at (memory_view m) (clk_inst c) k)
      \<and> same_from (clk_inst c) (memory_view m') (memory_view m)"
proof (cases "map_of m k")
  case None
  with assms show ?thesis by (simp add: memory_get_def memory_probe_def live_memory_view)
next
  case (Some e)
  show ?thesis
  proof (cases "is_expired e (clk_inst c)")
    case True
    with Some have "live_at (memory_view m) (clk_inst c) k = None"
      by (simp add: live_memory_view)
    with True Some assms show ?thesis
      by (simp add: memory_get_def memory_probe_def memory_evict_def memory_view_delete same_from_remove_expired)
  next
    case False
    with Some assms show ?thesis
      by (simp add: memory_get_def memory_probe_def live_memory_view)
  qed
qed

interpretation mem: kv_store "memory_kv lib" memory_view memory_ok for lib
proof unfold_locales
  fix s k c assume "memory_ok (s :: 'a memory)"
  then show "\<exists>r s'. kv_get (memory_kv lib) k c s = (Inr r, s') \<and> memory_ok s'
      \<and> map_option ent_bytes r = map_option fst (live_at (memory_view s) (clk_inst c) k)
      \<and> same_from (clk_inst c) (memory_view s') (memory_view s)"
    using memory_get_law [of s k c] by (simp add: memory_kv_def)
next
  fix s k v ttl c assume "memory_ok (s :: 'a memory)"
  then show "\<exists>s'. kv_put (memory_kv lib) k v ttl c s = (Inr (), s') \<and> memory_ok s'
      \<and> same_from (clk_inst c) (memory_view s') ((memory_view s)(k \<mapsto> (v, deadline ttl c)))"
    by (simp add: memory_op_defs memory_view_update)
next
  fix s k v ttl c assume "memory_ok (s :: 'a memory)"
  then show "\<exists>s'. kv_put_if_absent (memory_kv lib) k v ttl c s
        = (Inr (live_at (memory_view s) (clk_inst c) k = None), s') \<and> memory_ok s'
      \<and> same_from (clk_inst c) (memory_view s')
          (if live_at (memory_view s) (clk_inst c) k = None
           then (memory_view s)(k \<mapsto> (v, deadline ttl c)) else memory_view s)"
    by (auto simp: memory_op_defs Let_def live_memory_view memory_view_update split: option.splits)
next
  fix s k c assume "memory_ok (s :: 'a memory)"
  then show "\<exists>b s'. kv_delete (memory_kv lib) k c s = (Inr b, s') \<and> memory_ok s'
      \<and> (live_at (memory_view s) (clk_inst c) k \<noteq> None \<longrightarrow> b)
      \<and> same_from (clk_inst c) (memory_view s') ((memory_view s)(k := None))"
    by (auto simp: memory_op_defs live_memory_view memory_view_delete split: option.splits)
next
  fix s k ttl c assume "memory_ok (s :: 'a memory)"
  then show "\<exists>s'. kv_expire (memory_kv lib) k ttl c s
        = (Inr (live_at (memory_view s) (clk_inst c) k \<noteq> None), s') \<and> memory_ok s'
      \<and> same_from (clk_inst c) (memory_view s')
          (case live_at (memory_view s) (clk_inst c) k of None \<Rightarrow> memory_view s
           | Some (v, _) \<Rightarrow> (memory_view s)(k \<mapsto> (v, deadline ttl c)))"
    by (auto simp: memory_op_defs live_memory_view memory_view_update split: option.splits)
next
  fix s p n c assume ok: "memory_ok (s :: 'a memory)"
  let ?xs = "live_entries s p None n c"
  have "length ?xs \<le> n" by (simp add: live_entries_def)
  moreover have "{k. prefix p k \<and> live_at (memory_view s) (clk_inst c) k \<noteq> None} \<subseteq> fst ` set ?xs"
    if "length ?xs < n"
    using live_entries_all [OF that] by blast
  moreover have "\<forall>(k, e) \<in> set ?xs. prefix p k
      \<and> (\<exists>d. live_at (memory_view s) (clk_inst c) k = Some (ent_bytes e, d))"
    using live_entries_mem [OF ok, of _ _ p None n c] by fast
  ultimately show "\<exists>xs s'. kv_list_prefix (memory_kv lib) p n c s = (Inr xs, s') \<and> memory_ok s'
      \<and> distinct (map fst xs) \<and> length xs \<le> n
      \<and> (\<forall>(k, e) \<in> set xs. prefix p k \<and> (\<exists>d. live_at (memory_view s) (clk_inst c) k = Some (ent_bytes e, d)))
      \<and> (length xs < n \<longrightarrow> {k. prefix p k \<and> live_at (memory_view s) (clk_inst c) k \<noteq> None} \<subseteq> fst ` set xs)
      \<and> same_from (clk_inst c) (memory_view s') (memory_view s)"
    using ok live_entries_distinct [OF ok, of p None n c]
    by (simp add: memory_op_defs)
qed

text \<open>Listing every live row under a prefix of the in-process store.\<close>

definition memory_list_all ::
    "('v memory, 'v) kv_ops \<Rightarrow> string \<Rightarrow> clock \<Rightarrow> 'v memory \<Rightarrow> ('v memory, (string \<times> 'v kv_entry) list) kv_result"
where
  "memory_list_all kv p c m = kv_list_prefix kv p (Suc (length m)) c m"

lemma live_entries_length: "length (live_entries m p cu n c) \<le> length m"
  by (simp add: live_entries_def min.coboundedI1)

interpretation mem_all: kv_listing "memory_kv lib" memory_view memory_ok memory_list_all for lib
proof unfold_locales
  fix s p c assume ok: "memory_ok (s :: 'a memory)"
  let ?n = "Suc (length s)"
  have short: "length (live_entries s p None ?n c) < ?n"
    using live_entries_length [of s p None ?n c] by simp
  show "\<exists>xs s'. memory_list_all (memory_kv lib) p c s = (Inr xs, s') \<and> memory_ok s'
      \<and> distinct (map fst xs)
      \<and> (\<forall>(k, e) \<in> set xs. prefix p k \<and> (\<exists>d. live_at (memory_view s) (clk_inst c) k = Some (ent_bytes e, d)))
      \<and> {k. prefix p k \<and> live_at (memory_view s) (clk_inst c) k \<noteq> None} \<subseteq> fst ` set xs
      \<and> same_from (clk_inst c) (memory_view s') (memory_view s)"
    using mem.list_prefix_law [OF ok, of lib p ?n c] short
    by (auto simp: memory_list_all_def memory_op_defs)
qed

section \<open>Counters\<close>

definition counter_value :: "'v cluster_lib \<Rightarrow> string \<Rightarrow> nat \<Rightarrow> 'v memory \<Rightarrow> cluster_error + int" where
  "counter_value lib k now m =
     (case live_at (memory_view m) now k of None \<Rightarrow> Inr 0 | Some (v, _) \<Rightarrow> cl_parse_counter lib v)"

fun memory_incrs ::
    "'v cluster_lib \<Rightarrow> string \<Rightarrow> (int \<times> clock) list \<Rightarrow> 'v memory \<Rightarrow> ('v memory, int list) kv_result" where
  "memory_incrs lib k [] m = (Inr [], m)"
| "memory_incrs lib k ((d, c) # ds) m =
     (case memory_incr lib k d None c m of
        (Inl e, m') \<Rightarrow> (Inl e, m')
      | (Inr n, m') \<Rightarrow>
          (case memory_incrs lib k ds m' of
             (Inl e, m'') \<Rightarrow> (Inl e, m'')
           | (Inr ns, m'') \<Rightarrow> (Inr (n # ns), m'')))"

definition counter_lib :: "'v cluster_lib \<Rightarrow> bool" where
  "counter_lib lib \<longleftrightarrow> (\<forall>n. cl_parse_counter lib (cl_counter_bytes lib n) = Inr n)"

lemma counter_libD [ext_law]: "counter_lib lib \<Longrightarrow> cl_parse_counter lib (cl_counter_bytes lib n) = Inr n"
  by (simp add: counter_lib_def)

lemma memory_incr_cases:
  assumes "counter_value lib k (clk_inst c) m = Inr v"
  shows "memory_incr lib k d ttl c m =
    (case checked_add_i64 v d of
       None \<Rightarrow> (Inl (cl_counter_overflow lib), m)
     | Some n \<Rightarrow>
        (Inr n, AList.update k
           (stored (cl_counter_bytes lib n)
             (case ttl of Some _ \<Rightarrow> compute_deadline ttl c
              | None \<Rightarrow>
                  (case map_of m k of
                     Some e \<Rightarrow> if is_expired e (clk_inst c) then (None, None)
                               else (se_expires_system e, se_expires_instant e)
                   | None \<Rightarrow> (None, None)))) m))"
  using assms
  by (auto simp: memory_incr_def update_counter_def counter_value_def live_memory_view Let_def
      compute_deadline_def split: option.splits if_splits)

lemma memory_incr_no_deadline:
  assumes lib: "counter_lib lib"
    and val: "counter_value lib k (clk_inst c) m = Inr v"
    and perm: "\<And>w dl. memory_view m k = Some (w, dl) \<Longrightarrow> dl = None"
    and range: "checked_add_i64 v d = Some n"
  shows "\<exists>m'. memory_incr lib k d None c m = (Inr n, m')
    \<and> (\<forall>t. counter_value lib k t m' = Inr n) \<and> memory_view m' k = Some (cl_counter_bytes lib n, None)
    \<and> (\<forall>k'. k' \<noteq> k \<longrightarrow> memory_view m' k' = memory_view m k')"
proof -
  have "memory_view m k = None \<or> (\<exists>e. map_of m k = Some e \<and> se_expires_instant e = None)"
    using perm by (cases "map_of m k") (auto simp: memory_view_def)
  then show ?thesis
    using range memory_incr_cases [OF val, of d None]
    by (auto simp: memory_view_update counter_value_def live_at_def memory_view_def update_conv'
        counter_libD [OF lib] split: option.splits if_splits)
qed

lemma memory_incrs_from:
  assumes "counter_lib lib" and "\<forall>t. counter_value lib k t m = Inr v"
    and "\<forall>w dl. memory_view m k = Some (w, dl) \<longrightarrow> dl = None"
    and "0 \<le> v" and "\<forall>(d, _) \<in> set ds. 0 \<le> d" and "v + sum_list (map fst ds) < 2 ^ 63"
  shows "\<exists>ns m'. memory_incrs lib k ds m = (Inr ns, m') \<and> length ns = length ds
    \<and> (\<forall>i < length ds. ns ! i = v + sum_list (map fst (take (Suc i) ds)))
    \<and> (\<forall>t. counter_value lib k t m' = Inr (v + sum_list (map fst ds)))"
  using assms(2-)
proof (induction ds arbitrary: m v)
  case Nil
  then show ?case by simp
next
  case (Cons a ds)
  obtain d c where a: "a = (d, c)" by force
  have tail: "0 \<le> sum_list (map fst ds)"
    using Cons.prems(4) by (induction ds) auto
  have "checked_add_i64 v d = Some (v + d)"
    using Cons.prems a tail by (auto simp: checked_add_i64_def)
  with memory_incr_no_deadline [OF assms(1), of k c m v d] Cons.prems(1,2)
  obtain m1 where m1: "memory_incr lib k d None c m = (Inr (v + d), m1)"
      "\<forall>t. counter_value lib k t m1 = Inr (v + d)"
      "memory_view m1 k = Some (cl_counter_bytes lib (v + d), None)"
    by blast
  have "\<exists>ns m'. memory_incrs lib k ds m1 = (Inr ns, m') \<and> length ns = length ds
    \<and> (\<forall>i < length ds. ns ! i = v + d + sum_list (map fst (take (Suc i) ds)))
    \<and> (\<forall>t. counter_value lib k t m' = Inr (v + d + sum_list (map fst ds)))"
    using Cons.prems a m1 by (intro Cons.IH) auto
  then obtain ns m' where m': "memory_incrs lib k ds m1 = (Inr ns, m')" "length ns = length ds"
      "\<forall>i < length ds. ns ! i = v + d + sum_list (map fst (take (Suc i) ds))"
      "\<forall>t. counter_value lib k t m' = Inr (v + d + sum_list (map fst ds))"
    by blast
  have "((v + d) # ns) ! i = v + sum_list (map fst (take (Suc i) (a # ds)))"
    if "i < length (a # ds)" for i
    using that m'(3) a by (cases i) auto
  with m1 m' a show ?case by (auto simp: add.assoc)
qed

section \<open>The counters keep the contract\<close>

text \<open>What the crate's helpers promise: digits read back, and \<open>floor_add\<close> raises and adds.\<close>

definition floor_lib :: "'v cluster_lib \<Rightarrow> bool" where
  "floor_lib lib \<longleftrightarrow> (\<forall>n fl d. fits_i64 (max n fl + d) \<longrightarrow> cl_floor_add lib n fl d = Inr (max n fl + d))"

definition counting_ok :: "'v cluster_lib \<Rightarrow> 'v memory \<Rightarrow> bool" where
  "counting_ok lib m \<longleftrightarrow> memory_ok m \<and> counter_lib lib \<and> floor_lib lib"

lemma update_counter_law:
  assumes "memory_ok m" "counter_lib lib" "row_count (cl_parse_counter lib) (memory_view m) (clk_inst c) k = Inr n"
    and "stp n = Inr n'"
  shows "\<exists>b m'. update_counter lib k (Some ttl) stp c m = (Inr n', m') \<and> memory_ok m' \<and> cl_parse_counter lib b = Inr n'
    \<and> same_from (clk_inst c) (memory_view m') ((memory_view m)(k \<mapsto> (b, Some (clk_inst c + ttl))))"
proof -
  have "update_counter lib k (Some ttl) stp c m =
      (Inr n', AList.update k (stored (cl_counter_bytes lib n') (compute_deadline (Some ttl) c)) m)"
    using assms(3,4)
    by (auto simp: update_counter_def row_count_def live_memory_view Let_def split: option.splits if_splits)
  moreover have "memory_ok (AList.update k e m)" for e
    using assms(1) by (simp add: memory_ok_def distinct_update)
  ultimately show ?thesis
    using counter_libD [OF assms(2), of n'] by (auto simp: memory_view_update compute_deadline_def)
qed

interpretation mem_counting: kv_counters "memory_kv lib" memory_view "counting_ok lib" "cl_parse_counter lib"
  for lib :: "'v cluster_lib"
proof -
  have base: "kv_store (memory_kv lib) memory_view (counting_ok lib)"
  proof (cases "counter_lib lib \<and> floor_lib lib")
    case True
    then have "counting_ok lib = memory_ok" by (auto simp: counting_ok_def fun_eq_iff)
    then show ?thesis using mem.kv_store_axioms by simp
  next
    case False
    then show ?thesis by unfold_locales (auto simp: counting_ok_def)
  qed
  show "kv_counters (memory_kv lib) memory_view (counting_ok lib) (cl_parse_counter lib)"
  proof (intro kv_counters.intro base kv_counters_axioms.intro)
    fix s :: "'v memory" and c :: clock and k n d ttl
    assume "counting_ok lib s" "row_count (cl_parse_counter lib) (memory_view s) (clk_inst c) k = Inr n" "fits_i64 (n + d)"
    then show "\<exists>b s'. kv_incr (memory_kv lib) k d (Some ttl) c s = (Inr (n + d), s') \<and> counting_ok lib s'
        \<and> cl_parse_counter lib b = Inr (n + d)
        \<and> same_from (clk_inst c) (memory_view s') ((memory_view s)(k \<mapsto> (b, Some (clk_inst c + ttl))))"
      using update_counter_law [of s lib c k n
          "\<lambda>current. case checked_add_i64 current d of Some n \<Rightarrow> Inr n | None \<Rightarrow> Inl (cl_counter_overflow lib)" "n + d" ttl]
      by (simp add: memory_kv_def memory_incr_def counting_ok_def checked_add_i64_def fits_i64_def)
  next
    fix s :: "'v memory" and c :: clock and k n fl d ttl
    assume "counting_ok lib s" "row_count (cl_parse_counter lib) (memory_view s) (clk_inst c) k = Inr n" "fits_i64 (max n fl + d)"
    then show "\<exists>b s'. kv_incr_floor (memory_kv lib) k d fl (Some ttl) c s = (Inr (max n fl + d), s') \<and> counting_ok lib s'
        \<and> cl_parse_counter lib b = Inr (max n fl + d)
        \<and> same_from (clk_inst c) (memory_view s') ((memory_view s)(k \<mapsto> (b, Some (clk_inst c + ttl))))"
      using update_counter_law [of s lib c k n "\<lambda>current. cl_floor_add lib current fl d" "max n fl + d" ttl]
      by (simp add: memory_kv_def memory_incr_floor_def counting_ok_def floor_lib_def)
  qed
qed

end
