(* ===== verification/Memory_Bus.thy ===== *)
theory Memory_Bus
  imports Mcpg_Prelude
begin

text \<open>
  Topic matching of the in-process bus (\<open>pattern_matches\<close> of
  \<open>src/builtins/cluster_primitives/memory.rs\<close>), and which channels a publish reaches.  The loop over
  the two token vectors is compared with the relation the documentation describes: \<open>*\<close> stands for
  one token, a trailing \<open>>\<close> for one or more.
\<close>

definition star_token :: string where "star_token = ''*''"
definition rest_token :: string where "rest_token = ''>''"

text \<open>The \<open>while\<close> loop, with its two indices.\<close>

function pattern_loop :: "string list \<Rightarrow> string list \<Rightarrow> nat \<Rightarrow> nat \<Rightarrow> bool" where
  "pattern_loop pat topi pi ti =
     (if pi < length pat \<and> ti < length topi then
        (if pat ! pi = rest_token then pi = length pat - 1
         else if pat ! pi \<noteq> star_token \<and> pat ! pi \<noteq> topi ! ti then False
         else pattern_loop pat topi (Suc pi) (Suc ti))
      else pi = length pat \<and> ti = length topi)"
  by pat_completeness auto
termination
  by (relation "measure (\<lambda>(pat, topi, pi, ti). length pat - pi)") auto

declare pattern_loop.simps [simp del]

definition pattern_matches :: "string \<Rightarrow> string \<Rightarrow> bool" where
  "pattern_matches pattern topic =
     pattern_loop (split_on (CHR ''.'') pattern) (split_on (CHR ''.'') topic) 0 0"

text \<open>The channels of the bus are keyed by the subscribed pattern; \<open>publish\<close> sends to each match.\<close>

definition publish_targets :: "(string \<times> 'c) list \<Rightarrow> string \<Rightarrow> (string \<times> 'c) list" where
  "publish_targets senders topic = filter (\<lambda>(key, _). pattern_matches key topic) senders"

inductive topic_match :: "string list \<Rightarrow> string list \<Rightarrow> bool" where
  both_end: "topic_match [] []"
| rest_of: "ts \<noteq> [] \<Longrightarrow> topic_match [rest_token] ts"
| any_token: "topic_match ps ts \<Longrightarrow> topic_match (star_token # ps) (t # ts)"
| same_token: "p \<noteq> rest_token \<Longrightarrow> topic_match ps ts \<Longrightarrow> topic_match (p # ps) (p # ts)"

inductive_simps topic_match_Nil [simp]: "topic_match [] ts"
inductive_simps topic_match_Cons_Nil [simp]: "topic_match (p # ps) []"
inductive_simps topic_match_Cons: "topic_match (p # ps) (t # ts)"

lemma star_not_rest [simp]: "star_token \<noteq> rest_token" "rest_token \<noteq> star_token"
  by (simp_all add: star_token_def rest_token_def)

lemma pattern_loop_suffix:
  assumes "pi \<le> length pat" and "ti \<le> length topi"
  shows "pattern_loop pat topi pi ti = topic_match (drop pi pat) (drop ti topi)"
  using assms
proof (induction pat topi pi ti rule: pattern_loop.induct)
  case (1 pat topi pi ti)
  note unfold = pattern_loop.simps [of pat topi pi ti]
  show ?case
  proof (cases "pi < length pat \<and> ti < length topi")
    case True
    then obtain ps ts where d: "drop pi pat = pat ! pi # ps" "drop ti topi = topi ! ti # ts"
        "ps = drop (Suc pi) pat" "ts = drop (Suc ti) topi"
      by (metis Cons_nth_drop_Suc)
    have last: "pi = length pat - 1 \<longleftrightarrow> ps = []"
      using True d(3) by auto
    show ?thesis
    proof (cases "pat ! pi = rest_token \<or> pat ! pi \<noteq> star_token \<and> pat ! pi \<noteq> topi ! ti")
      case stop: True
      with True last show ?thesis
        by (auto simp: unfold d(1,2) topic_match_Cons)
    next
      case False
      with True "1.IH" have "pattern_loop pat topi (Suc pi) (Suc ti) = topic_match ps ts"
        by (auto simp: d(3,4))
      with False True show ?thesis
        by (auto simp: unfold d(1,2) topic_match_Cons)
    qed
  next
    case False
    with 1(2,3) show ?thesis
      by (cases "drop pi pat"; cases "drop ti topi") (auto simp: unfold)
  qed
qed

end
