(* ===== verification/Memory_Properties.thy ===== *)
theory Memory_Properties
  imports Memory_Kv Memory_Bus
begin

text \<open>
  Properties of the in-process primitives: the store keeps the contract the capability stores rely
  on, counters lose no update, topics match as documented; and the one interleaving in which a read
  of an expired row takes another caller's fresh row away.
\<close>

text \<open>
  C13.  The in-process store implements the store contract: reads return the live row, a write is
  visible from then on until its deadline, a conditional write succeeds exactly when no live row is
  there, a listing returns live rows under the prefix and misses none unless it is cut at the limit,
  and no operation disturbs another key.
\<close>

theorem memory_kv_keeps_contract:
  "kv_store (memory_kv lib) memory_view memory_ok
   \<and> kv_listing (memory_kv lib) memory_view memory_ok memory_list_all"
  using mem.kv_store_axioms [of lib] mem_all.kv_listing_axioms [of lib] by blast

text \<open>
  Counters lose no update: increments without a TTL by any callers in any order answer the
  running totals, and the counter then holds their sum, as long as the total fits an \<open>i64\<close>.
\<close>

theorem counter_totals:
  assumes "counter_lib lib" and "map_of m k = None"
    and "\<forall>(d, _) \<in> set ds. 0 \<le> d" and "sum_list (map fst ds) < 2 ^ 63"
  shows "\<exists>ns m'. memory_incrs lib k ds m = (Inr ns, m') \<and> length ns = length ds
    \<and> (\<forall>i < length ds. ns ! i = sum_list (map fst (take (Suc i) ds)))
    \<and> (\<forall>t. counter_value lib k t m' = Inr (sum_list (map fst ds)))"
  using memory_incrs_from [OF assms(1), of k m 0 ds] assms(2-)
  by (simp add: counter_value_def live_memory_view memory_view_def)

text \<open>
  An increment that would overflow answers the overflow error and changes nothing.
\<close>

theorem counter_overflow_changes_nothing:
  assumes "counter_value lib k (clk_inst c) m = Inr v" and "\<not> (- (2 ^ 63) \<le> v + d \<and> v + d < 2 ^ 63)"
  shows "memory_incr lib k d ttl c m = (Inl (cl_counter_overflow lib), m)"
proof -
  have "checked_add_i64 v d = None" using assms(2) by (auto simp: checked_add_i64_def)
  then show ?thesis using memory_incr_cases [OF assms(1), of d ttl] by simp
qed

text \<open>
  A reader of an expired row can take a winner's claim away: between its read and its removal of
  the row, a conditional write of the same key wins; the removal then deletes the winner's row, and
  a second conditional write of the key wins as well while the first claim should still be live.
\<close>

theorem expired_read_breaks_single_claim:
  assumes "memory_probe k c m = (r, True)" and "clk_inst c \<le> clk_inst c1"
    and "memory_put_if_absent k v1 (Some ttl) c1 m = (won1, m1)"
    and "memory_put_if_absent k v2 (Some ttl) c2 (memory_evict k m1) = (won2, m2)"
    and "clk_inst c2 < clk_inst c1 + ttl"
  shows "won1 = Inr True \<and> won2 = Inr True \<and> live_at (memory_view m1) (clk_inst c2) k = Some (v1, Some (clk_inst c1 + ttl))"
proof -
  from assms(1) obtain e where e: "map_of m k = Some e" "is_expired e (clk_inst c)"
    by (auto simp: memory_probe_def split: option.splits if_splits)
  then have "is_expired e (clk_inst c1)"
    using assms(2) expired_by_mono by (simp add: is_expired_expired_by)
  with assms(3) e(1) have m1: "won1 = Inr True"
      "m1 = AList.update k (stored v1 (compute_deadline (Some ttl) c1)) m"
    by (simp_all add: memory_put_if_absent_def Let_def)
  then have "live_at (memory_view m1) (clk_inst c2) k = Some (v1, Some (clk_inst c1 + ttl))"
    using assms(5) by (simp add: memory_view_update live_at_upd_same)
  moreover have "won2 = Inr True"
    using assms(4) by (simp add: memory_evict_def memory_put_if_absent_def Let_def delete_conv')
  ultimately show ?thesis using m1 by blast
qed

text \<open>
  Topic matching is what the bus documents, token by token: \<open>*\<close> stands for one token, a trailing
  \<open>>\<close> for one or more, any other token for itself; and the loop always ends.
\<close>

theorem pattern_matches_is_topic_match:
  "pattern_matches pattern topic \<longleftrightarrow>
     topic_match (split_on (CHR ''.'') pattern) (split_on (CHR ''.'') topic)"
  by (simp add: pattern_matches_def pattern_loop_suffix)

section \<open>Witnesses\<close>

definition int_lib :: "int cluster_lib" where
  "int_lib = \<lparr>cl_parse_counter = Inr, cl_counter_bytes = (\<lambda>n. n), cl_counter_overflow = ''overflow'',
     cl_floor_add = (\<lambda>a f d. Inr (max f (a + d))),
     cl_from_unordered = (\<lambda>xs p cu n. \<lparr>page_entries = take n xs, page_next = None\<rparr>)\<rparr>"

lemma counter_int_lib [simp]: "counter_lib int_lib"
  by (simp add: counter_lib_def int_lib_def)

definition start_clock :: clock where
  "start_clock = \<lparr>clk_inst = 10, clk_utc = 10\<rparr>"

theorem counter_totals_witness:
  "\<exists>ns m'. memory_incrs int_lib ''n'' [(3, start_clock), (4, start_clock)] [] = (Inr ns, m') \<and> length ns = 2
    \<and> ns ! 1 = 7 \<and> counter_value int_lib ''n'' 99 m' = Inr 7"
  using counter_totals [of int_lib "[]" "''n''" "[(3, start_clock), (4, start_clock)]"] by fastforce

theorem counter_overflow_changes_nothing_witness:
  "memory_incr int_lib ''n'' (2 ^ 63) None start_clock [] = (Inl ''overflow'', [])"
proof -
  have v: "counter_value int_lib ''n'' (clk_inst start_clock) [] = Inr 0"
    by (simp add: counter_value_def live_memory_view)
  show ?thesis
    using counter_overflow_changes_nothing [OF v, of "2 ^ 63" None] by (simp add: int_lib_def)
qed

theorem expired_read_breaks_single_claim_witness:
  "\<exists>m m1 m2. memory_probe ''k'' start_clock m = (None, True)
    \<and> memory_put_if_absent ''k'' (1::int) (Some 100) start_clock m = (Inr True, m1)
    \<and> memory_put_if_absent ''k'' 2 (Some 100) start_clock (memory_evict ''k'' m1) = (Inr True, m2)"
proof -
  define m where "m = [(''k'', \<lparr>se_bytes = 0::int, se_expires_system = None, se_expires_instant = Some 5\<rparr>)]"
  obtain w1 m1 where w1: "memory_put_if_absent ''k'' 1 (Some 100) start_clock m = (w1, m1)" by force
  obtain w2 m2 where w2: "memory_put_if_absent ''k'' 2 (Some 100) start_clock (memory_evict ''k'' m1) = (w2, m2)"
    by force
  have probe: "memory_probe ''k'' start_clock m = (None, True)"
    by (simp add: m_def memory_probe_def is_expired_def start_clock_def)
  from expired_read_breaks_single_claim [OF probe order.refl w1 w2] w1 w2 probe show ?thesis by auto
qed

end
