(* ===== verification/Task_Store.thy ===== *)
theory Task_Store
  imports Memory_Kv
begin

text \<open>
  The task store of \<open>src/runtime/stores/task_store.rs\<close>: \<open>KvBackedTaskStore\<close> over a key-value store.

  The state is the store below it and, once \<open>set_observer\<close> ran, the records the observer was told.
  The operations are the methods of \<open>impl TaskStore\<close>; the load (\<open>get\<close>, \<open>ok_or(NotFound)\<close>, decode)
  and the save (remaining TTL, encode, \<open>put\<close>) that each method repeats are \<open>load_task\<close> and
  \<open>save_task\<close>.  Serde, base64, chrono's rendering and the listing helper of the cluster API are
  parameters.
\<close>

section \<open>Data\<close>

datatype task_status = Working | InputRequired | Completed | Failed | Cancelled

record task =
  t_task_id :: string
  t_status :: task_status
  t_status_message :: "string option"
  t_created_at :: string
  t_last_updated_at :: string
  t_ttl :: "nat option"
  t_poll_interval :: "nat option"

record rpc_error_body =
  err_code :: int
  err_message :: string
  err_data :: "json option"

datatype terminal_envelope = Success json | Error rpc_error_body

record task_record =
  tr_task :: task
  tr_session_id :: string
  tr_original_request_id :: json
  tr_tool_name :: string
  tr_created_at_utc :: nat
  tr_terminal_envelope :: "terminal_envelope option"
  tr_request_state :: "string option"
  tr_input_requests :: "json option"

datatype task_store_error =
    NotFound
  | Forbidden
  | NotCompleted
  | AlreadyTerminal
  | QuotaExceeded nat
  | Internal string

record task_retention_policy =
  tp_default_ttl_ms :: nat
  tp_max_tasks_per_session :: nat
  tp_result_wait_ms :: nat

definition default_task_policy :: task_retention_policy where
  "default_task_policy =
     \<lparr>tp_default_ttl_ms = 1800000, tp_max_tasks_per_session = 256, tp_result_wait_ms = 30000\<rparr>"

definition DEFAULT_POLL_INTERVAL_MS :: nat where
  "DEFAULT_POLL_INTERVAL_MS = 2000"

definition cancelled :: "string option \<Rightarrow> terminal_envelope" where
  "cancelled reason =
     Error \<lparr>err_code = - 32800,
            err_message = (case reason of Some r \<Rightarrow> r | None \<Rightarrow> ''Task cancelled''), err_data = None\<rparr>"

definition is_terminal_status :: "task_status \<Rightarrow> bool" where
  "is_terminal_status s = (s \<in> {Completed, Failed, Cancelled})"

text \<open>What the store calls outside the repository.\<close>

record 'v task_ext =
  tx_to_vec :: "task_record \<Rightarrow> string + 'v"
  tx_from_slice :: "'v \<Rightarrow> string + task_record"
  tx_to_rfc3339 :: "nat \<Rightarrow> string"
  tx_b64 :: "string \<Rightarrow> string"
  tx_one :: 'v

record 's task_store =
  ts_kv :: 's
  ts_observer :: "task_record list option"

type_synonym ('s, 'v) list_all_fn =
  "('s, 'v) kv_ops \<Rightarrow> string \<Rightarrow> clock \<Rightarrow> 's \<Rightarrow> ('s, (string \<times> 'v kv_entry) list) kv_result"

section \<open>Operations\<close>

definition set_observer :: "'s task_store \<Rightarrow> 's task_store" where
  "set_observer st = st\<lparr>ts_observer := Some []\<rparr>"

definition notify :: "task_record \<Rightarrow> 's task_store \<Rightarrow> 's task_store" where
  "notify r st = st\<lparr>ts_observer := map_option (\<lambda>seen. seen @ [r]) (ts_observer st)\<rparr>"

definition task_key :: "string \<Rightarrow> string" where
  "task_key task_id = ''task:'' @ task_id"

definition session_tasks_prefix :: "'v task_ext \<Rightarrow> string \<Rightarrow> string" where
  "session_tasks_prefix x session_id = ''task-s:'' @ tx_b64 x session_id @ '':''"

definition remaining_ttl :: "task_retention_policy \<Rightarrow> task_record \<Rightarrow> clock \<Rightarrow> duration" where
  "remaining_ttl pol r c =
     (let original_ttl_ms = (case t_ttl (tr_task r) of Some n \<Rightarrow> n | None \<Rightarrow> tp_default_ttl_ms pol);
          elapsed_ms = nat (max (num_milliseconds (clk_utc c) (tr_created_at_utc r)) 0)
      in from_millis (max (original_ttl_ms - elapsed_ms) 1))"

definition load_task ::
    "('s, 'v) kv_ops \<Rightarrow> 'v task_ext \<Rightarrow> string \<Rightarrow> clock \<Rightarrow> 's task_store \<Rightarrow>
     (task_store_error + task_record) \<times> 's task_store" where
  "load_task kv x task_id c st =
     (case kv_get kv (task_key task_id) c (ts_kv st) of
        (Inl e, s) \<Rightarrow> (Inl (Internal (''kv get: '' @ e)), st\<lparr>ts_kv := s\<rparr>)
      | (Inr None, s) \<Rightarrow> (Inl NotFound, st\<lparr>ts_kv := s\<rparr>)
      | (Inr (Some v), s) \<Rightarrow>
          (case tx_from_slice x (ent_bytes v) of
             Inl e \<Rightarrow> (Inl (Internal (''decode TaskRecord: '' @ e)), st\<lparr>ts_kv := s\<rparr>)
           | Inr r \<Rightarrow> (Inr r, st\<lparr>ts_kv := s\<rparr>)))"

definition save_task ::
    "('s, 'v) kv_ops \<Rightarrow> 'v task_ext \<Rightarrow> task_retention_policy \<Rightarrow> string \<Rightarrow> task_record \<Rightarrow> clock \<Rightarrow>
     's task_store \<Rightarrow> (task_store_error + unit) \<times> 's task_store" where
  "save_task kv x pol task_id r c st =
     (case tx_to_vec x r of
        Inl e \<Rightarrow> (Inl (Internal (''encode TaskRecord: '' @ e)), st)
      | Inr bytes \<Rightarrow>
          (case kv_put kv (task_key task_id) bytes (Some (remaining_ttl pol r c)) c (ts_kv st) of
             (Inl e, s) \<Rightarrow> (Inl (Internal (''kv put: '' @ e)), st\<lparr>ts_kv := s\<rparr>)
           | (Inr _, s) \<Rightarrow> (Inr (), st\<lparr>ts_kv := s\<rparr>)))"

definition new_task_record ::
    "'v task_ext \<Rightarrow> string \<Rightarrow> string \<Rightarrow> json \<Rightarrow> string \<Rightarrow> nat \<Rightarrow> clock \<Rightarrow> task_record" where
  "new_task_record x uuid session_id original_request_id tool_name ttl c =
     \<lparr>tr_task =
        \<lparr>t_task_id = uuid, t_status = Working, t_status_message = None,
         t_created_at = tx_to_rfc3339 x (clk_utc c), t_last_updated_at = tx_to_rfc3339 x (clk_utc c),
         t_ttl = Some ttl,
         t_poll_interval = Some DEFAULT_POLL_INTERVAL_MS\<rparr>,
      tr_session_id = session_id, tr_original_request_id = original_request_id,
      tr_tool_name = tool_name, tr_created_at_utc = clk_utc c, tr_terminal_envelope = None,
      tr_request_state = None, tr_input_requests = None\<rparr>"

text \<open>The two writes of a creation: the record, and its row in the session's index.\<close>

definition write_new_task ::
    "('s, 'v) kv_ops \<Rightarrow> 'v task_ext \<Rightarrow> string \<Rightarrow> string \<Rightarrow> task_record \<Rightarrow> duration \<Rightarrow> clock \<Rightarrow>
     's task_store \<Rightarrow> (task_store_error + task_record) \<times> 's task_store" where
  "write_new_task kv x task_id session_id r ttl c st =
     (case tx_to_vec x r of
        Inl e \<Rightarrow> (Inl (Internal (''encode TaskRecord: '' @ e)), st)
      | Inr bytes \<Rightarrow>
          (case kv_put kv (task_key task_id) bytes (Some ttl) c (ts_kv st) of
             (Inl e, s) \<Rightarrow> (Inl (Internal (''kv put: '' @ e)), st\<lparr>ts_kv := s\<rparr>)
           | (Inr _, s) \<Rightarrow>
               (case kv_put kv (session_tasks_prefix x session_id @ task_id) (tx_one x) (Some ttl) c s of
                  (Inl e, s') \<Rightarrow> (Inl (Internal (''kv put: '' @ e)), st\<lparr>ts_kv := s'\<rparr>)
                | (Inr _, s') \<Rightarrow> (Inr r, notify r (st\<lparr>ts_kv := s'\<rparr>)))))"

definition create_task ::
    "('s, 'v) kv_ops \<Rightarrow> 'v task_ext \<Rightarrow> task_retention_policy \<Rightarrow> string \<Rightarrow> string \<Rightarrow> json \<Rightarrow> string \<Rightarrow>
     nat option \<Rightarrow> clock \<Rightarrow> 's task_store \<Rightarrow> (task_store_error + task_record) \<times> 's task_store" where
  "create_task kv x pol uuid session_id original_request_id tool_name ttl_ms c st =
     (let ttl = (case ttl_ms of Some n \<Rightarrow> n | None \<Rightarrow> tp_default_ttl_ms pol);
          r = new_task_record x uuid session_id original_request_id tool_name ttl c;
          write = write_new_task kv x uuid session_id r (from_millis ttl) c in
      if 0 < tp_max_tasks_per_session pol then
        (case kv_list_prefix kv (session_tasks_prefix x session_id) (tp_max_tasks_per_session pol) c
                (ts_kv st) of
           (Inl e, s) \<Rightarrow> (Inl (Internal (''kv list_prefix: '' @ e)), st\<lparr>ts_kv := s\<rparr>)
         | (Inr held, s) \<Rightarrow>
             if tp_max_tasks_per_session pol \<le> length held
             then (Inl (QuotaExceeded (tp_max_tasks_per_session pol)), st\<lparr>ts_kv := s\<rparr>)
             else write (st\<lparr>ts_kv := s\<rparr>))
      else write st)"

definition get_task ::
    "('s, 'v) kv_ops \<Rightarrow> 'v task_ext \<Rightarrow> string \<Rightarrow> string \<Rightarrow> clock \<Rightarrow> 's task_store \<Rightarrow>
     (task_store_error + task_record) \<times> 's task_store" where
  "get_task kv x task_id session_id c st =
     (case load_task kv x task_id c st of
        (Inl e, st1) \<Rightarrow> (Inl e, st1)
      | (Inr r, st1) \<Rightarrow>
          if tr_session_id r \<noteq> session_id then (Inl Forbidden, st1) else (Inr r, st1))"

definition update_task_status ::
    "('s, 'v) kv_ops \<Rightarrow> 'v task_ext \<Rightarrow> task_retention_policy \<Rightarrow> string \<Rightarrow> string \<Rightarrow> task_status \<Rightarrow>
     string option \<Rightarrow> clock \<Rightarrow> 's task_store \<Rightarrow> (task_store_error + unit) \<times> 's task_store" where
  "update_task_status kv x pol task_id session_id status status_message c st =
     (if is_terminal_status status
      then (Inl (Internal ''use store_task_terminal for terminal state transitions''), st)
      else
        (case load_task kv x task_id c st of
           (Inl e, st1) \<Rightarrow> (Inl e, st1)
         | (Inr r, st1) \<Rightarrow>
             if tr_session_id r \<noteq> session_id then (Inl Forbidden, st1)
             else if is_terminal_status (t_status (tr_task r)) then (Inl AlreadyTerminal, st1)
             else
               (let r' = r\<lparr>tr_task := (tr_task r)\<lparr>t_status := status, t_status_message := status_message,
                                  t_last_updated_at := tx_to_rfc3339 x (clk_utc c)\<rparr>\<rparr> in
                case save_task kv x pol task_id r' c st1 of
                  (Inl e, st2) \<Rightarrow> (Inl e, st2)
                | (Inr _, st2) \<Rightarrow> (Inr (), notify r' st2))))"

definition set_task_poll_interval ::
    "('s, 'v) kv_ops \<Rightarrow> 'v task_ext \<Rightarrow> task_retention_policy \<Rightarrow> string \<Rightarrow> string \<Rightarrow> nat option \<Rightarrow>
     clock \<Rightarrow> 's task_store \<Rightarrow> (task_store_error + unit) \<times> 's task_store" where
  "set_task_poll_interval kv x pol task_id session_id poll_interval_ms c st =
     (case load_task kv x task_id c st of
        (Inl e, st1) \<Rightarrow> (Inl e, st1)
      | (Inr r, st1) \<Rightarrow>
          if tr_session_id r \<noteq> session_id then (Inl Forbidden, st1)
          else if is_terminal_status (t_status (tr_task r)) then (Inl AlreadyTerminal, st1)
          else
            save_task kv x pol task_id
              (r\<lparr>tr_task := (tr_task r)\<lparr>t_poll_interval := poll_interval_ms,
                           t_last_updated_at := tx_to_rfc3339 x (clk_utc c)\<rparr>\<rparr>) c st1)"

definition set_task_awaiting_input ::
    "('s, 'v) kv_ops \<Rightarrow> 'v task_ext \<Rightarrow> task_retention_policy \<Rightarrow> string \<Rightarrow> string \<Rightarrow> string \<Rightarrow> json \<Rightarrow>
     clock \<Rightarrow> 's task_store \<Rightarrow> (task_store_error + unit) \<times> 's task_store" where
  "set_task_awaiting_input kv x pol task_id session_id request_state input_requests c st =
     (case load_task kv x task_id c st of
        (Inl e, st1) \<Rightarrow> (Inl e, st1)
      | (Inr r, st1) \<Rightarrow>
          if tr_session_id r \<noteq> session_id then (Inl Forbidden, st1)
          else if is_terminal_status (t_status (tr_task r)) then (Inl AlreadyTerminal, st1)
          else
            (let r' = r\<lparr>tr_task := (tr_task r)\<lparr>t_status := InputRequired,
                               t_last_updated_at := tx_to_rfc3339 x (clk_utc c)\<rparr>,
                        tr_request_state := Some request_state,
                        tr_input_requests := Some input_requests\<rparr> in
             case save_task kv x pol task_id r' c st1 of
               (Inl e, st2) \<Rightarrow> (Inl e, st2)
             | (Inr _, st2) \<Rightarrow> (Inr (), notify r' st2)))"

definition task_request_state ::
    "('s, 'v) kv_ops \<Rightarrow> 'v task_ext \<Rightarrow> string \<Rightarrow> string \<Rightarrow> clock \<Rightarrow> 's task_store \<Rightarrow>
     (task_store_error + string option) \<times> 's task_store" where
  "task_request_state kv x task_id session_id c st =
     (case get_task kv x task_id session_id c st of
        (Inl e, st1) \<Rightarrow> (Inl e, st1)
      | (Inr r, st1) \<Rightarrow> (Inr (tr_request_state r), st1))"

definition store_task_terminal ::
    "('s, 'v) kv_ops \<Rightarrow> 'v task_ext \<Rightarrow> task_retention_policy \<Rightarrow> string \<Rightarrow> task_status \<Rightarrow>
     terminal_envelope \<Rightarrow> clock \<Rightarrow> 's task_store \<Rightarrow> (task_store_error + unit) \<times> 's task_store" where
  "store_task_terminal kv x pol task_id status envelope c st =
     (if \<not> is_terminal_status status
      then (Inl (Internal ''store_task_terminal requires a terminal status''), st)
      else
        (case load_task kv x task_id c st of
           (Inl e, st1) \<Rightarrow> (Inl e, st1)
         | (Inr r, st1) \<Rightarrow>
             if is_terminal_status (t_status (tr_task r)) then (Inl AlreadyTerminal, st1)
             else
               (let message = (case envelope of Error error \<Rightarrow> Some (err_message error)
                               | Success _ \<Rightarrow> t_status_message (tr_task r));
                    r' = r\<lparr>tr_task := (tr_task r)\<lparr>t_status := status, t_status_message := message,
                                  t_last_updated_at := tx_to_rfc3339 x (clk_utc c)\<rparr>,
                           tr_terminal_envelope := Some envelope\<rparr> in
                case save_task kv x pol task_id r' c st1 of
                  (Inl e, st2) \<Rightarrow> (Inl e, st2)
                | (Inr _, st2) \<Rightarrow> (Inr (), notify r' st2))))"

definition get_task_result ::
    "('s, 'v) kv_ops \<Rightarrow> 'v task_ext \<Rightarrow> string \<Rightarrow> string \<Rightarrow> clock \<Rightarrow> 's task_store \<Rightarrow>
     (task_store_error + terminal_envelope) \<times> 's task_store" where
  "get_task_result kv x task_id session_id c st =
     (case get_task kv x task_id session_id c st of
        (Inl e, st1) \<Rightarrow> (Inl e, st1)
      | (Inr r, st1) \<Rightarrow>
          (case tr_terminal_envelope r of
             Some envelope \<Rightarrow> (Inr envelope, st1) | None \<Rightarrow> (Inl NotCompleted, st1)))"

definition cancel_task ::
    "('s, 'v) kv_ops \<Rightarrow> 'v task_ext \<Rightarrow> task_retention_policy \<Rightarrow> string \<Rightarrow> string \<Rightarrow> clock \<Rightarrow>
     's task_store \<Rightarrow> (task_store_error + task_record) \<times> 's task_store" where
  "cancel_task kv x pol task_id session_id c st =
     (case load_task kv x task_id c st of
        (Inl e, st1) \<Rightarrow> (Inl e, st1)
      | (Inr r, st1) \<Rightarrow>
          if tr_session_id r \<noteq> session_id then (Inl Forbidden, st1)
          else if is_terminal_status (t_status (tr_task r)) then (Inl AlreadyTerminal, st1)
          else
            (let message = Some ''Cancelled by client'';
                 r' = r\<lparr>tr_task := (tr_task r)\<lparr>t_status := Cancelled, t_status_message := message,
                               t_last_updated_at := tx_to_rfc3339 x (clk_utc c)\<rparr>,
                        tr_terminal_envelope := Some (cancelled message)\<rparr> in
             case save_task kv x pol task_id r' c st1 of
               (Inl e, st2) \<Rightarrow> (Inl e, st2)
             | (Inr _, st2) \<Rightarrow> (Inr r', notify r' st2)))"

definition session_task_ids ::
    "('s, 'v) list_all_fn \<Rightarrow> ('s, 'v) kv_ops \<Rightarrow> 'v task_ext \<Rightarrow> string \<Rightarrow> clock \<Rightarrow> 's task_store \<Rightarrow>
     (task_store_error + string list) \<times> 's task_store" where
  "session_task_ids list_all_rows kv x session_id c st =
     (let p = session_tasks_prefix x session_id in
      case list_all_rows kv p c (ts_kv st) of
        (Inl e, s) \<Rightarrow> (Inl (Internal (''kv list_page: '' @ e)), st\<lparr>ts_kv := s\<rparr>)
      | (Inr xs, s) \<Rightarrow> (Inr (List.map_filter (\<lambda>(k, _). strip_prefix k p) xs), st\<lparr>ts_kv := s\<rparr>))"

text \<open>The loop of \<open>list_tasks\<close>: read each indexed task, skip what is gone, unreadable or another's.\<close>

fun collect_tasks ::
    "('s, 'v) kv_ops \<Rightarrow> 'v task_ext \<Rightarrow> string \<Rightarrow> string list \<Rightarrow> clock \<Rightarrow> 's task_store \<Rightarrow>
     (task_store_error + task_record list) \<times> 's task_store" where
  "collect_tasks kv x session_id [] c st = (Inr [], st)"
| "collect_tasks kv x session_id (task_id # ids) c st =
     (case kv_get kv (task_key task_id) c (ts_kv st) of
        (Inl e, s) \<Rightarrow> (Inl (Internal (''kv get: '' @ e)), st\<lparr>ts_kv := s\<rparr>)
      | (Inr value, s) \<Rightarrow>
          (let found = (case value of None \<Rightarrow> []
                        | Some v \<Rightarrow>
                            (case tx_from_slice x (ent_bytes v) of
                               Inl _ \<Rightarrow> []
                             | Inr r \<Rightarrow> if tr_session_id r = session_id then [r] else []))
           in case collect_tasks kv x session_id ids c (st\<lparr>ts_kv := s\<rparr>) of
                (Inl e, st') \<Rightarrow> (Inl e, st')
              | (Inr rs, st') \<Rightarrow> (Inr (found @ rs), st')))"

fun position :: "('a \<Rightarrow> bool) \<Rightarrow> 'a list \<Rightarrow> nat option" where
  "position P [] = None"
| "position P (y # ys) = (if P y then Some 0 else map_option Suc (position P ys))"

definition task_page :: "task_record list \<Rightarrow> string option \<Rightarrow> nat \<Rightarrow> task list \<times> string option" where
  "task_page session_tasks cursor limit =
     (let start_index = (case cursor of
                           None \<Rightarrow> 0
                         | Some cursor_id \<Rightarrow>
                             (case position (\<lambda>r. t_task_id (tr_task r) = cursor_id) session_tasks of
                                Some i \<Rightarrow> i + 1 | None \<Rightarrow> 0));
          page = map tr_task (take limit (drop start_index session_tasks));
          next_cursor = (if start_index + limit < length session_tasks
                         then (if page = [] then None else Some (t_task_id (last page)))
                         else None)
      in (page, next_cursor))"

definition list_tasks ::
    "('s, 'v) list_all_fn \<Rightarrow> ('s, 'v) kv_ops \<Rightarrow> 'v task_ext \<Rightarrow> string \<Rightarrow> string option \<Rightarrow> nat \<Rightarrow> clock \<Rightarrow>
     's task_store \<Rightarrow> (task_store_error + (task list \<times> string option)) \<times> 's task_store" where
  "list_tasks list_all_rows kv x session_id cursor limit c st =
     (case session_task_ids list_all_rows kv x session_id c st of
        (Inl e, st1) \<Rightarrow> (Inl e, st1)
      | (Inr ids, st1) \<Rightarrow>
          (case collect_tasks kv x session_id ids c st1 of
             (Inl e, st2) \<Rightarrow> (Inl e, st2)
           | (Inr rs, st2) \<Rightarrow>
               (Inr (task_page (sort_key (\<lambda>r. - int (tr_created_at_utc r)) rs) cursor limit), st2)))"

definition gc_expired_tasks :: "'s task_store \<Rightarrow> nat" where
  "gc_expired_tasks st = 0"

section \<open>Calls and runs\<close>

text \<open>The calls a client or a worker makes, and the state after each.\<close>

datatype task_call =
    Create string string json string "nat option"
  | Get string string
  | UpdateStatus string string task_status "string option"
  | PollInterval string string "nat option"
  | AwaitingInput string string string json
  | RequestState string string
  | StoreTerminal string task_status terminal_envelope
  | GetResult string string
  | Cancel string string
  | ListTasks string "string option" nat

fun exec_call ::
    "('s, 'v) list_all_fn \<Rightarrow> ('s, 'v) kv_ops \<Rightarrow> 'v task_ext \<Rightarrow> task_retention_policy \<Rightarrow> task_call \<Rightarrow>
     clock \<Rightarrow> 's task_store \<Rightarrow> 's task_store" where
  "exec_call la kv x pol (Create uuid sid rid tool ttl) c st = snd (create_task kv x pol uuid sid rid tool ttl c st)"
| "exec_call la kv x pol (Get i sid) c st = snd (get_task kv x i sid c st)"
| "exec_call la kv x pol (UpdateStatus i sid s msg) c st = snd (update_task_status kv x pol i sid s msg c st)"
| "exec_call la kv x pol (PollInterval i sid ms) c st = snd (set_task_poll_interval kv x pol i sid ms c st)"
| "exec_call la kv x pol (AwaitingInput i sid rs ir) c st = snd (set_task_awaiting_input kv x pol i sid rs ir c st)"
| "exec_call la kv x pol (RequestState i sid) c st = snd (task_request_state kv x i sid c st)"
| "exec_call la kv x pol (StoreTerminal i s en) c st = snd (store_task_terminal kv x pol i s en c st)"
| "exec_call la kv x pol (GetResult i sid) c st = snd (get_task_result kv x i sid c st)"
| "exec_call la kv x pol (Cancel i sid) c st = snd (cancel_task kv x pol i sid c st)"
| "exec_call la kv x pol (ListTasks sid cur n) c st = snd (list_tasks la kv x sid cur n c st)"

fun exec_calls ::
    "('s, 'v) list_all_fn \<Rightarrow> ('s, 'v) kv_ops \<Rightarrow> 'v task_ext \<Rightarrow> task_retention_policy \<Rightarrow>
     (task_call \<times> clock) list \<Rightarrow> 's task_store \<Rightarrow> 's task_store" where
  "exec_calls la kv x pol [] st = st"
| "exec_calls la kv x pol ((call, c) # calls) st = exec_calls la kv x pol calls (exec_call la kv x pol call c st)"

text \<open>The session a call presents, the id a creation uses, the task a mutation names.\<close>

fun caller_of :: "task_call \<Rightarrow> string option" where
  "caller_of (Create uuid sid rid tool ttl) = Some sid"
| "caller_of (Get i sid) = Some sid"
| "caller_of (UpdateStatus i sid s msg) = Some sid"
| "caller_of (PollInterval i sid ms) = Some sid"
| "caller_of (AwaitingInput i sid rs ir) = Some sid"
| "caller_of (RequestState i sid) = Some sid"
| "caller_of (StoreTerminal i s en) = None"
| "caller_of (GetResult i sid) = Some sid"
| "caller_of (Cancel i sid) = Some sid"
| "caller_of (ListTasks sid cur n) = Some sid"

fun creates :: "task_call \<Rightarrow> string option" where
  "creates (Create uuid sid rid tool ttl) = Some uuid"
| "creates _ = None"

text \<open>Calls in the order of the monotonic clock, none before \<open>t\<close>.\<close>

fun timed_from :: "nat \<Rightarrow> ('c \<times> clock) list \<Rightarrow> bool" where
  "timed_from t [] \<longleftrightarrow> True"
| "timed_from t ((_, c) # calls) \<longleftrightarrow> t \<le> clk_inst c \<and> timed_from (clk_inst c) calls"

section \<open>What the store shows of a task\<close>

definition task_ext_ok :: "'v task_ext \<Rightarrow> bool" where
  "task_ext_ok x \<longleftrightarrow> (\<forall>r. \<exists>v. tx_to_vec x r = Inr v \<and> tx_from_slice x v = Inr r)"

definition load_reply :: "'v task_ext \<Rightarrow> 'v rows \<Rightarrow> nat \<Rightarrow> string \<Rightarrow> task_store_error + task_record" where
  "load_reply x m now task_id =
     (case live_at m now (task_key task_id) of
        None \<Rightarrow> Inl NotFound
      | Some (v, _) \<Rightarrow>
          (case tx_from_slice x v of
             Inl e \<Rightarrow> Inl (Internal (''decode TaskRecord: '' @ e)) | Inr r \<Rightarrow> Inr r))"

definition own_reply :: "'v task_ext \<Rightarrow> string \<Rightarrow> 'v rows \<Rightarrow> nat \<Rightarrow> string \<Rightarrow> task_record list" where
  "own_reply x sid m now i =
     (case load_reply x m now i of Inl _ \<Rightarrow> [] | Inr r \<Rightarrow> if tr_session_id r = sid then [r] else [])"

lemma task_ext_okE:
  assumes "task_ext_ok x" obtains v where "tx_to_vec x r = Inr v" "tx_from_slice x v = Inr r"
  using assms by (auto simp: task_ext_ok_def)

lemma task_key_inj [simp]: "task_key a = task_key b \<longleftrightarrow> a = b"
  by (simp add: task_key_def)

lemma index_key_not_task_key [simp]: "session_tasks_prefix x sid @ i \<noteq> task_key j"
  "task_key j \<noteq> session_tasks_prefix x sid @ i"
  by (auto simp: session_tasks_prefix_def task_key_def)

lemma load_reply_same:
  "same_from t m m' \<Longrightarrow> t \<le> t' \<Longrightarrow> load_reply x m t' i = load_reply x m' t' i"
  by (simp add: load_reply_def same_from_live)

lemma load_reply_upd_other [simp]: "k \<noteq> task_key i \<Longrightarrow> load_reply x (m(k := y)) t i = load_reply x m t i"
  by (simp add: load_reply_def live_at_def)

lemma load_reply_upd_same:
  "tx_from_slice x v = Inr r \<Longrightarrow> \<not> expired_by d t \<Longrightarrow> load_reply x (m(task_key i \<mapsto> (v, d))) t i = Inr r"
  by (simp add: load_reply_def live_at_def)

section \<open>The mutating methods share one shape\<close>

text \<open>
  Load the record, refuse it or not, save its replacement.  The five mutating methods are instances
  of it, up to the notification and the value they return.
\<close>

definition modify_task ::
    "('s, 'v) kv_ops \<Rightarrow> 'v task_ext \<Rightarrow> task_retention_policy \<Rightarrow> string \<Rightarrow>
     (task_record \<Rightarrow> task_store_error option) \<Rightarrow> (task_record \<Rightarrow> task_record) \<Rightarrow> clock \<Rightarrow>
     's task_store \<Rightarrow> (task_store_error + task_record) \<times> 's task_store" where
  "modify_task kv x pol task_id refuse f c st =
     (case load_task kv x task_id c st of
        (Inl e, st1) \<Rightarrow> (Inl e, st1)
      | (Inr r, st1) \<Rightarrow>
          (case refuse r of
             Some e \<Rightarrow> (Inl e, st1)
           | None \<Rightarrow>
               (case save_task kv x pol task_id (f r) c st1 of
                  (Inl e, st2) \<Rightarrow> (Inl e, st2) | (Inr _, st2) \<Rightarrow> (Inr (f r), st2))))"

definition refuse_terminal :: "task_record \<Rightarrow> task_store_error option" where
  "refuse_terminal r = (if is_terminal_status (t_status (tr_task r)) then Some AlreadyTerminal else None)"

definition refuse_other :: "string \<Rightarrow> task_record \<Rightarrow> task_store_error option" where
  "refuse_other session_id r = (if tr_session_id r \<noteq> session_id then Some Forbidden else refuse_terminal r)"

definition after_modify ::
    "(task_record \<Rightarrow> 'a) \<Rightarrow> (task_record \<Rightarrow> 's task_store \<Rightarrow> 's task_store) \<Rightarrow>
     (task_store_error + task_record) \<times> 's task_store \<Rightarrow> (task_store_error + 'a) \<times> 's task_store" where
  "after_modify ret tell res =
     (case res of (Inl e, st) \<Rightarrow> (Inl e, st) | (Inr r, st) \<Rightarrow> (Inr (ret r), tell r st))"

definition with_status :: "'v task_ext \<Rightarrow> task_status \<Rightarrow> string option \<Rightarrow> clock \<Rightarrow> task_record \<Rightarrow> task_record" where
  "with_status x status message c r =
     r\<lparr>tr_task := (tr_task r)\<lparr>t_status := status, t_status_message := message,
                t_last_updated_at := tx_to_rfc3339 x (clk_utc c)\<rparr>\<rparr>"

definition with_poll_interval :: "'v task_ext \<Rightarrow> nat option \<Rightarrow> clock \<Rightarrow> task_record \<Rightarrow> task_record" where
  "with_poll_interval x ms c r =
     r\<lparr>tr_task := (tr_task r)\<lparr>t_poll_interval := ms, t_last_updated_at := tx_to_rfc3339 x (clk_utc c)\<rparr>\<rparr>"

definition with_input :: "'v task_ext \<Rightarrow> string \<Rightarrow> json \<Rightarrow> clock \<Rightarrow> task_record \<Rightarrow> task_record" where
  "with_input x request_state input_requests c r =
     r\<lparr>tr_task := (tr_task r)\<lparr>t_status := InputRequired, t_last_updated_at := tx_to_rfc3339 x (clk_utc c)\<rparr>,
       tr_request_state := Some request_state, tr_input_requests := Some input_requests\<rparr>"

definition with_terminal :: "'v task_ext \<Rightarrow> task_status \<Rightarrow> terminal_envelope \<Rightarrow> clock \<Rightarrow> task_record \<Rightarrow> task_record" where
  "with_terminal x status envelope c r =
     (with_status x status (case envelope of Error error \<Rightarrow> Some (err_message error)
                            | Success _ \<Rightarrow> t_status_message (tr_task r)) c r)
       \<lparr>tr_terminal_envelope := Some envelope\<rparr>"

lemmas modify_defs = modify_task_def after_modify_def refuse_other_def refuse_terminal_def
  with_status_def with_poll_interval_def with_input_def with_terminal_def

lemma update_task_status_eq:
  "\<not> is_terminal_status status \<Longrightarrow>
   update_task_status kv x pol task_id sid status message c st =
     after_modify (\<lambda>_. ()) notify
       (modify_task kv x pol task_id (refuse_other sid) (with_status x status message c) c st)"
  by (auto simp: update_task_status_def modify_defs Let_def split: sum.splits prod.splits)

lemma set_task_poll_interval_eq:
  "set_task_poll_interval kv x pol task_id sid ms c st =
     after_modify (\<lambda>_. ()) (\<lambda>_ st. st)
       (modify_task kv x pol task_id (refuse_other sid) (with_poll_interval x ms c) c st)"
  by (auto simp: set_task_poll_interval_def modify_defs Let_def split: sum.splits prod.splits)

lemma set_task_awaiting_input_eq:
  "set_task_awaiting_input kv x pol task_id sid rs ir c st =
     after_modify (\<lambda>_. ()) notify (modify_task kv x pol task_id (refuse_other sid) (with_input x rs ir c) c st)"
  by (auto simp: set_task_awaiting_input_def modify_defs Let_def split: sum.splits prod.splits)

lemma store_task_terminal_eq:
  "is_terminal_status status \<Longrightarrow>
   store_task_terminal kv x pol task_id status envelope c st =
     after_modify (\<lambda>_. ()) notify
       (modify_task kv x pol task_id refuse_terminal (with_terminal x status envelope c) c st)"
  by (auto simp: store_task_terminal_def modify_defs Let_def split: sum.splits prod.splits)

lemma cancel_task_eq:
  "cancel_task kv x pol task_id sid c st =
     after_modify (\<lambda>r. r) notify
       (modify_task kv x pol task_id (refuse_other sid)
          (with_terminal x Cancelled (cancelled (Some ''Cancelled by client'')) c) c st)"
  by (auto simp: cancel_task_def modify_defs cancelled_def Let_def split: sum.splits prod.splits)

lemma ts_kv_notify [simp]: "ts_kv (notify r st) = ts_kv st"
  by (simp add: notify_def)

lemma ts_kv_after_modify:
  "(\<And>r st. ts_kv (tell r st) = ts_kv st) \<Longrightarrow> ts_kv (snd (after_modify ret tell res)) = ts_kv (snd res)"
  by (auto simp: after_modify_def split: sum.splits prod.splits)

lemma fst_after_modify: "fst (after_modify ret tell res) = map_sum id ret (fst res)"
  by (auto simp: after_modify_def split: sum.splits prod.splits)

text \<open>What a saved record may not change.\<close>

definition same_identity :: "task_record \<Rightarrow> task_record \<Rightarrow> bool" where
  "same_identity r r' \<longleftrightarrow> tr_session_id r' = tr_session_id r \<and> tr_created_at_utc r' = tr_created_at_utc r
     \<and> t_ttl (tr_task r') = t_ttl (tr_task r) \<and> t_task_id (tr_task r') = t_task_id (tr_task r)
     \<and> tr_tool_name r' = tr_tool_name r \<and> tr_original_request_id r' = tr_original_request_id r"

lemma same_identity_with [simp]:
  "same_identity r (with_status x st m c r)" "same_identity r (with_poll_interval x ms c r)"
  "same_identity r (with_input x rs ir c r)" "same_identity r (with_terminal x st en c r)"
  by (simp_all add: same_identity_def modify_defs)

section \<open>Effects over any store that keeps the contract\<close>

context kv_store
begin

lemma load_task_effect:
  assumes "ok (ts_kv st)"
  shows "\<exists>st1. load_task kv x i c st = (load_reply x (view (ts_kv st)) (clk_inst c) i, st1)
    \<and> ok (ts_kv st1) \<and> ts_observer st1 = ts_observer st
    \<and> same_from (clk_inst c) (view (ts_kv st1)) (view (ts_kv st))"
proof (cases rule: get_cases [OF assms, of "task_key i" c, case_names gone row])
  case gone
  then show ?thesis by (auto simp: load_task_def load_reply_def)
next
  case (row e d s')
  then show ?thesis
    by (cases "tx_from_slice x (ent_bytes e)") (auto simp: load_task_def load_reply_def)
qed

lemma save_task_effect:
  assumes "ok (ts_kv st)" and "task_ext_ok x"
  shows "\<exists>st1 v. save_task kv x pol i r c st = (Inr (), st1) \<and> tx_from_slice x v = Inr r
    \<and> ok (ts_kv st1) \<and> ts_observer st1 = ts_observer st
    \<and> same_from (clk_inst c) (view (ts_kv st1))
        ((view (ts_kv st))(task_key i \<mapsto> (v, Some (clk_inst c + remaining_ttl pol r c))))"
proof -
  from assms(2) obtain v where v: "tx_to_vec x r = Inr v" "tx_from_slice x v = Inr r"
    by (rule task_ext_okE)
  with put_law [OF assms(1), of "task_key i" v "Some (remaining_ttl pol r c)" c] show ?thesis
    by (auto simp: save_task_def)
qed

lemma modify_task_effect:
  assumes ok: "ok (ts_kv st)" and x: "task_ext_ok x"
  shows "\<exists>st1. ok (ts_kv st1) \<and> ts_observer st1 = ts_observer st
    \<and> (case load_reply x (view (ts_kv st)) (clk_inst c) i of
         Inl e \<Rightarrow> modify_task kv x pol i refuse f c st = (Inl e, st1)
                   \<and> same_from (clk_inst c) (view (ts_kv st1)) (view (ts_kv st))
       | Inr r \<Rightarrow>
           (case refuse r of
              Some e \<Rightarrow> modify_task kv x pol i refuse f c st = (Inl e, st1)
                   \<and> same_from (clk_inst c) (view (ts_kv st1)) (view (ts_kv st))
            | None \<Rightarrow> modify_task kv x pol i refuse f c st = (Inr (f r), st1)
                   \<and> (\<exists>v. tx_from_slice x v = Inr (f r) \<and>
                        same_from (clk_inst c) (view (ts_kv st1))
                          ((view (ts_kv st))(task_key i \<mapsto>
                             (v, Some (clk_inst c + remaining_ttl pol (f r) c)))))))"
proof -
  from load_task_effect [OF ok, of x i c] obtain st1 where l:
      "load_task kv x i c st = (load_reply x (view (ts_kv st)) (clk_inst c) i, st1)"
      "ok (ts_kv st1)" "ts_observer st1 = ts_observer st"
      "same_from (clk_inst c) (view (ts_kv st1)) (view (ts_kv st))"
    by blast
  show ?thesis
  proof (cases "load_reply x (view (ts_kv st)) (clk_inst c) i")
    case (Inl e)
    with l show ?thesis by (auto simp: modify_task_def)
  next
    case (Inr r)
    show ?thesis
    proof (cases "refuse r")
      case (Some e)
      with Inr l show ?thesis by (auto simp: modify_task_def)
    next
      case None
      from save_task_effect [OF l(2) x, of pol i "f r" c] obtain st2 v where s:
          "save_task kv x pol i (f r) c st1 = (Inr (), st2)" "tx_from_slice x v = Inr (f r)"
          "ok (ts_kv st2)" "ts_observer st2 = ts_observer st1"
          "same_from (clk_inst c) (view (ts_kv st2))
            ((view (ts_kv st1))(task_key i \<mapsto> (v, Some (clk_inst c + remaining_ttl pol (f r) c))))"
        by blast
      have "same_from (clk_inst c) (view (ts_kv st2))
            ((view (ts_kv st))(task_key i \<mapsto> (v, Some (clk_inst c + remaining_ttl pol (f r) c))))"
        using same_from_trans [OF s(5) same_from_upd [OF l(4)]] by simp
      with None Inr l s show ?thesis by (auto simp: modify_task_def)
    qed
  qed
qed

lemma get_task_effect:
  assumes "ok (ts_kv st)"
  shows "\<exists>st1. get_task kv x i sid c st =
      ((case load_reply x (view (ts_kv st)) (clk_inst c) i of
          Inl e \<Rightarrow> Inl e | Inr r \<Rightarrow> if tr_session_id r \<noteq> sid then Inl Forbidden else Inr r), st1)
    \<and> ok (ts_kv st1) \<and> ts_observer st1 = ts_observer st
    \<and> same_from (clk_inst c) (view (ts_kv st1)) (view (ts_kv st))"
  using load_task_effect [OF assms, of x i c]
  by (cases "load_reply x (view (ts_kv st)) (clk_inst c) i") (auto simp: get_task_def)

lemma write_new_task_effect:
  assumes ok: "ok (ts_kv st)" and x: "task_ext_ok x"
  shows "\<exists>st1 v. write_new_task kv x i sid r ttl c st = (Inr r, st1) \<and> tx_from_slice x v = Inr r
    \<and> ok (ts_kv st1)
    \<and> same_from (clk_inst c) (view (ts_kv st1))
        ((view (ts_kv st))(task_key i \<mapsto> (v, Some (clk_inst c + ttl)),
           session_tasks_prefix x sid @ i \<mapsto> (tx_one x, Some (clk_inst c + ttl))))"
proof -
  let ?ix = "session_tasks_prefix x sid @ i"
  from x obtain v where v: "tx_to_vec x r = Inr v" "tx_from_slice x v = Inr r"
    by (rule task_ext_okE)
  from put_law [OF ok, of "task_key i" v "Some ttl" c] obtain s1 where s1:
      "kv_put kv (task_key i) v (Some ttl) c (ts_kv st) = (Inr (), s1)" "ok s1"
      "same_from (clk_inst c) (view s1) ((view (ts_kv st))(task_key i \<mapsto> (v, Some (clk_inst c + ttl))))"
    by auto
  from put_law [OF s1(2), of ?ix "tx_one x" "Some ttl" c] obtain s2 where s2:
      "kv_put kv ?ix (tx_one x) (Some ttl) c s1 = (Inr (), s2)" "ok s2"
      "same_from (clk_inst c) (view s2) ((view s1)(?ix \<mapsto> (tx_one x, Some (clk_inst c + ttl))))"
    by auto
  from same_from_trans [OF s2(3) same_from_upd [OF s1(3)]] v s1 s2 show ?thesis
    by (auto simp: write_new_task_def)
qed

lemma create_task_effect:
  assumes ok: "ok (ts_kv st)" and x: "task_ext_ok x"
  shows "\<exists>st1. ok (ts_kv st1) \<and>
    ((create_task kv x pol i sid rid tool ttl_ms c st = (Inl (QuotaExceeded (tp_max_tasks_per_session pol)), st1)
       \<and> same_from (clk_inst c) (view (ts_kv st1)) (view (ts_kv st)))
     \<or> (\<exists>ttl r v. ttl = (case ttl_ms of Some n \<Rightarrow> n | None \<Rightarrow> tp_default_ttl_ms pol)
         \<and> r = new_task_record x i sid rid tool ttl c
         \<and> create_task kv x pol i sid rid tool ttl_ms c st = (Inr r, st1) \<and> tx_from_slice x v = Inr r
         \<and> same_from (clk_inst c) (view (ts_kv st1))
             ((view (ts_kv st))(task_key i \<mapsto> (v, Some (clk_inst c + from_millis ttl)),
                session_tasks_prefix x sid @ i \<mapsto> (tx_one x, Some (clk_inst c + from_millis ttl))))))"
proof (cases "0 < tp_max_tasks_per_session pol")
  case False
  with write_new_task_effect [OF ok x] show ?thesis
    by (simp add: create_task_def Let_def) blast
next
  case True
  let ?p = "session_tasks_prefix x sid" and ?n = "tp_max_tasks_per_session pol"
  from list_prefix_law [OF ok, of ?p ?n c] obtain held s where h:
      "kv_list_prefix kv ?p ?n c (ts_kv st) = (Inr held, s)" "ok s"
      "same_from (clk_inst c) (view s) (view (ts_kv st))"
    by blast
  let ?st = "st\<lparr>ts_kv := s\<rparr>"
  show ?thesis
  proof (cases "?n \<le> length held")
    case full: True
    have "create_task kv x pol i sid rid tool ttl_ms c st = (Inl (QuotaExceeded ?n), ?st)"
      using True full h(1) by (simp add: create_task_def Let_def)
    with h show ?thesis by auto
  next
    case room: False
    let ?ttl = "case ttl_ms of Some n \<Rightarrow> n | None \<Rightarrow> tp_default_ttl_ms pol"
    let ?r = "new_task_record x i sid rid tool ?ttl c"
    let ?d = "Some (clk_inst c + from_millis ?ttl)"
    have "ok (ts_kv ?st)" using h by simp
    from write_new_task_effect [OF this x, of i sid ?r "from_millis ?ttl" c] obtain st1 v where w:
        "write_new_task kv x i sid ?r (from_millis ?ttl) c ?st = (Inr ?r, st1)"
        "tx_from_slice x v = Inr ?r" "ok (ts_kv st1)"
        "same_from (clk_inst c) (view (ts_kv st1)) ((view s)(task_key i \<mapsto> (v, ?d), ?p @ i \<mapsto> (tx_one x, ?d)))"
      by auto
    have "same_from (clk_inst c) (view (ts_kv st1))
        ((view (ts_kv st))(task_key i \<mapsto> (v, ?d), ?p @ i \<mapsto> (tx_one x, ?d)))"
      by (rule same_from_trans [OF w(4) same_from_upd [OF same_from_upd [OF h(3)]]]) simp
    moreover have "create_task kv x pol i sid rid tool ttl_ms c st = (Inr ?r, st1)"
      using True room h(1) w(1) by (simp add: create_task_def Let_def)
    ultimately show ?thesis using w(2,3) by blast
  qed
qed

lemma collect_tasks_effect:
  assumes "ok (ts_kv st)"
  shows "\<exists>st1 rs. collect_tasks kv x sid ids c st = (Inr rs, st1) \<and> ok (ts_kv st1)
    \<and> same_from (clk_inst c) (view (ts_kv st1)) (view (ts_kv st))
    \<and> rs = concat (map (own_reply x sid (view (ts_kv st)) (clk_inst c)) ids)"
  using assms
proof (induction ids arbitrary: st)
  case Nil
  then show ?case by simp
next
  case (Cons i ids)
  have step: "\<exists>s e. kv_get kv (task_key i) c (ts_kv st) = (Inr e, s) \<and> ok s
      \<and> same_from (clk_inst c) (view s) (view (ts_kv st))
      \<and> own_reply x sid (view (ts_kv st)) (clk_inst c) i =
          (case e of None \<Rightarrow> []
           | Some v \<Rightarrow> (case tx_from_slice x (ent_bytes v) of Inl _ \<Rightarrow> []
                        | Inr r \<Rightarrow> if tr_session_id r = sid then [r] else []))"
  proof (cases rule: get_cases [OF Cons.prems, of "task_key i" c, case_names gone row])
    case gone
    then show ?thesis by (auto simp: own_reply_def load_reply_def)
  next
    case (row e d s')
    then show ?thesis
      by (cases "tx_from_slice x (ent_bytes e)") (auto simp: own_reply_def load_reply_def)
  qed
  then obtain s e where g: "kv_get kv (task_key i) c (ts_kv st) = (Inr e, s)" "ok s"
      "same_from (clk_inst c) (view s) (view (ts_kv st))"
      "own_reply x sid (view (ts_kv st)) (clk_inst c) i =
          (case e of None \<Rightarrow> []
           | Some v \<Rightarrow> (case tx_from_slice x (ent_bytes v) of Inl _ \<Rightarrow> []
                        | Inr r \<Rightarrow> if tr_session_id r = sid then [r] else []))"
    by blast
  from Cons.IH [of "st\<lparr>ts_kv := s\<rparr>"] g(2) obtain st1 where r:
      "collect_tasks kv x sid ids c (st\<lparr>ts_kv := s\<rparr>)
         = (Inr (concat (map (own_reply x sid (view s) (clk_inst c)) ids)), st1)" "ok (ts_kv st1)"
      "same_from (clk_inst c) (view (ts_kv st1)) (view s)"
    by auto
  have same: "own_reply x sid (view s) (clk_inst c) = own_reply x sid (view (ts_kv st)) (clk_inst c)"
    using load_reply_same [OF g(3) order.refl] by (simp add: own_reply_def fun_eq_iff)
  have "same_from (clk_inst c) (view (ts_kv st1)) (view (ts_kv st))"
    by (rule same_from_trans [OF r(3) g(3)]) simp
  with r g(1,2) show ?case by (simp add: g(4) same Let_def)
qed

end

end
