(* ===== verification/Task_Properties.thy ===== *)
theory Task_Properties
  imports Task_Store
begin

text \<open>
  Correctness of the task store: which calls can change a task's row, expiry of a row over updates,
  the session quota, and paging.  The lemmas are proved once over the store contract and reach the
  in-process store through its interpretation.
\<close>

section \<open>Which calls change a row\<close>

definition row_kept :: "nat \<Rightarrow> 'v rows \<Rightarrow> 'v rows \<Rightarrow> string \<Rightarrow> bool" where
  "row_kept now m m' i \<longleftrightarrow> (\<forall>t \<ge> now. live_at m' t (task_key i) = live_at m t (task_key i))"

text \<open>A row changes only while its task is not terminal, and only for its owner or the worker.\<close>

definition may_change :: "string option \<Rightarrow> task_record \<Rightarrow> bool" where
  "may_change caller r \<longleftrightarrow> \<not> is_terminal_status (t_status (tr_task r))
     \<and> (caller = None \<or> caller = Some (tr_session_id r))"

text \<open>The row was replaced by that of a successor of the record, under its remaining TTL.\<close>

definition row_saved ::
    "'v task_ext \<Rightarrow> task_retention_policy \<Rightarrow> string option \<Rightarrow> clock \<Rightarrow> 'v rows \<Rightarrow> 'v rows \<Rightarrow> string \<Rightarrow> bool"
where
  "row_saved x pol caller c m m' i \<longleftrightarrow> (\<exists>r r' v.
     load_reply x m (clk_inst c) i = Inr r \<and> may_change caller r \<and> same_identity r r'
     \<and> tx_from_slice x v = Inr r'
     \<and> (\<forall>t \<ge> clk_inst c. live_at m' t (task_key i) =
          (if clk_inst c + remaining_ttl pol r' c \<le> t then None
           else Some (v, Some (clk_inst c + remaining_ttl pol r' c)))))"

lemma row_kept_refl [simp]: "row_kept t m m i"
  by (simp add: row_kept_def)

lemma row_kept_same: "same_from t m' m \<Longrightarrow> row_kept t m m' i"
  by (simp add: row_kept_def same_from_def)

lemma row_kept_upd:
  "same_from t m' (m(k \<mapsto> y)) \<Longrightarrow> k \<noteq> task_key i \<Longrightarrow> row_kept t m m' i"
  by (simp add: row_kept_def same_from_def)

lemma row_kept_trans:
  "row_kept t m m' i \<Longrightarrow> row_kept t' m' m'' i \<Longrightarrow> t \<le> t' \<Longrightarrow> row_kept t' m m'' i"
  by (simp add: row_kept_def)

lemma row_kept_later: "row_kept t m m' i \<Longrightarrow> t \<le> t' \<Longrightarrow> row_kept t' m m' i"
  by (simp add: row_kept_def)

lemma row_kept_reply: "row_kept t m m' i \<Longrightarrow> t \<le> t' \<Longrightarrow> load_reply x m' t' i = load_reply x m t' i"
  by (simp add: row_kept_def load_reply_def)

context kv_store
begin

lemma modify_task_row:
  assumes "ok (ts_kv st)" and "task_ext_ok x" and "\<And>r. refuse r = None \<Longrightarrow> may_change caller r"
    and "\<And>r. same_identity r (f r)"
  shows "ok (ts_kv (snd (modify_task kv x pol i refuse f c st)))
    \<and> (row_kept (clk_inst c) (view (ts_kv st)) (view (ts_kv (snd (modify_task kv x pol i refuse f c st)))) j
       \<or> row_saved x pol caller c (view (ts_kv st)) (view (ts_kv (snd (modify_task kv x pol i refuse f c st)))) j)"
proof (cases "\<exists>r. load_reply x (view (ts_kv st)) (clk_inst c) i = Inr r \<and> refuse r = None")
  case False
  with modify_task_effect [OF assms(1,2), where c = c and i = i and pol = pol and refuse = refuse and f = f]
  show ?thesis
    by (cases "load_reply x (view (ts_kv st)) (clk_inst c) i") (auto simp: row_kept_same)
next
  case True
  then obtain r where r: "load_reply x (view (ts_kv st)) (clk_inst c) i = Inr r" "refuse r = None"
    by blast
  with modify_task_effect [OF assms(1,2), where c = c and i = i and pol = pol and refuse = refuse and f = f]
  obtain st1 v where st1: "modify_task kv x pol i refuse f c st = (Inr (f r), st1)" "ok (ts_kv st1)"
      "tx_from_slice x v = Inr (f r)"
      "same_from (clk_inst c) (view (ts_kv st1))
         ((view (ts_kv st))(task_key i \<mapsto> (v, Some (clk_inst c + remaining_ttl pol (f r) c))))"
    by auto
  show ?thesis
  proof (cases "j = i")
    case True
    have "row_saved x pol caller c (view (ts_kv st)) (view (ts_kv st1)) i"
      unfolding row_saved_def using r assms(3,4) st1(3,4)
      by (intro exI [of _ r] exI [of _ "f r"] exI [of _ v]) (auto simp: same_from_def live_at_upd_same)
    with True st1 show ?thesis by simp
  next
    case False
    with row_kept_upd [OF st1(4), of j] st1 show ?thesis by simp
  qed
qed

lemma refuse_may_change:
  "refuse_other sid r = None \<Longrightarrow> may_change (Some sid) r"
  "refuse_terminal r = None \<Longrightarrow> may_change None r"
  by (auto simp: refuse_other_def refuse_terminal_def may_change_def split: if_splits)

lemma modify_task_refused:
  assumes "ok (ts_kv st)" and "task_ext_ok x"
    and "load_reply x (view (ts_kv st)) (clk_inst c) i = Inr r" and "refuse r = Some e"
  shows "fst (modify_task kv x pol i refuse f c st) = Inl e"
  using modify_task_effect [OF assms(1,2), where c = c and i = i and refuse = refuse and f = f and pol = pol]
    assms(3,4) by auto

lemma create_task_row:
  assumes "ok (ts_kv st)" and "task_ext_ok x" and "j \<noteq> i"
  shows "ok (ts_kv (snd (create_task kv x pol i sid rid tool ttl c st)))
    \<and> row_kept (clk_inst c) (view (ts_kv st)) (view (ts_kv (snd (create_task kv x pol i sid rid tool ttl c st)))) j"
proof -
  let ?p = "session_tasks_prefix x sid"
  from create_task_effect [OF assms(1,2), of pol i sid rid tool ttl c] obtain st1 where st1:
      "snd (create_task kv x pol i sid rid tool ttl c st) = st1" "ok (ts_kv st1)"
      "same_from (clk_inst c) (view (ts_kv st1)) (view (ts_kv st)) \<or>
       (\<exists>v d. same_from (clk_inst c) (view (ts_kv st1))
                ((view (ts_kv st))(task_key i \<mapsto> (v, d), ?p @ i \<mapsto> (tx_one x, d))))"
    by (metis snd_conv)
  have "row_kept (clk_inst c) (view (ts_kv st)) (view (ts_kv st1)) j"
    using st1(3)
  proof
    assume "\<exists>v d. same_from (clk_inst c) (view (ts_kv st1))
                ((view (ts_kv st))(task_key i \<mapsto> (v, d), ?p @ i \<mapsto> (tx_one x, d)))"
    then show ?thesis using assms(3) by (auto simp: row_kept_def same_from_def)
  qed (rule row_kept_same)
  with st1 show ?thesis by simp
qed

end

context kv_listing
begin

lemma list_tasks_effect:
  assumes "ok (ts_kv st)"
  shows "\<exists>st1 ids. list_tasks list_all_rows kv x sid cursor limit c st =
      (Inr (task_page (sort_key (\<lambda>r. - int (tr_created_at_utc r))
              (concat (map (own_reply x sid (view (ts_kv st)) (clk_inst c)) ids))) cursor limit), st1)
    \<and> distinct ids
    \<and> set ids = {i. live_at (view (ts_kv st)) (clk_inst c) (session_tasks_prefix x sid @ i) \<noteq> None}
    \<and> ok (ts_kv st1) \<and> same_from (clk_inst c) (view (ts_kv st1)) (view (ts_kv st))"
proof -
  let ?p = "session_tasks_prefix x sid" and ?V = "live_at (view (ts_kv st)) (clk_inst c)"
  from list_all_law [OF assms, of ?p c] obtain xs s where xs:
      "list_all_rows kv ?p c (ts_kv st) = (Inr xs, s)" "ok s" "distinct (map fst xs)"
      "\<forall>(k, e) \<in> set xs. prefix ?p k \<and> (\<exists>d. ?V k = Some (ent_bytes e, d))"
      "{k. prefix ?p k \<and> ?V k \<noteq> None} \<subseteq> fst ` set xs"
      "same_from (clk_inst c) (view s) (view (ts_kv st))"
    by blast
  define ids where "ids = List.map_filter (\<lambda>(k, _). strip_prefix k ?p) xs"
  have keys: "map fst xs = map (\<lambda>i. ?p @ i) ids"
    unfolding ids_def using xs(4)
    by (induction xs) (auto simp: strip_prefix_def prefix_def List.map_filter_simps)
  have dist: "distinct ids"
    using xs(3) keys by (simp add: distinct_map)
  have "fst ` set xs = (\<lambda>i. ?p @ i) ` set ids"
    using keys by (metis image_set)
  moreover have "k \<in> fst ` set xs \<longleftrightarrow> prefix ?p k \<and> ?V k \<noteq> None" for k
    using xs(4,5) by fastforce
  ultimately have "?p @ i \<in> (\<lambda>i. ?p @ i) ` set ids \<longleftrightarrow> ?V (?p @ i) \<noteq> None" for i
    by (metis prefixI)
  then have ids: "set ids = {i. ?V (?p @ i) \<noteq> None}"
    by auto
  let ?st = "st\<lparr>ts_kv := s\<rparr>"
  from collect_tasks_effect [of ?st x sid ids c] xs(2) obtain st1 where st1:
      "collect_tasks kv x sid ids c ?st = (Inr (concat (map (own_reply x sid (view s) (clk_inst c)) ids)), st1)"
      "ok (ts_kv st1)" "same_from (clk_inst c) (view (ts_kv st1)) (view s)"
    by auto
  have same: "own_reply x sid (view s) (clk_inst c) = own_reply x sid (view (ts_kv st)) (clk_inst c)"
    using load_reply_same [OF xs(6) order.refl] by (simp add: own_reply_def fun_eq_iff)
  have "same_from (clk_inst c) (view (ts_kv st1)) (view (ts_kv st))"
    by (rule same_from_trans [OF st1(3) xs(6)]) simp
  with xs(1) st1 dist ids show ?thesis
    by (auto simp: list_tasks_def session_task_ids_def Let_def ids_def [symmetric] same)
qed

lemma get_task_state:
  assumes "ok (ts_kv st)"
  shows "ok (ts_kv (snd (get_task kv x i sid c st)))
    \<and> row_kept (clk_inst c) (view (ts_kv st)) (view (ts_kv (snd (get_task kv x i sid c st)))) j"
  using get_task_effect [OF assms, of x i sid c] by (auto simp: row_kept_same)

lemma exec_call_row:
  assumes "ok (ts_kv st)" and "task_ext_ok x" and "creates call \<noteq> Some j"
  shows "ok (ts_kv (exec_call list_all_rows kv x pol call c st))
    \<and> (row_kept (clk_inst c) (view (ts_kv st)) (view (ts_kv (exec_call list_all_rows kv x pol call c st))) j
       \<or> row_saved x pol (caller_of call) c (view (ts_kv st))
           (view (ts_kv (exec_call list_all_rows kv x pol call c st))) j)"
proof (cases call)
  case (Create uuid sid rid tool ttl)
  with assms create_task_row [OF assms(1,2), of j uuid] show ?thesis by auto
next
  case (Get i sid)
  with get_task_state [OF assms(1)] show ?thesis by simp
next
  case (UpdateStatus i sid s msg)
  show ?thesis
  proof (cases "is_terminal_status s")
    case True
    with UpdateStatus assms(1) show ?thesis by (simp add: update_task_status_def)
  next
    case False
    with UpdateStatus modify_task_row [OF assms(1,2) refuse_may_change(1)] show ?thesis
      by (simp add: update_task_status_eq ts_kv_after_modify)
  qed
next
  case (PollInterval i sid ms)
  with modify_task_row [OF assms(1,2) refuse_may_change(1)] show ?thesis
    by (simp add: set_task_poll_interval_eq ts_kv_after_modify)
next
  case (AwaitingInput i sid rs ir)
  with modify_task_row [OF assms(1,2) refuse_may_change(1)] show ?thesis
    by (simp add: set_task_awaiting_input_eq ts_kv_after_modify)
next
  case (RequestState i sid)
  with get_task_state [OF assms(1), of x i sid c j] show ?thesis
    by (auto simp: task_request_state_def split: prod.splits sum.splits)
next
  case (StoreTerminal i s en)
  show ?thesis
  proof (cases "is_terminal_status s")
    case True
    with StoreTerminal modify_task_row [OF assms(1,2) refuse_may_change(2)] show ?thesis
      by (simp add: store_task_terminal_eq ts_kv_after_modify)
  next
    case False
    with StoreTerminal assms(1) show ?thesis by (simp add: store_task_terminal_def)
  qed
next
  case (GetResult i sid)
  with get_task_state [OF assms(1), of x i sid c j] show ?thesis
    by (auto simp: get_task_result_def split: prod.splits sum.splits option.splits)
next
  case (Cancel i sid)
  with modify_task_row [OF assms(1,2) refuse_may_change(1)] show ?thesis
    by (simp add: cancel_task_eq ts_kv_after_modify)
next
  case (ListTasks sid cur n)
  with list_tasks_effect [OF assms(1), of x sid cur n c] show ?thesis
    by (auto simp: row_kept_same)
qed

text \<open>A run of calls that may not change the row of a task leaves it as it is.\<close>

lemma exec_calls_row:
  assumes "ok (ts_kv st)" and "task_ext_ok x" and "timed_from t calls"
    and "\<And>call c. (call, c) \<in> set calls \<Longrightarrow> creates call \<noteq> Some j"
    and "\<And>call c t' r. (call, c) \<in> set calls \<Longrightarrow> t \<le> t' \<Longrightarrow>
           load_reply x (view (ts_kv st)) t' j = Inr r \<Longrightarrow> \<not> may_change (caller_of call) r"
    and "t \<le> t'" and "\<And>call c. (call, c) \<in> set calls \<Longrightarrow> clk_inst c \<le> t'"
  shows "row_kept t' (view (ts_kv st)) (view (ts_kv (exec_calls list_all_rows kv x pol calls st))) j"
  using assms(1,3-)
proof (induction calls arbitrary: st t)
  case Nil
  then show ?case by simp
next
  case (Cons a calls)
  obtain call c where a: "a = (call, c)" by force
  let ?st = "exec_call list_all_rows kv x pol call c st"
  have c: "t \<le> clk_inst c" "timed_from (clk_inst c) calls" "clk_inst c \<le> t'"
    using Cons.prems(2,6) a by auto
  have cr: "creates call \<noteq> Some j" using Cons.prems(3) a by auto
  have no: "\<not> may_change (caller_of call) r" if "load_reply x (view (ts_kv st)) (clk_inst c) j = Inr r" for r
    using that Cons.prems(4) [of call c "clk_inst c" r] c(1) a by simp
  from exec_call_row [OF Cons.prems(1) assms(2) cr, of pol c] no
  have st: "ok (ts_kv ?st)" "row_kept (clk_inst c) (view (ts_kv st)) (view (ts_kv ?st)) j"
    by (auto simp: row_saved_def)
  have keep: "\<not> may_change (caller_of call') r"
    if "(call', c') \<in> set calls" "clk_inst c \<le> u" "load_reply x (view (ts_kv ?st)) u j = Inr r" for call' c' u r
  proof -
    have "load_reply x (view (ts_kv st)) u j = Inr r"
      using row_kept_reply [OF st(2) that(2), of x] that(3) by simp
    then show ?thesis using Cons.prems(4) [of call' c' u r] that(1,2) c(1) by auto
  qed
  have "row_kept t' (view (ts_kv ?st)) (view (ts_kv (exec_calls list_all_rows kv x pol calls ?st))) j"
  proof (rule Cons.IH [OF st(1) c(2) _ keep c(3)])
    show "creates call' \<noteq> Some j" if "(call', c') \<in> set calls" for call' c'
      using that Cons.prems(3) by auto
    show "clk_inst c' \<le> t'" if "(call', c') \<in> set calls" for call' c'
      using that Cons.prems(6) by auto
  qed
  with row_kept_later [OF st(2) c(3)] show ?case
    unfolding a by (auto intro: row_kept_trans)
qed

end

section \<open>Expiry\<close>

text \<open>
  \<open>remaining_ttl\<close> keeps the deadline of the creation, up to the truncation of the elapsed time to
  whole milliseconds, as long as both clocks advance alike.
\<close>

lemma remaining_ttl_bounds:
  assumes "t_ttl (tr_task r) = Some ttl" and "clk_utc c = tr_created_at_utc r + e" and "clk_inst c = born + e"
  shows "born + from_millis ttl \<le> clk_inst c + remaining_ttl pol r c"
    and "clk_inst c + remaining_ttl pol r c \<le> max (born + from_millis ttl) (clk_inst c) + from_millis 1"
proof -
  have el: "nat (max (num_milliseconds (clk_utc c) (tr_created_at_utc r)) 0) = e div 1000000"
    by (simp add: num_milliseconds_def assms(2))
  have rem: "remaining_ttl pol r c = max (ttl - e div 1000000) 1 * 1000000"
    by (simp add: remaining_ttl_def assms(1) el from_millis_def Let_def)
  have split: "e = 1000000 * (e div 1000000) + e mod 1000000" "e mod 1000000 < 1000000"
    by simp_all
  show "born + from_millis ttl \<le> clk_inst c + remaining_ttl pol r c"
    using split by (cases "e div 1000000 < ttl") (auto simp: rem assms(3) from_millis_def max_def)
  show "clk_inst c + remaining_ttl pol r c \<le> max (born + from_millis ttl) (clk_inst c) + from_millis 1"
    using split by (cases "e div 1000000 < ttl") (auto simp: rem assms(3) from_millis_def max_def)
qed

section \<open>Paging\<close>

text \<open>Follow \<open>next_cursor\<close> from a cursor on until there is none, at most \<open>n\<close> pages.\<close>

fun task_walk :: "nat \<Rightarrow> task_record list \<Rightarrow> string option \<Rightarrow> nat \<Rightarrow> task list" where
  "task_walk 0 rs cursor limit = []"
| "task_walk (Suc n) rs cursor limit =
     (case task_page rs cursor limit of
        (page, None) \<Rightarrow> page
      | (page, Some nxt) \<Rightarrow> page @ task_walk n rs (Some nxt) limit)"

lemma position_id:
  "distinct (map f xs) \<Longrightarrow> i < length xs \<Longrightarrow> position (\<lambda>y. f y = f (xs ! i)) xs = Some i"
proof (induction xs arbitrary: i)
  case (Cons y ys)
  show ?case
  proof (cases i)
    case (Suc k)
    with Cons.prems have "ys ! k \<in> set ys" by simp
    with Cons.prems Suc have "f y \<noteq> f (ys ! k)" by (auto simp: image_iff)
    with Cons Suc show ?thesis by simp
  qed simp
qed simp

lemma task_page_at:
  assumes "distinct (map (\<lambda>r. t_task_id (tr_task r)) rs)" and "0 < limit" and "n \<le> length rs"
    and "cursor = (if n = 0 then None else Some (t_task_id (tr_task (rs ! (n - 1)))))"
  shows "task_page rs cursor limit =
    (map tr_task (take limit (drop n rs)),
     if n + limit < length rs then Some (t_task_id (tr_task (rs ! (n + limit - 1)))) else None)"
proof -
  have start: "(case cursor of None \<Rightarrow> 0 | Some i \<Rightarrow>
      (case position (\<lambda>r. t_task_id (tr_task r) = i) rs of Some k \<Rightarrow> k + 1 | None \<Rightarrow> 0)) = n"
    using assms position_id [OF assms(1), of "n - 1"] by (cases n) auto
  have "last (map tr_task (take limit (drop n rs))) = tr_task (rs ! (n + limit - 1))"
    if "n + limit < length rs"
  proof -
    have "take limit (drop n rs) \<noteq> []" "length (take limit (drop n rs)) = limit"
      using that assms(2) by auto
    then have "last (take limit (drop n rs)) = take limit (drop n rs) ! (limit - 1)"
      by (simp add: last_conv_nth)
    then show ?thesis
      using that assms(2) \<open>take limit (drop n rs) \<noteq> []\<close> by (simp add: last_map)
  qed
  then show ?thesis
    using assms(2) start by (auto simp: task_page_def Let_def)
qed

lemma task_walk_from:
  assumes "distinct (map (\<lambda>r. t_task_id (tr_task r)) rs)" and "0 < limit" and "n \<le> length rs"
    and "length rs - n < fuel"
    and "cursor = (if n = 0 then None else Some (t_task_id (tr_task (rs ! (n - 1)))))"
  shows "task_walk fuel rs cursor limit = map tr_task (drop n rs)"
  using assms(3-)
proof (induction fuel arbitrary: n cursor)
  case 0
  then show ?case by simp
next
  case (Suc fuel)
  note page = task_page_at [OF assms(1,2) Suc.prems(1,3)]
  show ?case
  proof (cases "n + limit < length rs")
    case True
    have "task_walk fuel rs (Some (t_task_id (tr_task (rs ! (n + limit - 1))))) limit
        = map tr_task (drop (n + limit) rs)"
      using True Suc.prems assms(2) by (intro Suc.IH) auto
    then show ?thesis
      using True page by (simp flip: map_append) (metis append_take_drop_id drop_drop add.commute)
  next
    case False
    then show ?thesis using page by simp
  qed
qed

section \<open>Properties of the in-process task store\<close>

lemma load_reply_later:
  assumes "load_reply x m t j = Inr r" and "t \<le> t'"
  shows "load_reply x m t' j = Inr r \<or> load_reply x m t' j = Inl NotFound"
  using assms
  by (auto simp: load_reply_def live_at_def dest: expired_by_mono split: option.splits sum.splits if_splits)

lemma mem_get_task_reply:
  assumes "memory_ok (ts_kv st)"
  shows "fst (get_task (memory_kv lib) x i sid c st) =
    (case load_reply x (memory_view (ts_kv st)) (clk_inst c) i of
       Inl e \<Rightarrow> Inl e | Inr r \<Rightarrow> if tr_session_id r \<noteq> sid then Inl Forbidden else Inr r)"
  using mem.get_task_effect [OF assms, of lib x i sid c] by auto

lemma get_task_result_reply:
  "fst (get_task_result kv x i sid c st) =
     (case fst (get_task kv x i sid c st) of
        Inl e \<Rightarrow> Inl e
      | Inr r \<Rightarrow> (case tr_terminal_envelope r of Some en \<Rightarrow> Inr en | None \<Rightarrow> Inl NotCompleted))"
  by (auto simp: get_task_result_def split: prod.splits sum.splits option.splits)

lemma mem_exec_calls_ok:
  assumes "memory_ok (ts_kv st)" and "task_ext_ok x"
  shows "memory_ok (ts_kv (exec_calls memory_list_all (memory_kv lib) x pol calls st))"
  using assms(1)
proof (induction calls arbitrary: st)
  case (Cons a calls)
  obtain call c where a: "a = (call, c)" by force
  have "creates call \<noteq> Some (CHR ''x'' # (case creates call of None \<Rightarrow> [] | Some i \<Rightarrow> i))"
    by (cases "creates call") auto
  with mem_all.exec_call_row [OF Cons.prems assms(2)] Cons.IH a show ?case by simp
qed simp

lemma mem_calls_keep_reply:
  assumes "task_ext_ok x" and "memory_ok (ts_kv st)"
    and "load_reply x (memory_view (ts_kv st)) t j = Inr r" and "timed_from t calls"
    and "\<forall>(call, c) \<in> set calls. creates call \<noteq> Some j \<and> clk_inst c \<le> clk_inst c'
           \<and> \<not> may_change (caller_of call) r"
    and "t \<le> clk_inst c'"
  shows "fst (get_task (memory_kv lib) x j sid c' (exec_calls memory_list_all (memory_kv lib) x pol calls st))
    = fst (get_task (memory_kv lib) x j sid c' st)"
proof -
  let ?st = "exec_calls memory_list_all (memory_kv lib) x pol calls st"
  have "row_kept (clk_inst c') (memory_view (ts_kv st)) (memory_view (ts_kv ?st)) j"
  proof (rule mem_all.exec_calls_row [OF assms(2,1,4) _ _ assms(6)])
    fix call c u r' assume "(call, c) \<in> set calls" "t \<le> u" "load_reply x (memory_view (ts_kv st)) u j = Inr r'"
    with load_reply_later [OF assms(3), of u] assms(5) show "\<not> may_change (caller_of call) r'" by auto
  qed (use assms(5) in auto)
  then have "load_reply x (memory_view (ts_kv ?st)) (clk_inst c') j = load_reply x (memory_view (ts_kv st)) (clk_inst c') j"
    by (rule row_kept_reply) simp
  then show ?thesis
    using mem_get_task_reply [OF assms(2)] mem_get_task_reply [OF mem_exec_calls_ok [OF assms(2,1)]]
    by simp
qed

text \<open>
  C4.  A terminal task stays as it is: whatever calls follow (every method of the store, by any
  session, in any order and at any later times), no one who asks for the task is answered
  differently than if none of them had been made.  Ids are UUIDs, so no creation reuses the id.
\<close>

theorem terminal_task_frozen:
  assumes "task_ext_ok x" and "memory_ok (ts_kv st)"
    and "load_reply x (memory_view (ts_kv st)) t j = Inr r" and "is_terminal_status (t_status (tr_task r))"
    and "timed_from t calls" and "t \<le> clk_inst c'"
    and "\<forall>(call, c) \<in> set calls. creates call \<noteq> Some j \<and> clk_inst c \<le> clk_inst c'"
  shows "fst (get_task (memory_kv lib) x j sid c' (exec_calls memory_list_all (memory_kv lib) x pol calls st))
    = fst (get_task (memory_kv lib) x j sid c' st)"
proof (rule mem_calls_keep_reply [OF assms(1-3,5) _ assms(6)])
  show "\<forall>(call, c) \<in> set calls. creates call \<noteq> Some j \<and> clk_inst c \<le> clk_inst c'
           \<and> \<not> may_change (caller_of call) r"
    using assms(4,7) by (auto simp: may_change_def)
qed

text \<open>
  C11.  Session isolation: client calls of other sessions never change what the owner sees of a
  task, and they are refused the task itself with \<open>Forbidden\<close>.
\<close>

theorem foreign_sessions_cannot_touch:
  assumes "task_ext_ok x" and "memory_ok (ts_kv st)"
    and "load_reply x (memory_view (ts_kv st)) t j = Inr r"
    and "timed_from t calls" and "t \<le> clk_inst c'"
    and "\<forall>(call, c) \<in> set calls. creates call \<noteq> Some j \<and> clk_inst c \<le> clk_inst c'
           \<and> (\<exists>sid. caller_of call = Some sid \<and> sid \<noteq> tr_session_id r)"
  shows "fst (get_task (memory_kv lib) x j (tr_session_id r) c'
             (exec_calls memory_list_all (memory_kv lib) x pol calls st))
      = fst (get_task (memory_kv lib) x j (tr_session_id r) c' st)
    \<and> (\<forall>sid' c0. sid' \<noteq> tr_session_id r \<and> clk_inst c0 = t \<longrightarrow>
      fst (get_task (memory_kv lib) x j sid' c0 st) = Inl Forbidden
      \<and> fst (get_task_result (memory_kv lib) x j sid' c0 st) = Inl Forbidden
      \<and> fst (task_request_state (memory_kv lib) x j sid' c0 st) = Inl Forbidden
      \<and> fst (cancel_task (memory_kv lib) x pol j sid' c0 st) = Inl Forbidden)"
    (is "?same \<and> (\<forall>sid' c0. _ \<longrightarrow> ?refused sid' c0)")
proof (intro conjI allI impI)
  show ?same
  proof (rule mem_calls_keep_reply [OF assms(1-4) _ assms(5)])
    show "\<forall>(call, c) \<in> set calls. creates call \<noteq> Some j \<and> clk_inst c \<le> clk_inst c'
             \<and> \<not> may_change (caller_of call) r"
      using assms(6) by (auto simp: may_change_def)
  qed
next
  fix sid' and c0 :: clock
  assume a: "sid' \<noteq> tr_session_id r \<and> clk_inst c0 = t"
  have get: "fst (get_task (memory_kv lib) x j sid' c0 st) = Inl Forbidden"
    using mem_get_task_reply [OF assms(2)] assms(3) a by auto
  then show "fst (get_task (memory_kv lib) x j sid' c0 st) = Inl Forbidden"
      "fst (get_task_result (memory_kv lib) x j sid' c0 st) = Inl Forbidden"
      "fst (task_request_state (memory_kv lib) x j sid' c0 st) = Inl Forbidden"
    by (auto simp: get_task_result_def task_request_state_def split: prod.splits sum.splits)
  have "refuse_other sid' r = Some Forbidden" using a by (auto simp: refuse_other_def)
  moreover have "load_reply x (memory_view (ts_kv st)) (clk_inst c0) j = Inr r" using a assms(3) by simp
  ultimately show "fst (cancel_task (memory_kv lib) x pol j sid' c0 st) = Inl Forbidden"
    by (simp add: cancel_task_eq fst_after_modify mem.modify_task_refused [OF assms(2,1)])
qed

text \<open>
  C26.  A created task is readable by its session, and by no other, until its TTL has passed, and is
  gone afterwards.
\<close>

theorem created_task_lives_its_ttl:
  assumes "task_ext_ok x" and "memory_ok (ts_kv st)"
    and "create_task (memory_kv lib) x pol i sid rid tool ttl_ms c st = (Inr r, st')"
    and "clk_inst c \<le> clk_inst c'"
  shows "fst (get_task (memory_kv lib) x i sid' c' st') =
    (if clk_inst c + from_millis (case ttl_ms of Some n \<Rightarrow> n | None \<Rightarrow> tp_default_ttl_ms pol) \<le> clk_inst c'
     then Inl NotFound else if sid' = sid then Inr r else Inl Forbidden)
    \<and> t_status (tr_task r) = Working \<and> t_task_id (tr_task r) = i \<and> tr_terminal_envelope r = None"
proof -
  let ?ttl = "case ttl_ms of Some n \<Rightarrow> n | None \<Rightarrow> tp_default_ttl_ms pol"
  let ?d = "Some (clk_inst c + from_millis ?ttl)"
  from mem.create_task_effect [OF assms(2,1), of lib pol i sid rid tool ttl_ms c] assms(3)
  obtain v where v: "r = new_task_record x i sid rid tool ?ttl c" "tx_from_slice x v = Inr r"
      "memory_ok (ts_kv st')"
      "same_from (clk_inst c) (memory_view (ts_kv st'))
         ((memory_view (ts_kv st))(task_key i \<mapsto> (v, ?d), session_tasks_prefix x sid @ i \<mapsto> (tx_one x, ?d)))"
    by auto
  have "load_reply x (memory_view (ts_kv st')) (clk_inst c') i =
      (if expired_by ?d (clk_inst c') then Inl NotFound else Inr r)"
    using load_reply_same [OF v(4) assms(4), of x i] v(2) by (simp add: load_reply_def live_at_def)
  then show ?thesis
    using mem_get_task_reply [OF v(3), of lib x i sid' c'] v(1) by (auto simp: new_task_record_def)
qed

definition held_tasks :: "'v task_ext \<Rightarrow> string \<Rightarrow> clock \<Rightarrow> 'v memory task_store \<Rightarrow> string set" where
  "held_tasks x sid c st =
     {i. live_at (memory_view (ts_kv st)) (clk_inst c) (session_tasks_prefix x sid @ i) \<noteq> None}"

lemma finite_held_tasks: "finite (held_tasks x sid c st)"
proof -
  have "(\<lambda>i. session_tasks_prefix x sid @ i) ` held_tasks x sid c st \<subseteq> fst ` set (ts_kv st)"
    by (auto simp: held_tasks_def live_memory_view image_iff split: option.splits if_splits
        dest!: map_of_SomeD) force+
  then have "finite ((\<lambda>i. session_tasks_prefix x sid @ i) ` held_tasks x sid c st)"
    by (rule finite_subset) simp
  then show ?thesis by (rule finite_imageD) (simp add: inj_on_def)
qed

lemma list_prefix_counts_held:
  assumes ok: "memory_ok (ts_kv st)"
    and xs: "kv_list_prefix (memory_kv lib) (session_tasks_prefix x sid) n c (ts_kv st) = (Inr xs, s')"
  shows "n \<le> length xs \<longleftrightarrow> n \<le> card (held_tasks x sid c st)" and "s' = ts_kv st"
proof -
  let ?p = "session_tasks_prefix x sid" and ?V = "live_at (memory_view (ts_kv st)) (clk_inst c)"
  let ?H = "(\<lambda>i. ?p @ i) ` held_tasks x sid c st"
  from mem.list_prefix_law [OF ok, of lib ?p n c] xs have l: "distinct (map fst xs)" "length xs \<le> n"
      "\<forall>(k, e) \<in> set xs. prefix ?p k \<and> (\<exists>d. ?V k = Some (ent_bytes e, d))"
      "length xs < n \<longrightarrow> {k. prefix ?p k \<and> ?V k \<noteq> None} \<subseteq> fst ` set xs"
    by auto
  have card: "card ?H = card (held_tasks x sid c st)" "finite ?H"
    using finite_held_tasks [of x sid c st] by (simp_all add: card_image inj_on_def)
  have sub: "fst ` set xs \<subseteq> ?H"
    using l(3) by (fastforce simp: held_tasks_def prefix_def image_iff)
  have len: "length xs = card (fst ` set xs)"
    using distinct_card [OF l(1)] by simp
  have "?H \<subseteq> fst ` set xs" if "length xs < n"
    using l(4) that by (auto simp: held_tasks_def)
  then show "n \<le> length xs \<longleftrightarrow> n \<le> card (held_tasks x sid c st)"
    using sub card len l(2) by (metis card_mono le_trans not_le_imp_less finite_imageI finite_set)
  show "s' = ts_kv st" using xs by (simp add: memory_kv_def memory_list_prefix_def)
qed

text \<open>
  The session quota: a creation is refused exactly when the quota is on and the session's index
  already holds that many live tasks, so no session ever holds more than the quota.
\<close>

theorem create_task_quota:
  assumes "task_ext_ok x" and "memory_ok (ts_kv st)"
    and "create_task (memory_kv lib) x pol i sid rid tool ttl_ms c st = (res, st')"
  shows "(res = Inl (QuotaExceeded (tp_max_tasks_per_session pol)) \<longleftrightarrow>
      0 < tp_max_tasks_per_session pol \<and> tp_max_tasks_per_session pol \<le> card (held_tasks x sid c st))
    \<and> (0 < tp_max_tasks_per_session pol \<and> card (held_tasks x sid c st) \<le> tp_max_tasks_per_session pol \<longrightarrow>
        card (held_tasks x sid c st') \<le> tp_max_tasks_per_session pol)"
proof -
  let ?n = "tp_max_tasks_per_session pol" and ?p = "session_tasks_prefix x sid"
  obtain xs where xs: "kv_list_prefix (memory_kv lib) ?p ?n c (ts_kv st) = (Inr xs, ts_kv st)"
    by (simp add: memory_kv_def memory_list_prefix_def)
  note count = list_prefix_counts_held(1) [OF assms(2) xs]
  let ?ttl = "case ttl_ms of Some m \<Rightarrow> m | None \<Rightarrow> tp_default_ttl_ms pol"
  let ?r = "new_task_record x i sid rid tool ?ttl c"
  obtain st1 where "write_new_task (memory_kv lib) x i sid ?r (from_millis ?ttl) c st = (Inr ?r, st1)"
    using mem.write_new_task_effect [OF assms(2,1)] by blast
  then have quota: "res = Inl (QuotaExceeded ?n) \<longleftrightarrow> 0 < ?n \<and> ?n \<le> card (held_tasks x sid c st)"
    using assms(3) count xs by (auto simp: create_task_def Let_def split: if_splits)
  have grow: "held_tasks x sid c st' \<subseteq> insert i (held_tasks x sid c st)"
    using mem.create_task_effect [OF assms(2,1), of lib pol i sid rid tool ttl_ms c] assms(3)
    by (auto simp: held_tasks_def same_from_def)
  have "card (held_tasks x sid c st') \<le> ?n" if "0 < ?n" "card (held_tasks x sid c st) \<le> ?n"
  proof (cases "?n \<le> card (held_tasks x sid c st)")
    case True
    with quota that have "res = Inl (QuotaExceeded ?n)" by simp
    then have "held_tasks x sid c st' = held_tasks x sid c st"
      using mem.create_task_effect [OF assms(2,1), of lib pol i sid rid tool ttl_ms c] assms(3)
      by (auto simp: held_tasks_def same_from_def)
    with that show ?thesis by simp
  next
    case False
    have "card (held_tasks x sid c st') \<le> card (insert i (held_tasks x sid c st))"
      using grow finite_held_tasks by (intro card_mono) auto
    also have "\<dots> \<le> Suc (card (held_tasks x sid c st))"
      by (rule card_insert_le_m1) auto
    finally show ?thesis using False by simp
  qed
  with quota show ?thesis by blast
qed

section \<open>Deadlines over runs\<close>

text \<open>
  With both clocks \<open>off\<close> apart, every live row of a task ends no earlier than the TTL after its
  creation, and at most a millisecond after the later of that and \<open>now\<close>.
\<close>

definition deadline_ok :: "'v task_ext \<Rightarrow> nat \<Rightarrow> nat \<Rightarrow> 'v \<times> nat option \<Rightarrow> bool" where
  "deadline_ok x off now row \<longleftrightarrow> (\<exists>r ttl e born. tx_from_slice x (fst row) = Inr r
     \<and> t_ttl (tr_task r) = Some ttl \<and> snd row = Some e \<and> tr_created_at_utc r = born + off \<and> born \<le> now
     \<and> born + from_millis ttl \<le> e \<and> e \<le> max (born + from_millis ttl) now + from_millis 1)"

definition deadlines_kept :: "'v task_ext \<Rightarrow> nat \<Rightarrow> nat \<Rightarrow> 'v rows \<Rightarrow> bool" where
  "deadlines_kept x off now m \<longleftrightarrow>
     (\<forall>i row. live_at m now (task_key i) = Some row \<longrightarrow> deadline_ok x off now row)"

lemma live_at_later: "live_at m t' k = Some y \<Longrightarrow> t \<le> t' \<Longrightarrow> live_at m t k = Some y"
  by (cases y) (auto simp: live_at_Some_iff dest: expired_by_mono)

lemma deadline_ok_later: "deadline_ok x off t row \<Longrightarrow> t \<le> t' \<Longrightarrow> deadline_ok x off t' row"
  unfolding deadline_ok_def by (elim exE conjE) (intro exI conjI, assumption+, auto)

lemma deadlines_kept_later: "deadlines_kept x off t m \<Longrightarrow> t \<le> t' \<Longrightarrow> deadlines_kept x off t' m"
  unfolding deadlines_kept_def by (metis live_at_later deadline_ok_later)

lemma deadline_ok_saved:
  assumes "deadlines_kept x off (clk_inst c) m" and "row_saved x pol caller c m m' i"
    and "live_at m' (clk_inst c) (task_key i) = Some row" and "clk_utc c = clk_inst c + off"
  shows "deadline_ok x off (clk_inst c) row"
proof -
  from assms(2) obtain r r' v where s: "load_reply x m (clk_inst c) i = Inr r" "same_identity r r'"
      "tx_from_slice x v = Inr r'"
      "\<forall>t \<ge> clk_inst c. live_at m' t (task_key i) =
          (if clk_inst c + remaining_ttl pol r' c \<le> t then None
           else Some (v, Some (clk_inst c + remaining_ttl pol r' c)))"
    unfolding row_saved_def by blast
  from s(1) obtain w d where w: "live_at m (clk_inst c) (task_key i) = Some (w, d)" "tx_from_slice x w = Inr r"
    by (auto simp: load_reply_def split: option.splits sum.splits)
  with assms(1) obtain ttl born where b: "t_ttl (tr_task r) = Some ttl" "tr_created_at_utc r = born + off"
      "born \<le> clk_inst c"
    by (fastforce simp: deadlines_kept_def deadline_ok_def)
  then have "t_ttl (tr_task r') = Some ttl" "clk_utc c = tr_created_at_utc r' + (clk_inst c - born)"
      "clk_inst c = born + (clk_inst c - born)" "tr_created_at_utc r' = born + off"
    using s(2) assms(4) by (auto simp: same_identity_def)
  with remaining_ttl_bounds [of r' ttl c "clk_inst c - born" born pol] s(3,4) assms(3) b(3)
  show ?thesis
    by (auto simp: deadline_ok_def split: if_splits)
qed

lemma deadline_ok_created:
  assumes "clk_utc c = clk_inst c + off" and "tx_from_slice x v = Inr (new_task_record x i sid rid tool ttl c)"
  shows "deadline_ok x off (clk_inst c) (v, Some (clk_inst c + from_millis ttl))"
  using assms by (auto simp: deadline_ok_def new_task_record_def)

context kv_listing
begin

lemma exec_call_deadlines:
  assumes "ok (ts_kv st)" and "task_ext_ok x" and "clk_utc c = clk_inst c + off"
    and "deadlines_kept x off t (view (ts_kv st))" and "t \<le> clk_inst c"
  shows "deadlines_kept x off (clk_inst c) (view (ts_kv (exec_call list_all_rows kv x pol call c st)))"
  unfolding deadlines_kept_def
proof (intro allI impI)
  let ?st = "exec_call list_all_rows kv x pol call c st"
  fix i row assume row: "live_at (view (ts_kv ?st)) (clk_inst c) (task_key i) = Some row"
  have before: "deadlines_kept x off (clk_inst c) (view (ts_kv st))"
    using assms(4,5) by (rule deadlines_kept_later)
  have kept: "deadline_ok x off (clk_inst c) row"
    if "row_kept (clk_inst c) (view (ts_kv st)) (view (ts_kv ?st)) i"
    using that row before by (cases row) (auto simp: row_kept_def deadlines_kept_def)
  show "deadline_ok x off (clk_inst c) row"
  proof (cases "creates call = Some i")
    case False
    with exec_call_row [OF assms(1,2)] kept deadline_ok_saved [OF before _ row assms(3)] show ?thesis
      by blast
  next
    case True
    then obtain sid rid tool ttl where call: "call = Create i sid rid tool ttl" by (cases call) auto
    from create_task_effect [OF assms(1,2), of pol i sid rid tool ttl c] call row kept
      deadline_ok_created [OF assms(3)]
    show ?thesis
      by (auto simp: row_kept_same same_from_def live_at_upd_same row_kept_def split: if_splits)
  qed
qed

lemma exec_calls_deadlines:
  assumes "ok (ts_kv st)" and "task_ext_ok x" and "timed_from t calls"
    and "\<forall>(call, c) \<in> set calls. clk_utc c = clk_inst c + off \<and> clk_inst c \<le> t'" and "t \<le> t'"
    and "deadlines_kept x off t (view (ts_kv st))"
  shows "deadlines_kept x off t' (view (ts_kv (exec_calls list_all_rows kv x pol calls st)))"
  using assms(1,3-)
proof (induction calls arbitrary: st t)
  case Nil
  then show ?case by (auto intro: deadlines_kept_later)
next
  case (Cons a calls)
  obtain call c where a: "a = (call, c)" by force
  let ?st = "exec_call list_all_rows kv x pol call c st"
  have "creates call \<noteq> Some (CHR ''x'' # (case creates call of None \<Rightarrow> [] | Some i \<Rightarrow> i))"
    by (cases "creates call") auto
  from exec_call_row [OF Cons.prems(1) assms(2) this] have ok: "ok (ts_kv ?st)" by blast
  have "deadlines_kept x off (clk_inst c) (view (ts_kv ?st))"
    using Cons.prems a by (intro exec_call_deadlines [OF Cons.prems(1) assms(2) _ Cons.prems(5)]) auto
  with Cons.IH [OF ok, of "clk_inst c"] Cons.prems a show ?case by auto
qed

end

lemma mem_get_task_live:
  assumes "memory_ok (ts_kv st)" and "fst (get_task (memory_kv lib) x j sid c st) = Inr r"
  shows "\<exists>v d. live_at (memory_view (ts_kv st)) (clk_inst c) (task_key j) = Some (v, d) \<and> tx_from_slice x v = Inr r"
  using mem_get_task_reply [OF assms(1), of lib x j sid c] assms(2)
  by (auto simp: load_reply_def split: option.splits sum.splits if_splits)

text \<open>
  Updates do not move the expiry of a task: after any run of calls on a fresh store, whose last
  one is at \<open>now\<close>, a task is never readable a millisecond or more past the later of its TTL and
  \<open>now\<close>, and a task that is readable at \<open>now\<close> stays readable for the whole of its TTL.  (The two
  clocks advance together.)
\<close>

theorem task_lifetime_bounds:
  assumes "task_ext_ok x" and "timed_from 0 calls"
    and "\<forall>(call, c) \<in> set calls. clk_utc c = clk_inst c + off \<and> clk_inst c \<le> now"
    and "st = exec_calls memory_list_all (memory_kv lib) x pol calls \<lparr>ts_kv = [], ts_observer = None\<rparr>"
    and "now \<le> clk_inst c'" and "clk_inst c0 = now"
  shows "(\<forall>r. fst (get_task (memory_kv lib) x j sid c' st) = Inr r \<longrightarrow>
      (\<exists>ttl born. t_ttl (tr_task r) = Some ttl \<and> tr_created_at_utc r = born + off
         \<and> clk_inst c' < max (born + from_millis ttl) now + from_millis 1))
    \<and> (\<forall>r ttl born. fst (get_task (memory_kv lib) x j sid c0 st) = Inr r \<and> t_ttl (tr_task r) = Some ttl
         \<and> tr_created_at_utc r = born + off \<and> clk_inst c' < born + from_millis ttl \<longrightarrow>
         fst (get_task (memory_kv lib) x j sid c' st) = Inr r)"
proof -
  let ?st0 = "\<lparr>ts_kv = [], ts_observer = None\<rparr>"
  have ok: "memory_ok (ts_kv st)" using mem_exec_calls_ok [of ?st0 x] assms(1,4) by simp
  have "deadlines_kept x off 0 (memory_view (ts_kv ?st0))"
    by (simp add: deadlines_kept_def live_memory_view)
  with mem_all.exec_calls_deadlines [of ?st0 x 0 calls off now lib pol] assms(1-4)
  have dl: "deadlines_kept x off now (memory_view (ts_kv st))" by simp
  show ?thesis
  proof (intro conjI allI impI)
    fix r assume "fst (get_task (memory_kv lib) x j sid c' st) = Inr r"
    with mem_get_task_live [OF ok] obtain v d where v:
        "live_at (memory_view (ts_kv st)) (clk_inst c') (task_key j) = Some (v, d)" "tx_from_slice x v = Inr r"
      by blast
    with live_at_later [OF v(1) assms(5)] dl have "deadline_ok x off now (v, d)"
      by (simp add: deadlines_kept_def)
    with v show "\<exists>ttl born. t_ttl (tr_task r) = Some ttl \<and> tr_created_at_utc r = born + off
         \<and> clk_inst c' < max (born + from_millis ttl) now + from_millis 1"
      by (auto simp: deadline_ok_def live_at_Some_iff)
  next
    fix r ttl born
    assume a: "fst (get_task (memory_kv lib) x j sid c0 st) = Inr r \<and> t_ttl (tr_task r) = Some ttl
         \<and> tr_created_at_utc r = born + off \<and> clk_inst c' < born + from_millis ttl"
    with mem_get_task_live [OF ok] obtain v d where v:
        "live_at (memory_view (ts_kv st)) now (task_key j) = Some (v, d)" "tx_from_slice x v = Inr r"
      using assms(6) by blast
    with dl a have "\<not> expired_by d (clk_inst c')"
      by (fastforce simp: deadlines_kept_def deadline_ok_def)
    with v have "live_at (memory_view (ts_kv st)) (clk_inst c') (task_key j) = Some (v, d)"
      by (simp add: live_at_Some_iff)
    then have "load_reply x (memory_view (ts_kv st)) (clk_inst c') j
        = load_reply x (memory_view (ts_kv st)) (clk_inst c0) j"
      using v assms(6) by (simp add: load_reply_def)
    with a show "fst (get_task (memory_kv lib) x j sid c' st) = Inr r"
      using mem_get_task_reply [OF ok] by simp
  qed
qed

text \<open>
  \<open>tasks/result\<close> replays the terminal envelope: once a worker has stored one, the owner reads
  exactly that envelope for as long as the row lives, and \<open>NotCompleted\<close> never again; a second
  terminal write or a cancellation is refused.
\<close>

theorem stored_result_is_replayed:
  assumes "task_ext_ok x" and "memory_ok (ts_kv st)"
    and "store_task_terminal (memory_kv lib) x pol j status envelope c st = (Inr (), st')"
    and "load_reply x (memory_view (ts_kv st)) (clk_inst c) j = Inr r"
    and "clk_inst c \<le> clk_inst c'"
  shows "fst (get_task_result (memory_kv lib) x j (tr_session_id r) c' st') =
      (if clk_inst c + remaining_ttl pol r c \<le> clk_inst c' then Inl NotFound else Inr envelope)
    \<and> fst (store_task_terminal (memory_kv lib) x pol j status2 envelope2 c st') =
        (if is_terminal_status status2 then Inl AlreadyTerminal
         else Inl (Internal ''store_task_terminal requires a terminal status''))
    \<and> fst (cancel_task (memory_kv lib) x pol j (tr_session_id r) c st') = Inl AlreadyTerminal"
proof -
  let ?f = "with_terminal x status envelope c"
  have final: "is_terminal_status status"
    using assms(3) by (auto simp: store_task_terminal_def split: if_splits)
  have rem: "remaining_ttl pol (?f r) c = remaining_ttl pol r c"
    by (simp add: remaining_ttl_def modify_defs)
  have "refuse_terminal r = None"
  proof (cases "refuse_terminal r")
    case (Some e)
    from mem.modify_task_refused [OF assms(2,1,4), where refuse = refuse_terminal, OF Some]
    have "fst (store_task_terminal (memory_kv lib) x pol j status envelope c st) = Inl e"
      using final by (simp add: store_task_terminal_eq fst_after_modify)
    with assms(3) show ?thesis by simp
  qed
  with mem.modify_task_effect [OF assms(2,1), where c = c and i = j and refuse = refuse_terminal and f = ?f
      and pol = pol and lib = lib] assms(3,4) final
  obtain v where v: "tx_from_slice x v = Inr (?f r)" "memory_ok (ts_kv st')"
      "same_from (clk_inst c) (memory_view (ts_kv st'))
        ((memory_view (ts_kv st))(task_key j \<mapsto> (v, Some (clk_inst c + remaining_ttl pol r c))))"
    by (auto simp: store_task_terminal_eq after_modify_def rem)
  have reply: "load_reply x (memory_view (ts_kv st')) t j =
      (if clk_inst c + remaining_ttl pol r c \<le> t then Inl NotFound else Inr (?f r))" if "clk_inst c \<le> t" for t
    using load_reply_same [OF v(3) that, of x j] v(1) by (simp add: load_reply_def live_at_upd_same)
  have now: "load_reply x (memory_view (ts_kv st')) (clk_inst c) j = Inr (?f r)"
    using reply [of "clk_inst c"] by (simp add: remaining_ttl_def from_millis_def Let_def)
  have fin: "refuse_terminal (?f r) = Some AlreadyTerminal" "refuse_other (tr_session_id r) (?f r) = Some AlreadyTerminal"
      "tr_session_id (?f r) = tr_session_id r" "tr_terminal_envelope (?f r) = Some envelope"
    using final by (simp_all add: modify_defs)
  have "fst (get_task_result (memory_kv lib) x j (tr_session_id r) c' st') =
      (if clk_inst c + remaining_ttl pol r c \<le> clk_inst c' then Inl NotFound else Inr envelope)"
    using mem_get_task_reply [OF v(2), of lib x j "tr_session_id r" c'] reply [OF assms(5)] fin
    by (simp add: get_task_result_reply)
  moreover have "fst (store_task_terminal (memory_kv lib) x pol j status2 envelope2 c st') =
        (if is_terminal_status status2 then Inl AlreadyTerminal
         else Inl (Internal ''store_task_terminal requires a terminal status''))"
    using mem.modify_task_refused [OF v(2) assms(1) now, where refuse = refuse_terminal, OF fin(1)]
    by (cases "is_terminal_status status2")
      (simp add: store_task_terminal_eq fst_after_modify, simp add: store_task_terminal_def)
  moreover have "fst (cancel_task (memory_kv lib) x pol j (tr_session_id r) c st') = Inl AlreadyTerminal"
    using mem.modify_task_refused [OF v(2) assms(1) now, where refuse = "refuse_other (tr_session_id r)", OF fin(2)]
    by (simp add: cancel_task_eq fst_after_modify)
  ultimately show ?thesis by blast
qed


text \<open>
  C34.  A task can be rewound from a terminal state: the methods read and write a record in two store
  calls, so when a status update of the owner and the worker's terminal write overlap, the owner's
  later write discards the terminal envelope, and \<open>tasks/result\<close> answers \<open>NotCompleted\<close> again after
  both calls reported success.
\<close>

theorem overlapping_update_rewinds_terminal:
  assumes "task_ext_ok x" and "memory_ok (ts_kv st)"
    and "load_task (memory_kv lib) x j c1 st = (Inr r, st1)" and "tr_terminal_envelope r = None"
    and "store_task_terminal (memory_kv lib) x pol j Completed envelope c2 st1 = (Inr (), st2)"
    and "save_task (memory_kv lib) x pol j (with_status x Working message c3 r) c3 st2 = (res, st3)"
    and "clk_inst c2 \<le> clk_inst c3" and "clk_inst c3 \<le> clk_inst c4"
    and "clk_inst c4 < clk_inst c3 + remaining_ttl pol r c3"
  shows "res = Inr () \<and> fst (get_task_result (memory_kv lib) x j (tr_session_id r) c4 st3) = Inl NotCompleted"
proof -
  let ?r = "with_status x Working message c3 r"
  have ok1: "memory_ok (ts_kv st1)"
    using mem.load_task_effect [OF assms(2), of lib x j c1] assms(3) by auto
  have "creates (StoreTerminal j Completed envelope) \<noteq> Some j" by simp
  from mem_all.exec_call_row [OF ok1 assms(1) this, of lib pol c2] assms(5) have ok2: "memory_ok (ts_kv st2)"
    by simp
  from mem.save_task_effect [OF ok2 assms(1), of lib pol j ?r c3] assms(6) obtain v where v:
      "res = Inr ()" "tx_from_slice x v = Inr ?r" "memory_ok (ts_kv st3)"
      "same_from (clk_inst c3) (memory_view (ts_kv st3))
         ((memory_view (ts_kv st2))(task_key j \<mapsto> (v, Some (clk_inst c3 + remaining_ttl pol ?r c3))))"
    by auto
  have "remaining_ttl pol ?r c3 = remaining_ttl pol r c3"
    by (simp add: remaining_ttl_def modify_defs)
  then have "load_reply x (memory_view (ts_kv st3)) (clk_inst c4) j = Inr ?r"
    using load_reply_same [OF v(4) assms(8), of x j] v(2) assms(9)
    by (simp add: load_reply_def live_at_upd_same)
  then show ?thesis
    using mem_get_task_reply [OF v(3), of lib x j "tr_session_id r" c4] v(1) assms(4)
    by (simp add: get_task_result_reply modify_defs)
qed

section \<open>Witnesses\<close>

text \<open>A serialiser whose payload keeps the record, and a cluster library for it.\<close>

definition inline_ext :: "(task_record + string) task_ext" where
  "inline_ext = \<lparr>tx_to_vec = (\<lambda>r. Inr (Inl r)),
     tx_from_slice = (\<lambda>v. case v of Inl r \<Rightarrow> Inr r | Inr s \<Rightarrow> Inl ''expected a record''),
     tx_to_rfc3339 = show_nat, tx_b64 = (\<lambda>s. s), tx_one = Inr ''1''\<rparr>"

definition inline_lib :: "(task_record + string) cluster_lib" where
  "inline_lib = \<lparr>cl_parse_counter = (\<lambda>_. Inl ''not a counter''), cl_counter_bytes = (\<lambda>n. Inr ''0''),
     cl_counter_overflow = ''overflow'', cl_floor_add = (\<lambda>a f d. Inr (max f (a + d))),
     cl_from_unordered = (\<lambda>xs p cu n. \<lparr>page_entries = take n xs, page_next = None\<rparr>)\<rparr>"


lemma inline_ext_ok [simp]: "task_ext_ok inline_ext"
  by (simp add: task_ext_ok_def inline_ext_def)

definition sample_task :: "task_status \<Rightarrow> terminal_envelope option \<Rightarrow> task_record" where
  "sample_task status envelope =
     (new_task_record inline_ext ''t1'' ''alice'' JNull ''tool'' 1000 (at_ms 0))
       \<lparr>tr_task := (tr_task (new_task_record inline_ext ''t1'' ''alice'' JNull ''tool'' 1000 (at_ms 0)))
                    \<lparr>t_status := status\<rparr>, tr_terminal_envelope := envelope\<rparr>"

definition sample_store :: "task_record \<Rightarrow> (task_record + string) memory task_store" where
  "sample_store r =
     \<lparr>ts_kv = [(''task:t1'', \<lparr>se_bytes = Inl r, se_expires_system = None, se_expires_instant = Some (from_millis 1000)\<rparr>)],
      ts_observer = None\<rparr>"

lemma sample_store_ok [simp]: "memory_ok (ts_kv (sample_store r))"
  by (simp add: sample_store_def memory_ok_def)

lemma sample_store_reply:
  "t < from_millis 1000 \<Longrightarrow> load_reply inline_ext (memory_view (ts_kv (sample_store r))) t ''t1'' = Inr r"
  by (simp add: load_reply_def live_memory_view sample_store_def task_key_def is_expired_def inline_ext_def)

theorem terminal_task_frozen_witness:
  "fst (get_task (memory_kv inline_lib) inline_ext ''t1'' ''alice'' (at_ms 9)
      (exec_calls memory_list_all (memory_kv inline_lib) inline_ext default_task_policy
         [(Cancel ''t1'' ''alice'', at_ms 3), (UpdateStatus ''t1'' ''alice'' Working None, at_ms 5)]
         (sample_store (sample_task Completed (Some (Success JNull))))))
   = Inr (sample_task Completed (Some (Success JNull)))"
proof -
  let ?r = "sample_task Completed (Some (Success JNull))"
  have "is_terminal_status (t_status (tr_task ?r))"
    by (simp add: sample_task_def is_terminal_status_def)
  moreover have "fst (get_task (memory_kv inline_lib) inline_ext ''t1'' ''alice'' (at_ms 9) (sample_store ?r)) = Inr ?r"
    using mem_get_task_reply [OF sample_store_ok, of inline_lib inline_ext "''t1''" "''alice''" "at_ms 9"]
      sample_store_reply [of "from_millis 9" ?r]
    by (simp add: sample_task_def new_task_record_def from_millis_def)
  moreover have "timed_from (from_millis 1)
      [(Cancel ''t1'' ''alice'', at_ms 3), (UpdateStatus ''t1'' ''alice'' Working None, at_ms 5)]"
    by (simp add: from_millis_def)
  ultimately show ?thesis
    using terminal_task_frozen [OF inline_ext_ok sample_store_ok sample_store_reply, of "from_millis 1" ?r
        "[(Cancel ''t1'' ''alice'', at_ms 3), (UpdateStatus ''t1'' ''alice'' Working None, at_ms 5)]" "at_ms 9"
        inline_lib "''alice''" default_task_policy]
    by (simp add: from_millis_def)
qed

theorem foreign_sessions_cannot_touch_witness:
  "fst (get_task (memory_kv inline_lib) inline_ext ''t1'' ''alice'' (at_ms 9)
      (exec_calls memory_list_all (memory_kv inline_lib) inline_ext default_task_policy
         [(Cancel ''t1'' ''bob'', at_ms 3)] (sample_store (sample_task Working None))))
   = Inr (sample_task Working None)
   \<and> fst (cancel_task (memory_kv inline_lib) inline_ext default_task_policy ''t1'' ''bob'' (at_ms 1)
        (sample_store (sample_task Working None))) = Inl Forbidden"
proof -
  let ?r = "sample_task Working None"
  have owner: "tr_session_id ?r = ''alice''" by (simp add: sample_task_def new_task_record_def)
  have get: "fst (get_task (memory_kv inline_lib) inline_ext ''t1'' ''alice'' (at_ms 9) (sample_store ?r)) = Inr ?r"
    using mem_get_task_reply [OF sample_store_ok, of inline_lib inline_ext "''t1''" "''alice''" "at_ms 9"]
      sample_store_reply [of "from_millis 9" ?r] owner
    by (simp add: from_millis_def)
  have "timed_from (from_millis 1) [(Cancel ''t1'' ''bob'', at_ms 3)]"
    by (simp add: from_millis_def)
  note safe = foreign_sessions_cannot_touch [OF inline_ext_ok sample_store_ok
      sample_store_reply this, where r = ?r and c' = "at_ms 9" and lib = inline_lib and pol = default_task_policy]
  have "clk_inst (at_ms 1) = from_millis 1" by simp
  with safe get owner show ?thesis by (auto simp: from_millis_def)
qed

text \<open>The creation of one task in an empty store, evaluated.\<close>

definition one_task_policy :: task_retention_policy where
  "one_task_policy = default_task_policy\<lparr>tp_max_tasks_per_session := 1\<rparr>"

abbreviation fresh_store :: "(task_record + string) memory task_store" where
  "fresh_store \<equiv> \<lparr>ts_kv = [], ts_observer = None\<rparr>"

definition created_store :: "(task_record + string) memory task_store" where
  "created_store = snd (create_task (memory_kv inline_lib) inline_ext one_task_policy ''t1'' ''alice''
     JNull ''tool'' (Some 1000) (at_ms 0) fresh_store)"

lemma create_one_task:
  "create_task (memory_kv inline_lib) inline_ext one_task_policy ''t1'' ''alice'' JNull ''tool'' (Some 1000)
     (at_ms 0) fresh_store
   = (Inr (new_task_record inline_ext ''t1'' ''alice'' JNull ''tool'' 1000 (at_ms 0)), created_store)"
  by (simp add: created_store_def create_task_def write_new_task_def one_task_policy_def Let_def
      memory_kv_def memory_list_prefix_def live_entries_def memory_put_def inline_ext_def)

theorem created_task_lives_its_ttl_witness:
  "fst (get_task (memory_kv inline_lib) inline_ext ''t1'' ''alice'' (at_ms 999) created_store)
     = Inr (new_task_record inline_ext ''t1'' ''alice'' JNull ''tool'' 1000 (at_ms 0))
   \<and> fst (get_task (memory_kv inline_lib) inline_ext ''t1'' ''alice'' (at_ms 1000) created_store) = Inl NotFound"
proof -
  have "clk_inst (at_ms 0) \<le> clk_inst (at_ms 999)" "clk_inst (at_ms 0) \<le> clk_inst (at_ms 1000)"
    by simp_all
  from created_task_lives_its_ttl [OF inline_ext_ok _ create_one_task this(1), of "''alice''"]
    created_task_lives_its_ttl [OF inline_ext_ok _ create_one_task this(2), of "''alice''"]
  show ?thesis by (simp add: from_millis_def)
qed

theorem create_task_quota_witness:
  "card (held_tasks inline_ext ''alice'' (at_ms 0) created_store) \<le> 1"
proof -
  have "held_tasks inline_ext ''alice'' (at_ms 0) fresh_store = {}"
    by (simp add: held_tasks_def live_memory_view)
  then show ?thesis
    using create_task_quota [OF inline_ext_ok _ create_one_task] by (simp add: one_task_policy_def)
qed

theorem task_lifetime_bounds_witness:
  "fst (get_task (memory_kv inline_lib) inline_ext ''t1'' ''alice'' (at_ms 1001) created_store)
     \<noteq> Inr (new_task_record inline_ext ''t1'' ''alice'' JNull ''tool'' 1000 (at_ms 0))"
proof -
  let ?calls = "[(Create ''t1'' ''alice'' JNull ''tool'' (Some 1000), at_ms 0)]"
  have run: "created_store = exec_calls memory_list_all (memory_kv inline_lib) inline_ext one_task_policy ?calls
      \<lparr>ts_kv = [], ts_observer = None\<rparr>"
    by (simp add: created_store_def)
  have now: "\<forall>(call, c) \<in> set ?calls. clk_utc c = clk_inst c + 0 \<and> clk_inst c \<le> from_millis 0"
    and timed: "timed_from 0 ?calls"
    and later: "from_millis 0 \<le> clk_inst (at_ms 1001)" "clk_inst (at_ms 0) = from_millis 0"
    by simp_all
  show ?thesis
    using task_lifetime_bounds [OF inline_ext_ok timed now run later, of "''t1''" "''alice''"]
    by (auto simp: new_task_record_def from_millis_def)
qed

text \<open>A worker finishes the sample task.\<close>

definition finished_store :: "(task_record + string) memory task_store" where
  "finished_store = snd (store_task_terminal (memory_kv inline_lib) inline_ext default_task_policy ''t1''
     Completed (Success JNull) (at_ms 5) (sample_store (sample_task Working None)))"

lemma finish_sample:
  "store_task_terminal (memory_kv inline_lib) inline_ext default_task_policy ''t1'' Completed (Success JNull)
     (at_ms 5) (sample_store (sample_task Working None)) = (Inr (), finished_store)"
  by (simp add: finished_store_def store_task_terminal_def load_task_def save_task_def sample_store_def
      sample_task_def new_task_record_def memory_kv_def memory_get_def memory_probe_def memory_put_def
      is_expired_def is_terminal_status_def inline_ext_def task_key_def Let_def from_millis_def entry_of_def)

theorem stored_result_is_replayed_witness:
  "fst (get_task_result (memory_kv inline_lib) inline_ext ''t1'' ''alice'' (at_ms 500) finished_store)
     = Inr (Success JNull)
   \<and> fst (cancel_task (memory_kv inline_lib) inline_ext default_task_policy ''t1'' ''alice'' (at_ms 5) finished_store)
     = Inl AlreadyTerminal"
proof -
  let ?r = "sample_task Working None"
  have r: "load_reply inline_ext (memory_view (ts_kv (sample_store ?r))) (clk_inst (at_ms 5)) ''t1'' = Inr ?r"
    by (simp add: sample_store_reply from_millis_def)
  have le: "clk_inst (at_ms 5) \<le> clk_inst (at_ms 500)" by simp
  have "tr_session_id ?r = ''alice''" "remaining_ttl default_task_policy ?r (at_ms 5) = from_millis 995"
    by (simp_all add: sample_task_def new_task_record_def remaining_ttl_def num_milliseconds_def from_millis_def)
  then show ?thesis
    using stored_result_is_replayed [OF inline_ext_ok sample_store_ok finish_sample r le]
    by (simp add: from_millis_def)
qed


theorem overlapping_update_rewinds_terminal_witness:
  "\<exists>st3. save_task (memory_kv inline_lib) inline_ext default_task_policy ''t1''
       (with_status inline_ext Working None (at_ms 6) (sample_task Working None)) (at_ms 6) finished_store = (Inr (), st3)
     \<and> fst (get_task_result (memory_kv inline_lib) inline_ext ''t1'' ''alice'' (at_ms 7) st3) = Inl NotCompleted"
proof -
  let ?r = "sample_task Working None"
  have load: "load_task (memory_kv inline_lib) inline_ext ''t1'' (at_ms 4) (sample_store ?r) = (Inr ?r, sample_store ?r)"
    by (simp add: load_task_def sample_store_def memory_kv_def memory_get_def memory_probe_def
        is_expired_def inline_ext_def task_key_def from_millis_def)
  have r: "tr_terminal_envelope ?r = None" "tr_session_id ?r = ''alice''"
      "remaining_ttl default_task_policy ?r (at_ms 6) = from_millis 994"
    by (simp_all add: sample_task_def new_task_record_def remaining_ttl_def num_milliseconds_def from_millis_def)
  obtain res st3 where save: "save_task (memory_kv inline_lib) inline_ext default_task_policy ''t1''
       (with_status inline_ext Working None (at_ms 6) ?r) (at_ms 6) finished_store = (res, st3)"
    by force
  show ?thesis
    using overlapping_update_rewinds_terminal [OF inline_ext_ok sample_store_ok load r(1) finish_sample save,
        of "at_ms 7"] r(2,3) save
    by (simp add: from_millis_def)
qed

end
