(* ===== verification/Idempotency.thy ===== *)
theory Idempotency
  imports Memory_Kv
begin

text \<open>
  The idempotency extension: \<open>src/runtime/idempotency/\<close> (\<open>mod.rs\<close>, \<open>store.rs\<close>, \<open>kv_store.rs\<close>).

  \<open>KvBackedIdempotencyStore\<close> keeps one record for each scope and key.  Its methods are given as
  whole operations; \<open>reserve_or_get\<close> is also given as the sequence of its store calls
  (\<open>reserve_step\<close>), so that the reservations of several replicas can interleave.  Serde, BLAKE3, hex
  and UUIDs are parameters.  TTLs are assumed to stay below \<open>2^63\<close> ms, where the cast to \<open>i64\<close> in
  the code changes nothing.
\<close>

section \<open>Data\<close>

record idempotency_scope =
  sc_tenant_id :: string
  sc_identity_hash :: string
  sc_method :: string
  sc_tool_name :: string

record cached_outcome =
  co_envelope :: json
  co_original_request_id :: json
  co_original_correlation_id :: string
  co_replay_count :: nat
  co_payload_truncated :: bool

datatype reservation_outcome =
    Reserved string
  | ResInFlight nat
  | ResCompleted cached_outcome nat
  | ResConflict string

datatype peek_outcome =
    PeekInFlight nat
  | PeekCompleted cached_outcome nat
  | PeekConflict string

datatype idempotency_error = IdemInternal string

datatype record_state = RecInFlight | RecCompleted

record idempotency_record =
  ir_request_hash :: string
  ir_state :: record_state
  ir_reservation_id :: string
  ir_outcome :: "cached_outcome option"
  ir_tenant_id :: string
  ir_identity_hash_hex :: string
  ir_method :: string
  ir_tool_name :: string
  ir_created_at :: nat
  ir_expires_at :: nat
  ir_replay_count :: nat

record idempotency_policy =
  ip_default_ttl_ms :: nat
  ip_max_ttl_ms :: nat

definition default_idempotency_policy :: idempotency_policy where
  "default_idempotency_policy = \<lparr>ip_default_ttl_ms = 86400000, ip_max_ttl_ms = 604800000\<rparr>"

record 'v idem_ext =
  ix_to_vec :: "idempotency_record \<Rightarrow> string + 'v"
  ix_from_slice :: "'v \<Rightarrow> string + idempotency_record"
  ix_blake3 :: "string \<Rightarrow> string"
  ix_hex :: "string \<Rightarrow> string"

text \<open>\<open>u32::saturating_add(1)\<close>.\<close>

definition bump_u32 :: "nat \<Rightarrow> nat" where
  "bump_u32 n = min (n + 1) (2 ^ 32 - 1)"

section \<open>Keys\<close>

definition META_KEY_REQUEST :: string where
  "META_KEY_REQUEST = ''dev.mcpg/idempotency-key''"

definition META_KEY_REPLAYED :: string where
  "META_KEY_REPLAYED = ''dev.mcpg/idempotency-replayed''"

definition META_KEY_ORIGINAL_COMPLETED_AT :: string where
  "META_KEY_ORIGINAL_COMPLETED_AT = ''dev.mcpg/idempotency-original-completed-at''"

definition MAX_KEY_LEN :: nat where
  "MAX_KEY_LEN = 255"

datatype key_malformed_reason = NotAString | EmptyKey | TooLong | NonAscii

datatype key_validation = Absent | Valid string | Invalid key_malformed_reason

definition is_ascii :: "string \<Rightarrow> bool" where
  "is_ascii s = (\<forall>ch \<in> set s. of_char ch < (128 :: nat))"

definition validate_request_key :: "json option \<Rightarrow> key_validation" where
  "validate_request_key meta_value =
     (case meta_value of
        None \<Rightarrow> Absent
      | Some value \<Rightarrow>
          if is_null value then Absent
          else
            (case as_str value of
               None \<Rightarrow> Invalid NotAString
             | Some raw \<Rightarrow>
                 (let trimmed = trim raw in
                  if trimmed = [] then Invalid EmptyKey
                  else if MAX_KEY_LEN < length trimmed then Invalid TooLong
                  else if \<not> is_ascii trimmed then Invalid NonAscii
                  else Valid trimmed)))"

definition extract_request_key :: "json option \<Rightarrow> key_validation" where
  "extract_request_key meta =
     (case meta of
        None \<Rightarrow> Absent
      | Some v \<Rightarrow>
          (case as_object v of
             None \<Rightarrow> Absent
           | Some obj \<Rightarrow> validate_request_key (map_of obj META_KEY_REQUEST)))"

definition hash_request_body :: "(string \<Rightarrow> string) \<Rightarrow> (json \<Rightarrow> string + string) \<Rightarrow> string \<Rightarrow> string \<Rightarrow> json option \<Rightarrow> string"
where
  "hash_request_body blake3 to_json_vec meth tool_name arguments =
     blake3 (meth @ [CHR 0x00] @ tool_name @ [CHR 0x00] @
       (case arguments of
          None \<Rightarrow> []
        | Some args \<Rightarrow> (case to_json_vec args of Inl _ \<Rightarrow> [] | Inr bytes \<Rightarrow> bytes)))"

definition hash_identity :: "(string \<Rightarrow> string) \<Rightarrow> string option \<Rightarrow> string option \<Rightarrow> string option \<Rightarrow> string" where
  "hash_identity blake3 subject_id auth_provider issuer =
     (let or_empty = (\<lambda>v. case v of None \<Rightarrow> [] | Some s \<Rightarrow> s) in
      blake3 (or_empty subject_id @ [CHR 0x00] @ or_empty auth_provider @ [CHR 0x00] @ or_empty issuer))"

definition key_hash_hex :: "(string \<Rightarrow> string) \<Rightarrow> (string \<Rightarrow> string) \<Rightarrow> string \<Rightarrow> string" where
  "key_hash_hex blake3 hex key = hex (take 16 (blake3 key))"

text \<open>The replay marker on an envelope; an envelope or a \<open>_meta\<close> that is no object is left alone.\<close>

definition stamp_replay_marker :: "(nat \<Rightarrow> string) \<Rightarrow> json \<Rightarrow> nat \<Rightarrow> json" where
  "stamp_replay_marker to_rfc3339 envelope original_completed_at =
     (case as_object envelope of
        None \<Rightarrow> envelope
      | Some obj \<Rightarrow>
          (let meta = (case map_of obj ''_meta'' of None \<Rightarrow> JObj [] | Some v \<Rightarrow> v);
               meta' = (case as_object meta of
                          None \<Rightarrow> meta
                        | Some meta_obj \<Rightarrow>
                            JObj (AList.update META_KEY_ORIGINAL_COMPLETED_AT
                                    (JStr (to_rfc3339 original_completed_at))
                                    (AList.update META_KEY_REPLAYED (JBool True) meta_obj)))
           in JObj (AList.update ''_meta'' meta' obj)))"

section \<open>The store\<close>

definition storage_key :: "'v idem_ext \<Rightarrow> idempotency_scope \<Rightarrow> string \<Rightarrow> string" where
  "storage_key x scope key =
     ''idempotency/'' @
     ix_hex x (take 16 (ix_blake3 x (sc_tenant_id scope @ '':'' @ sc_identity_hash scope @ '':'' @
                         sc_method scope @ '':'' @ sc_tool_name scope))) @ ''/'' @ key"

definition hex_identity :: "'v idem_ext \<Rightarrow> idempotency_scope \<Rightarrow> string" where
  "hex_identity x scope = ix_hex x (sc_identity_hash scope)"

definition same_scope :: "'v idem_ext \<Rightarrow> idempotency_scope \<Rightarrow> idempotency_record \<Rightarrow> bool" where
  "same_scope x scope r \<longleftrightarrow> ir_tenant_id r = sc_tenant_id scope \<and> ir_identity_hash_hex r = hex_identity x scope
     \<and> ir_method r = sc_method scope \<and> ir_tool_name r = sc_tool_name scope"

definition read_record ::
    "('s, 'v) kv_ops \<Rightarrow> 'v idem_ext \<Rightarrow> idempotency_scope \<Rightarrow> string \<Rightarrow> clock \<Rightarrow> 's \<Rightarrow>
     (idempotency_error + idempotency_record option) \<times> 's" where
  "read_record kv x scope skey c s =
     (case kv_get kv skey c s of
        (Inl e, s1) \<Rightarrow> (Inl (IdemInternal (''kv get: '' @ e)), s1)
      | (Inr None, s1) \<Rightarrow> (Inr None, s1)
      | (Inr (Some entry), s1) \<Rightarrow>
          (case ix_from_slice x (ent_bytes entry) of
             Inl e \<Rightarrow> (Inl (IdemInternal (''decode IdempotencyRecord: '' @ e)), s1)
           | Inr r \<Rightarrow> if \<not> same_scope x scope r then (Inr None, s1) else (Inr (Some r), s1)))"

definition record_remaining_ttl :: "idempotency_record \<Rightarrow> clock \<Rightarrow> duration" where
  "record_remaining_ttl r c =
     (let remaining = num_milliseconds (ir_expires_at r) (clk_utc c) in
      if remaining \<le> 0 then from_millis 1 else from_millis (nat remaining))"

definition bump_record :: "idempotency_record \<Rightarrow> idempotency_record" where
  "bump_record r = r\<lparr>ir_replay_count := bump_u32 (ir_replay_count r)\<rparr>"

text \<open>Writing the bumped replay count is best effort: the store's answer is ignored.\<close>

definition write_bump ::
    "('s, 'v) kv_ops \<Rightarrow> 'v idem_ext \<Rightarrow> string \<Rightarrow> idempotency_record \<Rightarrow> clock \<Rightarrow> 's \<Rightarrow>
     (idempotency_error + unit) \<times> 's" where
  "write_bump kv x skey r c s =
     (case ix_to_vec x (bump_record r) of
        Inl e \<Rightarrow> (Inl (IdemInternal (''encode IdempotencyRecord: '' @ e)), s)
      | Inr bytes \<Rightarrow>
          (Inr (), snd (kv_put kv skey bytes (Some (record_remaining_ttl (bump_record r) c)) c s)))"

definition missing_envelope :: idempotency_error where
  "missing_envelope = IdemInternal ''completed record missing envelope''"

definition peek ::
    "('s, 'v) kv_ops \<Rightarrow> 'v idem_ext \<Rightarrow> idempotency_scope \<Rightarrow> string \<Rightarrow> string \<Rightarrow> clock \<Rightarrow> 's \<Rightarrow>
     (idempotency_error + peek_outcome option) \<times> 's" where
  "peek kv x scope key request_hash c s =
     (let skey = storage_key x scope key in
      case read_record kv x scope skey c s of
        (Inl e, s1) \<Rightarrow> (Inl e, s1)
      | (Inr None, s1) \<Rightarrow> (Inr None, s1)
      | (Inr (Some existing), s1) \<Rightarrow>
          if ir_request_hash existing \<noteq> request_hash
          then (Inr (Some (PeekConflict (ir_request_hash existing))), s1)
          else
            (case ir_state existing of
               RecInFlight \<Rightarrow> (Inr (Some (PeekInFlight (ir_created_at existing))), s1)
             | RecCompleted \<Rightarrow>
                 (case ir_outcome existing of
                    None \<Rightarrow> (Inl missing_envelope, s1)
                  | Some envelope \<Rightarrow>
                      (case write_bump kv x skey existing c s1 of
                         (Inl e, s2) \<Rightarrow> (Inl e, s2)
                       | (Inr _, s2) \<Rightarrow>
                           (Inr (Some (PeekCompleted
                              (envelope\<lparr>co_replay_count := bump_u32 (ir_replay_count existing)\<rparr>)
                              (ir_created_at existing))), s2)))))"

record reserve_request =
  rq_scope :: idempotency_scope
  rq_key :: string
  rq_hash :: string
  rq_ttl_override :: "duration option"
  rq_uuid :: string

definition reserve_ttl_ms :: "idempotency_policy \<Rightarrow> duration option \<Rightarrow> nat" where
  "reserve_ttl_ms pol ttl_override =
     (case ttl_override of
        Some d \<Rightarrow> min (ip_default_ttl_ms pol) (max (as_millis d) 1)
      | None \<Rightarrow> ip_default_ttl_ms pol)"

definition new_reservation ::
    "'v idem_ext \<Rightarrow> idempotency_policy \<Rightarrow> reserve_request \<Rightarrow> clock \<Rightarrow> idempotency_record" where
  "new_reservation x pol rq c =
     \<lparr>ir_request_hash = rq_hash rq, ir_state = RecInFlight, ir_reservation_id = rq_uuid rq,
      ir_outcome = None, ir_tenant_id = sc_tenant_id (rq_scope rq),
      ir_identity_hash_hex = hex_identity x (rq_scope rq), ir_method = sc_method (rq_scope rq),
      ir_tool_name = sc_tool_name (rq_scope rq), ir_created_at = clk_utc c,
      ir_expires_at = clk_utc c + max (from_millis (reserve_ttl_ms pol (rq_ttl_override rq))) (from_millis 1),
      ir_replay_count = 0\<rparr>"

definition claim_ttl :: "idempotency_policy \<Rightarrow> reserve_request \<Rightarrow> duration" where
  "claim_ttl pol rq = from_millis (max (reserve_ttl_ms pol (rq_ttl_override rq)) 1)"

text \<open>How the record of a lost claim is answered.\<close>

definition classify :: "reserve_request \<Rightarrow> idempotency_record \<Rightarrow> idempotency_error + reservation_outcome" where
  "classify rq observed =
     (if ir_request_hash observed \<noteq> rq_hash rq then Inr (ResConflict (ir_request_hash observed))
      else
        (case ir_state observed of
           RecInFlight \<Rightarrow> Inr (ResInFlight (ir_created_at observed))
         | RecCompleted \<Rightarrow>
             (case ir_outcome observed of
                None \<Rightarrow> Inl missing_envelope
              | Some outcome \<Rightarrow> Inr (ResCompleted outcome (ir_created_at observed)))))"

text \<open>The bounded claim loop: \<open>for _ in 0..3\<close>.\<close>

fun claim_loop ::
    "('s, 'v) kv_ops \<Rightarrow> 'v idem_ext \<Rightarrow> idempotency_policy \<Rightarrow> reserve_request \<Rightarrow> 'v \<Rightarrow> nat \<Rightarrow> nat \<Rightarrow> clock \<Rightarrow> 's \<Rightarrow>
     (idempotency_error + reservation_outcome) \<times> 's" where
  "claim_loop kv x pol rq bytes now 0 c s = (Inr (ResInFlight now), s)"
| "claim_loop kv x pol rq bytes now (Suc n) c s =
     (let skey = storage_key x (rq_scope rq) (rq_key rq) in
      case kv_put_if_absent kv skey bytes (Some (claim_ttl pol rq)) c s of
        (Inl e, s1) \<Rightarrow> (Inl (IdemInternal (''kv put_if_absent: '' @ e)), s1)
      | (Inr True, s1) \<Rightarrow> (Inr (Reserved (rq_uuid rq)), s1)
      | (Inr False, s1) \<Rightarrow>
          (case read_record kv x (rq_scope rq) skey c s1 of
             (Inl e, s2) \<Rightarrow> (Inl e, s2)
           | (Inr (Some observed), s2) \<Rightarrow> (classify rq observed, s2)
           | (Inr None, s2) \<Rightarrow> claim_loop kv x pol rq bytes now n c s2))"

definition reserve_or_get ::
    "('s, 'v) kv_ops \<Rightarrow> 'v idem_ext \<Rightarrow> idempotency_policy \<Rightarrow> reserve_request \<Rightarrow> clock \<Rightarrow> 's \<Rightarrow>
     (idempotency_error + reservation_outcome) \<times> 's" where
  "reserve_or_get kv x pol rq c s =
     (let skey = storage_key x (rq_scope rq) (rq_key rq) in
      case read_record kv x (rq_scope rq) skey c s of
        (Inl e, s1) \<Rightarrow> (Inl e, s1)
      | (Inr (Some existing), s1) \<Rightarrow>
          if ir_request_hash existing \<noteq> rq_hash rq then (Inr (ResConflict (ir_request_hash existing)), s1)
          else
            (case ir_state existing of
               RecInFlight \<Rightarrow> (Inr (ResInFlight (ir_created_at existing)), s1)
             | RecCompleted \<Rightarrow>
                 (case ir_outcome existing of
                    None \<Rightarrow> (Inl missing_envelope, s1)
                  | Some cached \<Rightarrow>
                      (case write_bump kv x skey existing c s1 of
                         (Inl e, s2) \<Rightarrow> (Inl e, s2)
                       | (Inr _, s2) \<Rightarrow>
                           (Inr (ResCompleted (cached\<lparr>co_replay_count := bump_u32 (ir_replay_count existing)\<rparr>)
                              (ir_created_at existing)), s2))))
      | (Inr None, s1) \<Rightarrow>
          (case ix_to_vec x (new_reservation x pol rq c) of
             Inl e \<Rightarrow> (Inl (IdemInternal (''encode IdempotencyRecord: '' @ e)), s1)
           | Inr bytes \<Rightarrow> claim_loop kv x pol rq bytes (clk_utc c) 3 c s1))"

text \<open>An evaporated reservation is written anew, with an all-zero request hash.\<close>

definition fresh_completion ::
    "'v idem_ext \<Rightarrow> idempotency_policy \<Rightarrow> idempotency_scope \<Rightarrow> cached_outcome \<Rightarrow> string \<Rightarrow> clock \<Rightarrow> idempotency_record"
where
  "fresh_completion x pol scope outcome uuid c =
     \<lparr>ir_request_hash = replicate 32 (CHR 0x00), ir_state = RecCompleted, ir_reservation_id = uuid,
      ir_outcome = Some outcome, ir_tenant_id = sc_tenant_id scope,
      ir_identity_hash_hex = hex_identity x scope, ir_method = sc_method scope,
      ir_tool_name = sc_tool_name scope, ir_created_at = clk_utc c,
      ir_expires_at = clk_utc c + from_millis (ip_default_ttl_ms pol), ir_replay_count = 0\<rparr>"

definition put_record ::
    "('s, 'v) kv_ops \<Rightarrow> 'v idem_ext \<Rightarrow> string \<Rightarrow> idempotency_record \<Rightarrow> duration \<Rightarrow> clock \<Rightarrow> 's \<Rightarrow>
     (idempotency_error + unit) \<times> 's" where
  "put_record kv x skey r ttl c s =
     (case ix_to_vec x r of
        Inl e \<Rightarrow> (Inl (IdemInternal (''encode IdempotencyRecord: '' @ e)), s)
      | Inr bytes \<Rightarrow>
          (case kv_put kv skey bytes (Some ttl) c s of
             (Inl e, s1) \<Rightarrow> (Inl (IdemInternal (''kv put: '' @ e)), s1)
           | (Inr _, s1) \<Rightarrow> (Inr (), s1)))"

definition complete ::
    "('s, 'v) kv_ops \<Rightarrow> 'v idem_ext \<Rightarrow> idempotency_policy \<Rightarrow> idempotency_scope \<Rightarrow> string \<Rightarrow> cached_outcome \<Rightarrow>
     string \<Rightarrow> clock \<Rightarrow> 's \<Rightarrow> (idempotency_error + unit) \<times> 's" where
  "complete kv x pol scope key outcome uuid c s =
     (let skey = storage_key x scope key in
      case read_record kv x scope skey c s of
        (Inl e, s1) \<Rightarrow> (Inl e, s1)
      | (Inr None, s1) \<Rightarrow>
          put_record kv x skey (fresh_completion x pol scope outcome uuid c)
            (from_millis (max (ip_default_ttl_ms pol) 1)) c s1
      | (Inr (Some r), s1) \<Rightarrow>
          (let r' = r\<lparr>ir_state := RecCompleted, ir_outcome := Some outcome\<rparr> in
           put_record kv x skey r' (record_remaining_ttl r' c) c s1))"

definition gc_expired :: "'s \<Rightarrow> nat" where
  "gc_expired s = 0"

text \<open>The store of a gateway with the feature off.\<close>

definition noop_peek :: "'s \<Rightarrow> (idempotency_error + peek_outcome option) \<times> 's" where
  "noop_peek s = (Inr None, s)"

definition noop_reserve_or_get :: "reserve_request \<Rightarrow> 's \<Rightarrow> (idempotency_error + reservation_outcome) \<times> 's" where
  "noop_reserve_or_get rq s = (Inr (Reserved (rq_uuid rq)), s)"

definition noop_complete :: "'s \<Rightarrow> (idempotency_error + unit) \<times> 's" where
  "noop_complete s = (Inr (), s)"

section \<open>A reservation as a sequence of store calls\<close>

text \<open>
  One step is one call to the store, with the computation up to the next one.  \<open>AtClaim n\<close> has \<open>n\<close>
  tries of the claim loop left.
\<close>

datatype 'v reserve_pc =
    AtStart
  | AtBump idempotency_record reservation_outcome
  | AtClaim nat 'v nat
  | AtClassify nat 'v nat
  | Done "idempotency_error + reservation_outcome"

fun reserve_step ::
    "('s, 'v) kv_ops \<Rightarrow> 'v idem_ext \<Rightarrow> idempotency_policy \<Rightarrow> reserve_request \<Rightarrow> 'v reserve_pc \<Rightarrow> clock \<Rightarrow> 's \<Rightarrow>
     'v reserve_pc \<times> 's" where
  "reserve_step kv x pol rq AtStart c s =
     (case read_record kv x (rq_scope rq) (storage_key x (rq_scope rq) (rq_key rq)) c s of
        (Inl e, s1) \<Rightarrow> (Done (Inl e), s1)
      | (Inr (Some existing), s1) \<Rightarrow>
          if ir_request_hash existing \<noteq> rq_hash rq then (Done (Inr (ResConflict (ir_request_hash existing))), s1)
          else
            (case ir_state existing of
               RecInFlight \<Rightarrow> (Done (Inr (ResInFlight (ir_created_at existing))), s1)
             | RecCompleted \<Rightarrow>
                 (case ir_outcome existing of
                    None \<Rightarrow> (Done (Inl missing_envelope), s1)
                  | Some cached \<Rightarrow>
                      (AtBump existing
                         (ResCompleted (cached\<lparr>co_replay_count := bump_u32 (ir_replay_count existing)\<rparr>)
                            (ir_created_at existing)), s1)))
      | (Inr None, s1) \<Rightarrow>
          (case ix_to_vec x (new_reservation x pol rq c) of
             Inl e \<Rightarrow> (Done (Inl (IdemInternal (''encode IdempotencyRecord: '' @ e))), s1)
           | Inr bytes \<Rightarrow> (AtClaim 3 bytes (clk_utc c), s1)))"
| "reserve_step kv x pol rq (AtBump existing outcome) c s =
     (case write_bump kv x (storage_key x (rq_scope rq) (rq_key rq)) existing c s of
        (Inl e, s1) \<Rightarrow> (Done (Inl e), s1) | (Inr _, s1) \<Rightarrow> (Done (Inr outcome), s1))"
| "reserve_step kv x pol rq (AtClaim 0 bytes now) c s = (Done (Inr (ResInFlight now)), s)"
| "reserve_step kv x pol rq (AtClaim (Suc n) bytes now) c s =
     (case kv_put_if_absent kv (storage_key x (rq_scope rq) (rq_key rq)) bytes (Some (claim_ttl pol rq)) c s of
        (Inl e, s1) \<Rightarrow> (Done (Inl (IdemInternal (''kv put_if_absent: '' @ e))), s1)
      | (Inr True, s1) \<Rightarrow> (Done (Inr (Reserved (rq_uuid rq))), s1)
      | (Inr False, s1) \<Rightarrow> (AtClassify n bytes now, s1))"
| "reserve_step kv x pol rq (AtClassify n bytes now) c s =
     (case read_record kv x (rq_scope rq) (storage_key x (rq_scope rq) (rq_key rq)) c s of
        (Inl e, s1) \<Rightarrow> (Done (Inl e), s1)
      | (Inr (Some observed), s1) \<Rightarrow> (Done (classify rq observed), s1)
      | (Inr None, s1) \<Rightarrow> (AtClaim n bytes now, s1))"
| "reserve_step kv x pol rq (Done res) c s = (Done res, s)"

fun reserve_run ::
    "nat \<Rightarrow> ('s, 'v) kv_ops \<Rightarrow> 'v idem_ext \<Rightarrow> idempotency_policy \<Rightarrow> reserve_request \<Rightarrow> 'v reserve_pc \<Rightarrow> clock \<Rightarrow> 's \<Rightarrow>
     'v reserve_pc \<times> 's" where
  "reserve_run 0 kv x pol rq pc c s = (pc, s)"
| "reserve_run (Suc n) kv x pol rq pc c s =
     (case reserve_step kv x pol rq pc c s of (pc', s') \<Rightarrow> reserve_run n kv x pol rq pc' c s')"

end
