(* ===== verification/Idempotency_Properties.thy ===== *)
theory Idempotency_Properties
  imports Idempotency
begin

text \<open>
  Correctness of the idempotency store over any store that keeps the contract \<open>kv_store\<close>:
  concurrent reservations of one key have one winner for as long as the winner's TTL runs, a
  completed request is replayed to every retry, a different body is always a conflict, and scopes
  that collide on a storage key never see each other's outcome.
\<close>

section \<open>What is relied on outside the repository\<close>

text \<open>A record that is encoded decodes to itself.\<close>

definition idem_ext_ok :: "'v idem_ext \<Rightarrow> bool" where
  "idem_ext_ok x \<longleftrightarrow> (\<forall>r. \<exists>b. ix_to_vec x r = Inr b \<and> ix_from_slice x b = Inr r)"

lemma idem_ext_okE [ext_law]:
  assumes "idem_ext_ok x"
  obtains b where "ix_to_vec x r = Inr b" "ix_from_slice x b = Inr r"
  using assms unfolding idem_ext_ok_def by blast

text \<open>An encoder that stores the record itself, for concrete runs.\<close>

definition inline_idem :: "idempotency_record idem_ext" where
  "inline_idem = \<lparr>ix_to_vec = Inr, ix_from_slice = Inr, ix_blake3 = id, ix_hex = id\<rparr>"

lemma inline_idem_ok: "idem_ext_ok inline_idem"
  by (simp add: idem_ext_ok_def inline_idem_def)

section \<open>The operations over the rows of a store\<close>

text \<open>The record a scope finds under a storage key at a time, when the row decodes.\<close>

definition found_record :: "'v idem_ext \<Rightarrow> idempotency_scope \<Rightarrow> 'v rows \<Rightarrow> nat \<Rightarrow> string \<Rightarrow>
    idempotency_error + idempotency_record option" where
  "found_record x scope m t k =
     (case live_at m t k of
        None \<Rightarrow> Inr None
      | Some (v, _) \<Rightarrow>
          (case ix_from_slice x v of
             Inl e \<Rightarrow> Inl (IdemInternal (''decode IdempotencyRecord: '' @ e))
           | Inr r \<Rightarrow> Inr (if same_scope x scope r then Some r else None)))"

context kv_store
begin

lemma read_record_law:
  assumes "ok s"
  obtains s' where "read_record kv x scope k c s = (found_record x scope (view s) (clk_inst c) k, s')"
    "ok s'" "same_from (clk_inst c) (view s') (view s)"
proof (cases rule: get_cases [OF assms, of k c, case_names gone row])
  case (gone s')
  then show thesis by (intro that) (auto simp: read_record_def found_record_def)
next
  case (row e d s')
  then show thesis
    by (intro that) (auto simp: read_record_def found_record_def split: sum.splits)
qed

lemma put_if_absentE:
  assumes "ok s"
  obtains s' where "kv_put_if_absent kv k v ttl c s = (Inr (live_at (view s) (clk_inst c) k = None), s')" "ok s'"
    "same_from (clk_inst c) (view s')
       (if live_at (view s) (clk_inst c) k = None then (view s)(k \<mapsto> (v, deadline ttl c)) else view s)"
  using put_if_absent_law [OF assms] by blast

lemma write_bump_law:
  assumes "ok s" "ix_to_vec x (bump_record r) = Inr b"
  obtains s' where "write_bump kv x k r c s = (Inr (), s')" "ok s'"
    "same_from (clk_inst c) (view s')
       ((view s)(k \<mapsto> (b, Some (clk_inst c + record_remaining_ttl (bump_record r) c))))"
proof -
  from put_law [OF assms(1), of k b "Some (record_remaining_ttl (bump_record r) c)" c] obtain s' where
    "kv_put kv k b (Some (record_remaining_ttl (bump_record r) c)) c s = (Inr (), s')" "ok s'"
    "same_from (clk_inst c) (view s')
       ((view s)(k \<mapsto> (b, deadline (Some (record_remaining_ttl (bump_record r) c)) c)))"
    by blast
  with assms(2) show thesis by (intro that) (simp_all add: write_bump_def)
qed

lemma put_record_law:
  assumes "ok s" "ix_to_vec x r = Inr b"
  obtains s' where "put_record kv x k r ttl c s = (Inr (), s')" "ok s'"
    "same_from (clk_inst c) (view s') ((view s)(k \<mapsto> (b, Some (clk_inst c + ttl))))"
proof -
  from put_law [OF assms(1), of k b "Some ttl" c] obtain s' where
    "kv_put kv k b (Some ttl) c s = (Inr (), s')" "ok s'"
    "same_from (clk_inst c) (view s') ((view s)(k \<mapsto> (b, deadline (Some ttl) c)))"
    by blast
  with assms(2) show thesis by (intro that) (simp_all add: put_record_def)
qed

end

section \<open>The steps of a reservation\<close>

lemma reserve_run_Done [simp]: "reserve_run m kv x pol rq (Done res) c s = (Done res, s)"
  by (induction m) auto

lemma claim_loop_steps:
  "reserve_run (Suc (2 * n)) kv x pol rq (AtClaim n bytes now) c s =
     (case claim_loop kv x pol rq bytes now n c s of (res, s') \<Rightarrow> (Done res, s'))"
proof (induction n arbitrary: s)
  case 0
  then show ?case by simp
next
  case (Suc n)
  let ?k = "storage_key x (rq_scope rq) (rq_key rq)"
  have step: "reserve_run (Suc (2 * Suc n)) kv x pol rq pc c s =
      (case reserve_step kv x pol rq pc c s of (pc1, s1) \<Rightarrow>
         case reserve_step kv x pol rq pc1 c s1 of (pc2, s2) \<Rightarrow> reserve_run (Suc (2 * n)) kv x pol rq pc2 c s2)"
    for pc and s
    by (simp add: split_def)
  obtain r1 s1 where put: "kv_put_if_absent kv ?k bytes (Some (claim_ttl pol rq)) c s = (r1, s1)"
    by fastforce
  obtain r2 s2 where rd: "read_record kv x (rq_scope rq) ?k c s1 = (r2, s2)"
    by fastforce
  consider e where "r1 = Inl e" | "r1 = Inr True" | e where "r1 = Inr False" "r2 = Inl e"
    | v where "r1 = Inr False" "r2 = Inr (Some v)" | "r1 = Inr False" "r2 = Inr None"
    by (metis (full_types) not_None_eq obj_sumE)
  then show ?case
    by cases (simp_all only: step Suc.IH,
        simp_all add: put rd Let_def Suc.IH del: reserve_run.simps)
qed

lemma reserve_or_get_steps:
  "reserve_run 8 kv x pol rq AtStart c s =
     (case reserve_or_get kv x pol rq c s of (res, s') \<Rightarrow> (Done res, s'))"
proof -
  have first: "reserve_run 8 kv x pol rq AtStart c s =
      (case reserve_step kv x pol rq AtStart c s of (pc1, s1) \<Rightarrow> reserve_run 7 kv x pol rq pc1 c s1)"
    using reserve_run.simps(2) [of 7 kv x pol rq AtStart c s] by (simp del: reserve_step.simps)
  have claim: "reserve_run 7 kv x pol rq (AtClaim 3 v now) c s =
      (case claim_loop kv x pol rq v now 3 c s of (res, s') \<Rightarrow> (Done res, s'))" for v now s
    using claim_loop_steps [of 3 kv x pol rq v now c s] by simp
  have bump: "reserve_run 7 kv x pol rq (AtBump r out) c s =
      (case write_bump kv x (storage_key x (rq_scope rq) (rq_key rq)) r c s of
        (Inl e, s1) \<Rightarrow> (Done (Inl e), s1) | (Inr _, s1) \<Rightarrow> (Done (Inr out), s1))" for r out s
    using reserve_run.simps(2) [of 6 kv x pol rq "AtBump r out" c s] by (auto split: prod.splits sum.splits)
  show ?thesis
    unfolding first reserve_or_get_def Let_def
    by (simp only: reserve_step.simps)
      (auto simp: claim bump split: prod.splits sum.splits option.splits record_state.splits)
qed

section \<open>Replicas that race for a key\<close>

text \<open>
  Each racer runs one \<open>reserve_or_get\<close>; a schedule says which racer makes its next store call and
  when.  The log holds the claims that were granted, the latest first: the racer, the time and the
  deadline of the claim.
\<close>

record ('s, 'v) race =
  rc_pcs :: "nat \<Rightarrow> 'v reserve_pc"
  rc_store :: 's
  rc_log :: "(nat \<times> nat \<times> nat) list"

definition race_key :: "'v idem_ext \<Rightarrow> reserve_request \<Rightarrow> string" where
  "race_key x rq = storage_key x (rq_scope rq) (rq_key rq)"

definition claims :: "'v reserve_pc \<Rightarrow> 'v reserve_pc \<Rightarrow> bool" where
  "claims pc pc' = (case (pc, pc') of (AtClaim _ _ _, Done (Inr (Reserved _))) \<Rightarrow> True | _ \<Rightarrow> False)"

definition race_step ::
    "('s, 'v) kv_ops \<Rightarrow> 'v idem_ext \<Rightarrow> idempotency_policy \<Rightarrow> (nat \<Rightarrow> reserve_request) \<Rightarrow>
     nat \<times> clock \<Rightarrow> ('s, 'v) race \<Rightarrow> ('s, 'v) race" where
  "race_step kv x pol rqs = (\<lambda>(i, c) z.
     (case reserve_step kv x pol (rqs i) (rc_pcs z i) c (rc_store z) of
        (pc', s') \<Rightarrow>
          \<lparr>rc_pcs = (rc_pcs z)(i := pc'), rc_store = s',
           rc_log = (if claims (rc_pcs z i) pc'
                     then [(i, clk_inst c, clk_inst c + claim_ttl pol (rqs i))] else []) @ rc_log z\<rparr>))"

definition race_run ::
    "('s, 'v) kv_ops \<Rightarrow> 'v idem_ext \<Rightarrow> idempotency_policy \<Rightarrow> (nat \<Rightarrow> reserve_request) \<Rightarrow>
     (nat \<times> clock) list \<Rightarrow> 's \<Rightarrow> ('s, 'v) race" where
  "race_run kv x pol rqs sched s =
     fold (race_step kv x pol rqs) sched \<lparr>rc_pcs = (\<lambda>_. AtStart), rc_store = s, rc_log = []\<rparr>"

text \<open>The claims of one key, the latest first.\<close>

definition claims_of ::
    "'v idem_ext \<Rightarrow> (nat \<Rightarrow> reserve_request) \<Rightarrow> string \<Rightarrow> ('s, 'v) race \<Rightarrow> (nat \<times> nat \<times> nat) list" where
  "claims_of x rqs k z = filter (\<lambda>(i, _). race_key x (rqs i) = k) (rc_log z)"

definition in_flight_bytes :: "'v idem_ext \<Rightarrow> 'v \<Rightarrow> bool" where
  "in_flight_bytes x v = (\<exists>r. ix_from_slice x v = Inr r \<and> ir_state r = RecInFlight)"

fun racing_pc :: "'v idem_ext \<Rightarrow> bool \<Rightarrow> 'v reserve_pc \<Rightarrow> bool" where
  "racing_pc x taken AtStart = True"
| "racing_pc x taken (AtBump r out) = False"
| "racing_pc x taken (AtClaim n v now) = (in_flight_bytes x v \<and> (taken \<or> n = 3))"
| "racing_pc x taken (AtClassify n v now) = (in_flight_bytes x v \<and> taken)"
| "racing_pc x taken (Done res) = (taken \<and> isl res = False)"

lemma racing_pc_mono: "racing_pc x taken pc \<Longrightarrow> racing_pc x True pc"
  by (cases pc) auto

text \<open>
  What holds of one key throughout a race that found it free: the row of the latest claim is there
  until its deadline and holds a reservation, and the claims do not overlap.
\<close>

definition race_inv :: "('s \<Rightarrow> 'v rows) \<Rightarrow> ('s \<Rightarrow> bool) \<Rightarrow> 'v idem_ext \<Rightarrow> idempotency_policy \<Rightarrow>
    (nat \<Rightarrow> reserve_request) \<Rightarrow> string \<Rightarrow> nat \<Rightarrow> ('s, 'v) race \<Rightarrow> bool" where
  "race_inv view ok x pol rqs k now z \<longleftrightarrow>
     ok (rc_store z)
     \<and> (\<forall>i. race_key x (rqs i) = k \<longrightarrow> racing_pc x (claims_of x rqs k z \<noteq> []) (rc_pcs z i))
     \<and> (\<forall>v d. live_at (view (rc_store z)) now k = Some (v, d) \<longrightarrow> in_flight_bytes x v \<and> claims_of x rqs k z \<noteq> [])
     \<and> (\<forall>i t d rest. claims_of x rqs k z = (i, t, d) # rest \<longrightarrow>
          t \<le> now \<and> (\<forall>t'. now \<le> t' \<and> t' < d \<longrightarrow> live_at (view (rc_store z)) t' k \<noteq> None))
     \<and> sorted_wrt (\<lambda>(_, t, _) (_, _, d). d \<le> t) (claims_of x rqs k z)
     \<and> (\<forall>i t d. (i, t, d) \<in> set (claims_of x rqs k z) \<longrightarrow> d = t + claim_ttl pol (rqs i))
     \<and> (\<forall>i u. race_key x (rqs i) = k \<and> rc_pcs z i = Done (Inr (Reserved u)) \<longrightarrow>
          i \<in> fst ` set (claims_of x rqs k z))"

lemma found_record_free: "live_at m t k = None \<Longrightarrow> found_record x scope m t k = Inr None"
  by (simp add: found_record_def)

lemma found_record_in_flight:
  assumes "live_at m t k = Some (v, d)" "in_flight_bytes x v"
  obtains "found_record x scope m t k = Inr None"
  | r where "found_record x scope m t k = Inr (Some r)" "ir_state r = RecInFlight"
proof -
  from assms obtain r where "ix_from_slice x v = Inr r" "ir_state r = RecInFlight"
    by (auto simp: in_flight_bytes_def)
  with assms(1) that show thesis by (cases "same_scope x scope r") (auto simp: found_record_def)
qed

lemma new_reservation_in_flight:
  "idem_ext_ok x \<Longrightarrow> \<exists>b. ix_to_vec x (new_reservation x pol rq c) = Inr b \<and> in_flight_bytes x b"
  unfolding idem_ext_ok_def in_flight_bytes_def
  by (metis idempotency_record.select_convs(2) new_reservation_def)

context kv_store
begin

lemma racing_read:
  assumes "ok s" "idem_ext_ok x" "\<forall>v d. live_at (view s) (clk_inst c) k = Some (v, d) \<longrightarrow> in_flight_bytes x v \<and> taken"
  obtains (none) s' where "read_record kv x scope k c s = (Inr None, s')" "ok s'"
      "same_from (clk_inst c) (view s') (view s)"
  | (found) r s' where "read_record kv x scope k c s = (Inr (Some r), s')" "ok s'"
      "same_from (clk_inst c) (view s') (view s)" "ir_state r = RecInFlight" taken
proof -
  from read_record_law [OF assms(1), of x scope k c] obtain s' where
    rd: "read_record kv x scope k c s = (found_record x scope (view s) (clk_inst c) k, s')"
      "ok s'" "same_from (clk_inst c) (view s') (view s)" .
  show thesis
  proof (cases "live_at (view s) (clk_inst c) k")
    case None
    with rd show thesis by (intro none) (auto simp: found_record_free)
  next
    case (Some vd)
    then obtain v d where live: "live_at (view s) (clk_inst c) k = Some (v, d)" by (cases vd) auto
    with assms(3) have "in_flight_bytes x v" taken by auto
    with found_record_in_flight [OF live, of x scope] rd show thesis
      by (metis none found)
  qed
qed

lemma racing_step:
  assumes "ok s" "idem_ext_ok x" "racing_pc x taken pc" and k: "k = race_key x rq"
    and row: "\<forall>v d. live_at (view s) (clk_inst c) k = Some (v, d) \<longrightarrow> in_flight_bytes x v \<and> taken"
  obtains (quiet) pc' s' where "reserve_step kv x pol rq pc c s = (pc', s')" "ok s'"
      "same_from (clk_inst c) (view s') (view s)" "racing_pc x taken pc'" "\<not> claims pc pc'"
      "\<And>u. pc' = Done (Inr (Reserved u)) \<Longrightarrow> pc = pc'"
  | (claim) pc' s' v where "reserve_step kv x pol rq pc c s = (pc', s')" "ok s'"
      "live_at (view s) (clk_inst c) k = None" "in_flight_bytes x v"
      "same_from (clk_inst c) (view s') ((view s)(k \<mapsto> (v, Some (clk_inst c + claim_ttl pol rq))))"
      "racing_pc x True pc'" "claims pc pc'"
proof (cases pc)
  case AtStart
  from new_reservation_in_flight [OF assms(2)] obtain b where
    b: "ix_to_vec x (new_reservation x pol rq c) = Inr b" "in_flight_bytes x b"
    by blast
  show thesis
  proof (cases rule: racing_read [where scope = "rq_scope rq" and c = c and k = k, OF assms(1,2) row, case_names none found])
    case (none s')
    with AtStart b k show thesis by (intro quiet [of "AtClaim 3 b (clk_utc c)" s']) (auto simp: race_key_def claims_def)
  next
    case (found r s')
    with AtStart k show thesis
      by (cases "ir_request_hash r = rq_hash rq") (auto intro!: quiet simp: race_key_def claims_def)
  qed
next
  case (AtClaim n v now)
  with assms(3) have v: "in_flight_bytes x v" "taken \<or> n = 3" by auto
  show thesis
  proof (cases n)
    case 0
    with AtClaim v assms(1) show thesis by (intro quiet [of "Done (Inr (ResInFlight now))" s]) (auto simp: claims_def)
  next
    case (Suc m)
    from put_if_absentE [OF assms(1), of k v "Some (claim_ttl pol rq)" c] obtain s' where
      put: "kv_put_if_absent kv k v (Some (claim_ttl pol rq)) c s = (Inr (live_at (view s) (clk_inst c) k = None), s')"
        "ok s'" "same_from (clk_inst c) (view s')
           (if live_at (view s) (clk_inst c) k = None then (view s)(k \<mapsto> (v, deadline (Some (claim_ttl pol rq)) c)) else view s)" .
    show thesis
    proof (cases "live_at (view s) (clk_inst c) k")
      case None
      with put AtClaim Suc v k show thesis by (intro claim) (auto simp: race_key_def claims_def)
    next
      case (Some vd)
      with row have taken by (cases vd) auto
      with put AtClaim Suc v k Some show thesis by (intro quiet [of "AtClassify m v now" s']) (auto simp: race_key_def claims_def)
    qed
  qed
next
  case (AtClassify n v now)
  from racing_read [where scope = "rq_scope rq", OF assms(1,2) row] show thesis
    by cases (use AtClassify assms(3) k in \<open>auto intro!: quiet simp: race_key_def claims_def classify_def split: if_splits\<close>)
next
  case (Done res)
  with assms show thesis by (intro quiet [of pc s]) (auto simp: claims_def)
qed (use assms in auto)

lemma foreign_step:
  assumes "ok s" "idem_ext_ok x" "race_key x rq \<noteq> k"
  obtains pc' s' where "reserve_step kv x pol rq pc c s = (pc', s')" "ok s'"
    "\<And>t. clk_inst c \<le> t \<Longrightarrow> live_at (view s') t k = live_at (view s) t k"
proof -
  let ?key = "storage_key x (rq_scope rq) (rq_key rq)"
  from assms(3) have ne: "k \<noteq> ?key" by (simp add: race_key_def)
  have touch: "live_at (view s') t k = live_at (view s) t k"
    if "same_from (clk_inst c) (view s') (if b then (view s)(?key \<mapsto> y) else view s)" "clk_inst c \<le> t" for s' b y t
    using same_from_live [OF that] ne by (cases b) simp_all
  have untouched: "live_at (view s') t k = live_at (view s) t k"
    if "same_from (clk_inst c) (view s') (view s)" "clk_inst c \<le> t" for s' t
    using same_from_live [OF that] by simp
  from read_record_law [OF assms(1), of x "rq_scope rq" ?key c] obtain s' where
    rd: "read_record kv x (rq_scope rq) ?key c s = (found_record x (rq_scope rq) (view s) (clk_inst c) ?key, s')"
      "ok s'" "same_from (clk_inst c) (view s') (view s)" .
  show thesis
  proof (cases pc)
    case AtStart
    with rd untouched show thesis
      by (cases "reserve_step kv x pol rq pc c s")
        (auto intro!: that split: sum.splits option.splits if_splits record_state.splits)
  next
    case (AtBump r out)
    from assms(2) obtain b where "ix_to_vec x (bump_record r) = Inr b" by (rule idem_ext_okE)
    from write_bump_law [OF assms(1) this, of ?key c] obtain s2 where
      "write_bump kv x ?key r c s = (Inr (), s2)" "ok s2" "same_from (clk_inst c) (view s2)
         ((view s)(?key \<mapsto> (b, Some (clk_inst c + record_remaining_ttl (bump_record r) c))))" .
    with AtBump touch [of s2 True] show thesis by (intro that [of _ s2]) auto
  next
    case (AtClaim n v now)
    from put_if_absentE [OF assms(1), of ?key v "Some (claim_ttl pol rq)" c] obtain s2 where
      "kv_put_if_absent kv ?key v (Some (claim_ttl pol rq)) c s = (Inr (live_at (view s) (clk_inst c) ?key = None), s2)"
      "ok s2" "same_from (clk_inst c) (view s2) (if live_at (view s) (clk_inst c) ?key = None
         then (view s)(?key \<mapsto> (v, deadline (Some (claim_ttl pol rq)) c)) else view s)" .
    note put = this(1,2) touch [OF this(3)]
    from put AtClaim assms(1) show thesis
      by (cases n; cases "live_at (view s) (clk_inst c) ?key") (auto intro!: that)
  next
    case (AtClassify n v now)
    with rd untouched show thesis
      by (cases "reserve_step kv x pol rq pc c s") (auto intro!: that split: sum.splits option.splits)
  next
    case (Done res)
    with assms show thesis by (intro that) auto
  qed
qed

lemma race_inv_later:
  assumes inv: "race_inv view ok x pol rqs k now z" and "now \<le> t"
  shows "race_inv view ok x pol rqs k t z"
proof -
  have live: "live_at m now k = Some (v, d)" if "live_at m t k = Some (v, d)" for m :: "'v rows" and v d
    using that \<open>now \<le> t\<close> by (auto simp: live_at_Some_iff dest: expired_by_mono)
  show ?thesis
    unfolding race_inv_def
  proof (intro conjI allI impI)
    fix v d assume "live_at (view (rc_store z)) t k = Some (v, d)"
    from live [OF this] inv show "in_flight_bytes x v" "claims_of x rqs k z \<noteq> []"
      unfolding race_inv_def by blast+
  next
    fix i t1 d rest assume l: "claims_of x rqs k z = (i, t1, d) # rest"
    from inv l have "t1 \<le> now" unfolding race_inv_def by blast
    with \<open>now \<le> t\<close> show "t1 \<le> t" by simp
    fix t' assume "t \<le> t' \<and> t' < d"
    with \<open>now \<le> t\<close> have "now \<le> t' \<and> t' < d" by simp
    with inv l show "live_at (view (rc_store z)) t' k \<noteq> None"
      unfolding race_inv_def by blast
  qed (use inv in \<open>unfold race_inv_def, blast+\<close>)
qed

lemma race_inv_step:
  assumes inv: "race_inv view ok x pol rqs k (clk_inst c) z" and x: "idem_ext_ok x"
  shows "race_inv view ok x pol rqs k (clk_inst c) (race_step kv x pol rqs (i, c) z)"
proof -
  let ?s = "rc_store z" and ?cl = "claims_of x rqs k z"
  from inv have inv': "ok ?s"
    "\<And>j. race_key x (rqs j) = k \<Longrightarrow> racing_pc x (?cl \<noteq> []) (rc_pcs z j)"
    "\<forall>v d. live_at (view ?s) (clk_inst c) k = Some (v, d) \<longrightarrow> in_flight_bytes x v \<and> ?cl \<noteq> []"
    "\<And>j t d rest. ?cl = (j, t, d) # rest \<Longrightarrow>
       t \<le> clk_inst c \<and> (\<forall>t'. clk_inst c \<le> t' \<and> t' < d \<longrightarrow> live_at (view ?s) t' k \<noteq> None)"
    "sorted_wrt (\<lambda>(_, t, _) (_, _, d). d \<le> t) ?cl"
    "\<And>j t d. (j, t, d) \<in> set ?cl \<Longrightarrow> d = t + claim_ttl pol (rqs j)"
    "\<And>j u. race_key x (rqs j) = k \<Longrightarrow> rc_pcs z j = Done (Inr (Reserved u)) \<Longrightarrow> j \<in> fst ` set ?cl"
    unfolding race_inv_def by blast+
  show ?thesis
  proof (cases "race_key x (rqs i) = k")
    case False
    from foreign_step [OF inv'(1) x False, of pol "rc_pcs z i" c] obtain pc' s' where st:
      "reserve_step kv x pol (rqs i) (rc_pcs z i) c ?s = (pc', s')" "ok s'"
      "\<And>t. clk_inst c \<le> t \<Longrightarrow> live_at (view s') t k = live_at (view ?s) t k" by blast
    let ?z = "race_step kv x pol rqs (i, c) z"
    have z: "rc_store ?z = s'" "claims_of x rqs k ?z = ?cl"
      "\<And>j. race_key x (rqs j) = k \<Longrightarrow> rc_pcs ?z j = rc_pcs z j"
      using False st by (auto simp: race_step_def claims_of_def)
    show ?thesis
      unfolding race_inv_def z(1,2) using st(2,3) inv'(2-7) by (auto simp: z(3))
  next
    case True
    show ?thesis
    proof (cases rule: racing_step [where pol = pol and c = c, OF inv'(1) x inv'(2) [OF True] True [symmetric] inv'(3), case_names quiet claim])
      case (quiet pc' s')
      let ?z = "race_step kv x pol rqs (i, c) z"
      have z: "rc_store ?z = s'" "claims_of x rqs k ?z = ?cl" "rc_pcs ?z = (rc_pcs z)(i := pc')"
        using quiet(1,5) by (auto simp: race_step_def claims_of_def)
      have live: "live_at (view s') t k = live_at (view ?s) t k" if "clk_inst c \<le> t" for t
        using same_from_live [OF quiet(3) that] by simp
      show ?thesis
        unfolding race_inv_def z using quiet(2,4,6) inv'(2-7) live True by auto
    next
      case (claim pc' s' v)
      let ?z = "race_step kv x pol rqs (i, c) z"
      have z: "rc_store ?z = s'" "rc_pcs ?z = (rc_pcs z)(i := pc')"
        "claims_of x rqs k ?z = (i, clk_inst c, clk_inst c + claim_ttl pol (rqs i)) # ?cl"
        using claim(1,7) True by (auto simp: race_step_def claims_of_def)
      have row: "live_at (view s') t k = (if clk_inst c + claim_ttl pol (rqs i) \<le> t then None
          else Some (v, Some (clk_inst c + claim_ttl pol (rqs i))))" if "clk_inst c \<le> t" for t
        using same_from_live [OF claim(5) that] by (simp add: live_at_upd_same)
      have past: "d \<le> clk_inst c" if "?cl = (j, t, d) # rest" for j t d rest
        using inv'(4) [OF that] claim(3) by (meson leI le_refl)
      have ends: "d \<le> clk_inst c" if "(j, t, d) \<in> set ?cl" for j t d
        using that past inv'(5) inv'(6) by (cases ?cl) fastforce+
      have pcs: "racing_pc x True (rc_pcs ?z j)" if "race_key x (rqs j) = k" for j
        using racing_pc_mono [OF inv'(2) [OF that]] claim(6) by (auto simp: z)
      show ?thesis
        unfolding race_inv_def z(1,3)
        using claim(2,4) row ends pcs inv'(5-7) by (auto simp: z(2) split: if_splits)
    qed
  qed
qed

lemma race_inv_run:
  assumes "race_inv view ok x pol rqs k now z" "idem_ext_ok x" "sorted (now # map (\<lambda>e. clk_inst (snd e)) sched)"
  shows "race_inv view ok x pol rqs k (last (now # map (\<lambda>e. clk_inst (snd e)) sched))
    (fold (race_step kv x pol rqs) sched z)"
  using assms(1,3)
proof (induction sched arbitrary: z now)
  case (Cons e sched)
  obtain i c where e: "e = (i, c)" by fastforce
  with Cons.prems(2) have "now \<le> clk_inst c" by simp
  from race_inv_later [OF Cons.prems(1) this] have "race_inv view ok x pol rqs k (clk_inst c) z" .
  from Cons.IH [OF race_inv_step [OF this assms(2), of i]] Cons.prems(2) e show ?case by simp
qed simp

lemma race_inv_start:
  "ok s \<Longrightarrow> live_at (view s) now k = None \<Longrightarrow>
     race_inv view ok x pol rqs k now \<lparr>rc_pcs = (\<lambda>_. AtStart), rc_store = s, rc_log = []\<rparr>"
  by (simp add: race_inv_def claims_of_def)

lemma race_run_inv:
  assumes "ok s" "live_at (view s) now k = None" "idem_ext_ok x" "sorted (now # map (\<lambda>e. clk_inst (snd e)) sched)"
  shows "\<exists>t. race_inv view ok x pol rqs k t (race_run kv x pol rqs sched s)"
  unfolding race_run_def using race_inv_run [OF race_inv_start [OF assms(1,2)] assms(3,4)] by blast

end

lemmas race_run_inv = kv_store.race_run_inv

text \<open>
  C1.  Replicas race to reserve the same idempotency key, each making the store calls of
  \<open>reserve_or_get\<close> in its own order and at its own times.  If the key was free at the start, then
  however the calls interleave: two granted reservations of the key never overlap (the earlier one's
  TTL has run out before the later one is granted), and whoever finishes finishes without an error,
  after some replica was granted the key.
\<close>

theorem one_reservation_at_a_time:
  assumes "kv_store kv view ok" "ok s" "idem_ext_ok x"
    and "live_at (view s) now k = None" "sorted (now # map (\<lambda>e. clk_inst (snd e)) sched)"
    and "z = race_run kv x pol rqs sched s"
  shows "sorted_wrt (\<lambda>(_, start, _) (_, _, stop). stop \<le> start) (claims_of x rqs k z)
    \<and> (\<forall>(i, start, stop) \<in> set (claims_of x rqs k z). stop = start + claim_ttl pol (rqs i))
    \<and> (\<forall>i u. race_key x (rqs i) = k \<and> rc_pcs z i = Done (Inr (Reserved u)) \<longrightarrow> i \<in> fst ` set (claims_of x rqs k z))
    \<and> (\<forall>i res. race_key x (rqs i) = k \<and> rc_pcs z i = Done res \<longrightarrow> \<not> isl res \<and> claims_of x rqs k z \<noteq> [])"
proof -
  from race_run_inv [OF assms(1,2,4,3,5), of pol rqs] obtain t where
    inv: "race_inv view ok x pol rqs k t z" by (auto simp: assms(6))
  then have "racing_pc x (claims_of x rqs k z \<noteq> []) (rc_pcs z i)" if "race_key x (rqs i) = k" for i
    using that unfolding race_inv_def by blast
  then have "\<not> isl res \<and> claims_of x rqs k z \<noteq> []" if "race_key x (rqs i) = k" "rc_pcs z i = Done res" for i res
    using that by (metis racing_pc.simps(5))
  with inv show ?thesis unfolding race_inv_def by blast
qed

section \<open>A completed request is replayed\<close>

text \<open>Retries of a request, one after the other.\<close>

fun retry_all ::
    "('s, 'v) kv_ops \<Rightarrow> 'v idem_ext \<Rightarrow> idempotency_policy \<Rightarrow> (reserve_request \<times> clock) list \<Rightarrow> 's \<Rightarrow>
     (idempotency_error + reservation_outcome) list \<times> 's" where
  "retry_all kv x pol [] s = ([], s)"
| "retry_all kv x pol ((rq, c) # rest) s =
     (case reserve_or_get kv x pol rq c s of
        (r, s1) \<Rightarrow> (case retry_all kv x pol rest s1 of (rs, s2) \<Rightarrow> (r # rs, s2)))"

text \<open>
  The record under a key up to a millisecond before the instant \<open>stop\<close>: deadlines are recomputed
  from the wall clock in whole milliseconds.
\<close>

definition kept :: "'v idem_ext \<Rightarrow> 'v rows \<Rightarrow> string \<Rightarrow> nat \<Rightarrow> nat \<Rightarrow> idempotency_record \<Rightarrow> bool" where
  "kept x m k now stop r \<longleftrightarrow>
     (\<forall>t. now \<le> t \<and> t + from_millis 1 \<le> stop \<longrightarrow>
        (\<exists>b d. live_at m t k = Some (b, d) \<and> ix_from_slice x b = Inr r))"

lemma kept_same_from: "kept x m k now stop r \<Longrightarrow> same_from now m' m \<Longrightarrow> kept x m' k now stop r"
  unfolding kept_def same_from_def by metis

lemma kept_later: "kept x m k now stop r \<Longrightarrow> now \<le> now' \<Longrightarrow> kept x m k now' stop r"
  unfolding kept_def by (meson le_trans)

lemma kept_found:
  assumes "kept x m k now stop r" "now + from_millis 1 \<le> stop" "same_scope x scope r"
  shows "found_record x scope m now k = Inr (Some r)"
  using assms unfolding kept_def found_record_def by fastforce

lemma kept_written:
  assumes "ix_from_slice x b = Inr r" "stop < d + from_millis 1"
  shows "kept x (m(k \<mapsto> (b, Some d))) k now stop r"
  unfolding kept_def using assms by (auto simp: live_at_upd_same)

lemma remaining_ttl_stop:
  assumes "clk_utc c = clk_inst c + offset" "ir_expires_at r = stop + offset" "clk_inst c + from_millis 1 \<le> stop"
  shows "stop < clk_inst c + record_remaining_ttl r c + from_millis 1"
  using assms
  by (auto simp: record_remaining_ttl_def num_milliseconds_def from_millis_def Let_def)

lemma remaining_ttl_pos: "0 < record_remaining_ttl r c"
  by (simp add: record_remaining_ttl_def Let_def)

lemma bump_record_simps [simp]:
  "ir_request_hash (bump_record r) = ir_request_hash r" "ir_state (bump_record r) = ir_state r"
  "ir_outcome (bump_record r) = ir_outcome r" "ir_created_at (bump_record r) = ir_created_at r"
  "ir_expires_at (bump_record r) = ir_expires_at r" "same_scope x scope (bump_record r) = same_scope x scope r"
  "ir_replay_count (bump_record r) = bump_u32 (ir_replay_count r)"
  by (simp_all add: bump_record_def same_scope_def)

lemma new_reservation_simps [simp]:
  "ir_request_hash (new_reservation x pol rq c) = rq_hash rq" "same_scope x (rq_scope rq) (new_reservation x pol rq c)"
  "ir_created_at (new_reservation x pol rq c) = clk_utc c" "ir_replay_count (new_reservation x pol rq c) = 0"
  "ir_expires_at (new_reservation x pol rq c) = clk_utc c + claim_ttl pol rq"
  by (simp_all add: new_reservation_def same_scope_def claim_ttl_def max_def)

context kv_store
begin

lemma reserve_free:
  assumes "ok s" "idem_ext_ok x" "k = race_key x rq" "live_at (view s) (clk_inst c) k = None"
  obtains s' where "reserve_or_get kv x pol rq c s = (Inr (Reserved (rq_uuid rq)), s')" "ok s'"
    "kept x (view s') k (clk_inst c) (clk_inst c + claim_ttl pol rq) (new_reservation x pol rq c)"
proof -
  from assms(2) obtain b where b: "ix_to_vec x (new_reservation x pol rq c) = Inr b"
    "ix_from_slice x b = Inr (new_reservation x pol rq c)" by (rule idem_ext_okE)
  from read_record_law [OF assms(1), of x "rq_scope rq" k c] obtain s1 where
    rd: "read_record kv x (rq_scope rq) k c s = (Inr None, s1)" "ok s1" "same_from (clk_inst c) (view s1) (view s)"
    using assms(4) by (auto simp: found_record_free)
  then have free: "live_at (view s1) (clk_inst c) k = None"
    using same_from_live [OF rd(3)] assms(4) by simp
  from put_if_absentE [OF rd(2), of k b "Some (claim_ttl pol rq)" c] free obtain s2 where
    "kv_put_if_absent kv k b (Some (claim_ttl pol rq)) c s1 = (Inr True, s2)" "ok s2"
    "same_from (clk_inst c) (view s2) ((view s1)(k \<mapsto> (b, Some (clk_inst c + claim_ttl pol rq))))" by auto
  note put = this(1,2) kept_same_from [OF kept_written [OF b(2), of "clk_inst c + claim_ttl pol rq"] this(3)]
  show thesis
    using rd b put assms(3)
    by (intro that [of s2]) (simp_all add: reserve_or_get_def Let_def race_key_def numeral_3_eq_3)
qed

lemma complete_kept:
  assumes "ok s" "idem_ext_ok x" "k = storage_key x scope key" "same_scope x scope r"
    and "kept x (view s) k (clk_inst c) stop r" "clk_inst c + from_millis 1 \<le> stop"
    and "clk_utc c = clk_inst c + offset" "ir_expires_at r = stop + offset"
  obtains s' where "complete kv x pol scope key out uuid c s = (Inr (), s')" "ok s'"
    "kept x (view s') k (clk_inst c) stop (r\<lparr>ir_state := RecCompleted, ir_outcome := Some out\<rparr>)"
proof -
  let ?r = "r\<lparr>ir_state := RecCompleted, ir_outcome := Some out\<rparr>"
  from assms(2) obtain b where b: "ix_to_vec x ?r = Inr b" "ix_from_slice x b = Inr ?r" by (rule idem_ext_okE)
  from read_record_law [OF assms(1), of x scope k c] kept_found [OF assms(5,6,4)] obtain s1 where
    rd: "read_record kv x scope k c s = (Inr (Some r), s1)" "ok s1" by auto
  from put_record_law [where k = k and c = c and ttl = "record_remaining_ttl ?r c", OF rd(2) b(1)] obtain s2 where
    put: "put_record kv x k ?r (record_remaining_ttl ?r c) c s1 = (Inr (), s2)" "ok s2"
      "same_from (clk_inst c) (view s2) ((view s1)(k \<mapsto> (b, Some (clk_inst c + record_remaining_ttl ?r c))))" .
  have "stop < clk_inst c + record_remaining_ttl ?r c + from_millis 1"
    using assms(6-8) by (intro remaining_ttl_stop) auto
  from kept_same_from [OF kept_written [OF b(2) this] put(3)] put(1,2) rd assms(3) show thesis
    by (intro that [of s2]) (simp_all add: complete_def Let_def)
qed

lemma replay_kept:
  assumes "ok s" "idem_ext_ok x" "k = race_key x rq" "same_scope x (rq_scope rq) r" "ir_request_hash r = rq_hash rq"
    and "ir_state r = RecCompleted" "ir_outcome r = Some out"
    and "kept x (view s) k (clk_inst c) stop r" "clk_inst c + from_millis 1 \<le> stop"
    and "clk_utc c = clk_inst c + offset" "ir_expires_at r = stop + offset"
  obtains s' where "reserve_or_get kv x pol rq c s =
      (Inr (ResCompleted (out\<lparr>co_replay_count := bump_u32 (ir_replay_count r)\<rparr>) (ir_created_at r)), s')" "ok s'"
    "kept x (view s') k (clk_inst c) stop (bump_record r)"
proof -
  from assms(2) obtain b where b: "ix_to_vec x (bump_record r) = Inr b" "ix_from_slice x b = Inr (bump_record r)"
    by (rule idem_ext_okE)
  from read_record_law [OF assms(1), of x "rq_scope rq" k c] kept_found [OF assms(8,9,4)] obtain s1 where
    rd: "read_record kv x (rq_scope rq) k c s = (Inr (Some r), s1)" "ok s1" by auto
  from write_bump_law [where k = k and c = c, OF rd(2) b(1)] obtain s2 where
    put: "write_bump kv x k r c s1 = (Inr (), s2)" "ok s2"
      "same_from (clk_inst c) (view s2)
         ((view s1)(k \<mapsto> (b, Some (clk_inst c + record_remaining_ttl (bump_record r) c))))" .
  have "stop < clk_inst c + record_remaining_ttl (bump_record r) c + from_millis 1"
    using assms(9-11) by (intro remaining_ttl_stop) auto
  from kept_same_from [OF kept_written [OF b(2) this] put(3)] put(1,2) rd assms(3,5-7) show thesis
    by (intro that [of s2]) (simp_all add: reserve_or_get_def Let_def race_key_def)
qed

lemma retries_kept:
  assumes "ok s" "idem_ext_ok x" "same_scope x scope r" "k = storage_key x scope key"
    and "ir_state r = RecCompleted" "ir_outcome r = Some out" "ir_expires_at r = stop + offset"
    and "kept x (view s) k now stop r" "sorted (now # map (\<lambda>e. clk_inst (snd e)) rs)"
    and "\<forall>(rq, c) \<in> set rs. rq_scope rq = scope \<and> rq_key rq = key \<and> rq_hash rq = ir_request_hash r
       \<and> clk_utc c = clk_inst c + offset \<and> clk_inst c + from_millis 1 \<le> stop"
  shows "fst (retry_all kv x pol rs s) =
    map (\<lambda>i. Inr (ResCompleted (out\<lparr>co_replay_count := (bump_u32 ^^ Suc i) (ir_replay_count r)\<rparr>) (ir_created_at r)))
      [0..<length rs]"
  using assms(1,3,5-)
proof (induction rs arbitrary: s r now)
  case (Cons e rs)
  obtain rq c where e: "e = (rq, c)" by fastforce
  from Cons.prems e have le: "now \<le> clk_inst c" and rq: "rq_scope rq = scope" "rq_key rq = key"
      "rq_hash rq = ir_request_hash r" and c: "clk_utc c = clk_inst c + offset" "clk_inst c + from_millis 1 \<le> stop"
    by auto
  have k: "k = race_key x rq" using assms(4) rq by (simp add: race_key_def)
  from replay_kept [OF Cons.prems(1) assms(2) k _ rq(3) [symmetric] Cons.prems(3,4)
      kept_later [OF Cons.prems(6) le] c(2,1) Cons.prems(5), of pol] Cons.prems(2) rq(1) obtain s' where st:
    "reserve_or_get kv x pol rq c s =
       (Inr (ResCompleted (out\<lparr>co_replay_count := bump_u32 (ir_replay_count r)\<rparr>) (ir_created_at r)), s')" "ok s'"
    "kept x (view s') k (clk_inst c) stop (bump_record r)" by auto
  have "fst (retry_all kv x pol rs s') = map (\<lambda>i. Inr (ResCompleted (out\<lparr>co_replay_count :=
        (bump_u32 ^^ Suc i) (ir_replay_count (bump_record r))\<rparr>) (ir_created_at (bump_record r)))) [0..<length rs]"
    using Cons.prems e st by (intro Cons.IH [where now = "clk_inst c"]) auto
  then show ?case
    using st(1) e by (simp add: split_def upt_conv_Cons map_Suc_upt [symmetric] o_def funpow_swap1 del: upt_Suc)
qed simp

lemma conflict_found:
  assumes "ok s" "found_record x (rq_scope rq) (view s) (clk_inst c) (race_key x rq) = Inr (Some r)"
    "ir_request_hash r \<noteq> rq_hash rq"
  obtains s' where "reserve_or_get kv x pol rq c s = (Inr (ResConflict (ir_request_hash r)), s')"
    "peek kv x (rq_scope rq) (rq_key rq) (rq_hash rq) c s = (Inr (Some (PeekConflict (ir_request_hash r))), s')"
    "ok s'" "same_from (clk_inst c) (view s') (view s)"
proof -
  from read_record_law [OF assms(1), of x "rq_scope rq" "race_key x rq" c] assms(2) obtain s' where
    "read_record kv x (rq_scope rq) (race_key x rq) c s = (Inr (Some r), s')" "ok s'"
    "same_from (clk_inst c) (view s') (view s)" by auto
  with assms(3) that show thesis
    by (auto simp: reserve_or_get_def peek_def Let_def race_key_def)
qed

lemma late_completion_row:
  assumes "ok s" "idem_ext_ok x" "k = storage_key x scope key" "live_at (view s) (clk_inst c) k = None"
  obtains s' where "complete kv x pol scope key out uuid c s = (Inr (), s')" "ok s'"
    "\<And>t. clk_inst c \<le> t \<Longrightarrow> t < clk_inst c + from_millis (max (ip_default_ttl_ms pol) 1) \<Longrightarrow>
       found_record x scope (view s') t k = Inr (Some (fresh_completion x pol scope out uuid c))"
proof -
  let ?r = "fresh_completion x pol scope out uuid c" and ?ttl = "from_millis (max (ip_default_ttl_ms pol) 1)"
  from assms(2) obtain b where b: "ix_to_vec x ?r = Inr b" "ix_from_slice x b = Inr ?r" by (rule idem_ext_okE)
  from read_record_law [OF assms(1), of x scope k c] assms(4) obtain s1 where
    rd: "read_record kv x scope k c s = (Inr None, s1)" "ok s1" by (auto simp: found_record_free)
  from put_record_law [where k = k and c = c and ttl = ?ttl, OF rd(2) b(1)] obtain s2 where
    put: "put_record kv x k ?r ?ttl c s1 = (Inr (), s2)" "ok s2"
      "same_from (clk_inst c) (view s2) ((view s1)(k \<mapsto> (b, Some (clk_inst c + ?ttl))))" .
  have "found_record x scope (view s2) t k = Inr (Some ?r)" if "clk_inst c \<le> t" "t < clk_inst c + ?ttl" for t
    using same_from_live [OF put(3) that(1)] that(2) b(2)
    by (simp add: found_record_def live_at_upd_same same_scope_def fresh_completion_def)
  with rd put(1,2) assms(3) show thesis by (intro that [of s2]) (simp_all add: complete_def Let_def)
qed

lemma collision_loop:
  assumes "ok s" "live_at (view s) (clk_inst c) (race_key x rq) = Some (v, d)" "ix_from_slice x v = Inr r"
    "\<not> same_scope x (rq_scope rq) r"
  shows "\<exists>s'. claim_loop kv x pol rq bytes now n c s = (Inr (ResInFlight now), s') \<and> ok s'
    \<and> same_from (clk_inst c) (view s') (view s)"
  using assms(1,2)
proof (induction n arbitrary: s)
  case (Suc n)
  let ?k = "race_key x rq"
  from put_if_absentE [OF Suc.prems(1), of ?k bytes "Some (claim_ttl pol rq)" c] Suc.prems(2) obtain s1 where
    put: "kv_put_if_absent kv ?k bytes (Some (claim_ttl pol rq)) c s = (Inr False, s1)" "ok s1"
      "same_from (clk_inst c) (view s1) (view s)" by auto
  then have live1: "live_at (view s1) (clk_inst c) ?k = Some (v, d)" using same_from_live Suc.prems(2) by fastforce
  from read_record_law [OF put(2), of x "rq_scope rq" ?k c] live1 assms(3,4) obtain s2 where
    rd: "read_record kv x (rq_scope rq) ?k c s1 = (Inr None, s2)" "ok s2" "same_from (clk_inst c) (view s2) (view s1)"
    by (auto simp: found_record_def)
  then have live2: "live_at (view s2) (clk_inst c) ?k = Some (v, d)" using same_from_live live1 by fastforce
  from Suc.IH [OF rd(2) live2] obtain s3 where
    "claim_loop kv x pol rq bytes now n c s2 = (Inr (ResInFlight now), s3)" "ok s3"
    "same_from (clk_inst c) (view s3) (view s2)" by blast
  with put rd show ?case by (auto simp: Let_def race_key_def intro: same_from_trans)
qed simp

end

section \<open>Properties\<close>

text \<open>
  C12.  A request that reserved a free key and completed is replayed: every retry of it that arrives
  before the reservation's TTL is over (to a millisecond) gets the stored outcome, with the number of the
  replay and the time of the reservation.
\<close>

theorem completed_request_is_replayed:
  assumes "kv_store kv view ok" "ok s" "idem_ext_ok x"
    and "live_at (view s) (clk_inst c) (race_key x rq) = None"
    and "reserve_or_get kv x pol rq c s = (r0, s0)"
    and "complete kv x pol (rq_scope rq) (rq_key rq) out uuid c1 s0 = (r1, s1)"
    and "\<forall>(rq', c') \<in> set retries. rq_scope rq' = rq_scope rq \<and> rq_key rq' = rq_key rq \<and> rq_hash rq' = rq_hash rq"
    and "sorted (clk_inst c # clk_inst c1 # map (\<lambda>e. clk_inst (snd e)) retries)"
    and "\<forall>c' \<in> {c, c1} \<union> snd ` set retries.
           clk_utc c' = clk_inst c' + offset \<and> clk_inst c' + from_millis 1 \<le> clk_inst c + claim_ttl pol rq"
  shows "r0 = Inr (Reserved (rq_uuid rq)) \<and> r1 = Inr ()
    \<and> fst (retry_all kv x pol retries s1) =
        map (\<lambda>i. Inr (ResCompleted (out\<lparr>co_replay_count := (bump_u32 ^^ Suc i) 0\<rparr>) (clk_utc c))) [0..<length retries]"
proof -
  note laws = kv_store.reserve_free [OF assms(1-3) refl assms(4), of pol]
    kv_store.complete_kept [OF assms(1)] kv_store.retries_kept [OF assms(1)]
  let ?stop = "clk_inst c + claim_ttl pol rq" and ?r = "new_reservation x pol rq c"
  let ?done = "?r\<lparr>ir_state := RecCompleted, ir_outcome := Some out\<rparr>"
  from laws(1) assms(5) have r0: "r0 = Inr (Reserved (rq_uuid rq))" "ok s0"
    "kept x (view s0) (race_key x rq) (clk_inst c) ?stop ?r" by auto
  have times: "clk_inst c \<le> clk_inst c1" "clk_utc c1 = clk_inst c1 + offset" "clk_inst c1 + from_millis 1 \<le> ?stop"
    "ir_expires_at ?r = ?stop + offset" using assms(8,9) by auto
  have key: "race_key x rq = storage_key x (rq_scope rq) (rq_key rq)" by (simp add: race_key_def)
  from laws(2) [where pol = pol and out = out and uuid = uuid, OF r0(2) assms(3) key
      new_reservation_simps(2) kept_later [OF r0(3) times(1)] times(3,2,4)]
  obtain s' where "complete kv x pol (rq_scope rq) (rq_key rq) out uuid c1 s0 = (Inr (), s')" "ok s'"
    "kept x (view s') (race_key x rq) (clk_inst c1) ?stop ?done" .
  with assms(6) have r1: "r1 = Inr ()" "ok s1" "kept x (view s1) (race_key x rq) (clk_inst c1) ?stop ?done"
    by simp_all
  have "fst (retry_all kv x pol retries s1) = map (\<lambda>i. Inr (ResCompleted (out\<lparr>co_replay_count :=
      (bump_u32 ^^ Suc i) (ir_replay_count ?done)\<rparr>) (ir_created_at ?done))) [0..<length retries]"
  proof (rule laws(3) [OF r1(2) assms(3) _ _ _ _ _ r1(3)])
    show "same_scope x (rq_scope rq) ?done" by (simp add: same_scope_def new_reservation_def)
    show "race_key x rq = storage_key x (rq_scope rq) (rq_key rq)" by (simp add: race_key_def)
    show "ir_expires_at ?done = ?stop + offset" using times(4) by simp
    show "sorted (clk_inst c1 # map (\<lambda>e. clk_inst (snd e)) retries)" using assms(8) by simp
    show "\<forall>(rq', c') \<in> set retries. rq_scope rq' = rq_scope rq \<and> rq_key rq' = rq_key rq
        \<and> rq_hash rq' = ir_request_hash ?done \<and> clk_utc c' = clk_inst c' + offset \<and> clk_inst c' + from_millis 1 \<le> ?stop"
      using assms(7,9) by fastforce
  qed simp_all
  with r0(1) r1(1) show ?thesis by simp
qed

text \<open>
  The same key with a different body is always a conflict: \<open>peek\<close> and \<open>reserve_or_get\<close> answer
  with the hash that was stored, in whatever state the request is, and change nothing.
\<close>

theorem different_body_conflicts:
  assumes "kv_store kv view ok" "ok s"
    and "found_record x (rq_scope rq) (view s) (clk_inst c) (race_key x rq) = Inr (Some r)"
    and "ir_request_hash r \<noteq> rq_hash rq"
  shows "\<exists>s'. reserve_or_get kv x pol rq c s = (Inr (ResConflict (ir_request_hash r)), s')
    \<and> peek kv x (rq_scope rq) (rq_key rq) (rq_hash rq) c s = (Inr (Some (PeekConflict (ir_request_hash r))), s')
    \<and> same_from (clk_inst c) (view s') (view s)"
  using kv_store.conflict_found [OF assms] by metis

text \<open>
  A scope whose storage key collides with another's (the key holds a truncated hash of the
  scope) never gets the other's outcome: \<open>peek\<close> finds nothing, \<open>reserve_or_get\<close> answers that
  a request is in flight, and neither changes the other's row.
\<close>

theorem colliding_scope_gets_no_outcome:
  assumes "kv_store kv view ok" "ok s" "idem_ext_ok x"
    and "live_at (view s) (clk_inst c) (race_key x rq) = Some (v, d)" "ix_from_slice x v = Inr r"
    and "\<not> same_scope x (rq_scope rq) r"
  shows "(\<exists>s'. reserve_or_get kv x pol rq c s = (Inr (ResInFlight (clk_utc c)), s') \<and> same_from (clk_inst c) (view s') (view s))
    \<and> (\<exists>s'. peek kv x (rq_scope rq) (rq_key rq) h c s = (Inr None, s') \<and> same_from (clk_inst c) (view s') (view s))"
proof -
  let ?k = "race_key x rq"
  from kv_store.read_record_law [OF assms(1,2), of x "rq_scope rq" ?k c] assms(4-6) obtain s1 where
    rd: "read_record kv x (rq_scope rq) ?k c s = (Inr None, s1)" "ok s1" "same_from (clk_inst c) (view s1) (view s)"
    by (auto simp: found_record_def)
  then have live: "live_at (view s1) (clk_inst c) ?k = Some (v, d)" using same_from_live assms(4) by fastforce
  obtain b where b: "ix_to_vec x (new_reservation x pol rq c) = Inr b" using idem_ext_okE [OF assms(3)] .
  from kv_store.collision_loop [OF assms(1) rd(2) live assms(5,6), of pol b "clk_utc c" 3] obtain s2 where
    "claim_loop kv x pol rq b (clk_utc c) 3 c s1 = (Inr (ResInFlight (clk_utc c)), s2)"
    "same_from (clk_inst c) (view s2) (view s1)" by blast
  with rd b have "reserve_or_get kv x pol rq c s = (Inr (ResInFlight (clk_utc c)), s2)"
    "same_from (clk_inst c) (view s2) (view s)"
    by (auto simp: reserve_or_get_def race_key_def Let_def intro: same_from_trans)
  moreover have "peek kv x (rq_scope rq) (rq_key rq) h c s = (Inr None, s1)"
    using rd(1) by (simp add: peek_def race_key_def Let_def)
  ultimately show ?thesis using rd(3) by blast
qed

text \<open>
  A completion that comes after its reservation ran out does not make retries replay: the outcome
  is stored under an all-zero request hash, so every retry of the request is answered as a conflict
  until that row expires.
\<close>

theorem late_completion_answers_conflict:
  assumes "kv_store kv view ok" "ok s" "idem_ext_ok x"
    and "live_at (view s) (clk_inst c) (race_key x rq) = None"
    and "complete kv x pol (rq_scope rq) (rq_key rq) out uuid c s = (r1, s1)"
    and "clk_inst c \<le> clk_inst c'" "clk_inst c' < clk_inst c + from_millis (max (ip_default_ttl_ms pol) 1)"
    and "rq_hash rq \<noteq> replicate 32 (CHR 0x00)"
  shows "r1 = Inr () \<and> fst (reserve_or_get kv x pol rq c' s1) = Inr (ResConflict (replicate 32 (CHR 0x00)))"
proof -
  have key: "race_key x rq = storage_key x (rq_scope rq) (rq_key rq)" by (simp add: race_key_def)
  from kv_store.late_completion_row [where pol = pol and out = out and uuid = uuid, OF assms(1-3) key assms(4)]
  obtain s' where "complete kv x pol (rq_scope rq) (rq_key rq) out uuid c s = (Inr (), s')" "ok s'"
    "\<And>t. clk_inst c \<le> t \<Longrightarrow> t < clk_inst c + from_millis (max (ip_default_ttl_ms pol) 1) \<Longrightarrow>
       found_record x (rq_scope rq) (view s') t (race_key x rq) =
         Inr (Some (fresh_completion x pol (rq_scope rq) out uuid c))" by blast
  with assms(5-7) have row: "r1 = Inr ()" "ok s1"
    "found_record x (rq_scope rq) (view s1) (clk_inst c') (race_key x rq) =
      Inr (Some (fresh_completion x pol (rq_scope rq) out uuid c))"
    by simp_all
  have "ir_request_hash (fresh_completion x pol (rq_scope rq) out uuid c) \<noteq> rq_hash rq"
    using assms(8) by (simp add: fresh_completion_def)
  from kv_store.conflict_found [where pol = pol, OF assms(1) row(2,3) this] row(1) show ?thesis
    by (metis fresh_completion_def fst_conv idempotency_record.select_convs(1))
qed

text \<open>
  C31.  \<open>reserve_or_get\<close> always returns, after at most eight store calls, whatever the store answers:
  the sequence of its store calls that the races interleave ends with exactly its result.
\<close>

theorem reserve_or_get_ends:
  "reserve_run 8 kv x pol rq AtStart c s =
     (case reserve_or_get kv x pol rq c s of (res, s') \<Rightarrow> (Done res, s'))"
  by (rule reserve_or_get_steps)

text \<open>
  A key that validates is a non-empty run of at most 255 ASCII bytes, with no white space at
  either end, and is the trimmed string the client sent; validating it again gives the same key.
\<close>

theorem valid_key_shape:
  assumes "validate_request_key v = Valid k"
  shows "k \<noteq> [] \<and> length k \<le> 255 \<and> is_ascii k \<and> leading_ws k = None \<and> trailing_ws k = None
    \<and> (\<exists>raw. v = Some (JStr raw) \<and> k = trim raw \<and> sublist k raw)
    \<and> validate_request_key (Some (JStr k)) = Valid k"
proof -
  from assms obtain raw where raw: "v = Some (JStr raw)" "k = trim raw" "k \<noteq> []" "length k \<le> 255" "is_ascii k"
    by (auto simp: validate_request_key_def Let_def MAX_KEY_LEN_def split: option.splits if_splits
        elim!: as_str.elims)
  from raw(2,3) have ws: "leading_ws k = None" "trailing_ws k = None" "trim k = k" "sublist k raw"
    using trimmed_ends [of raw] by auto
  with raw show ?thesis
    by (simp add: validate_request_key_def is_null_def Let_def MAX_KEY_LEN_def)
qed

section \<open>Witnesses\<close>

definition inline_idem_lib :: "idempotency_record cluster_lib" where
  "inline_idem_lib = plain_lib (new_reservation inline_idem default_idempotency_policy
     \<lparr>rq_scope = \<lparr>sc_tenant_id = [], sc_identity_hash = [], sc_method = [], sc_tool_name = []\<rparr>, rq_key = [],
      rq_hash = [], rq_ttl_override = None, rq_uuid = []\<rparr> (at_ms 0))"

definition sample_request :: "string \<Rightarrow> reserve_request" where
  "sample_request uuid =
     \<lparr>rq_scope = \<lparr>sc_tenant_id = ''t'', sc_identity_hash = ''i'', sc_method = ''tools/call'', sc_tool_name = ''pay''\<rparr>,
      rq_key = ''k'', rq_hash = ''h'', rq_ttl_override = Some (from_millis 100), rq_uuid = uuid\<rparr>"

abbreviation idem_mem where "idem_mem \<equiv> memory_kv inline_idem_lib"
abbreviation sample_key where "sample_key \<equiv> race_key inline_idem (sample_request ''a'')"

definition sample_rqs :: "nat \<Rightarrow> reserve_request" where
  "sample_rqs i = sample_request (if i = 0 then ''a'' else ''b'')"

lemma sample_rqs_simps [simp]:
  "race_key inline_idem (sample_rqs i) = sample_key" "claim_ttl default_idempotency_policy (sample_rqs i) = from_millis 100"
  by (simp_all add: race_key_def sample_request_def sample_rqs_def claim_ttl_def reserve_ttl_ms_def default_idempotency_policy_def)

definition sample_schedule :: "(nat \<times> clock) list" where
  "sample_schedule = [(0, at_ms 1), (1, at_ms 2), (1, at_ms 3), (0, at_ms 4), (0, at_ms 5)]"

definition sample_race :: "(idempotency_record memory, idempotency_record) race" where
  "sample_race = race_run idem_mem inline_idem default_idempotency_policy
     sample_rqs sample_schedule []"

lemma sample_race_result:
  "rc_pcs sample_race 1 = Done (Inr (Reserved ''b'')) \<and> rc_pcs sample_race 0 = Done (Inr (ResInFlight (from_millis 2)))"
  by (simp add: sample_race_def race_run_def sample_schedule_def race_step_def read_record_def memory_kv_def
      memory_get_def memory_probe_def inline_idem_def new_reservation_def sample_rqs_def sample_request_def
      memory_put_if_absent_def compute_deadline_def is_expired_def stored_def same_scope_def hex_identity_def
      claim_ttl_def reserve_ttl_ms_def default_idempotency_policy_def classify_def numeral_3_eq_3 Let_def
      storage_key_def from_millis_def as_millis_def at_ms_def)

theorem one_reservation_at_a_time_witness:
  "rc_pcs sample_race 1 = Done (Inr (Reserved ''b''))
   \<and> (\<exists>t. (1, t, t + from_millis 100) \<in> set (claims_of inline_idem sample_rqs sample_key sample_race))"
proof -
  have "live_at (memory_view []) 0 sample_key = (None :: (idempotency_record \<times> nat option) option)"
    by (simp add: live_memory_view)
  moreover have "sorted (0 # map (\<lambda>e. clk_inst (snd e)) sample_schedule)"
    by (simp add: sample_schedule_def)
  moreover have "memory_ok ([] :: idempotency_record memory)" by (simp add: memory_ok_def)
  ultimately have *: "sorted_wrt (\<lambda>(_, start, _) (_, _, stop). stop \<le> start) (claims_of inline_idem sample_rqs sample_key sample_race)
    \<and> (\<forall>(i, start, stop) \<in> set (claims_of inline_idem sample_rqs sample_key sample_race). stop = start + from_millis 100)
    \<and> (\<forall>i u. rc_pcs sample_race i = Done (Inr (Reserved u)) \<longrightarrow>
         i \<in> fst ` set (claims_of inline_idem sample_rqs sample_key sample_race))"
    using one_reservation_at_a_time [OF mem.kv_store_axioms _ inline_idem_ok, of "[]" 0 sample_key sample_schedule
        sample_race inline_idem_lib default_idempotency_policy sample_rqs]
    by (simp add: sample_race_def)
  with sample_race_result have "1 \<in> fst ` set (claims_of inline_idem sample_rqs sample_key sample_race)" by blast
  with * sample_race_result show ?thesis by fastforce
qed

definition sample_outcome :: cached_outcome where
  "sample_outcome = \<lparr>co_envelope = JStr ''paid'', co_original_request_id = JNum ''7'',
     co_original_correlation_id = ''c'', co_replay_count = 0, co_payload_truncated = False\<rparr>"

theorem completed_request_is_replayed_witness:
  "fst (retry_all idem_mem inline_idem default_idempotency_policy [(sample_request ''c'', at_ms 20), (sample_request ''d'', at_ms 30)]
     (snd (complete idem_mem inline_idem default_idempotency_policy (rq_scope (sample_request ''a'')) ''k'' sample_outcome ''u'' (at_ms 10)
       (snd (reserve_or_get idem_mem inline_idem default_idempotency_policy (sample_request ''a'') (at_ms 0) [])))))
   = [Inr (ResCompleted (sample_outcome\<lparr>co_replay_count := 1\<rparr>) 0), Inr (ResCompleted (sample_outcome\<lparr>co_replay_count := 2\<rparr>) 0)]"
proof -
  let ?rq = "sample_request ''a''" and ?pol = default_idempotency_policy
  let ?retries = "[(sample_request ''c'', at_ms 20), (sample_request ''d'', at_ms 30)]"
  obtain r0 s0 where r0: "reserve_or_get idem_mem inline_idem ?pol ?rq (at_ms 0) [] = (r0, s0)" by force
  obtain r1 s1 where r1: "complete idem_mem inline_idem ?pol (rq_scope ?rq) (rq_key ?rq) sample_outcome ''u'' (at_ms 10) s0 = (r1, s1)"
    by force
  have ttl: "claim_ttl ?pol ?rq = from_millis 100"
    using sample_rqs_simps(2) [of 0] by (simp add: sample_rqs_def)
  have "fst (retry_all idem_mem inline_idem ?pol ?retries s1) =
      map (\<lambda>i. Inr (ResCompleted (sample_outcome\<lparr>co_replay_count := (bump_u32 ^^ Suc i) 0\<rparr>) (clk_utc (at_ms 0)))) [0..<length ?retries]"
    using completed_request_is_replayed [where offset = 0, OF mem.kv_store_axioms _ inline_idem_ok _ r0 r1, of ?retries]
    by (simp add: memory_ok_def live_memory_view ttl) (simp add: sample_request_def from_millis_def)
  with r0 r1 show ?thesis by (simp add: sample_request_def bump_u32_def from_millis_def)
qed

definition sample_row :: "reserve_request \<Rightarrow> idempotency_record memory" where
  "sample_row rq = [(sample_key, stored (new_reservation inline_idem default_idempotency_policy rq (at_ms 0)) (None, None))]"

lemma sample_row_live:
  "live_at (memory_view (sample_row rq)) t sample_key =
     Some (new_reservation inline_idem default_idempotency_policy rq (at_ms 0), None)"
  by (simp add: sample_row_def live_memory_view is_expired_def stored_def)

lemma sample_row_ok: "memory_ok (sample_row rq)"
  by (simp add: sample_row_def memory_ok_def)

theorem different_body_conflicts_witness:
  "\<exists>s'. reserve_or_get idem_mem inline_idem default_idempotency_policy (sample_request ''b''\<lparr>rq_hash := ''g''\<rparr>) (at_ms 1)
      (sample_row (sample_request ''a'')) = (Inr (ResConflict ''h''), s')"
proof -
  have "found_record inline_idem (rq_scope (sample_request ''b''\<lparr>rq_hash := ''g''\<rparr>)) (memory_view (sample_row (sample_request ''a'')))
      (clk_inst (at_ms 1)) (race_key inline_idem (sample_request ''b''\<lparr>rq_hash := ''g''\<rparr>)) =
      Inr (Some (new_reservation inline_idem default_idempotency_policy (sample_request ''a'') (at_ms 0)))"
    using sample_row_live [of "sample_request ''a''" "clk_inst (at_ms 1)"]
    by (simp add: found_record_def race_key_def sample_request_def inline_idem_def same_scope_def new_reservation_def
        hex_identity_def)
  from different_body_conflicts [where pol = default_idempotency_policy, OF mem.kv_store_axioms sample_row_ok this] show ?thesis
    by (auto simp: sample_request_def)
qed

text \<open>With the identity for the hash, scopes whose parts contain the separator collide on their storage key.\<close>

definition colliding_request :: reserve_request where
  "colliding_request = (sample_request ''b'')\<lparr>rq_scope :=
     \<lparr>sc_tenant_id = ''t:i'', sc_identity_hash = ''tools/call'', sc_method = ''pay'', sc_tool_name = []\<rparr>\<rparr>"

theorem colliding_scope_gets_no_outcome_witness:
  "\<exists>s'. reserve_or_get idem_mem inline_idem default_idempotency_policy colliding_request (at_ms 1)
      (sample_row (sample_request ''a'')) = (Inr (ResInFlight (from_millis 1)), s')"
proof -
  have key: "race_key inline_idem colliding_request = sample_key"
    by (simp add: race_key_def colliding_request_def sample_request_def storage_key_def inline_idem_def numeral_eq_Suc)
  have scope: "\<not> same_scope inline_idem (rq_scope colliding_request)
      (new_reservation inline_idem default_idempotency_policy (sample_request ''a'') (at_ms 0))"
    by (simp add: same_scope_def colliding_request_def new_reservation_def sample_request_def)
  have dec: "ix_from_slice inline_idem r = Inr r" for r by (simp add: inline_idem_def)
  from colliding_scope_gets_no_outcome [where pol = default_idempotency_policy and c = "at_ms 1",
      OF mem.kv_store_axioms sample_row_ok inline_idem_ok sample_row_live [folded key] dec scope]
  show ?thesis by fastforce
qed

theorem late_completion_answers_conflict_witness:
  "fst (reserve_or_get idem_mem inline_idem default_idempotency_policy (sample_request ''a'') (at_ms 20)
     (snd (complete idem_mem inline_idem default_idempotency_policy (rq_scope (sample_request ''a'')) ''k'' sample_outcome ''u'' (at_ms 10) [])))
   = Inr (ResConflict (replicate 32 (CHR 0x00)))"
proof -
  let ?rq = "sample_request ''a''" and ?pol = default_idempotency_policy
  obtain r1 s1 where r1: "complete idem_mem inline_idem ?pol (rq_scope ?rq) (rq_key ?rq) sample_outcome ''u'' (at_ms 10) [] = (r1, s1)"
    by force
  have "rq_hash ?rq \<noteq> replicate 32 (CHR 0x00)"
    by (auto simp: sample_request_def dest!: arg_cong [where f = length])
  with late_completion_answers_conflict [where c' = "at_ms 20", OF mem.kv_store_axioms _ inline_idem_ok _ r1]
  have "fst (reserve_or_get idem_mem inline_idem ?pol ?rq (at_ms 20) s1) = Inr (ResConflict (replicate 32 (CHR 0x00)))"
    by (simp add: memory_ok_def live_memory_view default_idempotency_policy_def from_millis_def)
  with r1 show ?thesis by (simp add: sample_request_def)
qed

theorem valid_key_shape_witness: "is_ascii ''k'' \<and> (\<exists>raw. ''k'' = trim raw)"
proof -
  have "validate_request_key (Some (JStr '' k'')) = Valid ''k''" by code_simp
  from valid_key_shape [OF this] show ?thesis by blast
qed

end
