(* ===== verification/Quota_Config.thy ===== *)
theory Quota_Config
  imports Mcpg_Prelude
begin

text \<open>
  The \<open>governance.quotas\<close> registry and its validation: \<open>src/config/quotas.rs\<close>, with the decoding of a
  budget window at run time, \<open>window_to_ms\<close> of \<open>src/runtime/quota_gate.rs\<close>.

  A validation passes, fails with its message, or panics (a slice that is not on a character
  boundary).  \<open>f64\<close> amounts have the type parameter \<open>'f\<close>; the validation only asks whether one is set.
\<close>

section \<open>The registry\<close>

record rate_limit_policy =
  rl_id :: string
  rl_kind :: string
  rl_scope :: string
  rl_identity_claim :: "string option"
  rl_calls_per_minute :: nat
  rl_burst :: "nat option"
  rl_on_exceeded :: string

record 'f budget_policy =
  bp_id :: string
  bp_kind :: string
  bp_scope :: string
  bp_identity_claim :: "string option"
  bp_cap_usd :: "'f option"
  bp_cap_token_count :: "nat option"
  bp_cap_calls :: "nat option"
  bp_window :: string
  bp_warn_at_pct :: "nat option"
  bp_on_exceeded :: string
  bp_acknowledge_unenforced :: bool

record concurrency_policy =
  cp_id :: string
  cp_max_concurrent :: nat
  cp_scope :: string
  cp_identity_claim :: "string option"
  cp_on_exceeded :: string
  cp_queue_timeout_ms :: nat

record 'f quotas_config =
  qc_rate_limits :: "rate_limit_policy list"
  qc_budgets :: "'f budget_policy list"
  qc_concurrency :: "concurrency_policy list"
  qc_on_error :: string

record backend_quotas_ref =
  br_rate_limit :: "string option"
  br_budget :: "string option"
  br_concurrency :: "string option"

definition bref_is_empty :: "backend_quotas_ref \<Rightarrow> bool" where
  "bref_is_empty b \<longleftrightarrow> br_rate_limit b = None \<and> br_budget b = None \<and> br_concurrency b = None"

definition fail_open_on_error :: "'f quotas_config \<Rightarrow> bool" where
  "fail_open_on_error q \<longleftrightarrow> qc_on_error q = ''allow''"

definition quotas_is_empty :: "'f quotas_config \<Rightarrow> bool" where
  "quotas_is_empty q \<longleftrightarrow> qc_rate_limits q = [] \<and> qc_budgets q = [] \<and> qc_concurrency q = []"

section \<open>Validation\<close>

datatype outcome = Pass | Fail string | Panic

fun and_then :: "outcome \<Rightarrow> outcome \<Rightarrow> outcome" where
  "and_then Pass next = next"
| "and_then other next = other"

lemma and_then_Pass [simp]: "and_then a b = Pass \<longleftrightarrow> a = Pass \<and> b = Pass"
  by (cases a) auto

definition require :: "bool \<Rightarrow> string \<Rightarrow> outcome" where
  "require b msg = (if b then Pass else Fail msg)"

lemma require_Pass [simp]: "require b msg = Pass \<longleftrightarrow> b"
  by (simp add: require_def)

definition validate_scope :: "string \<Rightarrow> string \<Rightarrow> string option \<Rightarrow> outcome" where
  "validate_scope path scope identity_claim =
     (if scope = ''per_identity'' then
        require (identity_claim \<noteq> None)
          (path @ ''.scope: `per_identity` requires `identity_claim:` (e.g. `sub`, `org_id`)'')
      else if scope \<in> {''global'', ''per_session'', ''per_tool'', ''per_claim''} then
        require (identity_claim = None)
          (path @ ''.identity_claim: only valid when `scope: per_identity` (got scope `'' @ scope @ ''`)'')
      else Fail (path @ ''.scope: must be one of `per_identity` | `global` | `per_session` | `per_tool` | `per_claim` (got `''
             @ scope @ ''`)''))"

definition validate_on_exceeded :: "string \<Rightarrow> string \<Rightarrow> outcome" where
  "validate_on_exceeded path v =
     require (v \<in> {''deny'', ''queue'', ''shed_load''})
       (path @ '': must be `deny` | `queue` | `shed_load` (got `'' @ v @ ''`)'')"

definition validate_on_error :: "string \<Rightarrow> string \<Rightarrow> outcome" where
  "validate_on_error path v =
     require (v \<in> {[], ''deny'', ''allow''}) (path @ '': must be `deny` | `allow` (got `'' @ v @ ''`)'')"

text \<open>\<open>value.split_at(value.len() - 1)\<close> panics when the last byte continues a character.\<close>

definition continuation_byte :: "char \<Rightarrow> bool" where
  "continuation_byte ch = (of_char ch \<in> {128..191 :: nat})"

definition validate_window :: "string \<Rightarrow> string \<Rightarrow> outcome" where
  "validate_window path v =
     (if v = [] then Fail (path @ '' must not be empty'')
      else if continuation_byte (last v) then Panic
      else
        (case parse_u64 (butlast v) of
           None \<Rightarrow> Fail (path @ '': invalid duration `'' @ v @ ''` (expected like `24h`, `30d`)'')
         | Some num \<Rightarrow>
             (let unit = [last v] in
              if unit \<in> {''s'', ''m'', ''h''} then Pass
              else if unit = ''d'' then
                require (num \<le> 30) (path @ '': `'' @ v @ ''` exceeds maximum `30d` window'')
              else Fail (path @ '': invalid window unit `'' @ unit @ ''` (expected `s` | `m` | `h` | `d`)''))))"

definition validate_rate_limit :: "string \<Rightarrow> rate_limit_policy \<Rightarrow> outcome" where
  "validate_rate_limit path p =
     and_then (require (trim (rl_id p) \<noteq> []) (path @ ''.id must not be empty''))
    (and_then (require (rl_kind p = ''token_bucket'')
                (path @ ''.kind: only `token_bucket` is supported in v1.0 (got `'' @ rl_kind p @ ''`)''))
    (and_then (validate_scope path (rl_scope p) (rl_identity_claim p))
    (and_then (require (rl_calls_per_minute p \<noteq> 0) (path @ ''.rate.calls_per_minute must be > 0''))
              (validate_on_exceeded (path @ ''.on_exceeded'') (rl_on_exceeded p)))))"

definition validate_budget_kind :: "string \<Rightarrow> 'f budget_policy \<Rightarrow> outcome" where
  "validate_budget_kind path p =
     (if bp_kind p = ''cost'' then
        require (bp_cap_usd p \<noteq> None) (path @ '': `kind: cost` requires `cap_usd:` to be set'')
      else if bp_kind p = ''call_count'' then
        require (bp_cap_calls p \<noteq> None) (path @ '': `kind: call_count` requires `cap_calls:` to be set'')
      else if bp_kind p = ''token_count'' then
        require (bp_cap_token_count p \<noteq> None) (path @ '': `kind: token_count` requires `cap_token_count:` to be set'')
      else Fail (path @ ''.kind: must be `cost` | `call_count` | `token_count` (got `'' @ bp_kind p @ ''`)''))"

definition validate_budget :: "string \<Rightarrow> 'f budget_policy \<Rightarrow> outcome" where
  "validate_budget path p =
     and_then (require (trim (bp_id p) \<noteq> []) (path @ ''.id must not be empty''))
    (and_then (validate_budget_kind path p)
    (and_then (validate_scope path (bp_scope p) (bp_identity_claim p))
    (and_then (validate_window (path @ ''.window'') (bp_window p))
    (and_then (case bp_warn_at_pct p of
                 None \<Rightarrow> Pass
               | Some pct \<Rightarrow> require (pct \<le> 100) (path @ ''.warn_at_pct must be 0..=100 (got '' @ show_nat pct @ '')''))
              (validate_on_exceeded (path @ ''.on_exceeded'') (bp_on_exceeded p))))))"

definition validate_concurrency :: "string \<Rightarrow> concurrency_policy \<Rightarrow> outcome" where
  "validate_concurrency path p =
     and_then (require (trim (cp_id p) \<noteq> []) (path @ ''.id must not be empty''))
    (and_then (require (cp_max_concurrent p \<noteq> 0) (path @ ''.max_concurrent must be > 0''))
    (and_then (validate_scope path (cp_scope p) (cp_identity_claim p))
    (and_then (require (cp_on_exceeded p \<in> {''deny'', ''queue''})
                (path @ ''.on_exceeded: must be `deny` or `queue` (got `'' @ cp_on_exceeded p @ ''`)''))
              (require (cp_on_exceeded p = ''queue'' \<longrightarrow> cp_queue_timeout_ms p \<noteq> 0)
                (path @ ''.queue_timeout_ms must be > 0 when on_exceeded: queue'')))))"

text \<open>One list of the registry: each entry is valid and its id is not among those seen.\<close>

fun validate_entries ::
    "string \<Rightarrow> string \<Rightarrow> (string \<Rightarrow> 'p \<Rightarrow> outcome) \<Rightarrow> ('p \<Rightarrow> string) \<Rightarrow> nat \<Rightarrow> string set \<Rightarrow> 'p list \<Rightarrow> outcome" where
  "validate_entries list_path kind check id_of i seen [] = Pass"
| "validate_entries list_path kind check id_of i seen (p # ps) =
     (let path = list_path @ ''['' @ show_nat i @ '']'' in
      and_then (check path p)
     (and_then (require (id_of p \<notin> seen)
                 (path @ '': duplicate id `'' @ id_of p @ ''` ('' @ kind @ '' ids must be unique)''))
               (validate_entries list_path kind check id_of (Suc i) (insert (id_of p) seen) ps)))"

definition validate_quotas :: "'f quotas_config \<Rightarrow> outcome" where
  "validate_quotas q =
     and_then (validate_entries ''governance.quotas.rate_limits'' ''rate_limit'' validate_rate_limit rl_id 0 {} (qc_rate_limits q))
    (and_then (validate_entries ''governance.quotas.budgets'' ''budget'' validate_budget bp_id 0 {} (qc_budgets q))
    (and_then (validate_entries ''governance.quotas.concurrency'' ''concurrency'' validate_concurrency cp_id 0 {} (qc_concurrency q))
              (validate_on_error ''governance.quotas.on_error'' (qc_on_error q))))"

definition validate_binding_ref :: "'f quotas_config \<Rightarrow> backend_quotas_ref \<Rightarrow> string \<Rightarrow> outcome" where
  "validate_binding_ref q b path =
     and_then (case br_rate_limit b of None \<Rightarrow> Pass
       | Some i \<Rightarrow> require (i \<in> rl_id ` set (qc_rate_limits q))
           (path @ ''.quotas.rate_limit: id `'' @ i @ ''` not found in governance.quotas.rate_limits[]''))
    (and_then (case br_budget b of None \<Rightarrow> Pass
       | Some i \<Rightarrow> require (i \<in> bp_id ` set (qc_budgets q))
           (path @ ''.quotas.budget: id `'' @ i @ ''` not found in governance.quotas.budgets[]''))
              (case br_concurrency b of None \<Rightarrow> Pass
       | Some i \<Rightarrow> require (i \<in> cp_id ` set (qc_concurrency q))
           (path @ ''.quotas.concurrency: id `'' @ i @ ''` not found in governance.quotas.concurrency[]'')))"

section \<open>Windows at run time\<close>

text \<open>
  The digits, then one unit character; what follows is ignored.  The product wraps as it does in a
  release build.
\<close>

definition window_unit :: "char \<Rightarrow> int option" where
  "window_unit ch =
     (if ch = CHR ''s'' then Some 1000 else if ch = CHR ''m'' then Some 60000
      else if ch = CHR ''h'' then Some 3600000 else if ch = CHR ''d'' then Some 86400000 else None)"

definition window_to_ms :: "string \<Rightarrow> int option" where
  "window_to_ms s =
     (let trimmed = trim s; digits = takeWhile is_digit trimmed in
      case dropWhile is_digit trimmed of
        [] \<Rightarrow> None
      | ch # _ \<Rightarrow>
          (case parse_i64 digits of
             None \<Rightarrow> None
           | Some n \<Rightarrow> map_option (\<lambda>mult. wrap_i64 (n * mult)) (window_unit ch)))"

text \<open>The window a budget runs with: 24 hours when it does not decode.\<close>

definition budget_window_ms :: "'f budget_policy \<Rightarrow> int" where
  "budget_window_ms p = (case window_to_ms (bp_window p) of Some ms \<Rightarrow> ms | None \<Rightarrow> 86400000)"

section \<open>Properties\<close>

lemma validate_entries_Pass:
  assumes "validate_entries lp kind check id_of i seen ps = Pass"
  shows "distinct (map id_of ps) \<and> id_of ` set ps \<inter> seen = {} \<and> (\<forall>p \<in> set ps. \<exists>path. check path p = Pass)"
  using assms
proof (induction ps arbitrary: i seen)
  case (Cons p ps)
  from Cons.IH [of "Suc i" "insert (id_of p) seen"] Cons.prems show ?case by (auto simp: Let_def)
qed simp

text \<open>
  C33.  A registry that validates is well formed: ids are unique within each list, every rate is
  positive, every cap has a slot, every queueing cap has a timeout, every budget has the cap of its kind,
  and a claim is named exactly for the \<open>per_identity\<close> scope.
\<close>

theorem validated_quotas_well_formed:
  assumes "validate_quotas q = Pass"
  shows "distinct (map rl_id (qc_rate_limits q)) \<and> distinct (map bp_id (qc_budgets q))
    \<and> distinct (map cp_id (qc_concurrency q))
    \<and> (\<forall>p \<in> set (qc_rate_limits q). 0 < rl_calls_per_minute p \<and> rl_id p \<noteq> []
         \<and> (rl_scope p = ''per_identity'' \<longleftrightarrow> rl_identity_claim p \<noteq> None))
    \<and> (\<forall>p \<in> set (qc_budgets q). bp_id p \<noteq> []
         \<and> (bp_kind p = ''call_count'' \<longrightarrow> bp_cap_calls p \<noteq> None)
         \<and> (bp_kind p = ''token_count'' \<longrightarrow> bp_cap_token_count p \<noteq> None)
         \<and> (bp_kind p \<notin> {''call_count'', ''token_count''} \<longrightarrow> bp_cap_usd p \<noteq> None)
         \<and> (bp_scope p = ''per_identity'' \<longleftrightarrow> bp_identity_claim p \<noteq> None))
    \<and> (\<forall>p \<in> set (qc_concurrency q). 0 < cp_max_concurrent p
         \<and> (cp_on_exceeded p = ''queue'' \<longrightarrow> 0 < cp_queue_timeout_ms p)
         \<and> (cp_scope p = ''per_identity'' \<longleftrightarrow> cp_identity_claim p \<noteq> None))"
proof -
  have scope: "scope = ''per_identity'' \<longleftrightarrow> claim \<noteq> None" if "validate_scope path scope claim = Pass" for path scope claim
    using that by (auto simp: validate_scope_def split: if_splits)
  have blank: "s \<noteq> []" if "trim s \<noteq> []" for s
    using that trimmed_ends(4) [of s] by auto
  from assms have parts:
    "validate_entries ''governance.quotas.rate_limits'' ''rate_limit'' validate_rate_limit rl_id 0 {} (qc_rate_limits q) = Pass"
    "validate_entries ''governance.quotas.budgets'' ''budget'' validate_budget bp_id 0 {} (qc_budgets q) = Pass"
    "validate_entries ''governance.quotas.concurrency'' ''concurrency'' validate_concurrency cp_id 0 {} (qc_concurrency q) = Pass"
    by (simp_all add: validate_quotas_def)
  have kinds: "(bp_kind p = ''call_count'' \<longrightarrow> bp_cap_calls p \<noteq> None)
      \<and> (bp_kind p = ''token_count'' \<longrightarrow> bp_cap_token_count p \<noteq> None)
      \<and> (bp_kind p \<notin> {''call_count'', ''token_count''} \<longrightarrow> bp_cap_usd p \<noteq> None)"
    if "validate_budget_kind path p = Pass" for path and p :: "'a budget_policy"
    using that by (auto simp: validate_budget_kind_def split: if_splits)
  note rl = validate_entries_Pass [OF parts(1)] and bp = validate_entries_Pass [OF parts(2)]
    and cp = validate_entries_Pass [OF parts(3)]
  have rls: "\<forall>p \<in> set (qc_rate_limits q). 0 < rl_calls_per_minute p \<and> rl_id p \<noteq> []
       \<and> (rl_scope p = ''per_identity'' \<longleftrightarrow> rl_identity_claim p \<noteq> None)"
    using rl scope blank by (force simp: validate_rate_limit_def)
  have bps: "\<forall>p \<in> set (qc_budgets q). bp_id p \<noteq> []
       \<and> (bp_kind p = ''call_count'' \<longrightarrow> bp_cap_calls p \<noteq> None)
       \<and> (bp_kind p = ''token_count'' \<longrightarrow> bp_cap_token_count p \<noteq> None)
       \<and> (bp_kind p \<notin> {''call_count'', ''token_count''} \<longrightarrow> bp_cap_usd p \<noteq> None)
       \<and> (bp_scope p = ''per_identity'' \<longleftrightarrow> bp_identity_claim p \<noteq> None)"
    using bp scope blank kinds unfolding validate_budget_def and_then_Pass require_Pass by meson
  have cps: "0 < cp_max_concurrent p \<and> (cp_on_exceeded p = ''queue'' \<longrightarrow> 0 < cp_queue_timeout_ms p)
       \<and> (cp_scope p = ''per_identity'' \<longleftrightarrow> cp_identity_claim p \<noteq> None)" if "p \<in> set (qc_concurrency q)" for p
  proof -
    from cp that obtain path where "validate_concurrency path p = Pass" by blast
    then have "cp_max_concurrent p \<noteq> 0" "validate_scope path (cp_scope p) (cp_identity_claim p) = Pass"
      "cp_on_exceeded p = ''queue'' \<longrightarrow> cp_queue_timeout_ms p \<noteq> 0"
      unfolding validate_concurrency_def and_then_Pass require_Pass by blast+
    then show ?thesis using scope by simp
  qed
  show ?thesis using rl bp cp rls bps cps by simp
qed

text \<open>
  A window written as a number and a unit validates (days up to 30) and decodes at run time to that
  many milliseconds, as long as they fit an \<open>i64\<close>.
\<close>

theorem window_round_trip:
  assumes "window_unit u = Some mult" "fits_i64 (int n * mult)" "u = CHR ''d'' \<longrightarrow> n \<le> 30"
  shows "validate_window path (show_nat n @ [u]) = Pass \<and> window_to_ms (show_nat n @ [u]) = Some (int n * mult)"
proof -
  from assms(1) have u: "u \<in> {CHR ''s'', CHR ''m'', CHR ''h'', CHR ''d''}" "1 \<le> mult" "\<not> is_digit u" "\<not> continuation_byte u"
    by (auto simp: window_unit_def is_digit_def continuation_byte_def split: if_splits)
  have n: "int n < 2 ^ 63"
    using assms(2) u(2) mult_left_mono [of 1 mult "int n"] by (simp add: fits_i64_def)
  have "n < 2 ^ 63" using n by simp
  then have "n < 2 ^ 64" by simp
  then have "validate_window path (show_nat n @ [u]) = Pass"
    using u assms(3) by (auto simp: validate_window_def Let_def)
  moreover have "trim (show_nat n @ [u]) = show_nat n @ [u]"
    using u(1) by (intro trim_plain) (auto simp: dest: show_nat_digits)
  moreover have "parse_i64 (show_nat n) = Some (int n)"
    using parse_i64_show_int [of "int n"] n by (simp add: show_int_def)
  moreover have "takeWhile is_digit (show_nat n @ [u]) = show_nat n" "dropWhile is_digit (show_nat n @ [u]) = [u]"
    using show_nat_hd u(3) by (auto simp: takeWhile_append dropWhile_append takeWhile_eq_all_conv dropWhile_eq_Nil_conv)
  ultimately show ?thesis using assms(1,2) by (simp add: window_to_ms_def Let_def)
qed

text \<open>
  The validation accepts windows the run time reads differently: a plus sign passes, but the window
  then runs as 24 hours; and only days are held to the maximum of 30 days, so 1000 hours pass.
\<close>

theorem validated_windows_differ:
  "validate_window path ''+1h'' = Pass \<and> window_to_ms ''+1h'' = None
   \<and> validate_window path ''1000h'' = Pass \<and> window_to_ms ''1000h'' = Some 3600000000
   \<and> (30 * 86400000 :: int) < 3600000000"
proof -
  have "trim ''+1h'' = ''+1h''" "trim ''1000h'' = ''1000h''" by (intro trim_plain, simp)+
  then show ?thesis
    by (simp add: validate_window_def window_to_ms_def parse_u64_def parse_i64_def parse_digits_def digits_value_def
        is_digit_def continuation_byte_def window_unit_def wrap_i64_def)
qed

section \<open>Witnesses\<close>

definition sample_quotas :: "unit quotas_config" where
  "sample_quotas = \<lparr>qc_rate_limits = [\<lparr>rl_id = ''pro'', rl_kind = ''token_bucket'', rl_scope = ''global'',
       rl_identity_claim = None, rl_calls_per_minute = 60, rl_burst = Some 5, rl_on_exceeded = ''deny''\<rparr>],
     qc_budgets = [], qc_concurrency = [], qc_on_error = ''deny''\<rparr>"

theorem validated_quotas_well_formed_witness:
  "validate_quotas sample_quotas = Pass \<and> 0 < rl_calls_per_minute (hd (qc_rate_limits sample_quotas))"
proof -
  have "validate_quotas sample_quotas = Pass" by code_simp
  with validated_quotas_well_formed [OF this] show ?thesis by (simp add: sample_quotas_def)
qed

theorem window_round_trip_witness:
  "validate_window ''w'' (show_nat 24 @ ''h'') = Pass \<and> window_to_ms (show_nat 24 @ ''h'') = Some 86400000"
  using window_round_trip [of "CHR ''h''" 3600000 24 "''w''"] by (simp add: window_unit_def fits_i64_def)

end
