(* ===== verification/Fleet_Semaphore.thy ===== *)
theory Fleet_Semaphore
  imports Memory_Kv
begin

text \<open>
  The counting semaphore the replicas of a fleet share through the quota store:
  \<open>src/runtime/fleet_semaphore.rs\<close>.

  A scope with the cap \<open>cap\<close> has \<open>cap\<close> slots in the store.  An acquire takes a free one with
  \<open>put_if_absent\<close>, a release deletes it, and a refresher writes the held slots again.  A replica's
  own state is the record \<open>fleet\<close>; base64 is the parameter \<open>enc\<close>.  The wait of a queued acquire is
  a list of wake-ups, each with what the rest of the fleet did in the meantime.
\<close>

definition SLOT_TTL :: duration where
  "SLOT_TTL = from_secs 30"

definition REFRESH :: duration where
  "REFRESH = from_secs 10"

definition FULL_HOLD :: duration where
  "FULL_HOLD = from_millis 20"

definition KEY_PREFIX :: string where
  "KEY_PREFIX = ''quotas.slots.''"

definition RETRY_MIN :: duration where
  "RETRY_MIN = from_millis 20"

definition RETRY_MAX :: duration where
  "RETRY_MAX = from_millis 250"

definition slot_key :: "(string \<Rightarrow> string) \<Rightarrow> string \<Rightarrow> nat \<Rightarrow> nat \<Rightarrow> string" where
  "slot_key enc scope cap index =
     KEY_PREFIX @ enc scope @ ''.'' @ show_nat cap @ ''.'' @ show_nat index"

text \<open>
  The state of one replica.  A local semaphore is its number of available permits; \<open>next\<close> is an
  \<open>AtomicUsize\<close> and wraps.
\<close>

record 'v fleet =
  fs_holder :: 'v
  fs_held :: "string list"
  fs_slots :: "((string \<times> nat) \<times> nat) list"
  fs_full :: "((string \<times> nat) \<times> nat) list"
  fs_next :: "64 word"

record fleet_permit =
  fp_key :: string
  fp_scope :: "string \<times> nat"

definition new_fleet :: "'v \<Rightarrow> 'v fleet" where
  "new_fleet uuid = \<lparr>fs_holder = uuid, fs_held = [], fs_slots = [], fs_full = [], fs_next = 0\<rparr>"

text \<open>The entry is created on first use.\<close>

definition slots_of :: "'v fleet \<Rightarrow> string \<Rightarrow> nat \<Rightarrow> nat \<times> 'v fleet" where
  "slots_of f scope cap =
     (case map_of (fs_slots f) (scope, cap) of
        Some available \<Rightarrow> (available, f)
      | None \<Rightarrow> (cap, f\<lparr>fs_slots := AList.update (scope, cap) cap (fs_slots f)\<rparr>))"

text \<open>\<open>slots_of(..).try_acquire_owned()\<close> and the drop of the local permit.\<close>

definition take_local :: "'v fleet \<Rightarrow> string \<Rightarrow> nat \<Rightarrow> bool \<times> 'v fleet" where
  "take_local f scope cap =
     (case slots_of f scope cap of
        (0, f') \<Rightarrow> (False, f')
      | (Suc n, f') \<Rightarrow> (True, f'\<lparr>fs_slots := AList.update (scope, cap) n (fs_slots f')\<rparr>))"

definition give_local :: "'v fleet \<Rightarrow> string \<times> nat \<Rightarrow> 'v fleet" where
  "give_local f sm =
     (case map_of (fs_slots f) sm of
        None \<Rightarrow> f
      | Some n \<Rightarrow> f\<lparr>fs_slots := AList.update sm (Suc n) (fs_slots f)\<rparr>)"

definition recently_full :: "'v fleet \<Rightarrow> string \<Rightarrow> nat \<Rightarrow> clock \<Rightarrow> bool" where
  "recently_full f scope cap c =
     (case map_of (fs_full f) (scope, cap) of None \<Rightarrow> False | Some at \<Rightarrow> clk_inst c - at < FULL_HOLD)"

definition claim_slot ::
    "('s, 'v) kv_ops \<Rightarrow> 'v \<Rightarrow> string \<Rightarrow> clock \<Rightarrow> 's \<Rightarrow> ('s, bool) kv_result" where
  "claim_slot kv holder key = kv_put_if_absent kv key holder (Some SLOT_TTL)"

fun take_loop ::
    "(string \<Rightarrow> string) \<Rightarrow> ('s, 'v) kv_ops \<Rightarrow> 'v \<Rightarrow> string \<Rightarrow> nat \<Rightarrow> 64 word \<Rightarrow> nat list \<Rightarrow> clock \<Rightarrow> 's \<Rightarrow>
     ('s, string option) kv_result" where
  "take_loop enc kv holder scope cap first [] c s = (Inr None, s)"
| "take_loop enc kv holder scope cap first (n # ns) c s =
     (let key = slot_key enc scope cap (unat (first + of_nat n) mod cap) in
      case claim_slot kv holder key c s of
        (Inl e, s1) \<Rightarrow> (Inl e, s1)
      | (Inr True, s1) \<Rightarrow> (Inr (Some key), s1)
      | (Inr False, s1) \<Rightarrow> take_loop enc kv holder scope cap first ns c s1)"

definition take_slot ::
    "(string \<Rightarrow> string) \<Rightarrow> ('s, 'v) kv_ops \<Rightarrow> string \<Rightarrow> nat \<Rightarrow> clock \<Rightarrow> 'v fleet \<times> 's \<Rightarrow>
     (cluster_error + fleet_permit option) \<times> 'v fleet \<times> 's" where
  "take_slot enc kv scope cap c = (\<lambda>(f, s).
     (let first = fs_next f; f1 = f\<lparr>fs_next := fs_next f + 1\<rparr> in
      case take_loop enc kv (fs_holder f1) scope cap first [0..<cap] c s of
        (Inl e, s1) \<Rightarrow> (Inl e, give_local f1 (scope, cap), s1)
      | (Inr (Some key), s1) \<Rightarrow>
          (Inr (Some \<lparr>fp_key = key, fp_scope = (scope, cap)\<rparr>),
           f1\<lparr>fs_held := List.insert key (fs_held f1)\<rparr>, s1)
      | (Inr None, s1) \<Rightarrow>
          (Inr None, f1\<lparr>fs_full := AList.update (scope, cap) (clk_inst c) (fs_full f1)\<rparr>, s1)))"

definition try_acquire ::
    "(string \<Rightarrow> string) \<Rightarrow> ('s, 'v) kv_ops \<Rightarrow> string \<Rightarrow> nat \<Rightarrow> clock \<Rightarrow> 'v fleet \<times> 's \<Rightarrow>
     (cluster_error + fleet_permit option) \<times> 'v fleet \<times> 's" where
  "try_acquire enc kv scope cap c = (\<lambda>(f, s).
     (case take_local f scope cap of
        (False, f1) \<Rightarrow> (Inr None, f1, s)
      | (True, f1) \<Rightarrow>
          if recently_full f1 scope cap c then (Inr None, give_local f1 (scope, cap), s)
          else
            (case take_slot enc kv scope cap c (f1, s) of
               (Inr None, f2, s2) \<Rightarrow> (Inr None, give_local f2 (scope, cap), s2)
             | other \<Rightarrow> other)))"

text \<open>
  The loop of \<open>acquire_within\<close>.  A wake-up holds the clock at the try, the clock at the check of the
  deadline, and the changes by others until the next try.  \<open>None\<close>: still waiting after the last one.
\<close>

fun acquire_loop ::
    "(string \<Rightarrow> string) \<Rightarrow> ('s, 'v) kv_ops \<Rightarrow> string \<Rightarrow> nat \<Rightarrow> nat \<Rightarrow>
     (clock \<times> clock \<times> ('v fleet \<times> 's \<Rightarrow> 'v fleet \<times> 's)) list \<Rightarrow> 'v fleet \<times> 's \<Rightarrow>
     ((cluster_error + fleet_permit option) \<times> 'v fleet \<times> 's) option" where
  "acquire_loop enc kv scope cap stop [] w = None"
| "acquire_loop enc kv scope cap stop ((c_try, c_now, others) # wakes) w =
     (case (if recently_full (fst w) scope cap c_try then (Inr None, w)
            else take_slot enc kv scope cap c_try w) of
        (Inl e, w1) \<Rightarrow> Some (Inl e, w1)
      | (Inr (Some permit), w1) \<Rightarrow> Some (Inr (Some permit), w1)
      | (Inr None, w1) \<Rightarrow>
          if stop \<le> clk_inst c_now then Some (Inr None, give_local (fst w1) (scope, cap), snd w1)
          else acquire_loop enc kv scope cap stop wakes (others w1))"

text \<open>
  \<open>acquire_within\<close>: \<open>arrive\<close> is what others did until a local slot came free, or \<open>None\<close> when the
  timeout passed first.
\<close>

definition acquire_within ::
    "(string \<Rightarrow> string) \<Rightarrow> ('s, 'v) kv_ops \<Rightarrow> string \<Rightarrow> nat \<Rightarrow> duration \<Rightarrow> ('v fleet \<times> 's \<Rightarrow> 'v fleet \<times> 's) option \<Rightarrow>
     (clock \<times> clock \<times> ('v fleet \<times> 's \<Rightarrow> 'v fleet \<times> 's)) list \<Rightarrow> clock \<Rightarrow> 'v fleet \<times> 's \<Rightarrow>
     ((cluster_error + fleet_permit option) \<times> 'v fleet \<times> 's) option" where
  "acquire_within enc kv scope cap timeout arrive wakes c w =
     (let w0 = (snd (slots_of (fst w) scope cap), snd w) in
      case arrive of
        None \<Rightarrow> Some (Inr None, w0)
      | Some others \<Rightarrow>
          (case take_local (fst (others w0)) scope cap of
             (True, f1) \<Rightarrow>
               acquire_loop enc kv scope cap (clk_inst c + timeout) wakes (f1, snd (others w0))
           | (False, f1) \<Rightarrow> None))"

text \<open>\<open>free\<close> tries the delete up to three times.\<close>

fun free_slot :: "nat \<Rightarrow> ('s, 'v) kv_ops \<Rightarrow> string \<Rightarrow> clock \<Rightarrow> 's \<Rightarrow> 's" where
  "free_slot 0 kv key c s = s"
| "free_slot (Suc n) kv key c s =
     (case kv_delete kv key c s of (Inr _, s1) \<Rightarrow> s1 | (Inl _, s1) \<Rightarrow> free_slot n kv key c s1)"

text \<open>
  Dropping a permit: the first half at once, the second half in the spawned task (which never runs
  when there is no reactor).
\<close>

definition release_now :: "fleet_permit \<Rightarrow> 'v fleet \<Rightarrow> 'v fleet" where
  "release_now p f = f\<lparr>fs_held := removeAll (fp_key p) (fs_held f)\<rparr>"

definition release_task ::
    "('s, 'v) kv_ops \<Rightarrow> fleet_permit \<Rightarrow> clock \<Rightarrow> 'v fleet \<times> 's \<Rightarrow> 'v fleet \<times> 's" where
  "release_task kv p c = (\<lambda>(f, s).
     (let s1 = free_slot 3 kv (fp_key p) c s in
      (give_local (f\<lparr>fs_full := AList.delete (fp_scope p) (fs_full f)\<rparr>) (fp_scope p), s1)))"

definition prune :: "clock \<Rightarrow> 'v fleet \<Rightarrow> 'v fleet" where
  "prune c f = f\<lparr>fs_slots := filter (\<lambda>((_, cap), available). available < cap) (fs_slots f),
     fs_full := filter (\<lambda>(_, at). clk_inst c - at < FULL_HOLD) (fs_full f)\<rparr>"

text \<open>One held slot of a refresher pass; errors are left to the next pass.\<close>

definition refresh_slot :: "('s, 'v) kv_ops \<Rightarrow> 'v \<Rightarrow> string \<Rightarrow> clock \<Rightarrow> 's \<Rightarrow> 's" where
  "refresh_slot kv holder key c s =
     (case kv_expire kv key (Some SLOT_TTL) c s of
        (Inr True, s1) \<Rightarrow> s1
      | (Inr False, s1) \<Rightarrow> snd (claim_slot kv holder key c s1)
      | (Inl _, s1) \<Rightarrow> s1)"

definition refresh_pass :: "('s, 'v) kv_ops \<Rightarrow> clock \<Rightarrow> 'v fleet \<times> 's \<Rightarrow> 'v fleet \<times> 's" where
  "refresh_pass kv c = (\<lambda>(f, s).
     (let f1 = prune c f in
      (f1, fold (\<lambda>key. refresh_slot kv (fs_holder f1) key c) (fs_held f1) s)))"

text \<open>The back-off of a queued acquire, stretched by the sub-second part of the wall clock.\<close>

definition jitter :: "duration \<Rightarrow> clock \<Rightarrow> duration" where
  "jitter base c =
     (let spread = max (base div 1000) 1 div 2 in base + (clk_utc c mod 1000000000 mod max spread 1) * 1000)"

fun backoff :: "nat \<Rightarrow> duration" where
  "backoff 0 = RETRY_MIN"
| "backoff (Suc n) = min (backoff n * 2) RETRY_MAX"

section \<open>The fleet\<close>

text \<open>
  The fleet at the level of its store calls.  A permit is a replica and the key of its slot; it is
  held until its release, and its slot is freed some time later.  \<open>written\<close> is when the slot was
  last written.
\<close>

record 's fleet_state =
  ft_store :: 's
  ft_held :: "(nat \<times> string) set"
  ft_freeing :: "(nat \<times> string) set"
  ft_written :: "nat \<times> string \<Rightarrow> nat"
  ft_now :: nat

text \<open>Every slot in use was written less than its TTL ago.\<close>

definition in_time :: "'s fleet_state \<Rightarrow> nat \<Rightarrow> bool" where
  "in_time g now \<longleftrightarrow> ft_now g \<le> now \<and> (\<forall>p \<in> ft_held g \<union> ft_freeing g. now < ft_written g p + SLOT_TTL)"

inductive fleet_reach ::
    "(string \<Rightarrow> string) \<Rightarrow> ('s, 'v) kv_ops \<Rightarrow> (nat \<Rightarrow> 'v) \<Rightarrow> string \<Rightarrow> nat \<Rightarrow> 's \<Rightarrow> 's fleet_state \<Rightarrow> bool"
  for enc kv holder scope cap s0 where
  fleet_start: "fleet_reach enc kv holder scope cap s0
     \<lparr>ft_store = s0, ft_held = {}, ft_freeing = {}, ft_written = (\<lambda>_. 0), ft_now = 0\<rparr>"
| fleet_claim: "fleet_reach enc kv holder scope cap s0 g \<Longrightarrow> in_time g (clk_inst c) \<Longrightarrow> index < cap \<Longrightarrow>
     key = slot_key enc scope cap index \<Longrightarrow> claim_slot kv (holder r) key c (ft_store g) = (Inr won, s') \<Longrightarrow>
     fleet_reach enc kv holder scope cap s0
       (g\<lparr>ft_store := s', ft_held := (if won then insert (r, key) (ft_held g) else ft_held g),
          ft_written := (if won then (ft_written g)((r, key) := clk_inst c) else ft_written g), ft_now := clk_inst c\<rparr>)"
| fleet_release: "fleet_reach enc kv holder scope cap s0 g \<Longrightarrow> in_time g now \<Longrightarrow> p \<in> ft_held g \<Longrightarrow>
     fleet_reach enc kv holder scope cap s0
       (g\<lparr>ft_held := ft_held g - {p}, ft_freeing := insert p (ft_freeing g), ft_now := now\<rparr>)"
| fleet_free: "fleet_reach enc kv holder scope cap s0 g \<Longrightarrow> in_time g (clk_inst c) \<Longrightarrow> (r, key) \<in> ft_freeing g \<Longrightarrow>
     fleet_reach enc kv holder scope cap s0
       (g\<lparr>ft_store := free_slot 3 kv key c (ft_store g), ft_freeing := ft_freeing g - {(r, key)}, ft_now := clk_inst c\<rparr>)"
| fleet_refresh: "fleet_reach enc kv holder scope cap s0 g \<Longrightarrow> in_time g (clk_inst c) \<Longrightarrow> (r, key) \<in> ft_held g \<Longrightarrow>
     fleet_reach enc kv holder scope cap s0
       (g\<lparr>ft_store := refresh_slot kv (holder r) key c (ft_store g),
          ft_written := (ft_written g)((r, key) := clk_inst c), ft_now := clk_inst c\<rparr>)"

end
