(* ===== verification/Request_Identity.thy ===== *)
theory Request_Identity
  imports Mcpg_Prelude
begin

text \<open>
  Who makes a request: \<open>RequestIdentity\<close> and \<open>RequestTrustLevel\<close> of \<open>src/runtime/mod.rs\<close>, shared by the
  quota gate and the policy gate.  The fields of \<open>Verified\<close> are, in order, the subject, issuer, auth
  provider, source, roles, groups, scopes and attributes (a \<open>BTreeMap\<close>, here its sorted entries).
\<close>

datatype request_identity =
    Anonymous string
  | HttpHeader string string
  | Verified string string string string "string list" "string list" "string list" "(string \<times> string) list"

text \<open>The trust levels, ordered as the derived \<open>Ord\<close> does: by the place of the variant.\<close>

datatype request_trust_level = Unauthenticated | HeaderAsserted | VerifiedTrust

fun trust_rank :: "request_trust_level \<Rightarrow> nat" where
  "trust_rank Unauthenticated = 0"
| "trust_rank HeaderAsserted = 1"
| "trust_rank VerifiedTrust = 2"

lemma trust_rank_inj: "trust_rank a = trust_rank b \<longleftrightarrow> a = b"
  by (cases a; cases b) auto

instantiation request_trust_level :: linorder
begin

definition less_eq_request_trust_level :: "request_trust_level \<Rightarrow> request_trust_level \<Rightarrow> bool" where
  "less_eq_request_trust_level a b \<longleftrightarrow> trust_rank a \<le> trust_rank b"

definition less_request_trust_level :: "request_trust_level \<Rightarrow> request_trust_level \<Rightarrow> bool" where
  "less_request_trust_level a b \<longleftrightarrow> trust_rank a < trust_rank b"

instance
  by standard (auto simp: less_eq_request_trust_level_def less_request_trust_level_def trust_rank_inj [symmetric])

end

lemmas trust_order = less_eq_request_trust_level_def less_request_trust_level_def

fun identity_label :: "request_identity \<Rightarrow> string" where
  "identity_label (Anonymous _) = ''anonymous''"
| "identity_label (HttpHeader _ _) = ''http_header''"
| "identity_label (Verified _ _ _ _ _ _ _ _) = ''verified''"

fun identity_trust_level :: "request_identity \<Rightarrow> request_trust_level" where
  "identity_trust_level (Anonymous _) = Unauthenticated"
| "identity_trust_level (HttpHeader _ _) = HeaderAsserted"
| "identity_trust_level (Verified _ _ _ _ _ _ _ _) = VerifiedTrust"

fun principal_id :: "request_identity \<Rightarrow> string option" where
  "principal_id (Anonymous _) = None"
| "principal_id (HttpHeader subject_id _) = Some subject_id"
| "principal_id (Verified subject_id _ _ _ _ _ _ _) = Some subject_id"

fun identity_auth_provider :: "request_identity \<Rightarrow> string option" where
  "identity_auth_provider (Verified _ _ provider _ _ _ _ _) = Some provider"
| "identity_auth_provider _ = None"

fun identity_issuer :: "request_identity \<Rightarrow> string option" where
  "identity_issuer (Verified _ iss _ _ _ _ _ _) = Some iss"
| "identity_issuer _ = None"

fun is_anonymous :: "request_identity \<Rightarrow> bool" where
  "is_anonymous (Anonymous _) = True"
| "is_anonymous _ = False"

definition EMA_ACCESS_TOKEN_SOURCE :: string where
  "EMA_ACCESS_TOKEN_SOURCE = ''authorization:ema_access_token''"

definition INSPECTOR_TOKEN_SOURCE :: string where
  "INSPECTOR_TOKEN_SOURCE = ''supervised_inspector_token''"

fun is_gateway_minted :: "request_identity \<Rightarrow> bool" where
  "is_gateway_minted (Verified _ _ _ source _ _ _ _) =
     (source = EMA_ACCESS_TOKEN_SOURCE \<or> source = INSPECTOR_TOKEN_SOURCE)"
| "is_gateway_minted _ = False"

definition is_below_verified :: "request_identity \<Rightarrow> bool" where
  "is_below_verified who \<longleftrightarrow> identity_trust_level who < VerifiedTrust"

fun synthetic_principal_key :: "request_identity \<Rightarrow> string option" where
  "synthetic_principal_key (Anonymous _) = None"
| "synthetic_principal_key (HttpHeader subject_id _) = Some (''header_asserted::'' @ subject_id)"
| "synthetic_principal_key (Verified subject_id iss provider _ _ _ _ _) =
     Some (''verified::'' @ provider @ ''::'' @ iss @ ''::'' @ subject_id)"

fun identity_roles :: "request_identity \<Rightarrow> string list" where
  "identity_roles (Verified _ _ _ _ rs _ _ _) = rs"
| "identity_roles _ = []"

fun identity_groups :: "request_identity \<Rightarrow> string list" where
  "identity_groups (Verified _ _ _ _ _ gs _ _) = gs"
| "identity_groups _ = []"

fun identity_scopes :: "request_identity \<Rightarrow> string list" where
  "identity_scopes (Verified _ _ _ _ _ _ ss _) = ss"
| "identity_scopes _ = []"

fun identity_attributes :: "request_identity \<Rightarrow> (string \<times> string) list" where
  "identity_attributes (Verified _ _ _ _ _ _ _ attrs) = attrs"
| "identity_attributes _ = []"

end
