(* ===== verification/Quota_Gate.thy ===== *)
theory Quota_Gate
  imports Quota_Config Fleet_Semaphore Request_Identity
begin

text \<open>
  The run-time quota gate: \<open>src/runtime/quota_gate.rs\<close>.  Rate limits (GCRA on a shared counter), call,
  token and cost budgets (counters under the keys of a window), and concurrency caps (a local semaphore,
  or the fleet semaphore).

  The sealed store and its plaintext counters are two views \<open>kv\<close> and \<open>ctr\<close> of one store state.  \<open>f64\<close>
  arithmetic is the parameter \<open>f64_ops\<close>; byte conversions, \<open>parse_counter\<close> and serde are parameters too.
  An \<open>anyhow\<close> error is its context and its cause.  The per-key mutex of a replica makes its consume of
  one bucket sequential, so the refusal check after the lock sees what the one before it saw.  What a
  queued call waits for is an argument (\<open>waiting\<close>); a call that still waits has no result.
\<close>

section \<open>Data\<close>

record 'f f64_ops =
  f_of_int :: "int \<Rightarrow> 'f"
  f_div :: "'f \<Rightarrow> 'f \<Rightarrow> 'f"
  f_mul :: "'f \<Rightarrow> 'f \<Rightarrow> 'f"
  f_max :: "'f \<Rightarrow> 'f \<Rightarrow> 'f"
  f_ceil :: "'f \<Rightarrow> 'f"
  f_round :: "'f \<Rightarrow> 'f"
  f_to_i64 :: "'f \<Rightarrow> int"
  f_less :: "'f \<Rightarrow> 'f \<Rightarrow> bool"

record 'f budget_state =
  bs_cost_usd :: 'f
  bs_tokens :: nat
  bs_calls :: nat
  bs_window_started_unix_ms :: int

record ('v, 'f) quota_ext =
  qx_bytes :: "string \<Rightarrow> 'v"
  qx_str :: "'v \<Rightarrow> string option"
  qx_parse_counter :: "'v \<Rightarrow> cluster_error + int"
  qx_unsupported :: "cluster_error \<Rightarrow> bool"
  qx_budget_state :: "'v \<Rightarrow> string + 'f budget_state"
  qx_f64 :: "'f f64_ops"
  qx_encode :: "string \<Rightarrow> string"

datatype quota_kind = RateLimit | Budget | Concurrency

fun quota_kind_str :: "quota_kind \<Rightarrow> string" where
  "quota_kind_str RateLimit = ''rate_limit''"
| "quota_kind_str Budget = ''budget''"
| "quota_kind_str Concurrency = ''concurrency''"

record 'f quota_warning =
  qw_policy_id :: string
  qw_measure :: string
  qw_used :: 'f
  qw_cap :: 'f
  qw_warn_at_pct :: nat

datatype permit = ReplicaPermit string | FleetPermit fleet_permit

datatype 'f quota_decision =
    Allow "permit option" "'f quota_warning list"
  | Deny string quota_kind string

type_synonym quota_error = "string \<times> cluster_error"

text \<open>The store's state, with the refusals this replica knows to hold.\<close>

record 's quota_state =
  qs_store :: 's
  qs_buckets :: "(string \<times> int \<times> int \<times> int) list"
  qs_budgets :: "(string \<times> int \<times> string) list"

definition new_quota_state :: "'s \<Rightarrow> 's quota_state" where
  "new_quota_state s = \<lparr>qs_store = s, qs_buckets = [], qs_budgets = []\<rparr>"

definition BUDGET_REFUSAL_HOLD_MS :: int where
  "BUDGET_REFUSAL_HOLD_MS = 1000"

definition TAT_REPAIR_SLACK_US :: int where
  "TAT_REPAIR_SLACK_US = 60000000"

definition REFUSALS_PRUNE_AT :: nat where
  "REFUSALS_PRUNE_AT = 4096"

section \<open>Refusals\<close>

definition bucket_refuses :: "'s quota_state \<Rightarrow> string \<Rightarrow> int \<Rightarrow> int \<Rightarrow> int \<Rightarrow> bool" where
  "bucket_refuses q key interval_us capacity_us now_us =
     (case map_of (qs_buckets q) key of
        None \<Rightarrow> False
      | Some (until_us, interval, capacity) \<Rightarrow>
          now_us < until_us \<and> interval = interval_us \<and> capacity = capacity_us)"

definition refuse_bucket ::
    "string \<Rightarrow> int \<Rightarrow> int \<Rightarrow> int \<Rightarrow> int \<Rightarrow> 's quota_state \<Rightarrow> 's quota_state" where
  "refuse_bucket key until_us interval_us capacity_us now_us q =
     (if until_us \<le> now_us then q
      else
        (let until' = min until_us (sat_i64 (sat_i64 (now_us + capacity_us) + interval_us));
             kept = (if REFUSALS_PRUNE_AT \<le> length (qs_buckets q)
                     then filter (\<lambda>(_, u, _). now_us < u) (qs_buckets q) else qs_buckets q)
         in q\<lparr>qs_buckets := AList.update key (until', interval_us, capacity_us) kept\<rparr>))"

definition budget_refuses :: "'s quota_state \<Rightarrow> string \<Rightarrow> int \<Rightarrow> string option" where
  "budget_refuses q base now_ms =
     (case map_of (qs_budgets q) base of
        None \<Rightarrow> None
      | Some (until_ms, msr) \<Rightarrow> if now_ms < until_ms then Some msr else None)"

definition refuse_budget :: "string \<Rightarrow> int \<Rightarrow> string \<Rightarrow> int \<Rightarrow> 's quota_state \<Rightarrow> 's quota_state" where
  "refuse_budget base until_ms msr now_ms q =
     (if until_ms \<le> now_ms then q
      else
        (let kept = (if REFUSALS_PRUNE_AT \<le> length (qs_budgets q)
                     then filter (\<lambda>(_, u, _). now_ms < u) (qs_budgets q) else qs_budgets q)
         in q\<lparr>qs_budgets := AList.update base (until_ms, msr) kept\<rparr>))"

section \<open>Token bucket\<close>

definition capacity_for :: "'f f64_ops \<Rightarrow> nat \<Rightarrow> nat option \<Rightarrow> 'f" where
  "capacity_for f rate_per_min burst =
     (let default_capacity = f_max f (f_div f (f_of_int f (int rate_per_min)) (f_of_int f 60)) (f_of_int f 1) in
      case burst of
        Some b \<Rightarrow> if 0 < b then f_of_int f (int b) else default_capacity
      | None \<Rightarrow> default_capacity)"

definition emission_interval_us :: "nat \<Rightarrow> int" where
  "emission_interval_us rate_per_min =
     (let rate = int (max rate_per_min 1) in max ((60000000 + rate div 2) div rate) 1)"

definition capacity_us :: "'f f64_ops \<Rightarrow> rate_limit_policy \<Rightarrow> int" where
  "capacity_us f p =
     f_to_i64 f (f_mul f (capacity_for f (rl_calls_per_minute p) (rl_burst p))
       (f_of_int f (emission_interval_us (rl_calls_per_minute p))))"

definition BUCKET_TTL :: duration where
  "BUCKET_TTL = from_secs 3600"

text \<open>Without \<open>incr_floor\<close>: add the interval, then the gap to now.\<close>

definition clamped_consume ::
    "('s, 'v) kv_ops \<Rightarrow> string \<Rightarrow> int \<Rightarrow> int \<Rightarrow> clock \<Rightarrow> 's \<Rightarrow> (quota_error + int) \<times> 's" where
  "clamped_consume ctr key interval_us now_us c s =
     (case kv_incr ctr key interval_us (Some BUCKET_TTL) c s of
        (Inl e, s1) \<Rightarrow> (Inl (''quota_store: incr failed for `'' @ key @ ''`'', e), s1)
      | (Inr tat, s1) \<Rightarrow>
          (let behind = now_us - (tat - interval_us) in
           if behind \<le> 0 then (Inr tat, s1)
           else
             (case kv_incr ctr key behind (Some BUCKET_TTL) c s1 of
                (Inl e, s2) \<Rightarrow> (Inl (''quota_store: incr clamp failed for `'' @ key @ ''`'', e), s2)
              | (Inr tat', s2) \<Rightarrow> (Inr tat', s2))))"

text \<open>The consume: \<open>incr_floor\<close>, or the two increments where the store does not support it.\<close>

definition raise_tat ::
    "('s, 'v) kv_ops \<Rightarrow> ('v, 'f) quota_ext \<Rightarrow> string \<Rightarrow> int \<Rightarrow> int \<Rightarrow> clock \<Rightarrow> 's \<Rightarrow> (quota_error + int) \<times> 's" where
  "raise_tat ctr x key interval_us now_us c s =
     (case kv_incr_floor ctr key interval_us now_us (Some BUCKET_TTL) c s of
        (Inr tat, s1) \<Rightarrow> (Inr tat, s1)
      | (Inl e, s1) \<Rightarrow>
          if qx_unsupported x e then clamped_consume ctr key interval_us now_us c s1
          else (Inl (''quota_store: incr_floor failed for `'' @ key @ ''`'', e), s1))"

text \<open>A bucket far past any consume is brought back.\<close>

definition repair_tat ::
    "('s, 'v) kv_ops \<Rightarrow> string \<Rightarrow> int \<Rightarrow> int \<Rightarrow> int \<Rightarrow> int \<Rightarrow> clock \<Rightarrow> 's \<Rightarrow> (quota_error + int) \<times> 's" where
  "repair_tat ctr key interval_us cap_us now_us tat c s =
     (if sat_i64 (sat_i64 (now_us + cap_us) + TAT_REPAIR_SLACK_US) < tat
      then
        (case kv_incr ctr key (now_us + interval_us - tat) (Some BUCKET_TTL) c s of
           (Inl e, s1) \<Rightarrow> (Inl (''quota_store: incr repair failed for `'' @ key @ ''`'', e), s1)
         | (Inr tat', s1) \<Rightarrow> (Inr tat', s1))
      else (Inr tat, s))"

definition consume_token_bucket ::
    "('s, 'v) kv_ops \<Rightarrow> ('v, 'f) quota_ext \<Rightarrow> string \<Rightarrow> rate_limit_policy \<Rightarrow> int \<Rightarrow> clock \<Rightarrow> 's quota_state \<Rightarrow>
     (quota_error + bool) \<times> 's quota_state" where
  "consume_token_bucket ctr x key p now_ms c q =
     (let interval_us = emission_interval_us (rl_calls_per_minute p);
          cap_us = capacity_us (qx_f64 x) p;
          now_us = sat_i64 (now_ms * 1000)
      in
      if bucket_refuses q key interval_us cap_us now_us then (Inr False, q)
      else
        (case raise_tat ctr x key interval_us now_us c (qs_store q) of
           (Inl e, s1) \<Rightarrow> (Inl e, q\<lparr>qs_store := s1\<rparr>)
         | (Inr tat0, s1) \<Rightarrow>
             (case repair_tat ctr key interval_us cap_us now_us tat0 c s1 of
                (Inl e, s2) \<Rightarrow> (Inl e, q\<lparr>qs_store := s2\<rparr>)
              | (Inr tat, s2) \<Rightarrow>
                  if tat \<le> sat_i64 (now_us + cap_us) then (Inr True, q\<lparr>qs_store := s2\<rparr>)
                  else
                    (case kv_incr ctr key (- interval_us) (Some BUCKET_TTL) c s2 of
                       (Inr after, s3) \<Rightarrow>
                         (Inr False,
                          refuse_bucket key (sat_i64 (sat_i64 (after + interval_us) - cap_us)) interval_us cap_us now_us
                            (q\<lparr>qs_store := s3\<rparr>))
                     | (Inl _, s3) \<Rightarrow> (Inr False, q\<lparr>qs_store := s3\<rparr>)))))"

section \<open>Budgets\<close>

definition usd_to_micro :: "'f f64_ops \<Rightarrow> 'f \<Rightarrow> int" where
  "usd_to_micro f usd = f_to_i64 f (f_round f (f_mul f usd (f_of_int f 1000000)))"

record budget_window =
  bw_prefix :: string
  bw_ttl :: duration
  bw_ends_ms :: int

definition window_ttl :: "int \<Rightarrow> duration" where
  "window_ttl window_ms = from_millis (min (nat window_ms * 2) (2 ^ 64 - 1))"

definition read_start ::
    "('s, 'v) kv_ops \<Rightarrow> ('v, 'f) quota_ext \<Rightarrow> string \<Rightarrow> clock \<Rightarrow> 's \<Rightarrow> (quota_error + int option) \<times> 's" where
  "read_start kv x anchor c s =
     (case kv_get kv anchor c s of
        (Inl e, s1) \<Rightarrow> (Inl (''quota_store: get failed for `'' @ anchor @ ''`'', e), s1)
      | (Inr None, s1) \<Rightarrow> (Inr None, s1)
      | (Inr (Some entry), s1) \<Rightarrow>
          (Inr (case qx_str x (ent_bytes entry) of None \<Rightarrow> None | Some t \<Rightarrow> parse_i64 t), s1))"

definition legacy_budget ::
    "('s, 'v) kv_ops \<Rightarrow> ('v, 'f) quota_ext \<Rightarrow> string \<Rightarrow> int \<Rightarrow> int \<Rightarrow> clock \<Rightarrow> 's \<Rightarrow> 'f budget_state option \<times> 's" where
  "legacy_budget kv x base window_ms now_ms c s =
     (case kv_get kv base c s of
        (Inr (Some entry), s1) \<Rightarrow>
          (case qx_budget_state x (ent_bytes entry) of
             Inr state \<Rightarrow>
               (if now_ms - bs_window_started_unix_ms state < window_ms \<and> bs_window_started_unix_ms state \<le> now_ms
                then Some state else None, s1)
           | Inl _ \<Rightarrow> (None, s1))
      | (_, s1) \<Rightarrow> (None, s1))"

text \<open>A window without an anchor is opened: the anchor, and the calls of a legacy record.\<close>

definition open_anchor ::
    "('s, 'v) kv_ops \<Rightarrow> ('s, 'v) kv_ops \<Rightarrow> ('v, 'f) quota_ext \<Rightarrow> string \<Rightarrow> int \<Rightarrow> int \<Rightarrow> clock \<Rightarrow> 's \<Rightarrow>
     (quota_error + int) \<times> 's" where
  "open_anchor kv ctr x base window_ms now_ms c s =
     (let anchor = base @ ''.window'' in
      case legacy_budget kv x base window_ms now_ms c s of
        (legacy, s1) \<Rightarrow>
          (let start = (case legacy of None \<Rightarrow> now_ms | Some state \<Rightarrow> bs_window_started_unix_ms state);
               left = from_millis (nat (max (window_ms - (now_ms - start)) 1))
           in
           case kv_put_if_absent kv anchor (qx_bytes x (show_int start)) (Some left) c s1 of
             (Inl e, s2) \<Rightarrow> (Inl (''quota_store: budget window open failed for `'' @ base @ ''`'', e), s2)
           | (Inr True, s2) \<Rightarrow>
               (case legacy of
                  Some state \<Rightarrow>
                    if 0 < bs_calls state then
                      (Inr start,
                       snd (kv_put_if_absent ctr (base @ ''.'' @ show_int start @ ''.calls'')
                              (qx_bytes x (show_nat (bs_calls state))) (Some (window_ttl window_ms)) c s2))
                    else (Inr start, s2)
                | None \<Rightarrow> (Inr start, s2))
           | (Inr False, s2) \<Rightarrow>
               (case read_start kv x anchor c s2 of
                  (Inl e, s3) \<Rightarrow> (Inl e, s3)
                | (Inr None, s3) \<Rightarrow> (Inr start, s3)
                | (Inr (Some start'), s3) \<Rightarrow> (Inr start', s3))))"

definition budget_window_at :: "string \<Rightarrow> int \<Rightarrow> int \<Rightarrow> budget_window" where
  "budget_window_at base window_ms start =
     \<lparr>bw_prefix = base @ ''.'' @ show_int start, bw_ttl = window_ttl window_ms, bw_ends_ms = sat_i64 (start + window_ms)\<rparr>"

definition open_window ::
    "('s, 'v) kv_ops \<Rightarrow> ('s, 'v) kv_ops \<Rightarrow> ('v, 'f) quota_ext \<Rightarrow> string \<Rightarrow> int \<Rightarrow> int \<Rightarrow> clock \<Rightarrow> 's \<Rightarrow>
     (quota_error + budget_window) \<times> 's" where
  "open_window kv ctr x base window_ms0 now_ms c s =
     (let window_ms = max window_ms0 1 in
      case read_start kv x (base @ ''.window'') c s of
        (Inl e, s1) \<Rightarrow> (Inl e, s1)
      | (Inr (Some start), s1) \<Rightarrow> (Inr (budget_window_at base window_ms start), s1)
      | (Inr None, s1) \<Rightarrow>
          (case open_anchor kv ctr x base window_ms now_ms c s1 of
             (Inl e, s2) \<Rightarrow> (Inl e, s2)
           | (Inr start, s2) \<Rightarrow> (Inr (budget_window_at base window_ms start), s2)))"

definition measure_key :: "budget_window \<Rightarrow> string \<Rightarrow> string" where
  "measure_key w m = bw_prefix w @ ''.'' @ m"

definition window_read ::
    "('s, 'v) kv_ops \<Rightarrow> ('v, 'f) quota_ext \<Rightarrow> budget_window \<Rightarrow> string \<Rightarrow> clock \<Rightarrow> 's \<Rightarrow> (quota_error + int) \<times> 's" where
  "window_read ctr x w m c s =
     (case kv_get ctr (measure_key w m) c s of
        (Inl e, s1) \<Rightarrow> (Inl (''quota_store: get failed for `'' @ measure_key w m @ ''`'', e), s1)
      | (Inr (Some entry), s1) \<Rightarrow>
          (Inr (case qx_parse_counter x (ent_bytes entry) of Inl _ \<Rightarrow> 0 | Inr n \<Rightarrow> n), s1)
      | (Inr None, s1) \<Rightarrow> (Inr 0, s1))"

definition window_add ::
    "('s, 'v) kv_ops \<Rightarrow> budget_window \<Rightarrow> string \<Rightarrow> int \<Rightarrow> clock \<Rightarrow> 's \<Rightarrow> (quota_error + int) \<times> 's" where
  "window_add ctr w m delta c s =
     (case kv_incr ctr (measure_key w m) delta (Some (bw_ttl w)) c s of
        (Inl e, s1) \<Rightarrow> (Inl (''quota_store: incr failed for `'' @ measure_key w m @ ''`'', e), s1)
      | (Inr n, s1) \<Rightarrow> (Inr n, s1))"

definition give_back_call :: "('s, 'v) kv_ops \<Rightarrow> budget_window \<Rightarrow> clock \<Rightarrow> 's \<Rightarrow> 's" where
  "give_back_call ctr w c s = snd (window_add ctr w ''calls'' (- 1) c s)"

definition crossing ::
    "'f f64_ops \<Rightarrow> 'f budget_policy \<Rightarrow> string \<Rightarrow> int \<Rightarrow> int \<Rightarrow> int \<Rightarrow> 'f \<Rightarrow> 'f quota_warning list" where
  "crossing f p m before after cap scale =
     (case bp_warn_at_pct p of
        None \<Rightarrow> []
      | Some pct \<Rightarrow>
          (let threshold = f_to_i64 f (f_ceil f (f_div f (f_mul f (f_of_int f cap) (f_of_int f (int pct))) (f_of_int f 100))) in
           if before < threshold \<and> threshold \<le> after
           then [\<lparr>qw_policy_id = bp_id p, qw_measure = m, qw_used = f_div f (f_of_int f after) scale,
                  qw_cap = f_div f (f_of_int f cap) scale, qw_warn_at_pct = pct\<rparr>]
           else []))"

datatype 'f budget_check = Allowed "'f quota_warning list" "budget_window option" | Denied string

definition refuse_measure ::
    "string \<Rightarrow> budget_window \<Rightarrow> string \<Rightarrow> int \<Rightarrow> 's quota_state \<Rightarrow> (quota_error + 'f budget_check) \<times> 's quota_state" where
  "refuse_measure base w m now_ms q =
     (Inr (Denied m), refuse_budget base (min (sat_i64 (now_ms + BUDGET_REFUSAL_HOLD_MS)) (bw_ends_ms w)) m now_ms q)"

text \<open>Whether a measure that is charged after the call is at its cap.\<close>

definition spent ::
    "('s, 'v) kv_ops \<Rightarrow> ('v, 'f) quota_ext \<Rightarrow> budget_window \<Rightarrow> string \<Rightarrow> int option \<Rightarrow> clock \<Rightarrow> 's \<Rightarrow>
     (quota_error + bool) \<times> 's" where
  "spent ctr x w m cap c s =
     (case cap of
        None \<Rightarrow> (Inr False, s)
      | Some n \<Rightarrow> (case window_read ctr x w m c s of (Inl e, s1) \<Rightarrow> (Inl e, s1) | (Inr used, s1) \<Rightarrow> (Inr (n \<le> used), s1)))"

text \<open>\<open>cap as i64\<close> of a \<open>u64\<close> wraps.\<close>

definition count_call ::
    "('s, 'v) kv_ops \<Rightarrow> ('v, 'f) quota_ext \<Rightarrow> string \<Rightarrow> 'f budget_policy \<Rightarrow> budget_window \<Rightarrow> int \<Rightarrow> clock \<Rightarrow>
     's quota_state \<Rightarrow> (quota_error + 'f budget_check) \<times> 's quota_state" where
  "count_call ctr x base p w now_ms c q =
     (case bp_cap_calls p of
        None \<Rightarrow> (Inr (Allowed [] None), q)
      | Some n \<Rightarrow>
          (let cap = wrap_i64 (int n) in
           case window_add ctr w ''calls'' 1 c (qs_store q) of
             (Inl e, s1) \<Rightarrow> (Inl e, q\<lparr>qs_store := s1\<rparr>)
           | (Inr calls, s1) \<Rightarrow>
               if cap < calls then refuse_measure base w ''calls'' now_ms (q\<lparr>qs_store := give_back_call ctr w c s1\<rparr>)
               else (Inr (Allowed (crossing (qx_f64 x) p ''calls'' (calls - 1) calls cap (f_of_int (qx_f64 x) 1)) (Some w)),
                     q\<lparr>qs_store := s1\<rparr>)))"

definition check_budget_pre_flight ::
    "('s, 'v) kv_ops \<Rightarrow> ('s, 'v) kv_ops \<Rightarrow> ('v, 'f) quota_ext \<Rightarrow> string \<Rightarrow> 'f budget_policy \<Rightarrow> int \<Rightarrow> clock \<Rightarrow>
     's quota_state \<Rightarrow> (quota_error + 'f budget_check) \<times> 's quota_state" where
  "check_budget_pre_flight kv ctr x base p now_ms c q =
     (case budget_refuses q base now_ms of
        Some m \<Rightarrow> (Inr (Denied m), q)
      | None \<Rightarrow>
          (case open_window kv ctr x base (budget_window_ms p) now_ms c (qs_store q) of
             (Inl e, s1) \<Rightarrow> (Inl e, q\<lparr>qs_store := s1\<rparr>)
           | (Inr w, s1) \<Rightarrow>
               (case spent ctr x w ''tokens'' (map_option (\<lambda>n. wrap_i64 (int n)) (bp_cap_token_count p)) c s1 of
                  (Inl e, s2) \<Rightarrow> (Inl e, q\<lparr>qs_store := s2\<rparr>)
                | (Inr True, s2) \<Rightarrow> refuse_measure base w ''tokens'' now_ms (q\<lparr>qs_store := s2\<rparr>)
                | (Inr False, s2) \<Rightarrow>
                    (case spent ctr x w ''micro_usd'' (map_option (usd_to_micro (qx_f64 x)) (bp_cap_usd p)) c s2 of
                       (Inl e, s3) \<Rightarrow> (Inl e, q\<lparr>qs_store := s3\<rparr>)
                     | (Inr True, s3) \<Rightarrow> refuse_measure base w ''usd'' now_ms (q\<lparr>qs_store := s3\<rparr>)
                     | (Inr False, s3) \<Rightarrow> count_call ctr x base p w now_ms c (q\<lparr>qs_store := s3\<rparr>)))))"

record 'f backend_usage =
  bu_input_tokens :: nat
  bu_output_tokens :: nat
  bu_cost_usd :: "'f option"

text \<open>\<open>u64::saturating_add\<close>, then \<open>i64::try_from(..).unwrap_or(i64::MAX)\<close>.\<close>

definition usage_tokens :: "'f backend_usage \<Rightarrow> nat" where
  "usage_tokens u = min (bu_input_tokens u + bu_output_tokens u) (2 ^ 64 - 1)"

definition charge_measure ::
    "('s, 'v) kv_ops \<Rightarrow> 'f f64_ops \<Rightarrow> 'f budget_policy \<Rightarrow> budget_window \<Rightarrow> string \<Rightarrow> string \<Rightarrow> int \<Rightarrow> int \<Rightarrow> 'f \<Rightarrow> clock \<Rightarrow>
     's \<Rightarrow> (quota_error + 'f quota_warning list) \<times> 's" where
  "charge_measure ctr f p w m label delta cap scale c s =
     (case window_add ctr w m delta c s of
        (Inl e, s1) \<Rightarrow> (Inl e, s1)
      | (Inr after, s1) \<Rightarrow> (Inr (crossing f p label (sat_i64 (after - delta)) after cap scale), s1))"

definition charge_budget ::
    "('s, 'v) kv_ops \<Rightarrow> ('s, 'v) kv_ops \<Rightarrow> ('v, 'f) quota_ext \<Rightarrow> string \<Rightarrow> 'f budget_policy \<Rightarrow> 'f backend_usage \<Rightarrow> int \<Rightarrow>
     clock \<Rightarrow> 's \<Rightarrow> (quota_error + 'f quota_warning list) \<times> 's" where
  "charge_budget kv ctr x base p usage now_ms c s =
     (let f = qx_f64 x; tokens = usage_tokens usage in
      case open_window kv ctr x base (budget_window_ms p) now_ms c s of
        (Inl e, s1) \<Rightarrow> (Inl e, s1)
      | (Inr w, s1) \<Rightarrow>
          (case (case bp_cap_token_count p of
                   Some cap \<Rightarrow>
                     if 0 < tokens
                     then charge_measure ctr f p w ''tokens'' ''tokens'' (min (int tokens) (2 ^ 63 - 1)) (wrap_i64 (int cap)) (f_of_int f 1) c s1
                     else (Inr [], s1)
                 | None \<Rightarrow> (Inr [], s1)) of
             (Inl e, s2) \<Rightarrow> (Inl e, s2)
           | (Inr ws, s2) \<Rightarrow>
               (case (bp_cap_usd p, bu_cost_usd usage) of
                  (Some cap, Some cost) \<Rightarrow>
                    if f_less f (f_of_int f 0) cost
                    then (case charge_measure ctr f p w ''micro_usd'' ''usd'' (usd_to_micro f cost) (usd_to_micro f cap) (f_of_int f 1000000) c s2 of
                            (Inl e, s3) \<Rightarrow> (Inl e, s3) | (Inr ws', s3) \<Rightarrow> (Inr (ws @ ws'), s3))
                    else (Inr ws, s2)
                | _ \<Rightarrow> (Inr ws, s2))))"

section \<open>Concurrency\<close>

text \<open>A replica's semaphores: the available permits of each scope, created on first use.\<close>

type_synonym tracker = "(string \<times> nat) list"

definition tracker_try_acquire :: "tracker \<Rightarrow> string \<Rightarrow> nat \<Rightarrow> permit option \<times> tracker" where
  "tracker_try_acquire t key cap =
     (let available = (case map_of t key of Some n \<Rightarrow> n | None \<Rightarrow> cap) in
      case available of
        0 \<Rightarrow> (None, AList.update key 0 t)
      | Suc n \<Rightarrow> (Some (ReplicaPermit key), AList.update key n t))"

text \<open>The wait of \<open>acquire_within\<close>: what others did until a permit came free, or that it timed out.\<close>

definition tracker_acquire_within ::
    "tracker \<Rightarrow> string \<Rightarrow> nat \<Rightarrow> (tracker \<Rightarrow> tracker) option \<Rightarrow> (permit option \<times> tracker) option" where
  "tracker_acquire_within t key cap arrive =
     (let t0 = (case map_of t key of Some _ \<Rightarrow> t | None \<Rightarrow> AList.update key cap t) in
      case arrive of
        None \<Rightarrow> Some (None, t0)
      | Some others \<Rightarrow>
          (case tracker_try_acquire (others t0) key cap of
             (Some p, t1) \<Rightarrow> Some (Some p, t1) | (None, _) \<Rightarrow> None))"

definition tracker_release :: "tracker \<Rightarrow> string \<Rightarrow> tracker" where
  "tracker_release t key = (case map_of t key of None \<Rightarrow> t | Some n \<Rightarrow> AList.update key (Suc n) t)"

datatype 'v concurrency = Replica tracker | Fleet "'v fleet"

record ('s, 'v) waiting =
  wt_replica :: "(tracker \<Rightarrow> tracker) option"
  wt_arrive :: "('v fleet \<times> 's \<Rightarrow> 'v fleet \<times> 's) option"
  wt_wakes :: "(clock \<times> clock \<times> ('v fleet \<times> 's \<Rightarrow> 'v fleet \<times> 's)) list"

record ('s, 'v) gate_state =
  gs_quota :: "'s quota_state"
  gs_concurrency :: "'v concurrency"

definition with_fleet :: "('s, 'v) gate_state \<Rightarrow> 'v fleet \<Rightarrow> 's \<Rightarrow> ('s, 'v) gate_state" where
  "with_fleet g f s = g\<lparr>gs_quota := (gs_quota g)\<lparr>qs_store := s\<rparr>, gs_concurrency := Fleet f\<rparr>"

definition acquire_concurrency ::
    "('s, 'v) kv_ops \<Rightarrow> ('v, 'f) quota_ext \<Rightarrow> string \<Rightarrow> nat \<Rightarrow> duration option \<Rightarrow> ('s, 'v) waiting \<Rightarrow> clock \<Rightarrow>
     ('s, 'v) gate_state \<Rightarrow> ((quota_error + permit option) \<times> ('s, 'v) gate_state) option" where
  "acquire_concurrency kv x scope cap queue wait c g =
     (case gs_concurrency g of
        Replica t \<Rightarrow>
          (case queue of
             None \<Rightarrow> (case tracker_try_acquire t scope cap of (p, t1) \<Rightarrow> Some (Inr p, g\<lparr>gs_concurrency := Replica t1\<rparr>))
           | Some _ \<Rightarrow>
               map_option (\<lambda>(p, t1). (Inr p, g\<lparr>gs_concurrency := Replica t1\<rparr>))
                 (tracker_acquire_within t scope cap (wt_replica wait)))
      | Fleet f \<Rightarrow>
          map_option (\<lambda>(r, f1, s1).
             ((case r of
                 Inl e \<Rightarrow> Inl (''fleet concurrency count failed for `'' @ scope @ ''`'', e)
               | Inr p \<Rightarrow> Inr (map_option FleetPermit p)),
              with_fleet g f1 s1))
            (case queue of
               None \<Rightarrow> Some (try_acquire (qx_encode x) kv scope cap c (f, qs_store (gs_quota g)))
             | Some timeout \<Rightarrow>
                 acquire_within (qx_encode x) kv scope cap timeout (wt_arrive wait) (wt_wakes wait) c
                   (f, qs_store (gs_quota g))))"

section \<open>The gate\<close>

record 'f quota_gate =
  qg_rate_limits :: "string \<rightharpoonup> rate_limit_policy"
  qg_budgets :: "string \<rightharpoonup> 'f budget_policy"
  qg_concurrency :: "string \<rightharpoonup> concurrency_policy"
  qg_binding_refs :: "string \<rightharpoonup> backend_quotas_ref"
  qg_fail_open :: bool

text \<open>Collecting pairs into a \<open>HashMap\<close> keeps the last one of a key.\<close>

definition collect_by :: "('p \<Rightarrow> string) \<Rightarrow> 'p list \<Rightarrow> (string \<rightharpoonup> 'p)" where
  "collect_by id_of ps = map_of (rev (map (\<lambda>p. (id_of p, p)) ps))"

definition new_gate :: "'f quotas_config \<Rightarrow> (string \<rightharpoonup> backend_quotas_ref) \<Rightarrow> 'f quota_gate" where
  "new_gate q refs = \<lparr>qg_rate_limits = collect_by rl_id (qc_rate_limits q), qg_budgets = collect_by bp_id (qc_budgets q),
     qg_concurrency = collect_by cp_id (qc_concurrency q), qg_binding_refs = refs, qg_fail_open = fail_open_on_error q\<rparr>"

record eval_context =
  ec_bref :: backend_quotas_ref
  ec_tool_name :: string
  ec_session_id :: "string option"
  ec_identity :: request_identity

definition or_else :: "string option \<Rightarrow> string \<Rightarrow> string" where
  "or_else v d = (case v of None \<Rightarrow> d | Some s \<Rightarrow> s)"

definition scope_key :: "string \<Rightarrow> string option \<Rightarrow> eval_context \<Rightarrow> string" where
  "scope_key scope identity_claim ctx =
     (if scope = ''per_identity'' then
        (let principal = or_else (principal_id (ec_identity ctx)) ''anonymous'' in
         case identity_claim of
           None \<Rightarrow> principal
         | Some claim \<Rightarrow>
             (case ec_identity ctx of
                Verified _ _ _ _ _ _ _ attributes \<Rightarrow> or_else (map_of attributes claim) principal
              | _ \<Rightarrow> principal))
      else if scope = ''per_session'' then or_else (ec_session_id ctx) ''no-session''
      else if scope = ''per_tool'' then ec_tool_name ctx
      else ''global'')"

definition rate_limit_key :: "rate_limit_policy \<Rightarrow> eval_context \<Rightarrow> string" where
  "rate_limit_key p ctx =
     ''quotas.rate_limit.'' @ rl_id p @ ''.'' @ scope_key (rl_scope p) (rl_identity_claim p) ctx"

definition budget_key :: "'f budget_policy \<Rightarrow> eval_context \<Rightarrow> string" where
  "budget_key p ctx = ''quotas.budget.'' @ bp_id p @ ''.'' @ scope_key (bp_scope p) (bp_identity_claim p) ctx"

definition concurrency_key :: "concurrency_policy \<Rightarrow> eval_context \<Rightarrow> string" where
  "concurrency_key p ctx = cp_id p @ [CHR 0x1F] @ scope_key (cp_scope p) (cp_identity_claim p) ctx"

definition timestamp_millis :: "clock \<Rightarrow> int" where
  "timestamp_millis c = int (clk_utc c div 1000000)"

text \<open>The three stages of \<open>evaluate\<close>; a stage without a policy lets the call through.\<close>

definition rate_stage ::
    "('s, 'v) kv_ops \<Rightarrow> ('v, 'f) quota_ext \<Rightarrow> 'f quota_gate \<Rightarrow> eval_context \<Rightarrow> clock \<Rightarrow> 's quota_state \<Rightarrow>
     (quota_error + 'f quota_decision option) \<times> 's quota_state" where
  "rate_stage ctr x gate ctx c q =
     (case Option.bind (br_rate_limit (ec_bref ctx)) (qg_rate_limits gate) of
        None \<Rightarrow> (Inr None, q)
      | Some p \<Rightarrow>
          (case consume_token_bucket ctr x (rate_limit_key p ctx) p (timestamp_millis c) c q of
             (Inl e, q1) \<Rightarrow> (Inl e, q1)
           | (Inr True, q1) \<Rightarrow> (Inr None, q1)
           | (Inr False, q1) \<Rightarrow>
               (Inr (Some (Deny (rl_id p) RateLimit
                  (''rate-limit `'' @ rl_id p @ ''` exhausted for scope `''
                     @ scope_key (rl_scope p) (rl_identity_claim p) ctx @ ''`''))), q1)))"

definition budget_stage ::
    "('s, 'v) kv_ops \<Rightarrow> ('s, 'v) kv_ops \<Rightarrow> ('v, 'f) quota_ext \<Rightarrow> 'f quota_gate \<Rightarrow> eval_context \<Rightarrow> clock \<Rightarrow> 's quota_state \<Rightarrow>
     (quota_error + ('f quota_decision + ('f quota_warning list \<times> budget_window option))) \<times> 's quota_state" where
  "budget_stage kv ctr x gate ctx c q =
     (case Option.bind (br_budget (ec_bref ctx)) (qg_budgets gate) of
        None \<Rightarrow> (Inr (Inr ([], None)), q)
      | Some p \<Rightarrow>
          (case check_budget_pre_flight kv ctr x (budget_key p ctx) p (timestamp_millis c) c q of
             (Inl e, q1) \<Rightarrow> (Inl e, q1)
           | (Inr (Allowed ws w), q1) \<Rightarrow> (Inr (Inr (ws, w)), q1)
           | (Inr (Denied m), q1) \<Rightarrow>
               (Inr (Inl (Deny (bp_id p) Budget
                  (''budget `'' @ bp_id p @ ''` exhausted for scope `''
                     @ scope_key (bp_scope p) (bp_identity_claim p) ctx @ ''` ('' @ m @ '')''))), q1)))"

definition give_back ::
    "('s, 'v) kv_ops \<Rightarrow> budget_window option \<Rightarrow> clock \<Rightarrow> ('s, 'v) gate_state \<Rightarrow> ('s, 'v) gate_state" where
  "give_back ctr counted c g =
     (case counted of
        None \<Rightarrow> g
      | Some w \<Rightarrow> g\<lparr>gs_quota := (gs_quota g)\<lparr>qs_store := give_back_call ctr w c (qs_store (gs_quota g))\<rparr>\<rparr>)"

definition queue_of :: "concurrency_policy \<Rightarrow> duration option" where
  "queue_of p = (if cp_on_exceeded p = ''queue'' then Some (from_millis (cp_queue_timeout_ms p)) else None)"

definition concurrency_denial :: "concurrency_policy \<Rightarrow> eval_context \<Rightarrow> 'f quota_decision" where
  "concurrency_denial p ctx =
     Deny (cp_id p) Concurrency
       (''concurrency cap `'' @ cp_id p @ ''` reached for scope `''
          @ scope_key (cp_scope p) (cp_identity_claim p) ctx @ ''` ('' @ show_nat (cp_max_concurrent p) @ ''/''
          @ show_nat (cp_max_concurrent p) @ '' in flight''
          @ (case queue_of p of None \<Rightarrow> [] | Some q \<Rightarrow> ''; waited '' @ show_nat (as_millis q) @ '' ms'') @ '')'')"

definition concurrency_stage ::
    "('s, 'v) kv_ops \<Rightarrow> ('s, 'v) kv_ops \<Rightarrow> ('v, 'f) quota_ext \<Rightarrow> 'f quota_gate \<Rightarrow> eval_context \<Rightarrow> ('s, 'v) waiting \<Rightarrow>
     'f quota_warning list \<Rightarrow> budget_window option \<Rightarrow> clock \<Rightarrow> ('s, 'v) gate_state \<Rightarrow>
     ((quota_error + 'f quota_decision) \<times> ('s, 'v) gate_state) option" where
  "concurrency_stage kv ctr x gate ctx wait ws counted c g =
     (case Option.bind (br_concurrency (ec_bref ctx)) (qg_concurrency gate) of
        None \<Rightarrow> Some (Inr (Allow None ws), g)
      | Some p \<Rightarrow>
          (case acquire_concurrency kv x (concurrency_key p ctx) (cp_max_concurrent p) (queue_of p) wait c g of
             None \<Rightarrow> None
           | Some (Inl e, g1) \<Rightarrow> Some (Inl e, give_back ctr counted c g1)
           | Some (Inr None, g1) \<Rightarrow> Some (Inr (concurrency_denial p ctx), give_back ctr counted c g1)
           | Some (Inr (Some permit), g1) \<Rightarrow> Some (Inr (Allow (Some permit) ws), g1)))"

definition evaluate ::
    "('s, 'v) kv_ops \<Rightarrow> ('s, 'v) kv_ops \<Rightarrow> ('v, 'f) quota_ext \<Rightarrow> 'f quota_gate \<Rightarrow> eval_context \<Rightarrow> ('s, 'v) waiting \<Rightarrow> clock \<Rightarrow>
     ('s, 'v) gate_state \<Rightarrow> ((quota_error + 'f quota_decision) \<times> ('s, 'v) gate_state) option" where
  "evaluate kv ctr x gate ctx wait c g =
     (case rate_stage ctr x gate ctx c (gs_quota g) of
        (Inl e, q1) \<Rightarrow> Some (Inl e, g\<lparr>gs_quota := q1\<rparr>)
      | (Inr (Some deny), q1) \<Rightarrow> Some (Inr deny, g\<lparr>gs_quota := q1\<rparr>)
      | (Inr None, q1) \<Rightarrow>
          (case budget_stage kv ctr x gate ctx c q1 of
             (Inl e, q2) \<Rightarrow> Some (Inl e, g\<lparr>gs_quota := q2\<rparr>)
           | (Inr (Inl deny), q2) \<Rightarrow> Some (Inr deny, g\<lparr>gs_quota := q2\<rparr>)
           | (Inr (Inr (ws, counted)), q2) \<Rightarrow>
               concurrency_stage kv ctr x gate ctx wait ws counted c (g\<lparr>gs_quota := q2\<rparr>)))"

definition evaluate_for_tool ::
    "('s, 'v) kv_ops \<Rightarrow> ('s, 'v) kv_ops \<Rightarrow> ('v, 'f) quota_ext \<Rightarrow> 'f quota_gate \<Rightarrow> string \<Rightarrow> string option \<Rightarrow>
     request_identity \<Rightarrow> ('s, 'v) waiting \<Rightarrow> clock \<Rightarrow> ('s, 'v) gate_state \<Rightarrow>
     ((quota_error + 'f quota_decision) \<times> ('s, 'v) gate_state) option" where
  "evaluate_for_tool kv ctr x gate tool session_id identity wait c g =
     (case qg_binding_refs gate tool of
        None \<Rightarrow> Some (Inr (Allow None []), g)
      | Some bref \<Rightarrow>
          if bref_is_empty bref then Some (Inr (Allow None []), g)
          else evaluate kv ctr x gate
                 \<lparr>ec_bref = bref, ec_tool_name = tool, ec_session_id = session_id, ec_identity = identity\<rparr> wait c g)"

definition charge_usage ::
    "('s, 'v) kv_ops \<Rightarrow> ('s, 'v) kv_ops \<Rightarrow> ('v, 'f) quota_ext \<Rightarrow> 'f quota_gate \<Rightarrow> string \<Rightarrow> string option \<Rightarrow>
     request_identity \<Rightarrow> 'f backend_usage \<Rightarrow> clock \<Rightarrow> ('s, 'v) gate_state \<Rightarrow>
     (quota_error + 'f quota_warning list) \<times> ('s, 'v) gate_state" where
  "charge_usage kv ctr x gate tool session_id identity usage c g =
     (case qg_binding_refs gate tool of
        None \<Rightarrow> (Inr [], g)
      | Some bref \<Rightarrow>
          (case Option.bind (br_budget bref) (qg_budgets gate) of
             None \<Rightarrow> (Inr [], g)
           | Some p \<Rightarrow>
               if bp_cap_token_count p = None \<and> bp_cap_usd p = None then (Inr [], g)
               else
                 (let ctx = \<lparr>ec_bref = bref, ec_tool_name = tool, ec_session_id = session_id, ec_identity = identity\<rparr> in
                  case charge_budget kv ctr x (budget_key p ctx) p usage (timestamp_millis c) c (qs_store (gs_quota g)) of
                    (r, s1) \<Rightarrow> (r, g\<lparr>gs_quota := (gs_quota g)\<lparr>qs_store := s1\<rparr>\<rparr>))))"

end
