(* ===== verification/Fleet_Properties.thy ===== *)
theory Fleet_Properties
  imports Fleet_Semaphore
begin

text \<open>
  Correctness of the fleet semaphore over any store that keeps the contract \<open>kv_store\<close>: the cap
  holds across replicas while holders refresh in time, a sequential acquire succeeds exactly when a
  slot is free, and a release does not check whose slot it frees.
\<close>

section \<open>Slots\<close>

definition slot_keys :: "(string \<Rightarrow> string) \<Rightarrow> string \<Rightarrow> nat \<Rightarrow> string set" where
  "slot_keys enc scope cap = slot_key enc scope cap ` {..<cap}"

lemma slot_key_inj: "slot_key enc scope cap i = slot_key enc scope cap j \<Longrightarrow> i = j"
  by (auto simp: slot_key_def dest: show_nat_inj)

lemma card_slot_keys: "card (slot_keys enc scope cap) = cap"
  by (simp add: slot_keys_def card_image inj_on_def slot_key_inj)

lemma finite_slot_keys [simp]: "finite (slot_keys enc scope cap)"
  by (simp add: slot_keys_def)

text \<open>The tries of an acquire cover every slot, as long as the counter does not wrap among them.\<close>

lemma window_mod: "0 < (n::nat) \<Longrightarrow> (\<lambda>i. (a + i) mod n) ` {..<n} = {..<n}"
proof -
  assume n: "0 < n"
  have "inj_on (\<lambda>i. (a + i) mod n) {..<n}"
  proof (rule inj_onI)
    fix i j assume ij: "i \<in> {..<n}" "j \<in> {..<n}" "(a + i) mod n = (a + j) mod n"
    then obtain p q where "a + i + n * p = a + j + n * q" by (auto simp: nat_mod_eq_iff)
    then have "i mod n = j mod n" by (metis add.assoc add_left_cancel mod_mult_self2)
    with ij show "i = j" by simp
  qed
  then show ?thesis
    using n by (intro endo_inj_surj) auto
qed

lemma tried_slots:
  assumes "0 < cap" "unat (first :: 64 word) + cap \<le> 2 ^ 64"
  shows "(\<lambda>n. slot_key enc scope cap (unat (first + of_nat n) mod cap)) ` {..<cap} = slot_keys enc scope cap"
proof -
  have "unat (first + of_nat n) = unat first + n" if "n < cap" for n
  proof -
    have "unat (of_nat n :: 64 word) = n" using assms that by (simp add: unat_of_nat)
    then show ?thesis using assms that by (simp add: unat_plus_if')
  qed
  then have "(\<lambda>n. unat (first + of_nat n) mod cap) ` {..<cap} = (\<lambda>n. (unat first + n) mod cap) ` {..<cap}"
    by (intro image_cong) auto
  also have "\<dots> = {..<cap}" using assms(1) by (rule window_mod)
  finally show ?thesis unfolding slot_keys_def by (metis (no_types) image_image)
qed

section \<open>The invariant of the fleet\<close>

definition fleet_inv ::
    "('s \<Rightarrow> 'v rows) \<Rightarrow> ('s \<Rightarrow> bool) \<Rightarrow> (string \<Rightarrow> string) \<Rightarrow> string \<Rightarrow> nat \<Rightarrow> 's fleet_state \<Rightarrow> bool" where
  "fleet_inv view ok enc scope cap g \<longleftrightarrow>
     ok (ft_store g)
     \<and> snd ` (ft_held g \<union> ft_freeing g) \<subseteq> slot_keys enc scope cap
     \<and> inj_on snd (ft_held g \<union> ft_freeing g) \<and> ft_held g \<inter> ft_freeing g = {}
     \<and> (\<forall>p \<in> ft_held g \<union> ft_freeing g. ft_written g p \<le> ft_now g \<and>
          (\<forall>t. ft_now g \<le> t \<and> t < ft_written g p + SLOT_TTL \<longrightarrow> live_at (view (ft_store g)) t (snd p) \<noteq> None))"

lemma fleet_invI:
  assumes "ok (ft_store g)" "use = ft_held g \<union> ft_freeing g" "snd ` use \<subseteq> slot_keys enc scope cap" "inj_on snd use"
    and "ft_held g \<inter> ft_freeing g = {}" "\<And>p. p \<in> use \<Longrightarrow> ft_written g p \<le> ft_now g"
    and "\<And>p t. p \<in> use \<Longrightarrow> ft_now g \<le> t \<Longrightarrow> t < ft_written g p + SLOT_TTL \<Longrightarrow> live_at (view (ft_store g)) t (snd p) \<noteq> None"
  shows "fleet_inv view ok enc scope cap g"
  using assms unfolding fleet_inv_def by blast

lemma SLOT_TTL_pos [simp]: "0 < SLOT_TTL"
  by (simp add: SLOT_TTL_def from_secs_def)

context kv_store
begin

lemma claim_slot_law:
  assumes "ok s"
  obtains s' where "claim_slot kv h key c s = (Inr (live_at (view s) (clk_inst c) key = None), s')" "ok s'"
    "\<And>t k. clk_inst c \<le> t \<Longrightarrow> k \<noteq> key \<Longrightarrow> live_at (view s') t k = live_at (view s) t k"
    "\<And>t. clk_inst c \<le> t \<Longrightarrow> live_at (view s') t key =
       (if live_at (view s) (clk_inst c) key \<noteq> None then live_at (view s) t key
        else if t < clk_inst c + SLOT_TTL then Some (h, Some (clk_inst c + SLOT_TTL)) else None)"
proof -
  from put_if_absent_law [OF assms, of key h "Some SLOT_TTL" c] obtain s' where
    "kv_put_if_absent kv key h (Some SLOT_TTL) c s = (Inr (live_at (view s) (clk_inst c) key = None), s')" "ok s'"
    and sf: "same_from (clk_inst c) (view s') (if live_at (view s) (clk_inst c) key = None
       then (view s)(key \<mapsto> (h, deadline (Some SLOT_TTL) c)) else view s)" by blast
  moreover have "live_at (view s') t k = live_at (view s) t k" if "clk_inst c \<le> t" "k \<noteq> key" for t k
    using same_from_live [OF sf that(1)] that(2) by (auto split: if_splits)
  moreover have "live_at (view s') t key =
       (if live_at (view s) (clk_inst c) key \<noteq> None then live_at (view s) t key
        else if t < clk_inst c + SLOT_TTL then Some (h, Some (clk_inst c + SLOT_TTL)) else None)" if "clk_inst c \<le> t" for t
    using same_from_live [OF sf that] by (auto simp: live_at_upd_same split: if_splits)
  ultimately show thesis by (intro that [of s']) (simp_all add: claim_slot_def)
qed

lemma free_slot_law:
  assumes "ok s"
  shows "ok (free_slot 3 kv key c s)"
    "clk_inst c \<le> t \<Longrightarrow> live_at (view (free_slot 3 kv key c s)) t k = (if k = key then None else live_at (view s) t k)"
proof -
  from delete_law [OF assms, of key c] obtain b s' where d: "kv_delete kv key c s = (Inr b, s')" "ok s'"
    "same_from (clk_inst c) (view s') ((view s)(key := None))" by blast
  then have f: "free_slot 3 kv key c s = s'" by (simp add: numeral_3_eq_3)
  show "ok (free_slot 3 kv key c s)" using d f by simp
  show "live_at (view (free_slot 3 kv key c s)) t k = (if k = key then None else live_at (view s) t k)"
    if "clk_inst c \<le> t" using same_from_live [OF d(3) that] f by simp
qed

lemma refresh_slot_law:
  assumes "ok s" "live_at (view s) (clk_inst c) key \<noteq> None"
  shows "ok (refresh_slot kv h key c s)"
    "clk_inst c \<le> t \<Longrightarrow> k \<noteq> key \<Longrightarrow> live_at (view (refresh_slot kv h key c s)) t k = live_at (view s) t k"
    "clk_inst c \<le> t \<Longrightarrow> t < clk_inst c + SLOT_TTL \<Longrightarrow> live_at (view (refresh_slot kv h key c s)) t key \<noteq> None"
proof -
  from assms(2) obtain v d where live: "live_at (view s) (clk_inst c) key = Some (v, d)" by auto
  from expire_law [OF assms(1), of key "Some SLOT_TTL" c] live obtain s' where
    e: "kv_expire kv key (Some SLOT_TTL) c s = (Inr True, s')" "ok s'"
      "same_from (clk_inst c) (view s') ((view s)(key \<mapsto> (v, Some (clk_inst c + SLOT_TTL))))" by auto
  then have f: "refresh_slot kv h key c s = s'" by (simp add: refresh_slot_def)
  show "ok (refresh_slot kv h key c s)" using e f by simp
  show "live_at (view (refresh_slot kv h key c s)) t k = live_at (view s) t k" if "clk_inst c \<le> t" "k \<noteq> key"
    using same_from_live [OF e(3) that(1)] f that(2) by simp
  show "live_at (view (refresh_slot kv h key c s)) t key \<noteq> None"
    if "clk_inst c \<le> t" "t < clk_inst c + SLOT_TTL"
    using same_from_live [OF e(3) that(1)] f that(2) by (simp add: live_at_upd_same)
qed

text \<open>A slot in use is live at a timely step, and stays so.\<close>

lemma fleet_inv_in_time:
  assumes "fleet_inv view ok enc scope cap g" "in_time g now" "p \<in> ft_held g \<union> ft_freeing g"
  shows "ft_written g p \<le> now" "now \<le> t \<Longrightarrow> t < ft_written g p + SLOT_TTL \<Longrightarrow> live_at (view (ft_store g)) t (snd p) \<noteq> None"
proof -
  from assms have w: "ft_written g p \<le> ft_now g" "ft_now g \<le> now"
    and l: "\<forall>t. ft_now g \<le> t \<and> t < ft_written g p + SLOT_TTL \<longrightarrow> live_at (view (ft_store g)) t (snd p) \<noteq> None"
    unfolding fleet_inv_def in_time_def by blast+
  show "ft_written g p \<le> now" using w by simp
  show "live_at (view (ft_store g)) t (snd p) \<noteq> None" if "now \<le> t" "t < ft_written g p + SLOT_TTL"
    using l that w(2) by (meson le_trans)
qed

lemma in_use_live:
  assumes "fleet_inv view ok enc scope cap g" "in_time g now" "p \<in> ft_held g \<union> ft_freeing g"
  shows "live_at (view (ft_store g)) now (snd p) \<noteq> None"
  using assms fleet_inv_in_time(2) [OF assms order.refl] unfolding in_time_def by blast

lemma fleet_inv_claim:
  assumes inv: "fleet_inv view ok enc scope cap g" and time: "in_time g (clk_inst c)"
    and key: "key \<in> slot_keys enc scope cap" and cl: "claim_slot kv h key c (ft_store g) = (Inr won, s')"
  shows "fleet_inv view ok enc scope cap
    (g\<lparr>ft_store := s', ft_held := (if won then insert (r, key) (ft_held g) else ft_held g),
       ft_written := (if won then (ft_written g)((r, key) := clk_inst c) else ft_written g), ft_now := clk_inst c\<rparr>)"
proof -
  let ?use = "ft_held g \<union> ft_freeing g"
  have ok: "ok (ft_store g)" using inv by (simp add: fleet_inv_def)
  from claim_slot_law [OF ok, of h key c] obtain s2 where law0:
    "claim_slot kv h key c (ft_store g) = (Inr (live_at (view (ft_store g)) (clk_inst c) key = None), s2)" "ok s2"
    "\<And>t k. clk_inst c \<le> t \<Longrightarrow> k \<noteq> key \<Longrightarrow> live_at (view s2) t k = live_at (view (ft_store g)) t k"
    "\<And>t. clk_inst c \<le> t \<Longrightarrow> live_at (view s2) t key =
       (if live_at (view (ft_store g)) (clk_inst c) key \<noteq> None then live_at (view (ft_store g)) t key
        else if t < clk_inst c + SLOT_TTL then Some (h, Some (clk_inst c + SLOT_TTL)) else None)" by blast
  with cl have s2: "s' = s2" "won \<longleftrightarrow> live_at (view (ft_store g)) (clk_inst c) key = None" by simp_all
  have law: "won \<longleftrightarrow> live_at (view (ft_store g)) (clk_inst c) key = None" "ok s'"
    "\<And>t k. clk_inst c \<le> t \<Longrightarrow> k \<noteq> key \<Longrightarrow> live_at (view s') t k = live_at (view (ft_store g)) t k"
    "\<And>t. clk_inst c \<le> t \<Longrightarrow> \<not> won \<Longrightarrow> live_at (view s') t key = live_at (view (ft_store g)) t key"
    "\<And>t. clk_inst c \<le> t \<Longrightarrow> won \<Longrightarrow> t < clk_inst c + SLOT_TTL \<Longrightarrow> live_at (view s') t key \<noteq> None"
    using law0(2-4) s2 by simp_all
  have fresh: "key \<notin> snd ` ?use" if won
    using that law(1) in_use_live [OF inv time] by force
  have old: "live_at (view s') t (snd p) \<noteq> None"
    if p: "p \<in> ?use" "clk_inst c \<le> t" "t < ft_written g p + SLOT_TTL" for p t
  proof (cases "snd p = key")
    case True
    with fresh p(1) have "\<not> won" by force
    with True law(4) fleet_inv_in_time(2) [OF inv time p] p(2) show ?thesis by simp
  qed (use law(3) fleet_inv_in_time(2) [OF inv time p] p(2) in simp)
  have slots: "snd ` ?use \<subseteq> slot_keys enc scope cap" "inj_on snd ?use" "ft_held g \<inter> ft_freeing g = {}"
    using inv by (simp_all add: fleet_inv_def)
  show ?thesis
  proof (cases won)
    case False
    then show ?thesis
      using law(2) slots old fleet_inv_in_time(1) [OF inv time] by (simp add: fleet_inv_def)
  next
    case True
    have key': "(r, key) \<notin> ?use" using fresh [OF True] by force
    show ?thesis
    proof (rule fleet_invI [where use = "insert (r, key) ?use"])
      show "inj_on snd (insert (r, key) ?use)" using slots(2) fresh [OF True] by (simp add: image_iff)
    qed (use True key' law(2,5) slots old fleet_inv_in_time(1) [OF inv time] key in \<open>auto split: if_splits\<close>)
  qed
qed

lemma fleet_inv_refresh:
  assumes inv: "fleet_inv view ok enc scope cap g" and time: "in_time g (clk_inst c)" and held: "(r, key) \<in> ft_held g"
  shows "fleet_inv view ok enc scope cap
    (g\<lparr>ft_store := refresh_slot kv h key c (ft_store g), ft_written := (ft_written g)((r, key) := clk_inst c),
       ft_now := clk_inst c\<rparr>)"
proof -
  let ?use = "ft_held g \<union> ft_freeing g" and ?s = "refresh_slot kv h key c (ft_store g)"
  have ok: "ok (ft_store g)" using inv by (simp add: fleet_inv_def)
  have "live_at (view (ft_store g)) (clk_inst c) key \<noteq> None"
    using in_use_live [OF inv time, of "(r, key)"] held by simp
  note law = refresh_slot_law [OF ok this]
  have only: "snd p = key \<longleftrightarrow> p = (r, key)" if "p \<in> ?use" for p
    using inv that held unfolding fleet_inv_def inj_on_def by (metis UnI1 snd_conv)
  have old: "live_at (view ?s) t (snd p) \<noteq> None"
    if "p \<in> ?use" "p \<noteq> (r, key)" "clk_inst c \<le> t" "t < ft_written g p + SLOT_TTL" for p t
    using fleet_inv_in_time(2) [OF inv time that(1,3,4)] law(2) [of t "snd p"] only that by simp
  note le = fleet_inv_in_time(1) [OF inv time]
  have "ft_written (g\<lparr>ft_written := (ft_written g)((r, key) := clk_inst c)\<rparr>) p \<le> clk_inst c \<and>
     (\<forall>t. clk_inst c \<le> t \<and> t < ((ft_written g)((r, key) := clk_inst c)) p + SLOT_TTL \<longrightarrow> live_at (view ?s) t (snd p) \<noteq> None)"
    if "p \<in> ?use" for p
    using law(3) old le that by (cases "p = (r, key)") auto
  with inv law(1) show ?thesis unfolding fleet_inv_def by simp
qed

lemma fleet_inv_free:
  assumes inv: "fleet_inv view ok enc scope cap g" and time: "in_time g (clk_inst c)" and p: "(r, key) \<in> ft_freeing g"
  shows "fleet_inv view ok enc scope cap
    (g\<lparr>ft_store := free_slot 3 kv key c (ft_store g), ft_freeing := ft_freeing g - {(r, key)}, ft_now := clk_inst c\<rparr>)"
proof -
  let ?use = "ft_held g \<union> ft_freeing g" and ?s = "free_slot 3 kv key c (ft_store g)"
  let ?left = "ft_held g \<union> (ft_freeing g - {(r, key)})"
  have ok: "ok (ft_store g)" using inv by (simp add: fleet_inv_def)
  note law = free_slot_law [OF ok]
  have "(r, key) \<notin> ft_held g" using inv p unfolding fleet_inv_def by blast
  then have other: "snd q \<noteq> key" "q \<in> ?use" if "q \<in> ?left" for q
    using inv that p unfolding fleet_inv_def inj_on_def by (metis (no_types, lifting) DiffE UnE UnI1 UnI2 insertI1 snd_conv, blast)
  have "ft_written g q \<le> clk_inst c \<and> (\<forall>t. clk_inst c \<le> t \<and> t < ft_written g q + SLOT_TTL \<longrightarrow> live_at (view ?s) t (snd q) \<noteq> None)"
    if "q \<in> ?left" for q
  proof (intro conjI allI impI)
    show "ft_written g q \<le> clk_inst c"
      by (rule fleet_inv_in_time(1) [OF inv time other(2) [OF that]])
    fix t assume t: "clk_inst c \<le> t \<and> t < ft_written g q + SLOT_TTL"
    then have "live_at (view (ft_store g)) t (snd q) \<noteq> None"
      using fleet_inv_in_time(2) [OF inv time other(2) [OF that]] by blast
    with t other(1) [OF that] law(2) show "live_at (view ?s) t (snd q) \<noteq> None" by simp
  qed
  moreover have "inj_on snd ?left" "snd ` ?left \<subseteq> slot_keys enc scope cap"
    using inv unfolding fleet_inv_def by (blast intro: inj_on_subset)+
  ultimately show ?thesis using inv law(1) unfolding fleet_inv_def by auto
qed

lemma fleet_inv_release:
  assumes inv: "fleet_inv view ok enc scope cap g" and time: "in_time g now" and p: "p \<in> ft_held g"
  shows "fleet_inv view ok enc scope cap
    (g\<lparr>ft_held := ft_held g - {p}, ft_freeing := insert p (ft_freeing g), ft_now := now\<rparr>)"
proof -
  have use: "ft_held g - {p} \<union> insert p (ft_freeing g) = ft_held g \<union> ft_freeing g" using p by blast
  show ?thesis
  proof (rule fleet_invI [where use = "ft_held g \<union> ft_freeing g"])
  qed (use inv use fleet_inv_in_time [OF inv time] in \<open>unfold fleet_inv_def, simp_all\<close>, blast+)
qed

lemma fleet_inv_reach:
  assumes "ok s0" "fleet_reach enc kv holder scope cap s0 g"
  shows "fleet_inv view ok enc scope cap g"
  using assms(2)
proof (induction rule: fleet_reach.induct)
  case fleet_start
  then show ?case using assms(1) by (simp add: fleet_inv_def)
next
  case (fleet_claim g c index key r won s')
  then show ?case by (intro fleet_inv_claim) (auto simp: slot_keys_def)
qed (auto intro: fleet_inv_release fleet_inv_free fleet_inv_refresh)

lemma take_loop_law:
  assumes "ok s"
  shows "\<exists>s'. take_loop enc kv h scope cap first ns c s =
      (Inr (find (\<lambda>k. live_at (view s) (clk_inst c) k = None)
         (map (\<lambda>n. slot_key enc scope cap (unat (first + of_nat n) mod cap)) ns)), s') \<and> ok s'
    \<and> same_from (clk_inst c) (view s')
        (case find (\<lambda>k. live_at (view s) (clk_inst c) k = None)
           (map (\<lambda>n. slot_key enc scope cap (unat (first + of_nat n) mod cap)) ns) of
           None \<Rightarrow> view s | Some k \<Rightarrow> (view s)(k \<mapsto> (h, Some (clk_inst c + SLOT_TTL))))"
  using assms
proof (induction ns arbitrary: s)
  case (Cons n ns)
  let ?k = "slot_key enc scope cap (unat (first + of_nat n) mod cap)"
  from put_if_absent_law [OF Cons.prems, of ?k h "Some SLOT_TTL" c] obtain s1 where
    put: "claim_slot kv h ?k c s = (Inr (live_at (view s) (clk_inst c) ?k = None), s1)" "ok s1"
    and sf: "same_from (clk_inst c) (view s1) (if live_at (view s) (clk_inst c) ?k = None
       then (view s)(?k \<mapsto> (h, deadline (Some SLOT_TTL) c)) else view s)" by (auto simp: claim_slot_def)
  show ?case
  proof (cases "live_at (view s) (clk_inst c) ?k = None")
    case True
    with put sf show ?thesis by (simp add: fun_upd_def)
  next
    case False
    with sf have sf': "same_from (clk_inst c) (view s1) (view s)" by simp
    then have eq: "live_at (view s1) (clk_inst c) = live_at (view s) (clk_inst c)" by (rule same_from_live) simp
    from Cons.IH [OF put(2)] obtain s2 where "take_loop enc kv h scope cap first ns c s1 =
        (Inr (find (\<lambda>k. live_at (view s) (clk_inst c) k = None)
           (map (\<lambda>n. slot_key enc scope cap (unat (first + of_nat n) mod cap)) ns)), s2)" "ok s2"
      "same_from (clk_inst c) (view s2)
        (case find (\<lambda>k. live_at (view s) (clk_inst c) k = None)
           (map (\<lambda>n. slot_key enc scope cap (unat (first + of_nat n) mod cap)) ns) of
           None \<Rightarrow> view s1 | Some k \<Rightarrow> (view s1)(k \<mapsto> (h, Some (clk_inst c + SLOT_TTL))))"
      unfolding eq by blast
    with put False sf' show ?thesis
      by (auto split: option.splits intro: same_from_trans same_from_upd)
  qed
qed simp

end

section \<open>Properties\<close>

text \<open>
  C2.  The fleet never holds more permits of a scope than its cap: in every state the replicas reach
  by claiming, releasing, freeing and refreshing slots in any interleaving, at any times at which every
  slot in use was written less than its TTL ago.
\<close>

theorem fleet_cap_holds:
  assumes "kv_store kv view ok" "ok s0" "fleet_reach enc kv holder scope cap s0 g"
  shows "finite (ft_held g) \<and> card (ft_held g) \<le> cap"
proof -
  have inv: "fleet_inv view ok enc scope cap g" by (rule kv_store.fleet_inv_reach [OF assms])
  then have "snd ` ft_held g \<subseteq> slot_keys enc scope cap" "inj_on snd (ft_held g)"
    unfolding fleet_inv_def by (blast intro: inj_on_subset)+
  then show ?thesis
    by (metis card_image card_mono card_slot_keys finite_imageD finite_slot_keys finite_subset)
qed

text \<open>
  An acquire that reaches the store gets a permit exactly when one of the scope's slots is free:
  its slot is then live with this replica as holder and no other row changed; a refused acquire changes no row.
\<close>

theorem take_slot_takes_a_free_slot:
  assumes "kv_store kv view ok" "ok s" "0 < cap" "unat (fs_next f) + cap \<le> 2 ^ 64"
    and "take_slot enc kv scope cap c (f, s) = (res, f', s')"
  shows "case res of
      Inr (Some p) \<Rightarrow> fp_key p \<in> slot_keys enc scope cap \<and> live_at (view s) (clk_inst c) (fp_key p) = None
        \<and> fp_key p \<in> set (fs_held f')
        \<and> same_from (clk_inst c) (view s') ((view s)(fp_key p \<mapsto> (fs_holder f, Some (clk_inst c + SLOT_TTL))))
    | Inr None \<Rightarrow> (\<forall>k \<in> slot_keys enc scope cap. live_at (view s) (clk_inst c) k \<noteq> None)
        \<and> same_from (clk_inst c) (view s') (view s)
    | Inl _ \<Rightarrow> False"
proof -
  let ?keys = "map (\<lambda>n. slot_key enc scope cap (unat (fs_next f + of_nat n) mod cap)) [0..<cap]"
  let ?free = "\<lambda>k. live_at (view s) (clk_inst c) k = None"
  have keys: "set ?keys = slot_keys enc scope cap"
    using tried_slots [OF assms(3,4), of enc scope] by (simp add: lessThan_atLeast0)
  from kv_store.take_loop_law [OF assms(1,2), of enc "fs_holder f" scope cap "fs_next f" "[0..<cap]" c] obtain s1 where
    loop: "take_loop enc kv (fs_holder f) scope cap (fs_next f) [0..<cap] c s = (Inr (find ?free ?keys), s1)"
    and rows: "same_from (clk_inst c) (view s1) (case find ?free ?keys of None \<Rightarrow> view s
       | Some k \<Rightarrow> (view s)(k \<mapsto> (fs_holder f, Some (clk_inst c + SLOT_TTL))))" by blast
  show ?thesis
  proof (cases "find ?free ?keys")
    case None
    with loop rows assms(5) have "res = Inr None" "s' = s1" by (auto simp: take_slot_def Let_def)
    moreover from None have "\<forall>k \<in> slot_keys enc scope cap. \<not> ?free k"
      unfolding find_None_iff keys by auto
    ultimately show ?thesis using None rows by simp
  next
    case (Some k)
    then have "k \<in> slot_keys enc scope cap" "?free k" using keys by (auto simp: find_Some_iff)
    with Some loop rows assms(5) show ?thesis by (auto simp: take_slot_def Let_def)
  qed
qed

text \<open>
  A release frees its slot whoever holds it: when a slot ran out under a permit and another
  replica took it, the release of the old permit deletes the other replica's slot, and the next claim
  of that slot succeeds while the other replica's permit is still in use.
\<close>

theorem release_frees_anothers_slot:
  assumes "kv_store kv view ok" "ok s"
    and "live_at (view s) (clk_inst c) (fp_key p) = Some (other, d)" "other \<noteq> fs_holder f"
    and "clk_inst c \<le> clk_inst c'" "release_task kv p c (f, s) = (f1, s1)"
  shows "live_at (view s1) (clk_inst c) (fp_key p) = None
    \<and> fst (claim_slot kv third (fp_key p) c' s1) = Inr True"
proof -
  have s1: "s1 = free_slot 3 kv (fp_key p) c s" using assms(6) by (simp add: release_task_def Let_def)
  note free = kv_store.free_slot_law [where key = "fp_key p" and c = c, OF assms(1,2), folded s1]
  from kv_store.claim_slot_law [OF assms(1) free(1), of third "fp_key p" c'] free(2) [of "clk_inst c'"] assms(5)
  have "fst (claim_slot kv third (fp_key p) c' s1) = Inr True" by (metis fst_conv)
  with free(2) [of "clk_inst c"] show ?thesis by simp
qed

section \<open>Witnesses\<close>

abbreviation fleet_mem :: "(string memory, string) kv_ops" where
  "fleet_mem \<equiv> memory_kv (plain_lib [])"

definition slot0 :: string where
  "slot0 = slot_key id ''s'' 1 0"

theorem fleet_cap_holds_witness:
  "\<exists>g. fleet_reach id fleet_mem show_nat ''s'' 1 [] g \<and> ft_held g = {(7, slot0)} \<and> card (ft_held g) \<le> 1"
proof -
  let ?g0 = "\<lparr>ft_store = [], ft_held = {}, ft_freeing = {}, ft_written = (\<lambda>_. 0), ft_now = 0\<rparr> :: string memory fleet_state"
  obtain s' where "claim_slot fleet_mem (show_nat 7) slot0 (at_ms 1) (ft_store ?g0) = (Inr True, s')"
    by (simp add: claim_slot_def memory_kv_def memory_put_if_absent_def)
  moreover have "in_time ?g0 (clk_inst (at_ms 1))" by (simp add: in_time_def)
  ultimately have reach: "fleet_reach id fleet_mem show_nat ''s'' 1 [] (?g0\<lparr>ft_store := s',
      ft_held := (if True then insert (7, slot0) (ft_held ?g0) else ft_held ?g0),
      ft_written := (if True then (ft_written ?g0)((7, slot0) := clk_inst (at_ms 1)) else ft_written ?g0),
      ft_now := clk_inst (at_ms 1)\<rparr>)"
    by (intro fleet_claim [OF fleet_start]) (auto simp: slot0_def)
  have "memory_ok ([] :: string memory)" by (simp add: memory_ok_def)
  from fleet_cap_holds [OF mem.kv_store_axioms this reach] reach show ?thesis
    by (intro exI [of _ "?g0\<lparr>ft_store := s', ft_held := {(7, slot0)},
        ft_written := (ft_written ?g0)((7, slot0) := clk_inst (at_ms 1)), ft_now := clk_inst (at_ms 1)\<rparr>"]) simp
qed

theorem take_slot_takes_a_free_slot_witness:
  "\<exists>p f' s'. take_slot id fleet_mem ''s'' 1 (at_ms 1) (new_fleet ''h'', []) = (Inr (Some p), f', s') \<and> fp_key p \<in> set (fs_held f')"
proof -
  obtain res f' s' where t: "take_slot id fleet_mem ''s'' 1 (at_ms 1) (new_fleet ''h'', []) = (res, f', s')"
    by (metis prod_cases3)
  have "res \<noteq> Inr None"
    using take_slot_takes_a_free_slot [OF mem.kv_store_axioms _ _ _ t]
    by (auto simp: memory_ok_def new_fleet_def live_memory_view slot_keys_def)
  with take_slot_takes_a_free_slot [OF mem.kv_store_axioms _ _ _ t] t show ?thesis
    by (auto simp: memory_ok_def new_fleet_def split: sum.splits option.splits)
qed

theorem release_frees_anothers_slot_witness:
  "fst (claim_slot fleet_mem ''z'' slot0 (at_ms 2)
     (snd (release_task fleet_mem \<lparr>fp_key = slot0, fp_scope = (''s'', 1)\<rparr> (at_ms 1)
        (new_fleet ''x'', [(slot0, stored ''y'' (None, None))])))) = Inr True"
proof -
  let ?p = "\<lparr>fp_key = slot0, fp_scope = (''s'', 1)\<rparr>" and ?s = "[(slot0, stored ''y'' (None, None))]"
  obtain f1 s1 where r: "release_task fleet_mem ?p (at_ms 1) (new_fleet ''x'', ?s) = (f1, s1)" by force
  from release_frees_anothers_slot [OF mem.kv_store_axioms _ _ _ _ r, of "''y''" None "at_ms 2" "''z''"] r show ?thesis
    by (simp add: memory_ok_def live_memory_view is_expired_def new_fleet_def)
qed

end
