(* ===== verification/Quota_Properties.thy ===== *)
theory Quota_Properties
  imports Quota_Gate Fleet_Properties
begin

text \<open>
  Correctness of the quota gate across the replicas that share a store with the contract
  \<open>kv_counters\<close>: the rate limit never grants more than its rate and capacity allow, a call budget is
  exact, and a call the gate refuses costs its budget nothing.
\<close>

section \<open>One bucket, many replicas\<close>

text \<open>
  The store calls of \<open>consume_token_bucket\<close> by the replicas of a fleet.  The per-key mutex lets a replica
  start a consume only when it has no refund left to do.  \<open>granted\<close> counts the calls that were let
  through, \<open>latest\<close> is the latest wall clock reading used, \<open>touched\<close> the last write of the bucket.
\<close>

record 's bucket_state =
  bk_store :: 's
  bk_refunding :: "nat set"
  bk_granted :: nat
  bk_latest :: int
  bk_touched :: nat

definition bucket_interval :: "rate_limit_policy \<Rightarrow> int" where
  "bucket_interval p = emission_interval_us (rl_calls_per_minute p)"

text \<open>
  A consume reads a wall clock at most \<open>skew\<close> behind the latest reading; the bucket is written again
  before its TTL has passed.
\<close>

inductive bucket_reach ::
    "('s, 'v) kv_ops \<Rightarrow> ('v, 'f) quota_ext \<Rightarrow> string \<Rightarrow> rate_limit_policy \<Rightarrow> nat \<Rightarrow> int \<Rightarrow> int \<Rightarrow> nat \<Rightarrow> 's \<Rightarrow>
     's bucket_state \<Rightarrow> bool"
  for ctr x key p replicas skew t0 start s0 where
  bucket_start: "bucket_reach ctr x key p replicas skew t0 start s0
     \<lparr>bk_store = s0, bk_refunding = {}, bk_granted = 0, bk_latest = t0, bk_touched = start\<rparr>"
| bucket_grant: "bucket_reach ctr x key p replicas skew t0 start s0 b \<Longrightarrow> r < replicas \<Longrightarrow> r \<notin> bk_refunding b \<Longrightarrow>
     bk_touched b \<le> clk_inst c \<Longrightarrow> clk_inst c < bk_touched b + BUCKET_TTL \<Longrightarrow>
     t0 \<le> now_us \<Longrightarrow> bk_latest b - now_us \<le> skew \<Longrightarrow> now_us \<le> 2 ^ 62 \<Longrightarrow>
     raise_tat ctr x key (bucket_interval p) now_us c (bk_store b) = (Inr tat0, s1) \<Longrightarrow>
     repair_tat ctr key (bucket_interval p) (capacity_us (qx_f64 x) p) now_us tat0 c s1 = (Inr tat, s2) \<Longrightarrow>
     tat \<le> sat_i64 (now_us + capacity_us (qx_f64 x) p) \<Longrightarrow>
     bucket_reach ctr x key p replicas skew t0 start s0
       (b\<lparr>bk_store := s2, bk_granted := Suc (bk_granted b), bk_latest := max (bk_latest b) now_us, bk_touched := clk_inst c\<rparr>)"
| bucket_deny: "bucket_reach ctr x key p replicas skew t0 start s0 b \<Longrightarrow> r < replicas \<Longrightarrow> r \<notin> bk_refunding b \<Longrightarrow>
     bk_touched b \<le> clk_inst c \<Longrightarrow> clk_inst c < bk_touched b + BUCKET_TTL \<Longrightarrow>
     t0 \<le> now_us \<Longrightarrow> bk_latest b - now_us \<le> skew \<Longrightarrow> now_us \<le> 2 ^ 62 \<Longrightarrow>
     raise_tat ctr x key (bucket_interval p) now_us c (bk_store b) = (Inr tat0, s1) \<Longrightarrow>
     repair_tat ctr key (bucket_interval p) (capacity_us (qx_f64 x) p) now_us tat0 c s1 = (Inr tat, s2) \<Longrightarrow>
     \<not> tat \<le> sat_i64 (now_us + capacity_us (qx_f64 x) p) \<Longrightarrow>
     bucket_reach ctr x key p replicas skew t0 start s0
       (b\<lparr>bk_store := s2, bk_refunding := insert r (bk_refunding b), bk_latest := max (bk_latest b) now_us,
          bk_touched := clk_inst c\<rparr>)"
| bucket_refund: "bucket_reach ctr x key p replicas skew t0 start s0 b \<Longrightarrow> r \<in> bk_refunding b \<Longrightarrow>
     bk_touched b \<le> clk_inst c \<Longrightarrow> clk_inst c < bk_touched b + BUCKET_TTL \<Longrightarrow>
     kv_incr ctr key (- bucket_interval p) (Some BUCKET_TTL) c (bk_store b) = (Inr after, s1) \<Longrightarrow>
     bucket_reach ctr x key p replicas skew t0 start s0
       (b\<lparr>bk_store := s1, bk_refunding := bk_refunding b - {r}, bk_touched := clk_inst c\<rparr>)"

lemma bucket_interval_pos: "1 \<le> bucket_interval p"
  by (simp add: bucket_interval_def emission_interval_us_def Let_def)

text \<open>
  The counter is the theoretical arrival time: it covers every granted call and every refund still due,
  and it is at most the refunds past a full bucket.
\<close>

definition bucket_inv ::
    "('s \<Rightarrow> 'v rows) \<Rightarrow> ('s \<Rightarrow> bool) \<Rightarrow> ('v \<Rightarrow> cluster_error + int) \<Rightarrow> string \<Rightarrow> int \<Rightarrow> int \<Rightarrow> nat \<Rightarrow> int \<Rightarrow> int \<Rightarrow>
     's bucket_state \<Rightarrow> bool" where
  "bucket_inv view ok count key interval cap replicas t0 v b \<longleftrightarrow>
     ok (bk_store b) \<and> bk_refunding b \<subseteq> {..<replicas} \<and> t0 \<le> bk_latest b \<and> bk_latest b \<le> 2 ^ 62
     \<and> int (bk_granted b) * interval \<le> bk_latest b - t0 + cap
     \<and> (\<exists>tat. (\<forall>t. bk_touched b \<le> t \<and> t < bk_touched b + BUCKET_TTL \<longrightarrow> row_count count (view (bk_store b)) t key = Inr tat)
          \<and> tat \<le> bk_latest b + cap + int (card (bk_refunding b)) * interval
          \<and> (bk_granted b = 0 \<and> bk_refunding b = {} \<and> tat = v
             \<or> t0 + (int (bk_granted b) + int (card (bk_refunding b))) * interval \<le> tat))"

lemma card_below: "A \<subseteq> {..<n} \<Longrightarrow> r < n \<Longrightarrow> r \<notin> A \<Longrightarrow> finite A \<and> Suc (card A) \<le> n"
proof -
  assume a: "A \<subseteq> {..<n}" "r < n" "r \<notin> A"
  have "finite A" by (rule finite_subset [OF a(1)]) simp
  moreover have "card (insert r A) \<le> card {..<n}" using a by (intro card_mono) auto
  ultimately show ?thesis using a(3) by simp
qed

context kv_counters
begin

lemma consume_effect:
  fixes x :: "('v, 'f) quota_ext"
  assumes inv: "bucket_inv view ok count key I cap replicas t0 v b"
    and r: "r < replicas" "r \<notin> bk_refunding b" and t: "bk_touched b \<le> clk_inst c" "clk_inst c < bk_touched b + BUCKET_TTL"
    and now: "t0 \<le> now" "bk_latest b - now \<le> skew" "now \<le> 2 ^ 62"
    and bounds: "1 \<le> I" "0 \<le> cap" "cap \<le> 2 ^ 61" "0 \<le> t0" "0 \<le> v" "0 \<le> skew" "int replicas * I + skew \<le> TAT_REPAIR_SLACK_US"
    and ra: "raise_tat kv x key I now c (bk_store b) = (Inr tat0, s1)"
    and re: "repair_tat kv key I cap now tat0 c s1 = (Inr tat, s2)"
  obtains old where "tat = max old now + I" "ok s2"
    "\<And>u. clk_inst c \<le> u \<Longrightarrow> u < clk_inst c + BUCKET_TTL \<Longrightarrow> row_count count (view s2) u key = Inr tat"
    "old \<le> bk_latest b + cap + int (card (bk_refunding b)) * I"
    "bk_granted b = 0 \<and> bk_refunding b = {} \<or> t0 + (int (bk_granted b) + int (card (bk_refunding b))) * I \<le> old"
    "finite (bk_refunding b)"
proof -
  from inv obtain old where old: "row_count count (view (bk_store b)) (clk_inst c) key = Inr old"
    "old \<le> bk_latest b + cap + int (card (bk_refunding b)) * I"
    "bk_granted b = 0 \<and> bk_refunding b = {} \<and> old = v \<or> t0 + (int (bk_granted b) + int (card (bk_refunding b))) * I \<le> old"
    and ok: "ok (bk_store b)" "bk_refunding b \<subseteq> {..<replicas}" "bk_latest b \<le> 2 ^ 62" "t0 \<le> bk_latest b"
    using t unfolding bucket_inv_def by blast
  from card_below [OF ok(2) r] have fin: "finite (bk_refunding b)" and below: "Suc (card (bk_refunding b)) \<le> replicas" by simp_all
  have scaled: "(int (card (bk_refunding b)) + 1) * I \<le> int replicas * I"
    using below bounds(1) by (intro mult_right_mono) simp_all
  then have R: "int (card (bk_refunding b)) * I + I \<le> int replicas * I" by (simp add: algebra_simps)
  have "0 \<le> (int (bk_granted b) + int (card (bk_refunding b))) * I" using bounds(1) by simp
  then have nonneg: "0 \<le> old" using old(3) bounds(4,5) by linarith
  have slack: "TAT_REPAIR_SLACK_US = 60000000" by (simp add: TAT_REPAIR_SLACK_US_def)
  have up: "max old now + I \<le> now + cap + TAT_REPAIR_SLACK_US"
  proof -
    have "0 \<le> int (card (bk_refunding b)) * I" using bounds(1) by simp
    with old(2) R bounds now(2) show ?thesis by linarith
  qed
  have "now + cap + TAT_REPAIR_SLACK_US < 2 ^ 63" using now(3) bounds(3) slack by simp
  then have fits: "fits_i64 (max old now + I)" "fits_i64 (now + cap)" "fits_i64 (now + cap + TAT_REPAIR_SLACK_US)"
    using up nonneg bounds(1,2,4) now(1) slack by (auto simp: fits_i64_def)
  from incr_floor_counts [OF ok(1) old(1) fits(1), of BUCKET_TTL] obtain s' where st:
    "kv_incr_floor kv key I now (Some BUCKET_TTL) c (bk_store b) = (Inr (max old now + I), s')" "ok s'"
    "\<And>t. clk_inst c \<le> t \<Longrightarrow> row_count count (view s') t key =
       (if t < clk_inst c + BUCKET_TTL then Inr (max old now + I) else Inr 0)" by blast
  from st(1) ra have ra': "tat0 = max old now + I" "s1 = s'" by (simp_all add: raise_tat_def)
  with re up fits(2,3) have "tat = max old now + I" "s2 = s'" by (simp_all add: repair_tat_def)
  with st(2,3) old(2,3) fin show thesis by (intro that) auto
qed

lemma bucket_inv_reach:
  fixes x :: "('v, 'f) quota_ext"
  assumes "bucket_reach kv x key p replicas skew t0 start s0 b"
    and I: "I = bucket_interval p" and cap: "cap = capacity_us (qx_f64 x) p" and ok: "ok s0"
    and v: "\<forall>t. start \<le> t \<and> t < start + BUCKET_TTL \<longrightarrow> row_count count (view s0) t key = Inr v" "0 \<le> v" "v \<le> t0 + cap"
    and bounds: "0 \<le> cap" "cap \<le> 2 ^ 61" "0 \<le> t0" "t0 \<le> 2 ^ 62" "0 \<le> skew" "int replicas * I + skew \<le> TAT_REPAIR_SLACK_US"
  shows "bucket_inv view ok count key I cap replicas t0 v b"
  using assms(1)
proof (induction rule: bucket_reach.induct)
  case bucket_start
  show ?case using ok v bounds unfolding bucket_inv_def by (auto intro!: exI [of _ v])
next
  case (bucket_grant b r c now_us tat0 s1 tat s2)
  have I1: "1 \<le> I" using bucket_interval_pos I by simp
  from consume_effect [OF bucket_grant(12,2-8) I1 bounds(1-3) v(2) bounds(5,6)] bucket_grant(9,10) obtain old where e:
    "tat = max old now_us + I" "ok s2"
    "\<And>u. clk_inst c \<le> u \<Longrightarrow> u < clk_inst c + BUCKET_TTL \<Longrightarrow> row_count count (view s2) u key = Inr tat"
    "old \<le> bk_latest b + cap + int (card (bk_refunding b)) * I"
    "bk_granted b = 0 \<and> bk_refunding b = {} \<or> t0 + (int (bk_granted b) + int (card (bk_refunding b))) * I \<le> old"
    "finite (bk_refunding b)" unfolding I cap by blast
  let ?n = "int (bk_granted b)" and ?m = "int (card (bk_refunding b))" and ?L = "max (bk_latest b) now_us"
  have "fits_i64 (now_us + cap)" using bucket_grant(6,8) bounds by (simp add: fits_i64_def)
  with bucket_grant(11) have tat: "tat \<le> now_us + cap" unfolding cap by simp
  have low: "t0 + (?n + 1 + ?m) * I \<le> tat"
    using e(1,5) bucket_grant(6) by (auto simp: algebra_simps)
  have nonneg: "0 \<le> ?m * I" using I1 by simp
  have up: "tat \<le> ?L + cap + ?m * I" using tat nonneg by simp
  have "(?n + 1) * I \<le> (?n + 1 + ?m) * I" using I1 by (intro mult_right_mono) auto
  with low tat have "(?n + 1) * I \<le> ?L - t0 + cap" by simp
  with bucket_grant(12) e(2,3) low up show ?case
    using bucket_grant(6,8) unfolding bucket_inv_def by (auto simp: algebra_simps intro!: exI [of _ tat])
next
  case (bucket_deny b r c now_us tat0 s1 tat s2)
  have I1: "1 \<le> I" using bucket_interval_pos I by simp
  from consume_effect [OF bucket_deny(12,2-8) I1 bounds(1-3) v(2) bounds(5,6)] bucket_deny(9,10) obtain old where e:
    "tat = max old now_us + I" "ok s2"
    "\<And>u. clk_inst c \<le> u \<Longrightarrow> u < clk_inst c + BUCKET_TTL \<Longrightarrow> row_count count (view s2) u key = Inr tat"
    "old \<le> bk_latest b + cap + int (card (bk_refunding b)) * I"
    "bk_granted b = 0 \<and> bk_refunding b = {} \<or> t0 + (int (bk_granted b) + int (card (bk_refunding b))) * I \<le> old"
    "finite (bk_refunding b)" unfolding I cap by blast
  let ?n = "int (bk_granted b)" and ?m = "int (card (bk_refunding b))" and ?L = "max (bk_latest b) now_us"
  have low: "t0 + (?n + (?m + 1)) * I \<le> tat"
    using e(1,5) bucket_deny(6) by (auto simp: algebra_simps)
  have nonneg: "0 \<le> ?m * I" using I1 by simp
  have up: "tat \<le> ?L + cap + (?m + 1) * I" using e(1,4) bounds(1) nonneg by (auto simp: algebra_simps max_def)
  have card: "card (insert r (bk_refunding b)) = Suc (card (bk_refunding b))" using e(6) bucket_deny(3) by simp
  from bucket_deny(12) have "int (bk_granted b) * I \<le> bk_latest b - t0 + cap" by (simp add: bucket_inv_def)
  then have "int (bk_granted b) * I \<le> ?L - t0 + cap" by simp
  with bucket_deny(12) e(2,3) low up show ?case
    using bucket_deny(2,6,8) unfolding bucket_inv_def by (auto simp: card algebra_simps intro!: exI [of _ tat])
next
  case (bucket_refund b r c after s1)
  have I1: "1 \<le> I" using bucket_interval_pos I by simp
  let ?n = "int (bk_granted b)" and ?m = "int (card (bk_refunding b))"
  from bucket_refund(6) obtain tat where inv: "ok (bk_store b)" "bk_refunding b \<subseteq> {..<replicas}"
    "row_count count (view (bk_store b)) (clk_inst c) key = Inr tat" "tat \<le> bk_latest b + cap + ?m * I"
    "t0 + (?n + ?m) * I \<le> tat" "bk_latest b \<le> 2 ^ 62"
    using bucket_refund(2-4) unfolding bucket_inv_def by blast
  have fin: "finite (bk_refunding b)" by (rule finite_subset [OF inv(2)]) simp
  have card: "int (card (bk_refunding b - {r})) = ?m - 1" "1 \<le> ?m"
    using fin bucket_refund(2) card_gt_0_iff [of "bk_refunding b"] by (auto simp: card_Diff_singleton of_nat_diff Suc_leI)
  have "?m \<le> int replicas" using card_mono [OF _ inv(2)] by simp
  then have "?m * I \<le> int replicas * I" using I1 by (intro mult_right_mono) auto
  then have top: "tat \<le> 2 ^ 62 + 2 ^ 61 + 60000000"
    using inv(4,6) bounds by (simp add: TAT_REPAIR_SLACK_US_def)
  have "0 \<le> (?n + ?m - 1) * I" using I1 card(2) by (intro mult_nonneg_nonneg) auto
  then have "0 \<le> tat - I" using inv(5) bounds(3) by (simp add: algebra_simps)
  with top I1 have "fits_i64 (tat + - I)" by (simp add: fits_i64_def)
  note down = incr_counts [OF inv(1,3) this, of BUCKET_TTL]
  obtain s' where "kv_incr kv key (- I) (Some BUCKET_TTL) c (bk_store b) = (Inr (tat + - I), s')" "ok s'"
    "\<And>t. clk_inst c \<le> t \<Longrightarrow> row_count count (view s') t key =
       (if t < clk_inst c + BUCKET_TTL then Inr (tat + - I) else Inr 0)"
    by (rule down) blast
  with bucket_refund(5) I have st: "ok s1"
    "\<And>t. clk_inst c \<le> t \<Longrightarrow> t < clk_inst c + BUCKET_TTL \<Longrightarrow> row_count count (view s1) t key = Inr (tat - I)"
    by simp_all
  let ?b = "b\<lparr>bk_store := s1, bk_refunding := bk_refunding b - {r}, bk_touched := clk_inst c\<rparr>"
  have m: "int (card (bk_refunding ?b)) = ?m - 1" using card(1) by simp
  have up: "tat - I \<le> bk_latest ?b + cap + int (card (bk_refunding ?b)) * I"
    unfolding m using inv(4) by (simp add: algebra_simps)
  have low: "t0 + (int (bk_granted ?b) + int (card (bk_refunding ?b))) * I \<le> tat - I"
    unfolding m using inv(5) by (simp add: algebra_simps)
  have rows: "\<forall>t. bk_touched ?b \<le> t \<and> t < bk_touched ?b + BUCKET_TTL \<longrightarrow> row_count count (view (bk_store ?b)) t key = Inr (tat - I)"
    using st(2) by simp
  have rest: "ok (bk_store ?b)" "bk_refunding ?b \<subseteq> {..<replicas}" "t0 \<le> bk_latest ?b" "bk_latest ?b \<le> 2 ^ 62"
    "int (bk_granted ?b) * I \<le> bk_latest ?b - t0 + cap"
    using st(1) inv(2) bucket_refund(6) by (simp_all add: bucket_inv_def, blast?)
  show ?case unfolding bucket_inv_def using rest rows up low by blast
qed

end


section \<open>One call budget, many replicas\<close>

text \<open>
  The calls of one window.  \<open>counted\<close> are the calls let through and still counted, \<open>over\<close> those that went
  over the cap and have not given their count back yet.  A counted call that a later stage refuses gives
  its count back as well.
\<close>

record 's calls_state =
  cs_store :: 's
  cs_counted :: nat
  cs_over :: nat
  cs_touched :: nat

inductive calls_reach ::
    "('s, 'v) kv_ops \<Rightarrow> budget_window \<Rightarrow> int \<Rightarrow> nat \<Rightarrow> 's \<Rightarrow> 's calls_state \<Rightarrow> bool"
  for ctr w cap start s0 where
  calls_start: "calls_reach ctr w cap start s0 \<lparr>cs_store = s0, cs_counted = 0, cs_over = 0, cs_touched = start\<rparr>"
| calls_count: "calls_reach ctr w cap start s0 b \<Longrightarrow> cs_touched b \<le> clk_inst c \<Longrightarrow>
     clk_inst c < cs_touched b + bw_ttl w \<Longrightarrow> cs_over b < 2 ^ 61 \<Longrightarrow>
     window_add ctr w ''calls'' 1 c (cs_store b) = (Inr n, s1) \<Longrightarrow>
     calls_reach ctr w cap start s0
       (b\<lparr>cs_store := s1, cs_counted := (if cap < n then cs_counted b else Suc (cs_counted b)),
          cs_over := (if cap < n then Suc (cs_over b) else cs_over b), cs_touched := clk_inst c\<rparr>)"
| calls_over_back: "calls_reach ctr w cap start s0 b \<Longrightarrow> cs_touched b \<le> clk_inst c \<Longrightarrow>
     clk_inst c < cs_touched b + bw_ttl w \<Longrightarrow> 0 < cs_over b \<Longrightarrow>
     calls_reach ctr w cap start s0
       (b\<lparr>cs_store := give_back_call ctr w c (cs_store b), cs_over := cs_over b - 1, cs_touched := clk_inst c\<rparr>)"
| calls_counted_back: "calls_reach ctr w cap start s0 b \<Longrightarrow> cs_touched b \<le> clk_inst c \<Longrightarrow>
     clk_inst c < cs_touched b + bw_ttl w \<Longrightarrow> 0 < cs_counted b \<Longrightarrow>
     calls_reach ctr w cap start s0
       (b\<lparr>cs_store := give_back_call ctr w c (cs_store b), cs_counted := cs_counted b - 1, cs_touched := clk_inst c\<rparr>)"

definition calls_inv ::
    "('s \<Rightarrow> 'v rows) \<Rightarrow> ('s \<Rightarrow> bool) \<Rightarrow> ('v \<Rightarrow> cluster_error + int) \<Rightarrow> budget_window \<Rightarrow> int \<Rightarrow> int \<Rightarrow> 's calls_state \<Rightarrow> bool" where
  "calls_inv view ok count w cap v b \<longleftrightarrow>
     ok (cs_store b) \<and> v + int (cs_counted b) \<le> max cap v \<and> cs_over b \<le> 2 ^ 61
     \<and> (\<forall>t. cs_touched b \<le> t \<and> t < cs_touched b + bw_ttl w \<longrightarrow>
          row_count count (view (cs_store b)) t (measure_key w ''calls'') = Inr (v + int (cs_counted b) + int (cs_over b)))"

context kv_counters
begin

lemma window_add_law:
  assumes "ok s" "row_count count (view s) (clk_inst c) (measure_key w m) = Inr n" "fits_i64 (n + d)"
  obtains s' where "window_add kv w m d c s = (Inr (n + d), s')" "ok s'"
    "\<And>t. clk_inst c \<le> t \<Longrightarrow> t < clk_inst c + bw_ttl w \<Longrightarrow> row_count count (view s') t (measure_key w m) = Inr (n + d)"
    "\<And>t k. clk_inst c \<le> t \<Longrightarrow> k \<noteq> measure_key w m \<Longrightarrow> live_at (view s') t k = live_at (view s) t k"
proof (rule incr_counts [OF assms, of "bw_ttl w"])
  fix s' assume s': "kv_incr kv (measure_key w m) d (Some (bw_ttl w)) c s = (Inr (n + d), s')" "ok s'"
    "\<And>t. clk_inst c \<le> t \<Longrightarrow> row_count count (view s') t (measure_key w m) = (if t < clk_inst c + bw_ttl w then Inr (n + d) else Inr 0)"
    "\<And>t k'. clk_inst c \<le> t \<Longrightarrow> k' \<noteq> measure_key w m \<Longrightarrow> live_at (view s') t k' = live_at (view s) t k'"
  show thesis
    by (rule that [of s']) (use s' in \<open>simp_all add: window_add_def\<close>)
qed

lemma calls_inv_reach:
  assumes "calls_reach kv w cap start s0 b" "ok s0" "0 \<le> v" "v \<le> 2 ^ 61" "cap \<le> 2 ^ 61"
    and "\<forall>t. start \<le> t \<and> t < start + bw_ttl w \<longrightarrow> row_count count (view s0) t (measure_key w ''calls'') = Inr v"
  shows "calls_inv view ok count w cap v b"
  using assms(1)
proof (induction rule: calls_reach.induct)
  case calls_start
  then show ?case using assms(2-) by (simp add: calls_inv_def)
next
  case (calls_count b c n s1)
  let ?n = "v + int (cs_counted b) + int (cs_over b)"
  from calls_count(6) have inv: "ok (cs_store b)" "v + int (cs_counted b) \<le> max cap v"
    "row_count count (view (cs_store b)) (clk_inst c) (measure_key w ''calls'') = Inr ?n"
    using calls_count(2,3) by (simp_all add: calls_inv_def)
  have "int (cs_over b) < 2 ^ 61" using calls_count(4) by simp
  then have "fits_i64 (?n + 1)" using inv(2) assms(3-5) by (auto simp: fits_i64_def max_def split: if_splits)
  note add = window_add_law [OF inv(1,3) this]
  obtain s' where s': "window_add kv w ''calls'' 1 c (cs_store b) = (Inr (?n + 1), s')" "ok s'"
    "\<And>t. clk_inst c \<le> t \<Longrightarrow> t < clk_inst c + bw_ttl w \<Longrightarrow> row_count count (view s') t (measure_key w ''calls'') = Inr (?n + 1)"
    by (rule add) blast
  with calls_count(5) have "n = ?n + 1" "s1 = s'" by simp_all
  with s'(2,3) inv(2) calls_count(4) show ?case
    by (auto simp: calls_inv_def max_def)
next
  case (calls_over_back b c)
  let ?n = "v + int (cs_counted b) + int (cs_over b)"
  from calls_over_back(5) have inv: "ok (cs_store b)" "v + int (cs_counted b) \<le> max cap v" "cs_over b \<le> 2 ^ 61"
    "row_count count (view (cs_store b)) (clk_inst c) (measure_key w ''calls'') = Inr ?n"
    using calls_over_back(2,3) by (simp_all add: calls_inv_def)
  have "fits_i64 (?n + - 1)" using inv(2,3) assms(3-5) calls_over_back(4) by (auto simp: fits_i64_def max_def split: if_splits)
  note add = window_add_law [OF inv(1,4) this]
  obtain s' where s': "window_add kv w ''calls'' (- 1) c (cs_store b) = (Inr (?n + - 1), s')" "ok s'"
    "\<And>t. clk_inst c \<le> t \<Longrightarrow> t < clk_inst c + bw_ttl w \<Longrightarrow> row_count count (view s') t (measure_key w ''calls'') = Inr (?n + - 1)"
    by (rule add) blast
  with inv(2,3) calls_over_back(4) show ?case by (auto simp: calls_inv_def give_back_call_def of_nat_diff Suc_leI)
next
  case (calls_counted_back b c)
  let ?n = "v + int (cs_counted b) + int (cs_over b)"
  from calls_counted_back(5) have inv: "ok (cs_store b)" "v + int (cs_counted b) \<le> max cap v" "cs_over b \<le> 2 ^ 61"
    "row_count count (view (cs_store b)) (clk_inst c) (measure_key w ''calls'') = Inr ?n"
    using calls_counted_back(2,3) by (simp_all add: calls_inv_def)
  have "fits_i64 (?n + - 1)" using inv(2,3) assms(3-5) calls_counted_back(4) by (auto simp: fits_i64_def max_def split: if_splits)
  note add = window_add_law [OF inv(1,4) this]
  obtain s' where s': "window_add kv w ''calls'' (- 1) c (cs_store b) = (Inr (?n + - 1), s')" "ok s'"
    "\<And>t. clk_inst c \<le> t \<Longrightarrow> t < clk_inst c + bw_ttl w \<Longrightarrow> row_count count (view s') t (measure_key w ''calls'') = Inr (?n + - 1)"
    by (rule add) blast
  with inv(2,3) calls_counted_back(4) show ?case by (auto simp: calls_inv_def give_back_call_def of_nat_diff Suc_leI)
qed

lemma count_call_decides:
  fixes x :: "('v, 'f) quota_ext"
  assumes "ok (qs_store q)" "row_count count (view (qs_store q)) (clk_inst c) (measure_key w ''calls'') = Inr n"
    and "0 \<le> n" "n \<le> 2 ^ 62" "bp_cap_calls p = Some m" "int m < 2 ^ 63"
  shows "(\<exists>ws q'. count_call kv x base p w now_ms c q = (Inr (Allowed ws (Some w)), q')) \<longleftrightarrow> n < int m"
    and "\<not> n < int m \<Longrightarrow> \<exists>q'. count_call kv x base p w now_ms c q = (Inr (Denied ''calls''), q')"
proof -
  have fits: "fits_i64 (n + 1)" "fits_i64 (int m)" using assms(3,4,6) by (simp_all add: fits_i64_def)
  note add = window_add_law [OF assms(1,2) fits(1)]
  obtain s' where "window_add kv w ''calls'' 1 c (qs_store q) = (Inr (n + 1), s')" by (rule add) blast
  then show "(\<exists>ws q'. count_call kv x base p w now_ms c q = (Inr (Allowed ws (Some w)), q')) \<longleftrightarrow> n < int m"
    "\<not> n < int m \<Longrightarrow> \<exists>q'. count_call kv x base p w now_ms c q = (Inr (Denied ''calls''), q')"
    using assms(5) fits(2) by (auto simp: count_call_def refuse_measure_def Let_def)
qed

end

text \<open>
  C6.  A call budget is exact across replicas: in every interleaving of calls that count themselves and
  give their count back, the calls let through and not given back never exceed the cap; and once no
  give-back is outstanding, the next call is let through exactly when fewer than the cap are counted.
\<close>

theorem call_budget_is_exact:
  assumes "kv_counters ctr view ok count" "ok s0" "calls_reach ctr w (int m) start s0 b" "m \<le> 2 ^ 61"
    and "\<forall>t. start \<le> t \<and> t < start + bw_ttl w \<longrightarrow> row_count count (view s0) t (measure_key w ''calls'') = Inr 0"
    and "bp_cap_calls p = Some m" "cs_touched b \<le> clk_inst c" "clk_inst c < cs_touched b + bw_ttl w"
  shows "cs_counted b \<le> m
    \<and> (cs_over b = 0 \<longrightarrow>
         ((\<exists>ws q'. count_call ctr x base p w now_ms c (new_quota_state (cs_store b)) = (Inr (Allowed ws (Some w)), q'))
          \<longleftrightarrow> cs_counted b < m))"
proof -
  have cap: "int m \<le> 2 ^ 61" using assms(4) by simp
  have inv: "calls_inv view ok count w (int m) 0 b"
    using kv_counters.calls_inv_reach [OF assms(1,3,2) _ _ cap assms(5)] by simp
  then have c1: "cs_counted b \<le> m" by (simp add: calls_inv_def)
  have "ok (qs_store (new_quota_state (cs_store b)))" "row_count count (view (qs_store (new_quota_state (cs_store b)))) (clk_inst c)
      (measure_key w ''calls'') = Inr (int (cs_counted b))" if "cs_over b = 0"
    using inv that assms(7,8) by (simp_all add: calls_inv_def new_quota_state_def)
  moreover have "int (cs_counted b) \<le> 2 ^ 62" "int m < 2 ^ 63" using c1 cap by simp_all
  ultimately show ?thesis
    using c1 kv_counters.count_call_decides(1) [OF assms(1) _ _ _ _ assms(6), of "new_quota_state (cs_store b)" c w
        "int (cs_counted b)" x base now_ms] by simp
qed

section \<open>The stages of the gate over the rows of a store\<close>

text \<open>A key that no slot of the fleet semaphore has.\<close>

definition no_slot :: "string \<Rightarrow> bool" where
  "no_slot k \<longleftrightarrow> \<not> prefix KEY_PREFIX k"

lemma slot_keys_prefix: "k \<in> slot_keys enc scope cap \<Longrightarrow> prefix KEY_PREFIX k"
  by (auto simp: slot_keys_def slot_key_def)

lemma slot_key_prefix: "prefix KEY_PREFIX (slot_key enc scope cap i)"
  by (simp add: slot_key_def)

context kv_counters
begin

lemma window_read_law:
  assumes "ok s"
  obtains n s' where "window_read kv x w m c s = (Inr n, s')" "ok s'" "same_from (clk_inst c) (view s') (view s)"
proof (cases rule: get_cases [OF assms, of "measure_key w m" c, case_names gone row])
  case (gone s')
  then show thesis by (intro that) (auto simp: window_read_def)
next
  case (row e d s')
  then show thesis by (intro that) (auto simp: window_read_def)
qed

lemma spent_law:
  assumes "ok s"
  obtains b s' where "spent kv x w m cap c s = (Inr b, s')" "ok s'" "same_from (clk_inst c) (view s') (view s)"
proof (cases cap)
  case None
  with assms show thesis by (intro that) (auto simp: spent_def)
next
  case (Some n)
  from window_read_law [OF assms, of x w m c] obtain u s' where
    "window_read kv x w m c s = (Inr u, s')" "ok s'" "same_from (clk_inst c) (view s') (view s)" .
  with Some show thesis by (intro that) (auto simp: spent_def)
qed

lemma open_window_found:
  assumes "ok s" "live_at (view s) (clk_inst c) (base @ ''.window'') = Some (v, d)" "qx_str x v = Some txt" "parse_i64 txt = Some start"
  obtains s' where "open_window kv kv x base window now c s = (Inr (budget_window_at base (max window 1) start), s')" "ok s'"
    "same_from (clk_inst c) (view s') (view s)"
proof (cases rule: get_cases [OF assms(1), of "base @ ''.window''" c, case_names gone row])
  case (gone s')
  with assms(2) show thesis by simp
next
  case (row e dl s')
  with assms show thesis by (intro that) (auto simp: open_window_def read_start_def Let_def)
qed

lemma take_slot_rows:
  assumes "ok s"
  obtains r f' s' where "take_slot enc kv scope cap c (f, s) = (Inr r, f', s')" "ok s'"
    "\<And>k t. no_slot k \<Longrightarrow> clk_inst c \<le> t \<Longrightarrow> live_at (view s') t k = live_at (view s) t k"
proof -
  let ?keys = "map (\<lambda>n. slot_key enc scope cap (unat (fs_next f + of_nat n) mod cap)) [0..<cap]"
  let ?found = "find (\<lambda>k. live_at (view s) (clk_inst c) k = None) ?keys"
  from take_loop_law [OF assms, of enc "fs_holder f" scope cap "fs_next f" "[0..<cap]" c] obtain s' where
    loop: "take_loop enc kv (fs_holder f) scope cap (fs_next f) [0..<cap] c s = (Inr ?found, s')" "ok s'"
    and rows: "same_from (clk_inst c) (view s') (case ?found of None \<Rightarrow> view s
       | Some k \<Rightarrow> (view s)(k \<mapsto> (fs_holder f, Some (clk_inst c + SLOT_TTL))))" by blast
  have slot: "prefix KEY_PREFIX k" if "?found = Some k" for k
    using that slot_key_prefix by (auto simp: find_Some_iff)
  have same: "live_at (view s') t k = live_at (view s) t k" if "no_slot k" "clk_inst c \<le> t" for k t
    using same_from_live [OF rows that(2)] slot that(1) by (cases ?found) (auto simp: no_slot_def)
  show thesis
  proof (cases ?found)
    case None
    with loop same show thesis by (intro that [of _ _ s']) (auto simp: take_slot_def Let_def)
  next
    case (Some k)
    with loop same show thesis by (intro that [of _ _ s']) (auto simp: take_slot_def Let_def)
  qed
qed

lemma try_acquire_rows:
  assumes "ok s"
  obtains r f' s' where "try_acquire enc kv scope cap c (f, s) = (Inr r, f', s')" "ok s'"
    "\<And>k t. no_slot k \<Longrightarrow> clk_inst c \<le> t \<Longrightarrow> live_at (view s') t k = live_at (view s) t k"
proof -
  obtain got f1 where local: "take_local f scope cap = (got, f1)" by fastforce
  from take_slot_rows [OF assms, of enc scope cap c f1] obtain r f' s' where
    st: "take_slot enc kv scope cap c (f1, s) = (Inr r, f', s')" "ok s'"
    and same: "\<And>k t. no_slot k \<Longrightarrow> clk_inst c \<le> t \<Longrightarrow> live_at (view s') t k = live_at (view s) t k" by metis
  consider "\<not> got" | "got" "recently_full f1 scope cap c" | "got" "\<not> recently_full f1 scope cap c" by blast
  then show thesis
  proof cases
    case 3
    with local st same show thesis by (cases r) (auto intro!: that simp: try_acquire_def)
  qed (use local assms in \<open>auto intro!: that simp: try_acquire_def\<close>)
qed

lemma acquire_rows:
  assumes "ok (qs_store (gs_quota g))"
    and "acquire_concurrency kv x scope cap None wait c g = Some (r, g')"
  shows "ok (qs_store (gs_quota g'))"
    "no_slot k \<Longrightarrow> clk_inst c \<le> t \<Longrightarrow> live_at (view (qs_store (gs_quota g'))) t k = live_at (view (qs_store (gs_quota g))) t k"
proof -
  have "ok (qs_store (gs_quota g')) \<and> (no_slot k \<longrightarrow> clk_inst c \<le> t \<longrightarrow>
      live_at (view (qs_store (gs_quota g'))) t k = live_at (view (qs_store (gs_quota g))) t k)"
  proof (cases "gs_concurrency g")
    case (Replica tr)
    with assms show ?thesis by (auto simp: acquire_concurrency_def split: prod.splits)
  next
    case (Fleet f)
    from try_acquire_rows [OF assms(1), of "qx_encode x" scope cap c f] obtain r' f' s' where
      "try_acquire (qx_encode x) kv scope cap c (f, qs_store (gs_quota g)) = (Inr r', f', s')" "ok s'"
      "\<And>k t. no_slot k \<Longrightarrow> clk_inst c \<le> t \<Longrightarrow> live_at (view s') t k = live_at (view (qs_store (gs_quota g))) t k" by metis
    with Fleet assms(2) show ?thesis by (auto simp: acquire_concurrency_def with_fleet_def)
  qed
  then show "ok (qs_store (gs_quota g'))"
    "no_slot k \<Longrightarrow> clk_inst c \<le> t \<Longrightarrow> live_at (view (qs_store (gs_quota g'))) t k = live_at (view (qs_store (gs_quota g))) t k"
    by blast+
qed

lemma give_back_restores:
  assumes "ok s" "row_count count (view s) (clk_inst c) (measure_key w ''calls'') = Inr (n + 1)" "0 \<le> n" "n \<le> 2 ^ 62"
    and "0 < bw_ttl w"
  shows "row_count count (view (give_back_call kv w c s)) (clk_inst c) (measure_key w ''calls'') = Inr n"
proof -
  have "fits_i64 ((n + 1) + - 1)" using assms(3,4) by (simp add: fits_i64_def)
  note add = window_add_law [OF assms(1,2) this]
  obtain s' where s': "window_add kv w ''calls'' (- 1) c s = (Inr ((n + 1) + - 1), s')"
    "\<And>t. clk_inst c \<le> t \<Longrightarrow> t < clk_inst c + bw_ttl w \<Longrightarrow>
       row_count count (view s') t (measure_key w ''calls'') = Inr ((n + 1) + - 1)" by (rule add) blast
  from s'(1) s'(2) [of "clk_inst c"] assms(5) show ?thesis by (simp add: give_back_call_def)
qed

text \<open>A refused count is given back; an allowed one is one more.\<close>

lemma count_call_counts:
  fixes x :: "('v, 'f) quota_ext"
  assumes "ok (qs_store q)" "row_count count (view (qs_store q)) (clk_inst c) (measure_key w ''calls'') = Inr n"
    and "0 \<le> n" "n \<le> 2 ^ 62" "bp_cap_calls p = Some m" "0 < bw_ttl w"
    and "count_call kv x base p w now_ms c q = (r, q')"
  shows "(\<exists>ws. r = Inr (Allowed ws (Some w))) \<and> ok (qs_store q')
      \<and> row_count count (view (qs_store q')) (clk_inst c) (measure_key w ''calls'') = Inr (n + 1)
    \<or> r = Inr (Denied ''calls'') \<and> row_count count (view (qs_store q')) (clk_inst c) (measure_key w ''calls'') = Inr n"
proof -
  have "fits_i64 (n + 1)" using assms(3,4) by (simp add: fits_i64_def)
  note add = window_add_law [OF assms(1,2) this]
  obtain s' where s': "window_add kv w ''calls'' 1 c (qs_store q) = (Inr (n + 1), s')" "ok s'"
    "\<And>t. clk_inst c \<le> t \<Longrightarrow> t < clk_inst c + bw_ttl w \<Longrightarrow> row_count count (view s') t (measure_key w ''calls'') = Inr (n + 1)"
    by (rule add) blast
  have now: "row_count count (view s') (clk_inst c) (measure_key w ''calls'') = Inr (n + 1)" using s'(3) assms(6) by simp
  have store: "qs_store (refuse_budget b u m n q0) = qs_store q0" for b u m n and q0 :: "'s quota_state"
    by (simp add: refuse_budget_def Let_def)
  show ?thesis
    using assms(5,7) s'(1,2) now give_back_restores [OF s'(2) now assms(3,4,6)]
    by (auto simp: count_call_def refuse_measure_def Let_def store split: if_splits)
qed

end

context kv_counters
begin

lemma budget_stage_counts:
  fixes x :: "('v, 'f) quota_ext"
  assumes ok: "ok (qs_store q)"
    and p: "Option.bind (br_budget (ec_bref ctx)) (qg_budgets gate) = Some p" "bp_cap_calls p = Some m"
    and win: "live_at (view (qs_store q)) (clk_inst c) (budget_key p ctx @ ''.window'') = Some (v, d)" "qx_str x v = Some txt"
      "parse_i64 txt = Some start"
    and w: "w = budget_window_at (budget_key p ctx) (max (budget_window_ms p) 1) start"
    and n: "row_count count (view (qs_store q)) (clk_inst c) (measure_key w ''calls'') = Inr n" "0 \<le> n" "n \<le> 2 ^ 62"
    and st: "budget_stage kv kv x gate ctx c q = (r, q')"
  shows "(\<exists>ws. r = Inr (Inr (ws, Some w))) \<and> ok (qs_store q')
      \<and> row_count count (view (qs_store q')) (clk_inst c) (measure_key w ''calls'') = Inr (n + 1)
    \<or> (\<exists>reason. r = Inr (Inl (Deny (bp_id p) Budget reason)))
      \<and> row_count count (view (qs_store q')) (clk_inst c) (measure_key w ''calls'') = Inr n"
proof -
  let ?base = "budget_key p ctx" and ?now = "timestamp_millis c"
  have ttl: "0 < bw_ttl w"
    by (simp add: w budget_window_at_def window_ttl_def from_millis_def max_def)
  have store: "qs_store (refuse_budget b u mm nn q0) = qs_store q0" for b u mm nn and q0 :: "'s quota_state"
    by (simp add: refuse_budget_def Let_def)
  obtain s1 where s1: "open_window kv kv x ?base (budget_window_ms p) ?now c (qs_store q) = (Inr w, s1)" "ok s1"
    "same_from (clk_inst c) (view s1) (view (qs_store q))"
    using open_window_found [OF ok win, of "budget_window_ms p" ?now] w by metis
  obtain b2 s2 where s2: "spent kv x w ''tokens'' (map_option (\<lambda>n. wrap_i64 (int n)) (bp_cap_token_count p)) c s1 = (Inr b2, s2)" "ok s2"
    "same_from (clk_inst c) (view s2) (view s1)" using spent_law [OF s1(2)] by metis
  obtain b3 s3 where s3: "spent kv x w ''micro_usd'' (map_option (usd_to_micro (qx_f64 x)) (bp_cap_usd p)) c s2 = (Inr b3, s3)" "ok s3"
    "same_from (clk_inst c) (view s3) (view s2)" using spent_law [OF s2(2)] by metis
  have n2: "row_count count (view s2) (clk_inst c) (measure_key w ''calls'') = Inr n"
    using row_count_same_from [OF s2(3)] row_count_same_from [OF s1(3)] n(1) by simp
  then have n3: "row_count count (view s3) (clk_inst c) (measure_key w ''calls'') = Inr n"
    using row_count_same_from [OF s3(3)] by simp
  obtain r4 q4 where cc: "count_call kv x ?base p w ?now c (q\<lparr>qs_store := s3\<rparr>) = (r4, q4)" by fastforce
  have counts: "(\<exists>ws. r4 = Inr (Allowed ws (Some w))) \<and> ok (qs_store q4)
      \<and> row_count count (view (qs_store q4)) (clk_inst c) (measure_key w ''calls'') = Inr (n + 1)
    \<or> r4 = Inr (Denied ''calls'') \<and> row_count count (view (qs_store q4)) (clk_inst c) (measure_key w ''calls'') = Inr n"
    using count_call_counts [OF _ _ n(2,3) p(2) ttl cc] s3(2) n3 by simp
  consider (held) mm where "budget_refuses q ?base ?now = Some mm" | (tokens) "budget_refuses q ?base ?now = None" b2
    | (usd) "budget_refuses q ?base ?now = None" "\<not> b2" b3 | (count) "budget_refuses q ?base ?now = None" "\<not> b2" "\<not> b3"
    by (cases "budget_refuses q ?base ?now") auto
  then show ?thesis
  proof cases
    case held
    with st p n show ?thesis by (auto simp: budget_stage_def check_budget_pre_flight_def)
  next
    case tokens
    with st p s1 s2 n2 show ?thesis
      by (auto simp: budget_stage_def check_budget_pre_flight_def refuse_measure_def store)
  next
    case usd
    with st p s1 s2 s3 n3 show ?thesis
      by (auto simp: budget_stage_def check_budget_pre_flight_def refuse_measure_def store)
  next
    case count
    then have "budget_stage kv kv x gate ctx c q = (case (r4, q4) of
        (Inl e, q1) \<Rightarrow> (Inl e, q1) | (Inr (Allowed ws w), q1) \<Rightarrow> (Inr (Inr (ws, w)), q1)
      | (Inr (Denied m), q1) \<Rightarrow> (Inr (Inl (Deny (bp_id p) Budget
          (''budget `'' @ bp_id p @ ''` exhausted for scope `''
             @ scope_key (bp_scope p) (bp_identity_claim p) ctx @ ''` ('' @ m @ '')''))), q1))"
      using p(1) s1(1) s2(1) s3(1) cc by (simp add: budget_stage_def check_budget_pre_flight_def)
    with st counts show ?thesis by auto
  qed
qed

lemma concurrency_stage_gives_back:
  fixes x :: "('v, 'f) quota_ext"
  assumes "ok (qs_store (gs_quota g))" "no_slot (measure_key w ''calls'')" "0 < bw_ttl w"
    and "row_count count (view (qs_store (gs_quota g))) (clk_inst c) (measure_key w ''calls'') = Inr (n + 1)" "0 \<le> n" "n \<le> 2 ^ 62"
    and queue: "\<forall>i cp. br_concurrency (ec_bref ctx) = Some i \<and> qg_concurrency gate i = Some cp \<longrightarrow> cp_on_exceeded cp \<noteq> ''queue''"
    and st: "concurrency_stage kv kv x gate ctx wait ws (Some w) c g = Some (r, g')"
    and deny: "\<And>permit ws. r \<noteq> Inr (Allow permit ws)"
  shows "row_count count (view (qs_store (gs_quota g'))) (clk_inst c) (measure_key w ''calls'') = Inr n"
proof -
  from st deny obtain cp where cp: "Option.bind (br_concurrency (ec_bref ctx)) (qg_concurrency gate) = Some cp"
    by (cases "Option.bind (br_concurrency (ec_bref ctx)) (qg_concurrency gate)") (auto simp: concurrency_stage_def)
  then have "queue_of cp = None" using queue by (auto simp: queue_of_def bind_eq_Some_conv)
  with st cp obtain r1 g1 where acq: "acquire_concurrency kv x (concurrency_key cp ctx) (cp_max_concurrent cp) None wait c g = Some (r1, g1)"
    by (auto simp: concurrency_stage_def split: option.splits)
  note rows = acquire_rows [OF assms(1) acq]
  have n1: "row_count count (view (qs_store (gs_quota g1))) (clk_inst c) (measure_key w ''calls'') = Inr (n + 1)"
    using rows(2) [OF assms(2)] assms(4) by (simp add: row_count_def)
  from st cp \<open>queue_of cp = None\<close> acq deny have "g' = give_back kv (Some w) c g1"
    by (auto simp: concurrency_stage_def split: sum.splits option.splits)
  with give_back_restores [OF rows(1) n1 assms(5,6,3)] show ?thesis by (simp add: give_back_def)
qed

end

lemma budget_calls_no_slot: "no_slot (measure_key (budget_window_at (budget_key p ctx) window start) m)"
  by (simp add: no_slot_def measure_key_def budget_window_at_def budget_key_def KEY_PREFIX_def)

text \<open>
  C27.  A call the gate refuses costs its budget nothing: when the rate limit lets a call through and the
  gate then refuses it, by the budget or by a concurrency cap that does not queue (of this replica or of the
  fleet), the count of calls in the budget's window is what it was before.
\<close>

theorem refused_call_costs_no_budget:
  fixes x :: "('v, 'f) quota_ext"
  assumes "kv_counters kv view ok count"
    and "rate_stage kv x gate ctx c (gs_quota g) = (Inr None, q1)" "ok (qs_store q1)"
    and "Option.bind (br_budget (ec_bref ctx)) (qg_budgets gate) = Some p" "bp_cap_calls p = Some m"
    and "live_at (view (qs_store q1)) (clk_inst c) (budget_key p ctx @ ''.window'') = Some (v, d)" "qx_str x v = Some txt"
    and "parse_i64 txt = Some start" "w = budget_window_at (budget_key p ctx) (max (budget_window_ms p) 1) start"
    and "row_count count (view (qs_store q1)) (clk_inst c) (measure_key w ''calls'') = Inr n" "0 \<le> n" "n \<le> 2 ^ 62"
    and "\<forall>i cp. br_concurrency (ec_bref ctx) = Some i \<and> qg_concurrency gate i = Some cp \<longrightarrow> cp_on_exceeded cp \<noteq> ''queue''"
    and "evaluate kv kv x gate ctx wait c g = Some (Inr (Deny pid kind reason), g')"
  shows "row_count count (view (qs_store (gs_quota g'))) (clk_inst c) (measure_key w ''calls'') = Inr n"
proof -
  obtain r q2 where bs: "budget_stage kv kv x gate ctx c q1 = (r, q2)" by fastforce
  have ttl: "0 < bw_ttl w"
    by (simp add: assms(9) budget_window_at_def window_ttl_def from_millis_def max_def)
  from kv_counters.budget_stage_counts [OF assms(1,3-12) bs] show ?thesis
  proof (elim disjE conjE exE)
    fix ws assume r: "r = Inr (Inr (ws, Some w))" "ok (qs_store q2)"
      "row_count count (view (qs_store q2)) (clk_inst c) (measure_key w ''calls'') = Inr (n + 1)"
    from r(1) bs assms(2,14) have st: "concurrency_stage kv kv x gate ctx wait ws (Some w) c (g\<lparr>gs_quota := q2\<rparr>)
        = Some (Inr (Deny pid kind reason), g')" by (simp add: evaluate_def)
    show ?thesis
      by (rule kv_counters.concurrency_stage_gives_back [OF assms(1) _ _ ttl _ assms(11,12,13) st])
        (use r budget_calls_no_slot in \<open>simp_all add: assms(9)\<close>)
  next
    fix why assume "r = Inr (Inl (Deny (bp_id p) Budget why))"
      "row_count count (view (qs_store q2)) (clk_inst c) (measure_key w ''calls'') = Inr n"
    with bs assms(2,14) show ?thesis by (auto simp: evaluate_def)
  qed
qed

text \<open>
  Concurrency scopes are kept apart: when no policy id contains the separator, two calls share a
  concurrency count only if they have the same policy and the same scope value.
\<close>

theorem concurrency_keys_apart:
  assumes "CHR 0x1F \<notin> set (cp_id p)" "CHR 0x1F \<notin> set (cp_id p')" "concurrency_key p ctx = concurrency_key p' ctx'"
  shows "cp_id p = cp_id p'
    \<and> scope_key (cp_scope p) (cp_identity_claim p) ctx = scope_key (cp_scope p') (cp_identity_claim p') ctx'"
proof -
  have "split_once (CHR 0x1F) (concurrency_key q k) = Some (cp_id q, scope_key (cp_scope q) (cp_identity_claim q) k)"
    if "CHR 0x1F \<notin> set (cp_id q)" for q k
    using split_once_append [OF that] by (simp add: concurrency_key_def)
  from this [OF assms(1), of ctx] this [OF assms(2), of ctx'] assms(3) show ?thesis by simp
qed

text \<open>
  Rate limit buckets are not: the policy \<open>a\<close> for the scope value \<open>b.s\<close> and the policy \<open>a.b\<close> for the
  scope value \<open>s\<close> use the same bucket, so a caller of one drains the other.
\<close>

theorem rate_limit_keys_collide:
  assumes "rl_id p' = rl_id p @ ''.'' @ b"
    and "scope_key (rl_scope p) (rl_identity_claim p) ctx = b @ ''.'' @ scope_key (rl_scope p') (rl_identity_claim p') ctx'"
  shows "rate_limit_key p ctx = rate_limit_key p' ctx'"
  using assms by (simp add: rate_limit_key_def)

section \<open>Witnesses\<close>

text \<open>Payloads that are texts or counters, and whole numbers for amounts.\<close>

definition quota_lib :: "(string + int) cluster_lib" where
  "quota_lib = \<lparr>cl_parse_counter = (\<lambda>v. case v of Inl _ \<Rightarrow> Inl ''not a counter'' | Inr n \<Rightarrow> Inr n), cl_counter_bytes = Inr,
     cl_counter_overflow = ''overflow'', cl_floor_add = (\<lambda>n fl d. Inr (max n fl + d)),
     cl_from_unordered = (\<lambda>xs p cu n. \<lparr>page_entries = take n xs, page_next = None\<rparr>)\<rparr>"

definition int_f64 :: "int f64_ops" where
  "int_f64 = \<lparr>f_of_int = (\<lambda>n. n), f_div = (div), f_mul = (*), f_max = max, f_ceil = (\<lambda>n. n), f_round = (\<lambda>n. n),
     f_to_i64 = sat_i64, f_less = (<)\<rparr>"

definition sample_qx :: "(string + int, int) quota_ext" where
  "sample_qx = \<lparr>qx_bytes = Inl, qx_str = (\<lambda>v. case v of Inl t \<Rightarrow> Some t | Inr _ \<Rightarrow> None),
     qx_parse_counter = cl_parse_counter quota_lib, qx_unsupported = (\<lambda>_. False), qx_budget_state = (\<lambda>_. Inl ''no record''),
     qx_f64 = int_f64, qx_encode = id\<rparr>"

abbreviation quota_mem :: "((string + int) memory, string + int) kv_ops" where
  "quota_mem \<equiv> memory_kv quota_lib"

lemma quota_lib_counting [simp]: "counting_ok quota_lib m = memory_ok m"
  by (simp add: counting_ok_def counter_lib_def floor_lib_def quota_lib_def)

definition sample_rate :: "string \<Rightarrow> rate_limit_policy" where
  "sample_rate i = \<lparr>rl_id = i, rl_kind = ''token_bucket'', rl_scope = ''per_tool'', rl_identity_claim = None,
     rl_calls_per_minute = 60, rl_burst = Some 5, rl_on_exceeded = ''deny''\<rparr>"

lemma sample_rate_simps [simp]:
  "bucket_interval (sample_rate i) = 1000000" "capacity_us (qx_f64 sample_qx) (sample_rate i) = 5000000"
  by (simp_all add: bucket_interval_def sample_rate_def emission_interval_us_def capacity_us_def capacity_for_def
      sample_qx_def int_f64_def sat_i64_def)


definition sample_ctx :: "string \<Rightarrow> eval_context" where
  "sample_ctx tool = \<lparr>ec_bref = \<lparr>br_rate_limit = None, br_budget = Some ''b'', br_concurrency = None\<rparr>, ec_tool_name = tool,
     ec_session_id = None, ec_identity = Anonymous ''http''\<rparr>"

definition sample_budget :: "int budget_policy" where
  "sample_budget = \<lparr>bp_id = ''b'', bp_kind = ''call_count'', bp_scope = ''global'', bp_identity_claim = None, bp_cap_usd = None,
     bp_cap_token_count = None, bp_cap_calls = Some 1, bp_window = ''1h'', bp_warn_at_pct = None, bp_on_exceeded = ''deny'',
     bp_acknowledge_unenforced = False\<rparr>"

definition sample_window :: budget_window where
  "sample_window = budget_window_at ''quotas.budget.b.global'' 3600000 0"

theorem call_budget_is_exact_witness:
  "\<exists>b. calls_reach quota_mem sample_window (int 1) 0 [] b \<and> cs_counted b = 1 \<and> cs_counted b \<le> 1"
proof -
  let ?b0 = "\<lparr>cs_store = [], cs_counted = 0, cs_over = 0, cs_touched = 0\<rparr> :: (string + int) memory calls_state"
  obtain s1 where a: "window_add quota_mem sample_window ''calls'' 1 (at_ms 1) (cs_store ?b0) = (Inr 1, s1)"
    by (simp add: window_add_def memory_kv_def memory_incr_def update_counter_def checked_add_i64_def)
  have ttl: "clk_inst (at_ms 2) < bw_ttl sample_window"
    by (simp add: sample_window_def budget_window_at_def window_ttl_def from_millis_def)
  define b1 where "b1 = ?b0\<lparr>cs_store := s1,
      cs_counted := (if int 1 < 1 then cs_counted ?b0 else Suc (cs_counted ?b0)),
      cs_over := (if int 1 < 1 then Suc (cs_over ?b0) else cs_over ?b0), cs_touched := clk_inst (at_ms 1)\<rparr>"
  have g: "calls_reach quota_mem sample_window (int 1) 0 [] b1" unfolding b1_def
    by (rule calls_count [OF calls_start _ _ _ a]) (use ttl in \<open>simp_all add: from_millis_def\<close>)
  have "cs_counted b1 \<le> 1"
    using call_budget_is_exact [OF mem_counting.kv_counters_axioms _ g, of sample_budget "at_ms 2" sample_qx "[]" 0] ttl
    by (simp add: memory_ok_def row_count_def live_memory_view sample_budget_def from_millis_def b1_def)
  with g show ?thesis by (intro exI [of _ b1]) (simp add: b1_def)
qed

definition sample_gate :: "int quota_gate" where
  "sample_gate = \<lparr>qg_rate_limits = (\<lambda>_. None), qg_budgets = [''b'' \<mapsto> sample_budget], qg_concurrency = (\<lambda>_. None),
     qg_binding_refs = (\<lambda>_. None), qg_fail_open = False\<rparr>"

definition full_budget :: "((string + int) memory, string + int) gate_state" where
  "full_budget = \<lparr>gs_quota = new_quota_state
       [(''quotas.budget.b.global.window'', stored (Inl ''0'') (None, None)),
        (''quotas.budget.b.global.0.calls'', stored (Inr 1) (None, None))], gs_concurrency = Replica []\<rparr>"

definition no_wait :: "((string + int) memory, string + int) waiting" where
  "no_wait = \<lparr>wt_replica = None, wt_arrive = None, wt_wakes = []\<rparr>"

lemma sample_budget_window: "budget_window_ms sample_budget = 3600000"
proof -
  have "show_nat 1 = ''1''" by code_simp
  then have "window_to_ms ''1h'' = Some 3600000"
    using window_round_trip [of "CHR ''h''" 3600000 1 "[]"] by (simp add: window_unit_def fits_i64_def)
  then show ?thesis by (simp add: budget_window_ms_def sample_budget_def)
qed

lemma sample_budget_key: "budget_key sample_budget (sample_ctx t) = ''quotas.budget.b.global''"
  by (simp add: budget_key_def sample_budget_def scope_key_def)

lemma sample_calls_key: "measure_key sample_window ''calls'' = ''quotas.budget.b.global.0.calls''"
proof -
  have "show_nat 0 = ''0''" by code_simp
  then show ?thesis by (simp add: measure_key_def sample_window_def budget_window_at_def show_int_def)
qed

lemma sample_denied:
  "\<exists>q3. check_budget_pre_flight quota_mem quota_mem sample_qx ''quotas.budget.b.global'' sample_budget now (at_ms 2) (gs_quota full_budget)
     = (Inr (Denied ''calls''), q3)"
proof -
  let ?s = "qs_store (gs_quota full_budget)"
  have "open_window quota_mem quota_mem sample_qx ''quotas.budget.b.global'' 3600000 now (at_ms 2) ?s = (Inr sample_window, ?s)"
    by (simp add: open_window_def read_start_def memory_kv_def memory_get_def memory_probe_def full_budget_def
        new_quota_state_def is_expired_def entry_of_def sample_qx_def parse_i64_def parse_digits_def is_digit_def
        digits_value_def sample_window_def)
  moreover have "\<exists>s1. window_add quota_mem sample_window ''calls'' 1 (at_ms 2) ?s = (Inr 2, s1)"
    by (simp add: window_add_def sample_calls_key memory_kv_def memory_incr_def update_counter_def full_budget_def
        new_quota_state_def is_expired_def quota_lib_def checked_add_i64_def)
  moreover have "budget_refuses (gs_quota full_budget) k now = None" for k
    by (simp add: full_budget_def new_quota_state_def budget_refuses_def)
  moreover have "bp_cap_token_count sample_budget = None" "bp_cap_usd sample_budget = None" "bp_cap_calls sample_budget = Some 1"
    by (simp_all add: sample_budget_def)
  moreover have "wrap_i64 1 = 1" by (simp add: fits_i64_def)
  ultimately show ?thesis
    by (auto simp: check_budget_pre_flight_def sample_budget_window spent_def count_call_def refuse_measure_def Let_def)
qed

theorem refused_call_costs_no_budget_witness:
  "\<exists>reason g'. evaluate quota_mem quota_mem sample_qx sample_gate (sample_ctx ''t'') no_wait (at_ms 2) full_budget
       = Some (Inr (Deny ''b'' Budget reason), g')
     \<and> row_count (cl_parse_counter quota_lib) (memory_view (qs_store (gs_quota g'))) (clk_inst (at_ms 2)) ''quotas.budget.b.global.0.calls''
       = Inr 1"
proof -
  let ?ctx = "sample_ctx ''t''" and ?c = "at_ms 2"
  have rate: "rate_stage quota_mem sample_qx sample_gate ?ctx ?c (gs_quota full_budget) = (Inr None, gs_quota full_budget)"
    by (simp add: rate_stage_def sample_ctx_def)
  have ok: "memory_ok (qs_store (gs_quota full_budget))"
    by (simp add: full_budget_def new_quota_state_def memory_ok_def)
  have pol: "Option.bind (br_budget (ec_bref ?ctx)) (qg_budgets sample_gate) = Some sample_budget" "bp_cap_calls sample_budget = Some 1"
    by (simp_all add: sample_ctx_def sample_gate_def sample_budget_def)
  have anchor: "live_at (memory_view (qs_store (gs_quota full_budget))) (clk_inst ?c) (budget_key sample_budget ?ctx @ ''.window'')
      = Some (Inl ''0'', None)"
    by (simp add: sample_budget_key live_memory_view full_budget_def new_quota_state_def is_expired_def)
  have start: "qx_str sample_qx (Inl ''0'') = Some ''0''" "parse_i64 ''0'' = Some 0"
    by (simp_all add: sample_qx_def parse_i64_def parse_digits_def is_digit_def digits_value_def)
  have win: "sample_window = budget_window_at (budget_key sample_budget ?ctx) (max (budget_window_ms sample_budget) 1) 0"
    by (simp add: sample_window_def sample_budget_key sample_budget_window)
  have calls: "row_count (cl_parse_counter quota_lib) (memory_view (qs_store (gs_quota full_budget))) (clk_inst ?c)
      (measure_key sample_window ''calls'') = Inr 1"
    by (simp add: sample_calls_key row_count_def live_memory_view full_budget_def new_quota_state_def is_expired_def quota_lib_def)
  note laws = mem_counting.kv_counters_axioms [of quota_lib]
  obtain r q2 where bs: "budget_stage quota_mem quota_mem sample_qx sample_gate ?ctx ?c (gs_quota full_budget) = (r, q2)" by fastforce
  have "budget_refuses (gs_quota full_budget) (budget_key sample_budget ?ctx) (timestamp_millis ?c) = None"
    by (simp add: full_budget_def new_quota_state_def budget_refuses_def)
  then obtain q3 where "check_budget_pre_flight quota_mem quota_mem sample_qx (budget_key sample_budget ?ctx) sample_budget
      (timestamp_millis ?c) ?c (gs_quota full_budget) = (Inr (Denied ''calls''), q3)"
    using sample_denied by (metis sample_budget_key)
  then obtain reason where ev: "evaluate quota_mem quota_mem sample_qx sample_gate ?ctx no_wait ?c full_budget
      = Some (Inr (Deny ''b'' Budget reason), full_budget\<lparr>gs_quota := q3\<rparr>)"
    using rate pol by (auto simp: evaluate_def budget_stage_def sample_budget_def)
  from refused_call_costs_no_budget [OF laws rate _ pol anchor start win calls _ _ _ ev] ok ev show ?thesis
    by (auto simp: sample_calls_key sample_gate_def sample_ctx_def)
qed

definition sample_cap :: concurrency_policy where
  "sample_cap = \<lparr>cp_id = ''x'', cp_max_concurrent = 1, cp_scope = ''global'', cp_identity_claim = None, cp_on_exceeded = ''deny'',
    cp_queue_timeout_ms = 0\<rparr>"

theorem concurrency_keys_apart_witness:
  "concurrency_key sample_cap (sample_ctx ''t'') = concurrency_key sample_cap (sample_ctx ''u'')
   \<and> scope_key (cp_scope sample_cap) (cp_identity_claim sample_cap) (sample_ctx ''t'')
     = scope_key (cp_scope sample_cap) (cp_identity_claim sample_cap) (sample_ctx ''u'')"
proof -
  have "concurrency_key sample_cap (sample_ctx ''t'') = concurrency_key sample_cap (sample_ctx ''u'')"
    "CHR 0x1F \<notin> set (cp_id sample_cap)"
    by (simp_all add: concurrency_key_def sample_cap_def scope_key_def)
  then show ?thesis using concurrency_keys_apart by blast
qed

theorem rate_limit_keys_collide_witness:
  "rate_limit_key (sample_rate ''a'') (sample_ctx ''b.t'') = rate_limit_key (sample_rate ''a.b'') (sample_ctx ''t'')"
  by (rule rate_limit_keys_collide [where b = "''b''"]) (simp_all add: sample_rate_def scope_key_def sample_ctx_def)

end
