(* ===== verification/Backend_Routes.thy ===== *)
theory Backend_Routes
  imports Mcpg_Prelude
begin

text \<open>
  Where the router sends a request: \<open>src/backends/routes.rs\<close>.  The route enums keep the source's variants
  (suffixed where two enums share a name), and a binding is the part of \<open>BackendConfig\<close> that routing
  reads: its name, the \<open>kind\<close> of its backend and the backend's \<open>spec\<close> object.
\<close>

section \<open>LLM providers\<close>

datatype llm_kind =
    OpenaiChat | AzureOpenaiChat | AnthropicChat | GeminiChat | CompatChat
  | OpenaiEmbedding | AzureOpenaiEmbedding | GeminiEmbedding | CompatEmbedding
  | OpenaiImage | AzureOpenaiImage | GeminiImage | StabilityImage
  | OpenaiTts | AzureOpenaiTts | OpenaiStt | AzureOpenaiStt

fun plugin_kind :: "llm_kind \<Rightarrow> string" where
  "plugin_kind OpenaiChat = ''openai.chat''"
| "plugin_kind AzureOpenaiChat = ''azure_openai.chat''"
| "plugin_kind AnthropicChat = ''anthropic.chat''"
| "plugin_kind GeminiChat = ''gemini.chat''"
| "plugin_kind CompatChat = ''compat.chat''"
| "plugin_kind OpenaiEmbedding = ''openai.embedding''"
| "plugin_kind AzureOpenaiEmbedding = ''azure_openai.embedding''"
| "plugin_kind GeminiEmbedding = ''gemini.embedding''"
| "plugin_kind CompatEmbedding = ''compat.embedding''"
| "plugin_kind OpenaiImage = ''openai.image''"
| "plugin_kind AzureOpenaiImage = ''azure_openai.image''"
| "plugin_kind GeminiImage = ''gemini.image''"
| "plugin_kind StabilityImage = ''stability.image''"
| "plugin_kind OpenaiTts = ''openai.tts''"
| "plugin_kind AzureOpenaiTts = ''azure_openai.tts''"
| "plugin_kind OpenaiStt = ''openai.stt''"
| "plugin_kind AzureOpenaiStt = ''azure_openai.stt''"

definition from_kind_str :: "string \<Rightarrow> llm_kind option" where
  "from_kind_str kind =
     (if kind = ''openai_chat'' then Some OpenaiChat
      else if kind = ''azure_openai_chat'' then Some AzureOpenaiChat
      else if kind = ''anthropic_chat'' then Some AnthropicChat
      else if kind = ''gemini_chat'' then Some GeminiChat
      else if kind = ''compat_chat'' then Some CompatChat
      else if kind = ''openai_embedding'' then Some OpenaiEmbedding
      else if kind = ''azure_openai_embedding'' then Some AzureOpenaiEmbedding
      else if kind = ''gemini_embedding'' then Some GeminiEmbedding
      else if kind = ''compat_embedding'' then Some CompatEmbedding
      else if kind = ''openai_image'' then Some OpenaiImage
      else if kind = ''azure_openai_image'' then Some AzureOpenaiImage
      else if kind = ''gemini_image'' then Some GeminiImage
      else if kind = ''stability_image'' then Some StabilityImage
      else if kind = ''openai_tts'' then Some OpenaiTts
      else if kind = ''azure_openai_tts'' then Some AzureOpenaiTts
      else if kind = ''openai_stt'' then Some OpenaiStt
      else if kind = ''azure_openai_stt'' then Some AzureOpenaiStt
      else None)"

section \<open>Bindings and their plugins\<close>

record backend_binding =
  bb_name :: string
  bb_kind :: string
  bb_spec :: "(string \<times> json) list"

definition binding_plugin_kind :: "backend_binding \<Rightarrow> string option" where
  "binding_plugin_kind b = (if bb_kind b = ''pipeline'' then None else Some (bb_kind b))"

definition registry_lookup_kind :: "backend_binding \<Rightarrow> string option" where
  "registry_lookup_kind b =
     (case binding_plugin_kind b of
        None \<Rightarrow> None
      | Some kind \<Rightarrow>
          Some (case from_kind_str kind of Some llm \<Rightarrow> plugin_kind llm | None \<Rightarrow> kind))"

definition dynamic_register_spec :: "backend_binding \<Rightarrow> bool \<Rightarrow> json option" where
  "dynamic_register_spec b allow_private_backends =
     Some (JObj (AList.update ''allow_private_backends'' (JBool allow_private_backends) (bb_spec b)))"

definition binding_kind_and_spec :: "backend_binding \<Rightarrow> bool \<Rightarrow> (string \<times> json) option" where
  "binding_kind_and_spec b allow_private_backends =
     (case binding_plugin_kind b of
        None \<Rightarrow> None
      | Some kind \<Rightarrow>
          (case dynamic_register_spec b allow_private_backends of
             None \<Rightarrow> None
           | Some spec \<Rightarrow> Some (kind, spec)))"

section \<open>Routes\<close>

datatype backend_invocation_route =
    RuntimeSnapshot
  | RequestEcho
  | CommandProbe string
  | CommandJsonCall string bool
  | NetworkProbe string
  | NetworkJsonCall string
  | NetworkQueryCall string
  | NatsRequest string
  | GraphqlCall string
  | KafkaRequest string
  | MockResponse string
  | PipelineRoute string
  | OpenapiCall string
  | SqlRequest string
  | LlmRequest string llm_kind
  | FederatedTool string string
  | EnvelopePlugin string string

datatype prompt_route =
    OperationalOverview
  | PromptBinding string
  | FederatedPrompt string string

text \<open>A federated resource has its source, the URI on the upstream and the URI it is listed as.\<close>

datatype resource_route =
    RuntimeOverview
  | GatewayApp string
  | ResourceBinding string
  | Template string "(string \<times> string) list"
  | FederatedResource string string string

fun tool_federation :: "backend_invocation_route \<Rightarrow> string option" where
  "tool_federation (FederatedTool source _) = Some source"
| "tool_federation _ = None"

fun prompt_federation :: "prompt_route \<Rightarrow> string option" where
  "prompt_federation (FederatedPrompt source _) = Some source"
| "prompt_federation _ = None"

fun resource_federation :: "resource_route \<Rightarrow> string option" where
  "resource_federation (FederatedResource source _ _) = Some source"
| "resource_federation _ = None"

definition needs_runtime_snapshot :: "backend_invocation_route \<Rightarrow> bool" where
  "needs_runtime_snapshot r \<longleftrightarrow> r = RuntimeSnapshot \<or> r = RequestEcho"

definition ascii_lower :: "char \<Rightarrow> char" where
  "ascii_lower ch = (if of_char ch \<in> {65..90 :: nat} then char_of (of_char ch + 32 :: nat) else ch)"

definition eq_ignore_ascii_case :: "string \<Rightarrow> string \<Rightarrow> bool" where
  "eq_ignore_ascii_case a b \<longleftrightarrow> map ascii_lower a = map ascii_lower b"

definition is_get :: "backend_binding \<Rightarrow> bool" where
  "is_get b =
     (case map_of (bb_spec b) ''method'' of
        Some (JStr meth) \<Rightarrow> eq_ignore_ascii_case meth ''get''
      | _ \<Rightarrow> False)"

definition require_json_stdout :: "backend_binding \<Rightarrow> bool" where
  "require_json_stdout b =
     (case map_of (bb_spec b) ''require_json_stdout'' of Some (JBool v) \<Rightarrow> v | _ \<Rightarrow> False)"

definition classify_behavioral_route :: "backend_binding \<Rightarrow> backend_invocation_route" where
  "classify_behavioral_route b =
     (let kind = bb_kind b; name = bb_name b in
      if kind = ''http'' then (if is_get b then NetworkQueryCall name else NetworkJsonCall name)
      else if kind = ''command'' then CommandJsonCall name (require_json_stdout b)
      else if kind = ''nats'' then NatsRequest name
      else if kind = ''kafka'' then KafkaRequest name
      else if kind = ''sql'' then SqlRequest name
      else if kind = ''pipeline'' then PipelineRoute name
      else if kind = ''graphql'' then GraphqlCall name
      else if kind = ''openapi'' then OpenapiCall name
      else (case from_kind_str kind of
              Some llm \<Rightarrow> LlmRequest name llm
            | None \<Rightarrow> EnvelopePlugin kind name))"

section \<open>The provider of a binding\<close>

text \<open>The config form of a provider is its plugin kind with the dot written as an underscore.\<close>

definition undot :: "string \<Rightarrow> string" where
  "undot s = map (\<lambda>ch. if ch = CHR ''.'' then CHR ''_'' else ch) s"

lemma from_kind_str_undot: "from_kind_str (undot (plugin_kind llm)) = Some llm"
  by (cases llm) (simp_all add: undot_def from_kind_str_def)

lemma from_kind_str_SomeD: "from_kind_str kind = Some llm \<Longrightarrow> kind = undot (plugin_kind llm)"
  unfolding from_kind_str_def
  by (auto simp: undot_def split: if_splits)

lemma from_kind_str_iff: "from_kind_str kind = Some llm \<longleftrightarrow> kind = undot (plugin_kind llm)"
  using from_kind_str_undot from_kind_str_SomeD by blast

lemma native_route: "tool_federation (classify_behavioral_route b) = None"
  by (simp add: classify_behavioral_route_def Let_def split: option.split)

lemma pipeline_route_iff:
  "registry_lookup_kind b = None \<longleftrightarrow> classify_behavioral_route b = PipelineRoute (bb_name b)"
  by (simp add: classify_behavioral_route_def registry_lookup_kind_def binding_plugin_kind_def Let_def
      split: option.split)

lemma llm_route_iff:
  "classify_behavioral_route b = LlmRequest name llm \<longleftrightarrow>
     name = bb_name b \<and> registry_lookup_kind b = Some (plugin_kind llm) \<and> bb_kind b = undot (plugin_kind llm)"
proof (cases "from_kind_str (bb_kind b) = Some llm")
  case True
  then have "bb_kind b = undot (plugin_kind llm)" by (simp add: from_kind_str_iff)
  with True show ?thesis
    by (cases llm)
      (auto simp: classify_behavioral_route_def registry_lookup_kind_def binding_plugin_kind_def undot_def)
next
  case False
  then have "bb_kind b \<noteq> undot (plugin_kind llm)" by (simp add: from_kind_str_iff)
  with False show ?thesis
    by (auto simp: classify_behavioral_route_def Let_def split: option.split)
qed

lemma envelope_route_kind:
  "classify_behavioral_route b = EnvelopePlugin kind name \<Longrightarrow>
     name = bb_name b \<and> registry_lookup_kind b = Some kind"
  by (auto simp: classify_behavioral_route_def registry_lookup_kind_def binding_plugin_kind_def Let_def
      split: if_splits option.splits)

text \<open>
  The route a binding is classified into and the plugin it is registered with agree, so that a call
  reaches the plugin that knows its profile: no binding is routed to a federation; exactly the pipeline
  bindings have no plugin; an LLM route names the provider whose dotted kind the registry is asked for,
  and the provider is the only one with that config kind; a generic route names the registered kind
  itself.
\<close>

theorem routes_reach_their_plugin:
  assumes "route = classify_behavioral_route b"
  shows "tool_federation route = None \<and>
    (registry_lookup_kind b = None \<longleftrightarrow> route = PipelineRoute (bb_name b)) \<and>
    (\<forall>name llm. route = LlmRequest name llm \<longleftrightarrow>
       name = bb_name b \<and> registry_lookup_kind b = Some (plugin_kind llm) \<and> bb_kind b = undot (plugin_kind llm)) \<and>
    (\<forall>kind name. route = EnvelopePlugin kind name \<longrightarrow>
       name = bb_name b \<and> registry_lookup_kind b = Some kind)"
  using llm_route_iff envelope_route_kind assms
  by (auto simp: native_route pipeline_route_iff simp del: tool_federation.simps)

theorem routes_reach_their_plugin_witness:
  "classify_behavioral_route \<lparr>bb_name = ''wallet'', bb_kind = ''redis'', bb_spec = []\<rparr> =
     EnvelopePlugin ''redis'' ''wallet'' \<and>
   registry_lookup_kind \<lparr>bb_name = ''wallet'', bb_kind = ''redis'', bb_spec = []\<rparr> = Some ''redis''"
proof -
  let ?b = "\<lparr>bb_name = ''wallet'', bb_kind = ''redis'', bb_spec = []\<rparr> :: backend_binding"
  have "classify_behavioral_route ?b = EnvelopePlugin ''redis'' ''wallet''"
    by (simp add: classify_behavioral_route_def from_kind_str_def)
  with routes_reach_their_plugin [of "EnvelopePlugin ''redis'' ''wallet''" ?b] show ?thesis by simp
qed

end
