(* ===== verification/Policy_Gate.thy ===== *)
theory Policy_Gate
  imports Request_Identity Backend_Routes
begin

text \<open>
  The pre-dispatch policy gate: \<open>src/runtime/policy.rs\<close>.  Every call is held to the rules filed under its
  name, to the rule of the federation it is routed to and to the global expression; decisions may be
  cached.

  The CEL interpreter, SHA-256 of the canonical arguments and the process's hasher are parameters.  The
  variables of an evaluation are an association list; adding a string or a ready-made value to a CEL
  context does not fail.  An \<open>anyhow\<close> error is its context and its cause, and the decision shows the
  outermost text.  Names are byte strings: \<open>Debug\<close> escapes the ASCII characters as Rust does and leaves
  other bytes alone.  A poisoned mutex does not occur, since no code panics while it holds the lock.  The
  process-wide rule version is a \<open>nat\<close>: a 64-bit counter does not run out.
\<close>

section \<open>Routes as the gate sees them\<close>

datatype policy_surface = Tool | Prompt | Resource | Event

fun surface_str :: "policy_surface \<Rightarrow> string" where
  "surface_str Tool = ''tool''"
| "surface_str Prompt = ''prompt''"
| "surface_str Resource = ''resource''"
| "surface_str Event = ''event''"

record policy_route =
  pr_federation :: "string option"
  pr_listed_as :: "string option"
  pr_surface :: "policy_surface option"
  pr_arguments :: "json option"

definition gateway :: policy_route where
  "gateway = \<lparr>pr_federation = None, pr_listed_as = None, pr_surface = None, pr_arguments = None\<rparr>"

definition served_by :: "string option \<Rightarrow> policy_route" where
  "served_by federation =
     \<lparr>pr_federation = federation, pr_listed_as = None, pr_surface = None, pr_arguments = None\<rparr>"

definition on_surface :: "policy_route \<Rightarrow> policy_surface \<Rightarrow> policy_route" where
  "on_surface r surface = r\<lparr>pr_surface := Some surface\<rparr>"

definition event_route :: "json option \<Rightarrow> policy_route" where
  "event_route arguments = (on_surface gateway Event)\<lparr>pr_arguments := arguments\<rparr>"

definition for_tool :: "backend_invocation_route \<Rightarrow> policy_route" where
  "for_tool r = on_surface (served_by (tool_federation r)) Tool"

definition for_prompt :: "prompt_route \<Rightarrow> policy_route" where
  "for_prompt r = on_surface (served_by (prompt_federation r)) Prompt"

fun for_resource :: "resource_route \<Rightarrow> policy_route" where
  "for_resource (FederatedResource source _ listed_as) =
     on_surface \<lparr>pr_federation = Some source, pr_listed_as = Some listed_as, pr_surface = None,
       pr_arguments = None\<rparr> Resource"
| "for_resource (ResourceBinding profile) =
     on_surface \<lparr>pr_federation = None, pr_listed_as = Some profile, pr_surface = None,
       pr_arguments = None\<rparr> Resource"
| "for_resource (Template profile _) =
     on_surface \<lparr>pr_federation = None, pr_listed_as = Some profile, pr_surface = None,
       pr_arguments = None\<rparr> Resource"
| "for_resource RuntimeOverview = on_surface gateway Resource"
| "for_resource (GatewayApp _) = on_surface gateway Resource"

datatype preview_route =
    PreviewTool backend_invocation_route
  | PreviewPrompt prompt_route
  | PreviewResource resource_route
  | Unrouted

fun preview_policy_route :: "preview_route \<Rightarrow> policy_route" where
  "preview_policy_route (PreviewTool r) = for_tool r"
| "preview_policy_route (PreviewPrompt r) = for_prompt r"
| "preview_policy_route (PreviewResource r) = for_resource r"
| "preview_policy_route Unrouted = gateway"

fun preview_surface :: "preview_route \<Rightarrow> string" where
  "preview_surface (PreviewTool _) = ''tool''"
| "preview_surface (PreviewPrompt _) = ''prompt''"
| "preview_surface (PreviewResource _) = ''resource''"
| "preview_surface Unrouted = ''unrouted''"

definition preview_federation :: "preview_route \<Rightarrow> string option" where
  "preview_federation r = pr_federation (preview_policy_route r)"

section \<open>Configuration\<close>

record tool_trust_rule =
  ttr_tool_name :: string
  ttr_minimum_trust :: request_trust_level
  ttr_cel_allow_if :: "string option"
  ttr_required_scopes :: "string list"
  ttr_surface :: "policy_surface option"

record tool_access_policy_config =
  tac_default_minimum_trust :: request_trust_level
  tac_cel_allow_if :: "string option"
  tac_rules :: "tool_trust_rule list"

definition default_tool_access_policy_config :: tool_access_policy_config where
  "default_tool_access_policy_config =
     \<lparr>tac_default_minimum_trust = HeaderAsserted, tac_cel_allow_if = None, tac_rules = []\<rparr>"

record policy_cache_config =
  pcc_enabled :: bool
  pcc_ttl_ms :: nat
  pcc_max_entries :: nat

section \<open>The caller\<close>

record tool_policy_context =
  tpc_tool_name :: string
  tpc_trust_level :: request_trust_level
  tpc_principal_id :: "string option"
  tpc_auth_provider :: "string option"
  tpc_identity_kind :: string
  tpc_roles :: "string list"
  tpc_groups :: "string list"
  tpc_scopes :: "string list"
  tpc_attributes :: "(string \<times> string) list"
  tpc_issuer :: "string option"

definition from_request_context :: "request_identity \<Rightarrow> string \<Rightarrow> tool_policy_context" where
  "from_request_context identity tool_name =
     \<lparr>tpc_tool_name = tool_name,
      tpc_trust_level = identity_trust_level identity,
      tpc_principal_id = principal_id identity,
      tpc_auth_provider = identity_auth_provider identity,
      tpc_identity_kind = identity_label identity,
      tpc_roles = identity_roles identity,
      tpc_groups = identity_groups identity,
      tpc_scopes = identity_scopes identity,
      tpc_attributes = identity_attributes identity,
      tpc_issuer = identity_issuer identity\<rparr>"

text \<open>The identity a plugin hands over (\<open>mcpg_plugin_protocol::PluginIdentity\<close>, as far as it is read).\<close>

record plugin_identity =
  pi_trust_level :: string
  pi_subject_id :: "string option"
  pi_issuer :: "string option"
  pi_auth_provider :: "string option"
  pi_kind :: string
  pi_roles :: "string list"
  pi_groups :: "string list"
  pi_scopes :: "string list"
  pi_attributes :: "(string \<times> string) list"

definition from_plugin_identity :: "plugin_identity \<Rightarrow> string \<Rightarrow> tool_policy_context" where
  "from_plugin_identity identity tool_name =
     \<lparr>tpc_tool_name = tool_name,
      tpc_trust_level =
        (if pi_trust_level identity = ''verified'' then VerifiedTrust
         else if pi_trust_level identity = ''header_asserted'' then HeaderAsserted
         else Unauthenticated),
      tpc_principal_id = pi_subject_id identity,
      tpc_auth_provider = pi_auth_provider identity,
      tpc_identity_kind = pi_kind identity,
      tpc_roles = pi_roles identity,
      tpc_groups = pi_groups identity,
      tpc_scopes = pi_scopes identity,
      tpc_attributes = pi_attributes identity,
      tpc_issuer = pi_issuer identity\<rparr>"

fun trust_name :: "request_trust_level \<Rightarrow> string" where
  "trust_name Unauthenticated = ''unauthenticated''"
| "trust_name HeaderAsserted = ''header_asserted''"
| "trust_name VerifiedTrust = ''verified''"

definition trust_level_name :: "tool_policy_context \<Rightarrow> string" where
  "trust_level_name ctx = trust_name (tpc_trust_level ctx)"

text \<open>\<open>{:?}\<close> of a trust level.\<close>

fun debug_trust :: "request_trust_level \<Rightarrow> string" where
  "debug_trust Unauthenticated = ''Unauthenticated''"
| "debug_trust HeaderAsserted = ''HeaderAsserted''"
| "debug_trust VerifiedTrust = ''Verified''"

section \<open>The CEL interpreter and the digests\<close>

datatype cel_value =
    CelNull
  | CelBool bool
  | CelString string
  | CelList "cel_value list"
  | CelMap "(string \<times> cel_value) list"
  | CelOther string

type_synonym cel_env = "(string \<times> cel_value) list"

text \<open>What is hashed of a context: the vectors are sorted first.\<close>

type_synonym claims =
  "string option \<times> string option \<times> string \<times> string list \<times> string list \<times> string list \<times>
   (string \<times> string) list"

text \<open>
  \<open>px_details\<close> is \<open>AuthorizationDetails::from_attribute\<close> (a JSON array of objects, by serde) as a CEL list;
  \<open>px_hash\<close> the 64-bit \<open>DefaultHasher\<close> over the claims; \<open>px_digest\<close> the hex SHA-256 of canonical arguments.
\<close>

record 'p policy_ext =
  px_compile :: "string \<Rightarrow> string + 'p"
  px_execute :: "'p \<Rightarrow> cel_env \<Rightarrow> string + cel_value"
  px_json_to_cel :: "json \<Rightarrow> cel_value"
  px_debug :: "cel_value \<Rightarrow> string"
  px_details :: "string \<Rightarrow> cel_value option"
  px_hash :: "claims \<Rightarrow> 64 word"
  px_digest :: "json \<Rightarrow> string"

type_synonym policy_error = "string \<times> string"

record 'p cel_tool_access_policy =
  ctp_source :: string
  ctp_program :: 'p

definition cel_policy_compile ::
  "'p policy_ext \<Rightarrow> string \<Rightarrow> string \<Rightarrow> policy_error + 'p cel_tool_access_policy" where
  "cel_policy_compile x source config_path =
     (case px_compile x source of
        Inl err \<Rightarrow> Inl (''failed to compile '' @ config_path @ '': '' @ source, err)
      | Inr program \<Rightarrow> Inr \<lparr>ctp_source = source, ctp_program = program\<rparr>)"

fun cel_opt_string :: "string option \<Rightarrow> cel_value" where
  "cel_opt_string (Some s) = CelString s"
| "cel_opt_string None = CelNull"

definition authorization_details_value :: "'p policy_ext \<Rightarrow> (string \<times> string) list \<Rightarrow> cel_value" where
  "authorization_details_value x attrs =
     (case Option.bind (map_of attrs ''authorization_details'') (px_details x) of
        Some v \<Rightarrow> v
      | None \<Rightarrow> CelList [])"

definition build_policy_identity_map :: "'p policy_ext \<Rightarrow> tool_policy_context \<Rightarrow> cel_value" where
  "build_policy_identity_map x ctx =
     CelMap
      [(''kind'', CelString (tpc_identity_kind ctx)),
       (''trust_level'', CelString (trust_level_name ctx)),
       (''subject_id'', cel_opt_string (tpc_principal_id ctx)),
       (''auth_provider'', cel_opt_string (tpc_auth_provider ctx)),
       (''issuer'', cel_opt_string (tpc_issuer ctx)),
       (''roles'', CelList (map CelString (tpc_roles ctx))),
       (''groups'', CelList (map CelString (tpc_groups ctx))),
       (''scopes'', CelList (map CelString (tpc_scopes ctx))),
       (''attributes'', CelMap (map (\<lambda>(k, v). (k, CelString v)) (tpc_attributes ctx))),
       (''authorization_details'', authorization_details_value x (tpc_attributes ctx))]"

definition cel_variables :: "'p policy_ext \<Rightarrow> tool_policy_context \<Rightarrow> policy_route \<Rightarrow> cel_env" where
  "cel_variables x ctx r =
     [(''tool_name'', CelString (tpc_tool_name ctx)),
      (''surface'', CelString (case pr_surface r of None \<Rightarrow> '''' | Some s \<Rightarrow> surface_str s)),
      (''arguments'', px_json_to_cel x (case pr_arguments r of Some a \<Rightarrow> a | None \<Rightarrow> JObj [])),
      (''trust_level'', CelString (trust_level_name ctx)),
      (''principal_id'', cel_opt_string (tpc_principal_id ctx)),
      (''auth_provider'', cel_opt_string (tpc_auth_provider ctx)),
      (''identity_kind'', CelString (tpc_identity_kind ctx)),
      (''identity'', build_policy_identity_map x ctx)]"

definition evaluate_on ::
  "'p policy_ext \<Rightarrow> 'p cel_tool_access_policy \<Rightarrow> tool_policy_context \<Rightarrow> policy_route \<Rightarrow> string + bool" where
  "evaluate_on x pol ctx r =
     (case px_execute x (ctp_program pol) (cel_variables x ctx r) of
        Inl _ \<Rightarrow> Inl (''failed to execute CEL policy: '' @ ctp_source pol)
      | Inr (CelBool result) \<Rightarrow> Inr result
      | Inr other \<Rightarrow> Inl (''CEL policy must evaluate to a boolean, got '' @ px_debug x other))"

section \<open>Compiled rules\<close>

record 'p tool_rule_policy =
  trp_tool_name :: string
  trp_minimum_trust :: request_trust_level
  trp_cel_allow_if :: "'p cel_tool_access_policy option"
  trp_required_scopes :: "string list"
  trp_surface :: "policy_surface option"

definition compile_opt ::
  "'p policy_ext \<Rightarrow> string option \<Rightarrow> string \<Rightarrow> policy_error + 'p cel_tool_access_policy option" where
  "compile_opt x source config_path =
     (case source of
        None \<Rightarrow> Inr None
      | Some src \<Rightarrow>
          (case cel_policy_compile x src config_path of
             Inl err \<Rightarrow> Inl err
           | Inr pol \<Rightarrow> Inr (Some pol)))"

definition rule_compile ::
  "'p policy_ext \<Rightarrow> tool_trust_rule \<Rightarrow> string \<Rightarrow> policy_error + 'p tool_rule_policy" where
  "rule_compile x rule config_path =
     (case compile_opt x (ttr_cel_allow_if rule) config_path of
        Inl err \<Rightarrow> Inl err
      | Inr cel \<Rightarrow>
          Inr \<lparr>trp_tool_name = ttr_tool_name rule,
               trp_minimum_trust = ttr_minimum_trust rule,
               trp_cel_allow_if = cel,
               trp_required_scopes = ttr_required_scopes rule,
               trp_surface = ttr_surface rule\<rparr>)"

definition rule_from_rule :: "'p policy_ext \<Rightarrow> tool_trust_rule \<Rightarrow> policy_error + 'p tool_rule_policy" where
  "rule_from_rule x rule =
     rule_compile x rule (''policy.tool_access.rules['' @ ttr_tool_name rule @ ''].cel_allow_if'')"

definition missing_scopes :: "'p tool_rule_policy \<Rightarrow> tool_policy_context \<Rightarrow> string list" where
  "missing_scopes rule ctx = filter (\<lambda>required. required \<notin> set (tpc_scopes ctx)) (trp_required_scopes rule)"

record 'p tool_access_policy =
  tap_default_minimum_trust :: request_trust_level
  tap_per_tool_rules :: "(string \<rightharpoonup> 'p tool_rule_policy list)"
  tap_cel_allow_if :: "'p cel_tool_access_policy option"

definition push_rule ::
  "'p tool_rule_policy \<Rightarrow> (string \<rightharpoonup> 'p tool_rule_policy list) \<Rightarrow> (string \<rightharpoonup> 'p tool_rule_policy list)" where
  "push_rule pol per_tool =
     per_tool(trp_tool_name pol \<mapsto>
       (case per_tool (trp_tool_name pol) of None \<Rightarrow> [] | Some rs \<Rightarrow> rs) @ [pol])"

fun collect_rules ::
  "'p policy_ext \<Rightarrow> tool_trust_rule list \<Rightarrow> (string \<rightharpoonup> 'p tool_rule_policy list) \<Rightarrow>
     policy_error + (string \<rightharpoonup> 'p tool_rule_policy list)" where
  "collect_rules x [] per_tool = Inr per_tool"
| "collect_rules x (rule # rules) per_tool =
     (case rule_from_rule x rule of
        Inl err \<Rightarrow> Inl err
      | Inr pol \<Rightarrow> collect_rules x rules (push_rule pol per_tool))"

definition from_config ::
  "'p policy_ext \<Rightarrow> tool_access_policy_config \<Rightarrow> policy_error + 'p tool_access_policy" where
  "from_config x config =
     (case collect_rules x (tac_rules config) Map.empty of
        Inl err \<Rightarrow> Inl err
      | Inr per_tool \<Rightarrow>
          (case compile_opt x (tac_cel_allow_if config) ''policy.tool_access.cel_allow_if'' of
             Inl err \<Rightarrow> Inl err
           | Inr cel \<Rightarrow>
               Inr \<lparr>tap_default_minimum_trust = tac_default_minimum_trust config,
                    tap_per_tool_rules = per_tool,
                    tap_cel_allow_if = cel\<rparr>))"

section \<open>The rules of the federations\<close>

record federation_governance =
  fg_federation :: string
  fg_minimum_trust :: request_trust_level
  fg_cel_allow_if :: "string option"
  fg_required_scopes :: "string list"

datatype 'p federated_rule = Governed "'p tool_rule_policy" | Uncompiled

definition governance_rule :: "federation_governance \<Rightarrow> tool_trust_rule" where
  "governance_rule g =
     \<lparr>ttr_tool_name = fg_federation g,
      ttr_minimum_trust = fg_minimum_trust g,
      ttr_cel_allow_if = fg_cel_allow_if g,
      ttr_required_scopes = fg_required_scopes g,
      ttr_surface = None\<rparr>"

definition federated_compile :: "'p policy_ext \<Rightarrow> federation_governance \<Rightarrow> 'p federated_rule" where
  "federated_compile x g =
     (case rule_compile x (governance_rule g)
             (''mcp.federations['' @ fg_federation g @ ''].governance.allow_if'') of
        Inr pol \<Rightarrow> Governed pol
      | Inl _ \<Rightarrow> Uncompiled)"

record 'p published_rule =
  pub_governance :: federation_governance
  pub_rule :: "'p federated_rule"
  pub_version :: nat

type_synonym 'p federated_tool_policies = "(string \<rightharpoonup> 'p published_rule)"

text \<open>One governance published after the set \<open>prev\<close>; \<open>v\<close> is the process-wide \<open>VERSION\<close>.\<close>

definition publish_one ::
  "'p policy_ext \<Rightarrow> 'p federated_tool_policies \<Rightarrow> nat \<Rightarrow> federation_governance \<Rightarrow> 'p published_rule \<times> nat" where
  "publish_one x prev v g =
     (let fresh = (\<lparr>pub_governance = g, pub_rule = federated_compile x g, pub_version = v + 1\<rparr>, v + 1) in
      case prev (fg_federation g) of
        Some p \<Rightarrow>
          if pub_governance p = g
          then (\<lparr>pub_governance = g, pub_rule = pub_rule p, pub_version = pub_version p\<rparr>, v)
          else fresh
      | None \<Rightarrow> fresh)"

fun republish ::
  "'p policy_ext \<Rightarrow> 'p federated_tool_policies \<Rightarrow> federation_governance list \<Rightarrow>
     'p federated_tool_policies \<Rightarrow> nat \<Rightarrow> 'p federated_tool_policies \<times> nat" where
  "republish x prev [] acc v = (acc, v)"
| "republish x prev (g # gs) acc v =
     (case publish_one x prev v g of
        (p, v') \<Rightarrow> republish x prev gs (acc(fg_federation g \<mapsto> p)) v')"

definition republished ::
  "'p policy_ext \<Rightarrow> 'p federated_tool_policies \<Rightarrow> federation_governance list \<Rightarrow> nat \<Rightarrow>
     'p federated_tool_policies \<times> nat" where
  "republished x prev gs v = republish x prev gs Map.empty v"

definition from_federations ::
  "'p policy_ext \<Rightarrow> federation_governance list \<Rightarrow> nat \<Rightarrow> 'p federated_tool_policies \<times> nat" where
  "from_federations x gs v = republished x Map.empty gs v"

definition federated_rule_of :: "'p federated_tool_policies \<Rightarrow> string \<Rightarrow> 'p federated_rule option" where
  "federated_rule_of fed federation = map_option pub_rule (fed federation)"

definition federated_version :: "'p federated_tool_policies \<Rightarrow> string \<Rightarrow> nat" where
  "federated_version fed federation = (case fed federation of None \<Rightarrow> 0 | Some p \<Rightarrow> pub_version p)"

section \<open>Decisions\<close>

record policy_denial =
  pd_code :: int
  pd_http_status :: nat
  pd_message :: string
  pd_audit_reason :: string
  pd_insufficient_scope :: "string list option"

datatype policy_outcome = Allow | Deny policy_denial

definition governs :: "policy_route \<Rightarrow> 'p tool_rule_policy \<Rightarrow> bool" where
  "governs r rule =
     (case (trp_surface rule, pr_surface r) of
        (Some governed, Some requested) \<Rightarrow> governed = requested
      | _ \<Rightarrow> True)"

definition refused :: "string \<Rightarrow> string \<Rightarrow> string \<Rightarrow> policy_denial" where
  "refused reason tool_name federation =
     \<lparr>pd_code = - 32603,
      pd_http_status = 500,
      pd_message = ''tool access policy evaluation failed'',
      pd_audit_reason = reason @ '':'' @ tool_name @ '':'' @ federation,
      pd_insufficient_scope = None\<rparr>"

definition named_rules ::
  "'p tool_access_policy \<Rightarrow> tool_policy_context \<Rightarrow> policy_route \<Rightarrow> 'p tool_rule_policy list" where
  "named_rules pol ctx r =
     (let listed_as = (case pr_listed_as r of
                         Some l \<Rightarrow> if l \<noteq> tpc_tool_name ctx then [l] else []
                       | None \<Rightarrow> []) in
      filter (governs r)
        (concat (map (\<lambda>name. case tap_per_tool_rules pol name of None \<Rightarrow> [] | Some rs \<Rightarrow> rs)
           (tpc_tool_name ctx # listed_as))))"

definition rules_for ::
  "'p tool_access_policy \<Rightarrow> tool_policy_context \<Rightarrow> 'p federated_tool_policies \<Rightarrow> policy_route \<Rightarrow>
     policy_denial + 'p tool_rule_policy list" where
  "rules_for pol ctx fed r =
     (case pr_federation r of
        None \<Rightarrow> Inr (named_rules pol ctx r)
      | Some federation \<Rightarrow>
          (case federated_rule_of fed federation of
             Some (Governed rule) \<Rightarrow> Inr (named_rules pol ctx r @ [rule])
           | Some Uncompiled \<Rightarrow> Inl (refused ''federation_governance_uncompiled'' (tpc_tool_name ctx) federation)
           | None \<Rightarrow> Inl (refused ''federation_governance_missing'' (tpc_tool_name ctx) federation)))"

definition evaluate_cel_allow_if ::
  "'p policy_ext \<Rightarrow> 'p tool_access_policy \<Rightarrow> tool_policy_context \<Rightarrow> policy_route \<Rightarrow> policy_denial option" where
  "evaluate_cel_allow_if x pol ctx r =
     (case tap_cel_allow_if pol of
        None \<Rightarrow> None
      | Some cel \<Rightarrow>
          (case evaluate_on x cel ctx r of
             Inr True \<Rightarrow> None
           | Inr False \<Rightarrow>
               Some \<lparr>pd_code = - 32022, pd_http_status = 403,
                 pd_message = ''tool '' @ tpc_tool_name ctx @ '' was denied by CEL allow_if policy'',
                 pd_audit_reason = ''tool_access_cel_allow_if_denied:'' @ tpc_tool_name ctx,
                 pd_insufficient_scope = None\<rparr>
           | Inl err \<Rightarrow>
               Some \<lparr>pd_code = - 32603, pd_http_status = 500,
                 pd_message = ''tool access policy evaluation failed'',
                 pd_audit_reason = ''tool_access_cel_allow_if_error:'' @ tpc_tool_name ctx @ '':'' @ err,
                 pd_insufficient_scope = None\<rparr>))"

definition push_new :: "string list \<Rightarrow> string \<Rightarrow> string list" where
  "push_new missing scope = (if scope \<in> set missing then missing else missing @ [scope])"

text \<open>\<open>Vec::join\<close>.\<close>

fun join :: "string \<Rightarrow> string list \<Rightarrow> string" where
  "join sep [] = []"
| "join sep [s] = s"
| "join sep (s # ss) = s @ sep @ join sep ss"

definition scope_denial :: "'p tool_rule_policy list \<Rightarrow> tool_policy_context \<Rightarrow> policy_denial option" where
  "scope_denial rules ctx =
     (let missing = foldl push_new [] (concat (map (\<lambda>rule. missing_scopes rule ctx) rules)) in
      if missing = [] then None
      else
        Some \<lparr>pd_code = - 32003, pd_http_status = 403,
          pd_message = ''tool '' @ tpc_tool_name ctx @ '' requires OAuth scope(s) '' @ join '' '' missing @
            '' not present on the caller'' @ [CHR 0x27] @ ''s credential'',
          pd_audit_reason = ''tool_insufficient_scope:'' @ tpc_tool_name ctx @ '':'' @ join '','' missing,
          pd_insufficient_scope = Some missing\<rparr>)"

definition eval_rule_cel ::
  "'p policy_ext \<Rightarrow> 'p tool_rule_policy \<Rightarrow> tool_policy_context \<Rightarrow> policy_route \<Rightarrow> policy_denial option" where
  "eval_rule_cel x rule ctx r =
     (case trp_cel_allow_if rule of
        None \<Rightarrow> None
      | Some cel \<Rightarrow>
          (case evaluate_on x cel ctx r of
             Inr True \<Rightarrow> None
           | Inr False \<Rightarrow>
               Some \<lparr>pd_code = - 32005, pd_http_status = 403,
                 pd_message = ''tool '' @ tpc_tool_name ctx @ '' was denied by per-tool CEL allow_if policy'',
                 pd_audit_reason = ''tool_access_rule_cel_allow_if_denied:'' @ tpc_tool_name ctx,
                 pd_insufficient_scope = None\<rparr>
           | Inl err \<Rightarrow>
               Some \<lparr>pd_code = - 32603, pd_http_status = 500,
                 pd_message = ''tool access policy evaluation failed'',
                 pd_audit_reason = ''tool_access_rule_cel_allow_if_error:'' @ tpc_tool_name ctx @ '':'' @ err,
                 pd_insufficient_scope = None\<rparr>))"

fun first_rule_denial ::
  "'p policy_ext \<Rightarrow> 'p tool_rule_policy list \<Rightarrow> tool_policy_context \<Rightarrow> policy_route \<Rightarrow> policy_outcome" where
  "first_rule_denial x [] ctx r = Allow"
| "first_rule_denial x (rule # rules) ctx r =
     (case eval_rule_cel x rule ctx r of
        Some denial \<Rightarrow> Deny denial
      | None \<Rightarrow> first_rule_denial x rules ctx r)"

text \<open>\<open>Iterator::max\<close> over the floors of the rules, the default floor when there is no rule.\<close>

fun floor_of :: "request_trust_level \<Rightarrow> 'p tool_rule_policy list \<Rightarrow> request_trust_level" where
  "floor_of dflt [] = dflt"
| "floor_of dflt (rule # rules) = foldl max (trp_minimum_trust rule) (map trp_minimum_trust rules)"

definition trust_denial :: "tool_policy_context \<Rightarrow> request_trust_level \<Rightarrow> policy_denial" where
  "trust_denial ctx minimum_trust =
     \<lparr>pd_code = - 32003, pd_http_status = 403,
      pd_message = ''tool '' @ tpc_tool_name ctx @ '' requires trust level '' @ debug_trust minimum_trust @
        '', current trust is '' @ debug_trust (tpc_trust_level ctx),
      pd_audit_reason = ''tool_trust_requirement_not_met:'' @ tpc_tool_name ctx @ '':'' @
        debug_trust minimum_trust @ '':'' @ debug_trust (tpc_trust_level ctx),
      pd_insufficient_scope = None\<rparr>"

definition evaluate_uncached ::
  "'p policy_ext \<Rightarrow> 'p tool_access_policy \<Rightarrow> tool_policy_context \<Rightarrow> 'p federated_tool_policies \<Rightarrow>
     policy_route \<Rightarrow> policy_outcome" where
  "evaluate_uncached x pol ctx fed r =
     (case rules_for pol ctx fed r of
        Inl denial \<Rightarrow> Deny denial
      | Inr rules \<Rightarrow>
          (let minimum_trust = floor_of (tap_default_minimum_trust pol) rules in
           if tpc_trust_level ctx < minimum_trust then Deny (trust_denial ctx minimum_trust)
           else (case scope_denial rules ctx of
                   Some denial \<Rightarrow> Deny denial
                 | None \<Rightarrow>
                     (case evaluate_cel_allow_if x pol ctx r of
                        Some denial \<Rightarrow> Deny denial
                      | None \<Rightarrow> first_rule_denial x rules ctx r))))"

section \<open>The decision cache\<close>

text \<open>\<open>{:?}\<close> of strings, optional strings, surfaces and rule versions, as \<open>format!\<close> writes them in a key.\<close>

definition hex_digit :: "nat \<Rightarrow> char" where
  "hex_digit d = char_of (if d < 10 then 48 + d else 87 + d)"

fun show_hex :: "nat \<Rightarrow> string" where
  "show_hex n = (if n < 16 then [hex_digit n] else show_hex (n div 16) @ [hex_digit (n mod 16)])"

declare show_hex.simps [simp del]

definition debug_char :: "char \<Rightarrow> string" where
  "debug_char ch =
     (if ch = CHR 0x22 then [CHR 0x5C, CHR 0x22]
      else if ch = CHR 0x5C then [CHR 0x5C, CHR 0x5C]
      else if ch = CHR 0x09 then [CHR 0x5C, CHR ''t'']
      else if ch = CHR 0x0D then [CHR 0x5C, CHR ''r'']
      else if ch = CHR 0x0A then [CHR 0x5C, CHR ''n'']
      else if ch = CHR 0x00 then [CHR 0x5C, CHR ''0'']
      else if of_char ch < (32::nat) \<or> ch = CHR 0x7F
        then CHR 0x5C # ''u{'' @ show_hex (of_char ch) @ ''}''
      else [ch])"

definition debug_str :: "string \<Rightarrow> string" where
  "debug_str s = CHR 0x22 # concat (map debug_char s) @ [CHR 0x22]"

fun debug_opt_str :: "string option \<Rightarrow> string" where
  "debug_opt_str None = ''None''"
| "debug_opt_str (Some s) = ''Some('' @ debug_str s @ '')''"

fun debug_depends_on :: "(string \<times> nat) option \<Rightarrow> string" where
  "debug_depends_on None = ''None''"
| "debug_depends_on (Some (federation, version)) =
     ''Some(('' @ debug_str federation @ '', '' @ show_nat version @ ''))''"

fun debug_surface :: "policy_surface option \<Rightarrow> string" where
  "debug_surface None = ''None''"
| "debug_surface (Some Tool) = ''Some(Tool)''"
| "debug_surface (Some Prompt) = ''Some(Prompt)''"
| "debug_surface (Some Resource) = ''Some(Resource)''"
| "debug_surface (Some Event) = ''Some(Event)''"

text \<open>\<open>{:016x}\<close> of a 64-bit hash.\<close>

definition hex16 :: "64 word \<Rightarrow> string" where
  "hex16 h = (let digits = show_hex (unat h) in replicate (16 - length digits) (CHR ''0'') @ digits)"

definition claims_of :: "tool_policy_context \<Rightarrow> claims" where
  "claims_of ctx =
     (tpc_auth_provider ctx, tpc_issuer ctx, tpc_identity_kind ctx, sort (tpc_roles ctx),
      sort (tpc_groups ctx), sort (tpc_scopes ctx), tpc_attributes ctx)"

definition cache_key :: "'p policy_ext \<Rightarrow> tool_policy_context \<Rightarrow> string" where
  "cache_key x ctx =
     (case tpc_principal_id ctx of Some p \<Rightarrow> p | None \<Rightarrow> ''_anon'') @ '':'' @ tpc_tool_name ctx @ '':'' @
     trust_level_name ctx @ '':'' @ hex16 (px_hash x (claims_of ctx))"

definition depends_on :: "'p federated_tool_policies \<Rightarrow> policy_route \<Rightarrow> (string \<times> nat) option" where
  "depends_on fed r = map_option (\<lambda>f. (f, federated_version fed f)) (pr_federation r)"

definition decision_key ::
  "'p policy_ext \<Rightarrow> tool_policy_context \<Rightarrow> (string \<times> nat) option \<Rightarrow> policy_route \<Rightarrow> string" where
  "decision_key x ctx dep r =
     cache_key x ctx @ ''|'' @ debug_depends_on dep @ ''|'' @ debug_opt_str (pr_listed_as r) @ ''|'' @
     debug_surface (pr_surface r) @
     (case pr_arguments r of None \<Rightarrow> [] | Some a \<Rightarrow> ''|args:'' @ px_digest x a)"

record cache_entry =
  ce_outcome :: policy_outcome
  ce_inserted_at :: nat
  ce_depends_on :: "(string \<times> nat) option"

type_synonym cache_entries = "(string \<times> cache_entry) list"

record policy_cache =
  pc_ttl :: duration
  pc_max_entries :: nat

definition is_live :: "duration \<Rightarrow> 'p federated_tool_policies \<Rightarrow> nat \<Rightarrow> cache_entry \<Rightarrow> bool" where
  "is_live ttl fed now entry \<longleftrightarrow>
     now - ce_inserted_at entry \<le> ttl \<and>
     (case ce_depends_on entry of None \<Rightarrow> True | Some (f, version) \<Rightarrow> federated_version fed f = version)"

definition cache_new :: "nat \<Rightarrow> nat \<Rightarrow> policy_cache" where
  "cache_new ttl_ms max_entries = \<lparr>pc_ttl = from_millis ttl_ms, pc_max_entries = max_entries\<rparr>"

definition cache_get :: "policy_cache \<Rightarrow> string \<Rightarrow> nat \<Rightarrow> cache_entries \<Rightarrow> policy_outcome option" where
  "cache_get c key now entries =
     (case map_of entries key of
        None \<Rightarrow> None
      | Some entry \<Rightarrow>
          if now - ce_inserted_at entry > pc_ttl c then None else Some (ce_outcome entry))"

definition cache_put ::
  "policy_cache \<Rightarrow> string \<Rightarrow> policy_outcome \<Rightarrow> (string \<times> nat) option \<Rightarrow> 'p federated_tool_policies \<Rightarrow>
     nat \<Rightarrow> cache_entries \<Rightarrow> cache_entries" where
  "cache_put c key outcome dep fed now entries =
     (let store = AList.update key \<lparr>ce_outcome = outcome, ce_inserted_at = now, ce_depends_on = dep\<rparr> in
      if length entries \<ge> pc_max_entries c then
        (let kept = filter (\<lambda>(_, entry). is_live (pc_ttl c) fed now entry) entries in
         if length kept \<ge> pc_max_entries c then kept else store kept)
      else store entries)"

record 'p policy_gate =
  pg_policy :: "'p tool_access_policy"
  pg_cache :: "policy_cache option"

definition try_new :: "'p policy_ext \<Rightarrow> tool_access_policy_config \<Rightarrow> policy_error + 'p policy_gate" where
  "try_new x config =
     (case from_config x config of
        Inl err \<Rightarrow> Inl err
      | Inr pol \<Rightarrow> Inr \<lparr>pg_policy = pol, pg_cache = None\<rparr>)"

definition try_new_with_cache ::
  "'p policy_ext \<Rightarrow> tool_access_policy_config \<Rightarrow> policy_cache_config \<Rightarrow> policy_error + 'p policy_gate" where
  "try_new_with_cache x config cache_config =
     (let cache = (if pcc_enabled cache_config
                   then Some (cache_new (pcc_ttl_ms cache_config) (pcc_max_entries cache_config))
                   else None) in
      case from_config x config of
        Inl err \<Rightarrow> Inl err
      | Inr pol \<Rightarrow> Inr \<lparr>pg_policy = pol, pg_cache = cache\<rparr>)"

text \<open>
  \<open>evaluate\<close> under the set of federation rules it loaded; \<open>now\<close> is the time of the lookup and \<open>later\<close> the
  time of the insertion.
\<close>

definition evaluate ::
  "'p policy_ext \<Rightarrow> 'p policy_gate \<Rightarrow> 'p federated_tool_policies \<Rightarrow> tool_policy_context \<Rightarrow> policy_route \<Rightarrow>
     nat \<Rightarrow> nat \<Rightarrow> cache_entries \<Rightarrow> policy_outcome \<times> cache_entries" where
  "evaluate x gate fed ctx r now later entries =
     (case pg_cache gate of
        None \<Rightarrow> (evaluate_uncached x (pg_policy gate) ctx fed r, entries)
      | Some c \<Rightarrow>
          (let dep = depends_on fed r; key = decision_key x ctx dep r in
           case cache_get c key now entries of
             Some cached \<Rightarrow> (cached, entries)
           | None \<Rightarrow>
               (let outcome = evaluate_uncached x (pg_policy gate) ctx fed r in
                (outcome, cache_put c key outcome dep fed later entries))))"

definition is_visible ::
  "'p policy_ext \<Rightarrow> 'p policy_gate \<Rightarrow> 'p federated_tool_policies \<Rightarrow> tool_policy_context \<Rightarrow> policy_route \<Rightarrow>
     nat \<Rightarrow> nat \<Rightarrow> cache_entries \<Rightarrow> bool \<times> cache_entries" where
  "is_visible x gate fed ctx r now later entries =
     (case evaluate x gate fed ctx r now later entries of
        (outcome, entries') \<Rightarrow> (outcome = Allow, entries'))"

end
