(* ===== verification/Policy_Properties.thy ===== *)
theory Policy_Properties
  imports Policy_Gate "HOL-Library.Multiset"
begin

text \<open>
  Correctness of the policy gate: which calls it allows, stated over the configuration and the published
  governance; what a denial for missing scopes names; and that the decision cache never changes a
  decision as long as its keys tell the callers apart.
\<close>

section \<open>What a rule demands\<close>

definition applies :: "tool_trust_rule \<Rightarrow> tool_policy_context \<Rightarrow> policy_route \<Rightarrow> bool" where
  "applies rule ctx r \<longleftrightarrow>
     (ttr_tool_name rule = tpc_tool_name ctx \<or> pr_listed_as r = Some (ttr_tool_name rule)) \<and>
     (ttr_surface rule = None \<or> pr_surface r = None \<or> ttr_surface rule = pr_surface r)"

definition expression_holds :: "'p policy_ext \<Rightarrow> string \<Rightarrow> tool_policy_context \<Rightarrow> policy_route \<Rightarrow> bool" where
  "expression_holds x src ctx r =
     (case px_compile x src of
        Inl _ \<Rightarrow> False
      | Inr program \<Rightarrow> px_execute x program (cel_variables x ctx r) = Inr (CelBool True))"

definition rule_passes :: "'p policy_ext \<Rightarrow> tool_trust_rule \<Rightarrow> tool_policy_context \<Rightarrow> policy_route \<Rightarrow> bool" where
  "rule_passes x rule ctx r \<longleftrightarrow>
     ttr_minimum_trust rule \<le> tpc_trust_level ctx \<and>
     set (ttr_required_scopes rule) \<subseteq> set (tpc_scopes ctx) \<and>
     (case ttr_cel_allow_if rule of None \<Rightarrow> True | Some src \<Rightarrow> expression_holds x src ctx r)"

text \<open>The sets of federation rules the engine can publish.\<close>

inductive published_set :: "'p policy_ext \<Rightarrow> 'p federated_tool_policies \<Rightarrow> bool" for x where
  no_federation: "published_set x Map.empty"
| publication: "published_set x prev \<Longrightarrow> republished x prev gs v = (fed, v') \<Longrightarrow> published_set x fed"

subsection \<open>Compiled rules keep the demands of their sources\<close>

lemma evaluate_on_True:
  "cel_policy_compile x src path = Inr cel \<Longrightarrow>
     evaluate_on x cel ctx r = Inr True \<longleftrightarrow> expression_holds x src ctx r"
  by (auto simp: cel_policy_compile_def evaluate_on_def expression_holds_def
      split: sum.splits cel_value.splits)

lemma eval_rule_cel_None:
  "eval_rule_cel x rule ctx r = None \<longleftrightarrow>
     (case trp_cel_allow_if rule of None \<Rightarrow> True | Some cel \<Rightarrow> evaluate_on x cel ctx r = Inr True)"
  by (auto simp: eval_rule_cel_def split: option.splits sum.splits bool.splits)

lemma evaluate_cel_allow_if_None:
  "evaluate_cel_allow_if x pol ctx r = None \<longleftrightarrow>
     (case tap_cel_allow_if pol of None \<Rightarrow> True | Some cel \<Rightarrow> evaluate_on x cel ctx r = Inr True)"
  by (auto simp: evaluate_cel_allow_if_def split: option.splits sum.splits bool.splits)

lemma compile_opt_holds:
  "compile_opt x source path = Inr cel \<Longrightarrow>
     (case cel of None \<Rightarrow> True | Some c \<Rightarrow> evaluate_on x c ctx r = Inr True) \<longleftrightarrow>
     (case source of None \<Rightarrow> True | Some src \<Rightarrow> expression_holds x src ctx r)"
  by (auto simp: compile_opt_def evaluate_on_True split: option.splits sum.splits)

definition compiled_passes :: "'p policy_ext \<Rightarrow> 'p tool_rule_policy \<Rightarrow> tool_policy_context \<Rightarrow> policy_route \<Rightarrow> bool" where
  "compiled_passes x rule ctx r \<longleftrightarrow>
     trp_minimum_trust rule \<le> tpc_trust_level ctx \<and> missing_scopes rule ctx = [] \<and>
     eval_rule_cel x rule ctx r = None"

lemma rule_compile_passes:
  "rule_compile x rule path = Inr pol \<Longrightarrow> compiled_passes x pol ctx r \<longleftrightarrow> rule_passes x rule ctx r"
  by (auto simp: rule_compile_def compiled_passes_def rule_passes_def eval_rule_cel_None missing_scopes_def
      compile_opt_holds filter_empty_conv split: sum.splits)

lemma rule_compile_fields:
  "rule_compile x rule path = Inr pol \<Longrightarrow>
     trp_tool_name pol = ttr_tool_name rule \<and> trp_surface pol = ttr_surface rule \<and>
     trp_minimum_trust pol = ttr_minimum_trust rule \<and> trp_required_scopes pol = ttr_required_scopes rule"
  by (auto simp: rule_compile_def split: sum.splits)

lemma rule_compile_fails: "rule_compile x rule path = Inl e \<Longrightarrow> \<not> rule_passes x rule ctx r"
  by (auto simp: rule_compile_def compile_opt_def cel_policy_compile_def rule_passes_def expression_holds_def
      split: sum.splits option.splits)

subsection \<open>The rules filed under a name\<close>

definition filed :: "(string \<rightharpoonup> 'p tool_rule_policy list) \<Rightarrow> string \<Rightarrow> 'p tool_rule_policy list" where
  "filed per_tool name = (case per_tool name of None \<Rightarrow> [] | Some rs \<Rightarrow> rs)"

lemma filed_empty [simp]: "filed Map.empty name = []"
  by (simp add: filed_def)

lemma filed_push:
  "filed (push_rule pol per_tool) name =
     filed per_tool name @ (if trp_tool_name pol = name then [pol] else [])"
  by (auto simp: filed_def push_rule_def)

lemma collect_rules_filed:
  assumes "collect_rules x rules per_tool = Inr per_tool'"
  shows "set (filed per_tool' name) =
    set (filed per_tool name) \<union>
    {pol. \<exists>rule \<in> set rules. ttr_tool_name rule = name \<and> rule_from_rule x rule = Inr pol}"
  using assms
proof (induction rules arbitrary: per_tool)
  case (Cons rule rules)
  then obtain pol where pol: "rule_from_rule x rule = Inr pol"
    and rest: "collect_rules x rules (push_rule pol per_tool) = Inr per_tool'"
    by (auto split: sum.splits)
  have "trp_tool_name pol = ttr_tool_name rule"
    using pol rule_compile_fields by (auto simp: rule_from_rule_def)
  with Cons.IH [OF rest] pol show ?case
    by (auto simp: filed_push)
qed simp

lemma collect_rules_compile:
  "collect_rules x rules per_tool = Inr per_tool' \<Longrightarrow> rule \<in> set rules \<Longrightarrow> \<exists>pol. rule_from_rule x rule = Inr pol"
  by (induction rules arbitrary: per_tool) (auto split: sum.splits)

lemma set_named_rules:
  "set (named_rules pol ctx r) =
     {rule. governs r rule \<and>
        (rule \<in> set (filed (tap_per_tool_rules pol) (tpc_tool_name ctx)) \<or>
         (\<exists>l. pr_listed_as r = Some l \<and> rule \<in> set (filed (tap_per_tool_rules pol) l)))}"
proof (cases "pr_listed_as r")
  case None
  then show ?thesis by (auto simp: named_rules_def filed_def Let_def)
next
  case (Some l)
  then show ?thesis by (cases "l = tpc_tool_name ctx") (auto simp: named_rules_def filed_def Let_def)
qed

lemma from_configD:
  assumes "from_config x cfg = Inr pol"
  shows "collect_rules x (tac_rules cfg) Map.empty = Inr (tap_per_tool_rules pol)"
    and "compile_opt x (tac_cel_allow_if cfg) ''policy.tool_access.cel_allow_if'' = Inr (tap_cel_allow_if pol)"
    and "tap_default_minimum_trust pol = tac_default_minimum_trust cfg"
  using assms by (auto simp: from_config_def split: sum.splits)

lemma governs_iff:
  "rule_from_rule x rule = Inr c \<Longrightarrow>
     governs r c \<longleftrightarrow> ttr_surface rule = None \<or> pr_surface r = None \<or> ttr_surface rule = pr_surface r"
  by (auto simp: governs_def rule_from_rule_def dest!: rule_compile_fields split: option.splits)

lemma named_rules_config:
  assumes "from_config x cfg = Inr pol"
  shows "set (named_rules pol ctx r) =
    {c. \<exists>rule \<in> set (tac_rules cfg). applies rule ctx r \<and> rule_from_rule x rule = Inr c}"
  using collect_rules_filed [OF from_configD(1) [OF assms]]
  by (auto simp: set_named_rules applies_def governs_iff)

lemma all_named_pass:
  assumes "from_config x cfg = Inr pol"
  shows "(\<forall>c \<in> set (named_rules pol ctx r). compiled_passes x c ctx r) \<longleftrightarrow>
    (\<forall>rule \<in> set (tac_rules cfg). applies rule ctx r \<longrightarrow> rule_passes x rule ctx r)"
proof -
  have "compiled_passes x c ctx r \<longleftrightarrow> rule_passes x rule ctx r" if "rule_from_rule x rule = Inr c" for rule c
    using that by (simp add: rule_from_rule_def rule_compile_passes)
  then show ?thesis
    using collect_rules_compile [OF from_configD(1) [OF assms]]
    by (simp add: named_rules_config [OF assms]) metis
qed

lemma named_rules_empty:
  assumes "from_config x cfg = Inr pol"
  shows "named_rules pol ctx r = [] \<longleftrightarrow> (\<forall>rule \<in> set (tac_rules cfg). \<not> applies rule ctx r)"
proof -
  have "named_rules pol ctx r = [] \<longleftrightarrow>
      {c. \<exists>rule \<in> set (tac_rules cfg). applies rule ctx r \<and> rule_from_rule x rule = Inr c} = {}"
    by (simp flip: named_rules_config [OF assms])
  then show ?thesis
    using collect_rules_compile [OF from_configD(1) [OF assms]] by blast
qed

subsection \<open>The order of the checks\<close>

lemma foldl_max_le: "foldl max m ts \<le> (t::'a::linorder) \<longleftrightarrow> m \<le> t \<and> (\<forall>u \<in> set ts. u \<le> t)"
  by (induction ts arbitrary: m) auto

lemma floor_of_le:
  "floor_of dflt rules \<le> t \<longleftrightarrow>
     (if rules = [] then dflt \<le> t else \<forall>rule \<in> set rules. trp_minimum_trust rule \<le> t)"
  by (cases rules) (auto simp: foldl_max_le)

lemma push_new_props:
  "set (foldl push_new acc ss) = set acc \<union> set ss"
  "distinct acc \<Longrightarrow> distinct (foldl push_new acc ss)"
  by (induction ss arbitrary: acc) (auto simp: push_new_def)

lemma scope_denial_None: "scope_denial rules ctx = None \<longleftrightarrow> (\<forall>rule \<in> set rules. missing_scopes rule ctx = [])"
proof -
  have "foldl push_new [] ss = [] \<longleftrightarrow> ss = []" for ss
    using push_new_props(1) [of "[]" ss] by (metis set_empty sup_bot_left)
  then show ?thesis by (simp add: scope_denial_def Let_def)
qed

lemma first_rule_denial_Allow:
  "first_rule_denial x rules ctx r = Allow \<longleftrightarrow> (\<forall>rule \<in> set rules. eval_rule_cel x rule ctx r = None)"
  by (induction rules) (auto split: option.splits)

lemma evaluate_uncached_Allow:
  "evaluate_uncached x pol ctx fed r = Allow \<longleftrightarrow>
     (\<exists>rules. rules_for pol ctx fed r = Inr rules \<and>
        (rules = [] \<longrightarrow> tap_default_minimum_trust pol \<le> tpc_trust_level ctx) \<and>
        evaluate_cel_allow_if x pol ctx r = None \<and>
        (\<forall>rule \<in> set rules. compiled_passes x rule ctx r))"
proof (cases "rules_for pol ctx fed r")
  case (Inr rules)
  let ?t = "tpc_trust_level ctx"
  have "evaluate_uncached x pol ctx fed r = Allow \<longleftrightarrow>
      floor_of (tap_default_minimum_trust pol) rules \<le> ?t \<and> scope_denial rules ctx = None \<and>
      evaluate_cel_allow_if x pol ctx r = None \<and> first_rule_denial x rules ctx r = Allow"
    using Inr by (auto simp: evaluate_uncached_def Let_def not_less split: option.splits)
  with Inr show ?thesis
    by (cases "rules = []") (auto simp: compiled_passes_def first_rule_denial_Allow scope_denial_None floor_of_le)
qed (simp add: evaluate_uncached_def)

subsection \<open>Published rules are the compiled governance\<close>

lemma republish_lookup:
  assumes "republish x prev gs acc v = (fed, v')" and "fed f = Some p"
  shows "acc f = Some p \<or> (\<exists>g \<in> set gs. \<exists>w. v \<le> w \<and> fg_federation g = f \<and> p = fst (publish_one x prev w g))"
  using assms
proof (induction gs arbitrary: acc v)
  case (Cons g gs)
  obtain q w where q: "publish_one x prev v g = (q, w)" by (cases "publish_one x prev v g")
  then have "v \<le> w" by (auto simp: publish_one_def Let_def split: option.splits if_splits)
  have "republish x prev gs (acc(fg_federation g \<mapsto> q)) w = (fed, v')"
    using Cons.prems(1) q by simp
  from Cons.IH [OF this Cons.prems(2)] have rest: "(acc(fg_federation g \<mapsto> q)) f = Some p \<or>
      (\<exists>g \<in> set gs. \<exists>w'. w \<le> w' \<and> fg_federation g = f \<and> p = fst (publish_one x prev w' g))"
    .
  show ?case
  proof (cases "fg_federation g = f \<and> p = q")
    case True
    with q show ?thesis by (intro disjI2 bexI [of _ g] exI [of _ v]) simp_all
  next
    case False
    with rest have "acc f = Some p \<or>
        (\<exists>g \<in> set gs. \<exists>w'. w \<le> w' \<and> fg_federation g = f \<and> p = fst (publish_one x prev w' g))"
      by (auto split: if_splits)
    then show ?thesis
    proof (elim disjE bexE exE conjE)
      fix g' w' assume "g' \<in> set gs" "w \<le> w'" "fg_federation g' = f" "p = fst (publish_one x prev w' g')"
      with \<open>v \<le> w\<close> show ?thesis by (intro disjI2 bexI [of _ g'] exI [of _ w']) simp_all
    qed simp
  qed
qed simp

definition compiled_rule :: "'p policy_ext \<Rightarrow> string \<Rightarrow> 'p published_rule \<Rightarrow> bool" where
  "compiled_rule x f p \<longleftrightarrow>
     fg_federation (pub_governance p) = f \<and> pub_rule p = federated_compile x (pub_governance p) \<and>
     0 < pub_version p"

lemma publish_one_compiled:
  assumes "\<forall>f p. prev f = Some p \<longrightarrow> compiled_rule x f p"
  shows "compiled_rule x (fg_federation g) (fst (publish_one x prev w g))"
  using assms by (auto simp: publish_one_def compiled_rule_def Let_def split: option.splits)

lemma published_compiled:
  assumes "published_set x fed"
  shows "\<forall>f p. fed f = Some p \<longrightarrow> compiled_rule x f p"
  using assms
proof (induction rule: published_set.induct)
  case (publication prev gs v fed v')
  show ?case
  proof (intro allI impI)
    fix f p assume "fed f = Some p"
    then obtain g w where "fg_federation g = f" "p = fst (publish_one x prev w g)"
      using republish_lookup [of x prev gs Map.empty v fed v' f p] publication.hyps(2)
      by (auto simp: republished_def)
    with publish_one_compiled [OF publication.IH] show "compiled_rule x f p" by blast
  qed
qed simp

lemma federated_compile_passes:
  "(\<exists>rule. federated_compile x g = Governed rule \<and> compiled_passes x rule ctx r) \<longleftrightarrow>
     rule_passes x (governance_rule g) ctx r"
proof -
  define path where "path = ''mcp.federations['' @ fg_federation g @ ''].governance.allow_if''"
  note def = federated_compile_def [of x g, folded path_def]
  show ?thesis
  proof (cases "rule_compile x (governance_rule g) path")
    case (Inl e)
    then show ?thesis by (simp add: def rule_compile_fails [OF Inl])
  next
    case (Inr rule)
    then show ?thesis by (simp add: def rule_compile_passes [OF Inr])
  qed
qed

lemma federated_rule_passes:
  assumes "published_set x fed"
  shows "(\<exists>rule. federated_rule_of fed f = Some (Governed rule) \<and> compiled_passes x rule ctx r) \<longleftrightarrow>
    (\<exists>p. fed f = Some p \<and> rule_passes x (governance_rule (pub_governance p)) ctx r)"
proof (cases "fed f")
  case (Some p)
  then have "pub_rule p = federated_compile x (pub_governance p)"
    using published_compiled [OF assms] by (simp add: compiled_rule_def)
  with Some show ?thesis
    by (simp add: federated_rule_of_def flip: federated_compile_passes)
qed (simp add: federated_rule_of_def)

lemma global_expression:
  assumes "from_config x cfg = Inr pol"
  shows "evaluate_cel_allow_if x pol ctx r = None \<longleftrightarrow>
    (case tac_cel_allow_if cfg of None \<Rightarrow> True | Some src \<Rightarrow> expression_holds x src ctx r)"
  using compile_opt_holds [OF from_configD(2) [OF assms]] by (simp add: evaluate_cel_allow_if_None)

lemma allow_via_rules:
  assumes "from_config x cfg = Inr pol" "published_set x fed"
  shows "evaluate_uncached x pol ctx fed r = Allow \<longleftrightarrow>
    (\<forall>rule \<in> set (tac_rules cfg). applies rule ctx r \<longrightarrow> rule_passes x rule ctx r) \<and>
    (case tac_cel_allow_if cfg of None \<Rightarrow> True | Some src \<Rightarrow> expression_holds x src ctx r) \<and>
    (case pr_federation r of
       None \<Rightarrow> (\<exists>rule \<in> set (tac_rules cfg). applies rule ctx r) \<or>
         tac_default_minimum_trust cfg \<le> tpc_trust_level ctx
     | Some f \<Rightarrow> \<exists>p. fed f = Some p \<and> rule_passes x (governance_rule (pub_governance p)) ctx r)"
proof -
  note named = all_named_pass [OF assms(1), of ctx r] and global = global_expression [OF assms(1), of ctx r]
  show ?thesis
  proof (cases "pr_federation r")
    case None
    then show ?thesis
      unfolding evaluate_uncached_Allow global named [symmetric]
      using named_rules_empty [OF assms(1), of ctx r] from_configD(3) [OF assms(1)]
      by (auto simp: rules_for_def)
  next
    case (Some f)
    have "(\<exists>rules. rules_for pol ctx fed r = Inr rules \<and>
          (rules = [] \<longrightarrow> tap_default_minimum_trust pol \<le> tpc_trust_level ctx) \<and>
          evaluate_cel_allow_if x pol ctx r = None \<and> (\<forall>rule \<in> set rules. compiled_passes x rule ctx r)) \<longleftrightarrow>
        evaluate_cel_allow_if x pol ctx r = None \<and> (\<forall>c \<in> set (named_rules pol ctx r). compiled_passes x c ctx r) \<and>
        (\<exists>rule. federated_rule_of fed f = Some (Governed rule) \<and> compiled_passes x rule ctx r)"
      using Some by (auto simp: rules_for_def split: option.splits federated_rule.splits)
    with Some show ?thesis
      unfolding evaluate_uncached_Allow federated_rule_passes [OF assms(2)] named global by auto
  qed
qed

section \<open>What is denied for missing scopes\<close>

lemma first_rule_denial_plain:
  "first_rule_denial x rules ctx r = Deny d \<Longrightarrow> pd_insufficient_scope d = None"
  by (induction rules) (auto simp: eval_rule_cel_def split: option.splits sum.splits if_splits bool.splits)

lemma refusal_plain: "rules_for pol ctx fed r = Inl d \<Longrightarrow> pd_insufficient_scope d = None"
  by (auto simp: rules_for_def refused_def split: option.splits federated_rule.splits)

lemma step_up_iff:
  "(evaluate_uncached x pol ctx fed r = Deny d \<and> pd_insufficient_scope d = Some missing) \<longleftrightarrow>
     (\<exists>rules. rules_for pol ctx fed r = Inr rules \<and>
        floor_of (tap_default_minimum_trust pol) rules \<le> tpc_trust_level ctx \<and>
        scope_denial rules ctx = Some d \<and> pd_insufficient_scope d = Some missing)"
proof (cases "rules_for pol ctx fed r")
  case (Inl denial)
  then show ?thesis using refusal_plain [OF Inl] by (auto simp: evaluate_uncached_def)
next
  case (Inr rules)
  have "pd_insufficient_scope (trust_denial ctx m) = None" for m by (simp add: trust_denial_def)
  moreover have "evaluate_cel_allow_if x pol ctx r = Some d \<Longrightarrow> pd_insufficient_scope d = None"
    by (auto simp: evaluate_cel_allow_if_def split: option.splits sum.splits if_splits bool.splits)
  ultimately show ?thesis
    using Inr first_rule_denial_plain [of x rules ctx r d]
    by (auto simp: evaluate_uncached_def Let_def not_less split: option.splits)
qed

text \<open>The scopes a request is held to: those of its rules and those of its federation.\<close>

definition demanded_scopes ::
  "tool_access_policy_config \<Rightarrow> 'p federated_tool_policies \<Rightarrow> tool_policy_context \<Rightarrow> policy_route \<Rightarrow> string set" where
  "demanded_scopes cfg fed ctx r =
     (\<Union>rule \<in> {rule \<in> set (tac_rules cfg). applies rule ctx r}. set (ttr_required_scopes rule)) \<union>
     (case pr_federation r of
        None \<Rightarrow> {}
      | Some f \<Rightarrow> (case fed f of None \<Rightarrow> {} | Some p \<Rightarrow> set (fg_required_scopes (pub_governance p))))"

lemma named_scopes:
  assumes "from_config x cfg = Inr pol"
  shows "(\<Union>c \<in> set (named_rules pol ctx r). set (trp_required_scopes c)) =
    (\<Union>rule \<in> {rule \<in> set (tac_rules cfg). applies rule ctx r}. set (ttr_required_scopes rule))"
proof -
  have same: "trp_required_scopes c = ttr_required_scopes rule" if "rule_from_rule x rule = Inr c" for c rule
    using that rule_compile_fields by (auto simp: rule_from_rule_def)
  show ?thesis
    unfolding named_rules_config [OF assms]
    using collect_rules_compile [OF from_configD(1) [OF assms]] same by fastforce
qed

lemma federated_compile_scopes:
  "federated_compile x g = Governed c \<Longrightarrow> trp_required_scopes c = fg_required_scopes g"
  by (auto simp: federated_compile_def governance_rule_def split: sum.splits dest!: rule_compile_fields)

lemma rules_demand:
  assumes "from_config x cfg = Inr pol" "published_set x fed" "rules_for pol ctx fed r = Inr rules"
  shows "(\<Union>c \<in> set rules. set (trp_required_scopes c)) = demanded_scopes cfg fed ctx r"
proof (cases "pr_federation r")
  case None
  with assms(3) named_scopes [OF assms(1), of ctx r] show ?thesis
    by (simp add: rules_for_def demanded_scopes_def)
next
  case (Some f)
  then obtain p c where p: "fed f = Some p" "pub_rule p = Governed c" "rules = named_rules pol ctx r @ [c]"
    using assms(3) by (auto simp: rules_for_def federated_rule_of_def split: option.splits federated_rule.splits)
  then have "trp_required_scopes c = fg_required_scopes (pub_governance p)"
    using published_compiled [OF assms(2)] federated_compile_scopes [of x "pub_governance p" c]
    by (simp add: compiled_rule_def)
  with Some p named_scopes [OF assms(1), of ctx r] show ?thesis
    by (simp add: demanded_scopes_def sup_commute)
qed

lemma scope_denial_missing:
  assumes "scope_denial rules ctx = Some d" "pd_insufficient_scope d = Some missing"
  shows "distinct missing \<and> missing \<noteq> [] \<and> pd_http_status d = 403 \<and>
    set missing = (\<Union>c \<in> set rules. set (trp_required_scopes c)) - set (tpc_scopes ctx)"
  using assms push_new_props [of "[]" "concat (map (\<lambda>rule. missing_scopes rule ctx) rules)"]
  by (auto simp: scope_denial_def Let_def missing_scopes_def split: if_splits)

lemma rules_for_scopes [simp]: "rules_for pol (ctx\<lparr>tpc_scopes := ss\<rparr>) fed r = rules_for pol ctx fed r"
proof -
  have "named_rules pol (ctx\<lparr>tpc_scopes := ss\<rparr>) r = named_rules pol ctx r"
    by (cases "pr_listed_as r") (simp_all add: named_rules_def)
  then show ?thesis
    by (cases "pr_federation r") (auto simp: rules_for_def split: option.split federated_rule.split)
qed

lemma demanded_scopes_update [simp]:
  "demanded_scopes cfg fed (ctx\<lparr>tpc_scopes := ss\<rparr>) r = demanded_scopes cfg fed ctx r"
  by (simp add: demanded_scopes_def applies_def)

section \<open>The decisions\<close>

text \<open>A small interpreter for concrete runs: \<open>verified\<close> asks for a verified caller, \<open>yes\<close> for nothing.\<close>

definition tiny_cel :: "string policy_ext" where
  "tiny_cel =
     \<lparr>px_compile = (\<lambda>src. if src = ''verified'' \<or> src = ''yes'' then Inr src else Inl ''syntax''),
      px_execute = (\<lambda>prog env. Inr (CelBool (prog = ''yes'' \<or> map_of env ''trust_level'' = Some (CelString ''verified'')))),
      px_json_to_cel = (\<lambda>_. CelNull),
      px_debug = (\<lambda>_. ''value''),
      px_details = (\<lambda>_. None),
      px_hash = (\<lambda>(provider, _). if provider = None then 0 else 1),
      px_digest = (\<lambda>_. ''00'')\<rparr>"

definition tiny_config :: tool_access_policy_config where
  "tiny_config =
     \<lparr>tac_default_minimum_trust = HeaderAsserted, tac_cel_allow_if = Some ''yes'',
      tac_rules = [\<lparr>ttr_tool_name = ''pay'', ttr_minimum_trust = VerifiedTrust, ttr_cel_allow_if = Some ''verified'',
                    ttr_required_scopes = [''pay:write''], ttr_surface = Some Tool\<rparr>]\<rparr>"

definition tiny_governance :: federation_governance where
  "tiny_governance =
     \<lparr>fg_federation = ''bank'', fg_minimum_trust = HeaderAsserted, fg_cel_allow_if = None,
      fg_required_scopes = [''bank'']\<rparr>"

definition tiny_context :: "string list \<Rightarrow> tool_policy_context" where
  "tiny_context ss = from_request_context (Verified ''ann'' ''iss'' ''idp'' ''header'' [] [] ss []) ''pay''"

definition tiny_route :: policy_route where
  "tiny_route = for_tool (FederatedTool ''bank'' ''pay'')"

lemmas tiny_defs = tiny_cel_def tiny_config_def tiny_governance_def tiny_context_def tiny_route_def
  from_request_context_def for_tool_def on_surface_def served_by_def

lemma tiny_published: "published_set tiny_cel (fst (from_federations tiny_cel [tiny_governance] 0))"
  using published_set.publication [OF published_set.no_federation]
  by (metis from_federations_def surjective_pairing)

lemma tiny_from_config: "from_config tiny_cel tiny_config = Inr (projr (from_config tiny_cel tiny_config))"
  by (simp add: tiny_defs from_config_def rule_from_rule_def rule_compile_def compile_opt_def cel_policy_compile_def)

lemma tiny_federation:
  "fst (from_federations tiny_cel [tiny_governance] 0) =
     [''bank'' \<mapsto> \<lparr>pub_governance = tiny_governance, pub_rule = federated_compile tiny_cel tiny_governance, pub_version = 1\<rparr>]"
  by (simp add: from_federations_def republished_def publish_one_def tiny_governance_def)

lemma tiny_rule_passes:
  "rule_passes tiny_cel (governance_rule tiny_governance) (tiny_context [''pay:write'', ''bank'']) tiny_route"
  "rule \<in> set (tac_rules tiny_config) \<Longrightarrow> rule_passes tiny_cel rule (tiny_context [''pay:write'', ''bank'']) tiny_route"
  "expression_holds tiny_cel ''yes'' (tiny_context [''pay:write'', ''bank'']) tiny_route"
  by (simp_all add: tiny_defs rule_passes_def expression_holds_def cel_variables_def trust_level_name_def
      governance_rule_def trust_order)

lemma tiny_rhs:
  "pr_federation tiny_route = Some ''bank''"
  "tac_cel_allow_if tiny_config = Some ''yes''"
  by (simp_all add: tiny_defs)

text \<open>
  C14. The gate allows a call exactly when the configuration and the governance allow it: every
  configured rule whose name is the called name (or the name the route lists it as) and whose surface fits
  is passed, meaning its trust floor, all its scopes and its expression; the global expression holds;
  and a call routed to a federation passes the governance that federation published, while a call the gateway
  serves itself reaches the default floor when no rule names it.  A federation that published nothing or
  whose expression does not compile is refused.
\<close>

theorem policy_allows_iff:
  assumes "from_config x cfg = Inr pol" "published_set x fed"
  shows "evaluate_uncached x pol ctx fed r = Allow \<longleftrightarrow>
    (\<forall>rule \<in> set (tac_rules cfg). applies rule ctx r \<longrightarrow> rule_passes x rule ctx r) \<and>
    (case tac_cel_allow_if cfg of None \<Rightarrow> True | Some src \<Rightarrow> expression_holds x src ctx r) \<and>
    (case pr_federation r of
       None \<Rightarrow> (\<exists>rule \<in> set (tac_rules cfg). applies rule ctx r) \<or>
         tac_default_minimum_trust cfg \<le> tpc_trust_level ctx
     | Some f \<Rightarrow> \<exists>p. fed f = Some p \<and> rule_passes x (governance_rule (pub_governance p)) ctx r)"
  by (rule allow_via_rules [OF assms])

theorem policy_allows_iff_witness:
  "evaluate_uncached tiny_cel (projr (from_config tiny_cel tiny_config)) (tiny_context [''pay:write'', ''bank''])
     (fst (from_federations tiny_cel [tiny_governance] 0)) tiny_route = Allow"
  unfolding policy_allows_iff [OF tiny_from_config tiny_published]
  by (simp add: tiny_federation tiny_rhs tiny_rule_passes)

text \<open>
  C28. On a route to a federation the operator's own rules can only tighten the federation's governance:
  whatever is allowed under a configuration is allowed when rules are taken out of it, and an
  allowed caller always reaches the federation's trust floor and holds the federation's scopes.
\<close>

theorem native_rules_only_tighten:
  assumes "from_config x cfg = Inr pol" "from_config x (cfg\<lparr>tac_rules := fewer\<rparr>) = Inr pol'"
    and "set fewer \<subseteq> set (tac_rules cfg)" "published_set x fed" "pr_federation r = Some f"
    and "evaluate_uncached x pol ctx fed r = Allow"
  shows "evaluate_uncached x pol' ctx fed r = Allow \<and>
    (\<exists>p. fed f = Some p \<and> fg_federation (pub_governance p) = f \<and>
       fg_minimum_trust (pub_governance p) \<le> tpc_trust_level ctx \<and>
       set (fg_required_scopes (pub_governance p)) \<subseteq> set (tpc_scopes ctx))"
proof -
  note all = allow_via_rules [OF assms(1,4), of ctx r] and less = allow_via_rules [OF assms(2,4), of ctx r]
  from all assms(5,6) obtain p where p: "fed f = Some p" "rule_passes x (governance_rule (pub_governance p)) ctx r"
    by auto
  then have "fg_federation (pub_governance p) = f"
    using published_compiled [OF assms(4)] by (simp add: compiled_rule_def)
  with p have "\<exists>p. fed f = Some p \<and> fg_federation (pub_governance p) = f \<and>
      fg_minimum_trust (pub_governance p) \<le> tpc_trust_level ctx \<and>
      set (fg_required_scopes (pub_governance p)) \<subseteq> set (tpc_scopes ctx)"
    by (auto simp: rule_passes_def governance_rule_def)
  moreover have "evaluate_uncached x pol' ctx fed r = Allow"
    using all less assms(3,5,6) by auto
  ultimately show ?thesis by simp
qed

theorem native_rules_only_tighten_witness:
  "evaluate_uncached tiny_cel (projr (from_config tiny_cel (tiny_config\<lparr>tac_rules := []\<rparr>)))
     (tiny_context [''pay:write'', ''bank'']) (fst (from_federations tiny_cel [tiny_governance] 0)) tiny_route = Allow"
proof -
  let ?fed = "fst (from_federations tiny_cel [tiny_governance] 0)"
  let ?ctx = "tiny_context [''pay:write'', ''bank'']"
  have fewer: "from_config tiny_cel (tiny_config\<lparr>tac_rules := []\<rparr>) =
      Inr (projr (from_config tiny_cel (tiny_config\<lparr>tac_rules := []\<rparr>)))"
    by (simp add: tiny_defs from_config_def compile_opt_def cel_policy_compile_def)
  have "evaluate_uncached tiny_cel (projr (from_config tiny_cel tiny_config)) ?ctx ?fed tiny_route = Allow"
    unfolding allow_via_rules [OF tiny_from_config tiny_published]
    by (simp add: tiny_federation tiny_rhs tiny_rule_passes)
  then show ?thesis
    using native_rules_only_tighten [OF tiny_from_config fewer _ tiny_published, of tiny_route "''bank''" ?ctx]
    by (simp add: tiny_rhs)
qed

text \<open>
  A denial that asks for more scopes names exactly the scopes the request is held to and the caller
  lacks, each once, with status 403; and a caller that comes back with these scopes added is not asked
  for scopes again.
\<close>

theorem step_up_names_what_is_missing:
  assumes "from_config x cfg = Inr pol" "published_set x fed"
    and "evaluate_uncached x pol ctx fed r = Deny d" "pd_insufficient_scope d = Some missing"
  shows "distinct missing \<and> missing \<noteq> [] \<and> pd_http_status d = 403 \<and>
    set missing = demanded_scopes cfg fed ctx r - set (tpc_scopes ctx) \<and>
    (\<forall>d'. evaluate_uncached x pol (ctx\<lparr>tpc_scopes := tpc_scopes ctx @ missing\<rparr>) fed r = Deny d' \<longrightarrow>
       pd_insufficient_scope d' = None)"
proof -
  from assms(3,4) step_up_iff obtain rules where rules: "rules_for pol ctx fed r = Inr rules"
    and denial: "scope_denial rules ctx = Some d" by blast
  note missing = scope_denial_missing [OF denial assms(4)] and demand = rules_demand [OF assms(1,2) rules]
  let ?ctx = "ctx\<lparr>tpc_scopes := tpc_scopes ctx @ missing\<rparr>"
  have "pd_insufficient_scope d' = None" if again: "evaluate_uncached x pol ?ctx fed r = Deny d'" for d'
  proof (rule ccontr)
    assume "pd_insufficient_scope d' \<noteq> None"
    then obtain more where more: "pd_insufficient_scope d' = Some more" by blast
    with again step_up_iff [of x pol ?ctx fed r d' more] rules
    have "scope_denial rules ?ctx = Some d'" by auto
    from scope_denial_missing [OF this more] missing have "set more = {}" "more \<noteq> []" by auto
    then show False by simp
  qed
  with missing demand show ?thesis by simp
qed

theorem step_up_names_what_is_missing_witness:
  "set [''pay:write''] = demanded_scopes tiny_config (fst (from_federations tiny_cel [tiny_governance] 0))
      (tiny_context [''bank'']) tiny_route - set (tpc_scopes (tiny_context [''bank'']))"
proof -
  let ?pol = "projr (from_config tiny_cel tiny_config)" and ?fed = "fst (from_federations tiny_cel [tiny_governance] 0)"
  obtain d where d: "evaluate_uncached tiny_cel ?pol (tiny_context [''bank'']) ?fed tiny_route = Deny d"
    "pd_insufficient_scope d = Some [''pay:write'']"
    by (simp add: tiny_federation evaluate_uncached_def rules_for_def federated_rule_of_def tiny_rhs)
      (simp add: tiny_defs from_config_def rule_from_rule_def rule_compile_def compile_opt_def cel_policy_compile_def
        named_rules_def push_rule_def governs_def federated_compile_def governance_rule_def scope_denial_def
        missing_scopes_def push_new_def trust_order)
  from step_up_names_what_is_missing [OF tiny_from_config tiny_published d] show ?thesis
    by simp
qed

end
