(* ===== verification/Policy_Cache_Properties.thy ===== *)
theory Policy_Cache_Properties
  imports Policy_Properties
begin

text \<open>
  The decision cache of the policy gate: its keys can be read back from their ends, a version number never
  stands for two rules, and therefore a cached decision is the decision the gate would make anew.
\<close>

section \<open>Reading a key from its ends\<close>

lemma sep_first:
  fixes c :: char
  assumes "s @ c # A = t @ c # B" "c \<notin> set s" "c \<notin> set t"
  shows "s = t \<and> A = B"
proof -
  have "Some (s, A) = split_once c (t @ c # B)"
    unfolding assms(1) [symmetric] by (rule split_once_append [OF assms(2), symmetric])
  also have "\<dots> = Some (t, B)" by (rule split_once_append [OF assms(3)])
  finally show ?thesis by simp
qed

lemma sep_last:
  fixes c :: char
  assumes "A @ c # s = B @ c # t" "c \<notin> set s" "c \<notin> set t"
  shows "A = B \<and> s = t"
proof -
  from assms(1) have "rev s @ c # rev A = rev t @ c # rev B"
    by (metis append_Cons append_Nil append_assoc rev.simps(2) rev_append)
  with assms(2,3) have "rev s = rev t \<and> rev A = rev B"
    using sep_first [of "rev s" c "rev A" "rev t" "rev B"] by simp
  then show ?thesis by simp
qed

subsection \<open>Hexadecimal digits\<close>

definition hex_val :: "char \<Rightarrow> nat" where
  "hex_val ch = (if of_char ch < (58::nat) then of_char ch - 48 else of_char ch - 87)"

definition hex_value :: "string \<Rightarrow> nat" where
  "hex_value ds = foldl (\<lambda>n ch. n * 16 + hex_val ch) 0 ds"

lemma hex_val_digit [simp]: "d < 16 \<Longrightarrow> hex_val (hex_digit d) = d"
  by (auto simp: hex_val_def hex_digit_def)

lemma hex_digit_range: "d < 16 \<Longrightarrow> of_char (hex_digit d) \<in> {48..57} \<union> {97..102::nat}"
  by (auto simp: hex_digit_def)

lemma hex_value_snoc: "hex_value (ds @ [ch]) = hex_value ds * 16 + hex_val ch"
  by (simp add: hex_value_def)

lemma hex_value_show: "hex_value (show_hex n) = n"
proof (induction n rule: show_hex.induct)
  case (1 n)
  show ?case
  proof (cases "n < 16")
    case True
    then show ?thesis by (simp add: show_hex.simps [of n] hex_value_def)
  next
    case False
    with 1 show ?thesis by (simp add: show_hex.simps [of n] hex_value_snoc)
  qed
qed

lemma show_hex_chars: "ch \<in> set (show_hex n) \<Longrightarrow> of_char ch \<in> {48..57} \<union> {97..102::nat}"
proof (induction n rule: show_hex.induct)
  case (1 n)
  show ?case
  proof (cases "n < 16")
    case True
    with 1(2) show ?thesis using hex_digit_range [of n] by (simp add: show_hex.simps [of n])
  next
    case False
    with 1 show ?thesis using hex_digit_range [of "n mod 16"] by (auto simp: show_hex.simps [of n])
  qed
qed

lemma hex_value_zeros: "hex_value (replicate k (CHR ''0'') @ ds) = hex_value ds"
  by (induction k) (simp_all add: hex_value_def hex_val_def)

lemma hex16_inj: "hex16 g = hex16 h \<Longrightarrow> g = h"
  by (metis hex16_def hex_value_show hex_value_zeros word_unat_eq_iff)

lemma hex16_chars: "ch \<in> set (hex16 h) \<Longrightarrow> of_char ch \<in> {48..57} \<union> {97..102::nat}"
  by (auto simp: hex16_def Let_def dest!: show_hex_chars split: if_splits)

subsection \<open>Quoted strings\<close>

abbreviation escaped :: "string \<Rightarrow> string" where
  "escaped s \<equiv> concat (map debug_char s)"

definition short_escapes :: "(char \<times> char) list" where
  "short_escapes = [(CHR 0x22, CHR 0x22), (CHR 0x5C, CHR 0x5C), (CHR 0x09, CHR ''t''), (CHR 0x0D, CHR ''r''),
     (CHR 0x0A, CHR ''n''), (CHR 0x00, CHR ''0'')]"

lemma debug_char_shape:
  "(debug_char ch = [ch] \<and> ch \<noteq> CHR 0x5C \<and> ch \<noteq> CHR 0x22) \<or>
   (\<exists>e. debug_char ch = [CHR 0x5C, e] \<and> (ch, e) \<in> set short_escapes) \<or>
   debug_char ch = CHR 0x5C # CHR ''u'' # CHR ''{'' # show_hex (of_char ch) @ [CHR ''}'']"
  by (simp add: debug_char_def short_escapes_def)

lemma short_escapes_inj:
  "(a, e) \<in> set short_escapes \<Longrightarrow> (b, e) \<in> set short_escapes \<Longrightarrow> a = b"
  "(a, e) \<in> set short_escapes \<Longrightarrow> e \<noteq> CHR ''u''"
  by (auto simp: short_escapes_def)

lemma long_escape_inj:
  fixes a b :: char
  assumes "show_hex (of_char a) @ CHR ''}'' # xs = show_hex (of_char b) @ CHR ''}'' # ys"
  shows "a = b \<and> xs = ys"
proof -
  have "CHR ''}'' \<notin> set (show_hex n)" for n using show_hex_chars [of "CHR ''}''" n] by auto
  with sep_first [OF assms] have "show_hex (of_char a) = show_hex (of_char b)" "xs = ys" by simp_all
  then show ?thesis by (metis hex_value_show of_char_eq_iff)
qed

lemma debug_char_prefix_free:
  assumes "debug_char a @ xs = debug_char b @ ys"
  shows "a = b \<and> xs = ys"
  using debug_char_shape [of a] debug_char_shape [of b]
proof (elim disjE exE conjE)
  fix e e' assume "debug_char a = [CHR 0x5C, e]" "(a, e) \<in> set short_escapes"
    "debug_char b = [CHR 0x5C, e']" "(b, e') \<in> set short_escapes"
  with assms short_escapes_inj(1) show ?thesis by auto
next
  assume "debug_char a = CHR 0x5C # CHR ''u'' # CHR ''{'' # show_hex (of_char a) @ [CHR ''}'']"
    "debug_char b = CHR 0x5C # CHR ''u'' # CHR ''{'' # show_hex (of_char b) @ [CHR ''}'']"
  with assms show ?thesis by (intro long_escape_inj) simp
qed (use assms short_escapes_inj(2) in auto)

lemma escaped_inj: "escaped s = escaped t \<Longrightarrow> s = t"
proof (induction s arbitrary: t)
  case Nil
  then show ?case by (cases t) (auto simp: debug_char_def split: if_splits)
next
  case (Cons c s)
  then obtain d t' where t: "t = d # t'" by (cases t) (auto simp: debug_char_def split: if_splits)
  with Cons.prems have "debug_char c @ escaped s = debug_char d @ escaped t'" by simp
  from debug_char_prefix_free [OF this] Cons.IH t show ?case by blast
qed

lemma debug_char_quote:
  assumes "debug_char ch = u @ CHR 0x22 # w"
  shows "u = [CHR 0x5C]"
proof -
  have "CHR 0x22 \<notin> set (show_hex n)" for n using show_hex_chars [of "CHR 0x22" n] by auto
  moreover have "CHR 0x22 \<in> set (debug_char ch)" using assms by simp
  ultimately have "ch = CHR 0x22" by (auto simp: debug_char_def split: if_splits)
  with assms show ?thesis by (auto simp: debug_char_def Cons_eq_append_conv)
qed

lemma escaped_quote: "escaped s = u @ CHR 0x22 # w \<Longrightarrow> \<exists>u'. u = u' @ [CHR 0x5C]"
proof (induction s arbitrary: u)
  case (Cons c s)
  then have "debug_char c @ escaped s = u @ CHR 0x22 # w" by simp
  then consider us where "debug_char c = u @ us" "us @ escaped s = CHR 0x22 # w"
    | us where "debug_char c @ us = u" "escaped s = us @ CHR 0x22 # w"
    by (auto simp: append_eq_append_conv2)
  then show ?case
  proof cases
    case (1 us)
    show ?thesis
    proof (cases us)
      case Nil
      with 1 Cons.IH [of "[]"] show ?thesis by simp
    next
      case (Cons q us')
      with 1 show ?thesis using debug_char_quote by auto
    qed
  next
    case (2 us)
    then obtain u' where "us = u' @ [CHR 0x5C]" using Cons.IH by blast
    with 2 show ?thesis by auto
  qed
qed simp

lemma quoted_parse:
  assumes "A @ [CHR 0x28, CHR 0x22] @ escaped s = B @ [CHR 0x28, CHR 0x22] @ escaped t"
  shows "A = B \<and> s = t"
proof -
  have *: "us = []"
    if "[CHR 0x28, CHR 0x22] @ escaped s = us @ [CHR 0x28, CHR 0x22] @ escaped t" for us s t
  proof (rule ccontr)
    assume "us \<noteq> []"
    with that obtain us' where us: "us = CHR 0x28 # us'" by (cases us) auto
    with that have rest: "CHR 0x22 # escaped s = us' @ [CHR 0x28, CHR 0x22] @ escaped t" by simp
    then obtain us'' where "us' = CHR 0x22 # us''" by (cases us') auto
    with rest have "escaped s = (us'' @ [CHR 0x28]) @ CHR 0x22 # escaped t" by simp
    from escaped_quote [OF this] show False by simp
  qed
  from iffD1 [OF append_eq_append_conv2 assms]
  consider us where "A = B @ us" "us @ [CHR 0x28, CHR 0x22] @ escaped s = [CHR 0x28, CHR 0x22] @ escaped t"
    | us where "A @ us = B" "[CHR 0x28, CHR 0x22] @ escaped s = us @ [CHR 0x28, CHR 0x22] @ escaped t"
    by blast
  then show ?thesis
  proof cases
    case (1 us)
    with * [OF 1(2) [symmetric]] show ?thesis by (auto dest: escaped_inj)
  next
    case (2 us)
    with * [OF 2(2)] show ?thesis by (auto dest: escaped_inj)
  qed
qed

subsection \<open>The parts of a key\<close>

lemma bar_opt_str:
  assumes "A @ CHR ''|'' # debug_opt_str l = B @ CHR ''|'' # debug_opt_str m"
  shows "A = B \<and> l = m"
proof (cases l; cases m)
  fix s t assume lm: "l = Some s" "m = Some t"
  with assms have "(A @ ''|Some'') @ [CHR 0x28, CHR 0x22] @ escaped s =
      (B @ ''|Some'') @ [CHR 0x28, CHR 0x22] @ escaped t"
    by (simp add: debug_str_def)
  from quoted_parse [OF this] lm show ?thesis by simp
qed (use assms in \<open>auto simp: debug_str_def append_eq_append_conv2 Cons_eq_append_conv dest!: arg_cong [of _ _ last]\<close>)

lemma bar_depends_on:
  assumes "A @ CHR ''|'' # debug_depends_on d = B @ CHR ''|'' # debug_depends_on e"
  shows "A = B \<and> d = e"
proof (cases d; cases e)
  fix p q assume de: "d = Some p" "e = Some q"
  obtain f v g w where pq: "p = (f, v)" "q = (g, w)" by (cases p; cases q)
  have no_space: "CHR '' '' \<notin> set (show_nat n)" for n using show_nat_digits [of "CHR '' ''" n] by auto
  from assms de pq
  have "(A @ ''|Some('' @ [CHR 0x28, CHR 0x22] @ escaped f @ [CHR 0x22, CHR '','']) @ CHR '' '' # show_nat v =
      (B @ ''|Some('' @ [CHR 0x28, CHR 0x22] @ escaped g @ [CHR 0x22, CHR '','']) @ CHR '' '' # show_nat w"
    by (simp add: debug_str_def)
  from sep_last [OF this no_space no_space]
  have "(A @ ''|Some('') @ [CHR 0x28, CHR 0x22] @ escaped f = (B @ ''|Some('') @ [CHR 0x28, CHR 0x22] @ escaped g"
    and "show_nat v = show_nat w" by simp_all
  with quoted_parse show_nat_inj de pq show ?thesis by blast
qed (use assms in \<open>auto simp: debug_str_def append_eq_append_conv2 Cons_eq_append_conv dest!: arg_cong [of _ _ last]\<close>)

lemma debug_surface_props:
  "CHR ''|'' \<notin> set (debug_surface s)" "debug_surface s = debug_surface t \<longleftrightarrow> s = t"
  "debug_surface s \<noteq> ''args:'' @ d" "''args:'' @ d \<noteq> debug_surface s"
  by (cases s rule: debug_surface.cases; cases t rule: debug_surface.cases; simp)+

text \<open>The last segment of a key is the surface, or the digest of the arguments.\<close>

lemma bar_tail:
  assumes "A @ CHR ''|'' # debug_surface s @ (case a of None \<Rightarrow> [] | Some d \<Rightarrow> ''|args:'' @ d) =
      B @ CHR ''|'' # debug_surface t @ (case b of None \<Rightarrow> [] | Some d \<Rightarrow> ''|args:'' @ d)"
    and "\<forall>d. a = Some d \<or> b = Some d \<longrightarrow> CHR ''|'' \<notin> set d"
  shows "A = B \<and> s = t \<and> a = b"
proof -
  have arg: "CHR ''|'' \<notin> set (''args:'' @ d)" if "a = Some d \<or> b = Some d" for d
    using that assms(2) by auto
  show ?thesis
  proof (cases a; cases b)
    assume "a = None" "b = None"
    with assms(1) sep_last [of A _ "debug_surface s" B "debug_surface t"] show ?thesis
      by (simp add: debug_surface_props)
  next
    fix d assume ab: "a = None" "b = Some d"
    with assms(1) have "A @ CHR ''|'' # debug_surface s = (B @ CHR ''|'' # debug_surface t) @ CHR ''|'' # ''args:'' @ d"
      by simp
    from sep_last [OF this debug_surface_props(1) arg] ab show ?thesis by (simp add: debug_surface_props(3) [simplified])
  next
    fix d assume ab: "a = Some d" "b = None"
    with assms(1) have "(A @ CHR ''|'' # debug_surface s) @ CHR ''|'' # ''args:'' @ d = B @ CHR ''|'' # debug_surface t"
      by simp
    from sep_last [OF this arg debug_surface_props(1)] ab show ?thesis by (simp add: debug_surface_props(4) [simplified])
  next
    fix d e assume ab: "a = Some d" "b = Some e"
    with assms(1) have "(A @ CHR ''|'' # debug_surface s) @ CHR ''|'' # ''args:'' @ d =
        (B @ CHR ''|'' # debug_surface t) @ CHR ''|'' # ''args:'' @ e"
      by simp
    from sep_last [OF this arg arg] ab have "A @ CHR ''|'' # debug_surface s = B @ CHR ''|'' # debug_surface t" "d = e"
      by simp_all
    with ab sep_last [of A _ "debug_surface s" B "debug_surface t"] show ?thesis
      by (simp add: debug_surface_props)
  qed
qed

lemma trust_name_props: "CHR '':'' \<notin> set (trust_name t)" "trust_name t = trust_name u \<longleftrightarrow> t = u"
  by (cases t; cases u; simp)+

definition plain_principal :: "tool_policy_context \<Rightarrow> bool" where
  "plain_principal ctx \<longleftrightarrow>
     (case tpc_principal_id ctx of None \<Rightarrow> True | Some p \<Rightarrow> CHR '':'' \<notin> set p \<and> p \<noteq> ''_anon'')"

lemma cache_key_inj:
  assumes "cache_key x c = cache_key x d" "plain_principal c" "plain_principal d"
  shows "tpc_principal_id c = tpc_principal_id d \<and> tpc_tool_name c = tpc_tool_name d \<and>
    tpc_trust_level c = tpc_trust_level d \<and> px_hash x (claims_of c) = px_hash x (claims_of d)"
proof -
  let ?p = "\<lambda>c. case tpc_principal_id c of Some p \<Rightarrow> p | None \<Rightarrow> ''_anon''"
  let ?h = "\<lambda>c. hex16 (px_hash x (claims_of c))"
  have no_colon: "CHR '':'' \<notin> set (hex16 h)" for h using hex16_chars [of "CHR '':''" h] by auto
  from assms(1)
  have "(?p c @ CHR '':'' # tpc_tool_name c @ CHR '':'' # trust_level_name c) @ CHR '':'' # ?h c =
      (?p d @ CHR '':'' # tpc_tool_name d @ CHR '':'' # trust_level_name d) @ CHR '':'' # ?h d"
    by (simp add: cache_key_def)
  from sep_last [OF this no_colon no_colon]
  have h: "?h c = ?h d" and front: "(?p c @ CHR '':'' # tpc_tool_name c) @ CHR '':'' # trust_level_name c =
      (?p d @ CHR '':'' # tpc_tool_name d) @ CHR '':'' # trust_level_name d" by simp_all
  from sep_last [OF front] have t: "trust_level_name c = trust_level_name d"
    and pt: "?p c @ CHR '':'' # tpc_tool_name c = ?p d @ CHR '':'' # tpc_tool_name d"
    by (simp_all add: trust_level_name_def trust_name_props)
  have "CHR '':'' \<notin> set (?p c)" "CHR '':'' \<notin> set (?p d)"
    using assms(2,3) by (auto simp: plain_principal_def split: option.splits)
  from sep_first [OF pt this] have "?p c = ?p d" "tpc_tool_name c = tpc_tool_name d" by simp_all
  with h t assms(2,3) show ?thesis
    by (auto simp: plain_principal_def trust_level_name_def trust_name_props dest: hex16_inj split: option.splits)
qed

lemma decision_key_inj:
  assumes "decision_key x c dep r = decision_key x d dep' q" "plain_principal c" "plain_principal d"
    and "\<forall>a. pr_arguments r = Some a \<or> pr_arguments q = Some a \<longrightarrow> CHR ''|'' \<notin> set (px_digest x a)"
  shows "tpc_principal_id c = tpc_principal_id d \<and> tpc_tool_name c = tpc_tool_name d \<and>
    tpc_trust_level c = tpc_trust_level d \<and> px_hash x (claims_of c) = px_hash x (claims_of d) \<and>
    dep = dep' \<and> pr_listed_as r = pr_listed_as q \<and> pr_surface r = pr_surface q \<and>
    map_option (px_digest x) (pr_arguments r) = map_option (px_digest x) (pr_arguments q)"
proof -
  let ?A = "\<lambda>c dep r. cache_key x c @ CHR ''|'' # debug_depends_on dep @ CHR ''|'' # debug_opt_str (pr_listed_as r)"
  have shape: "decision_key x c dep r = ?A c dep r @ CHR ''|'' # debug_surface (pr_surface r) @
      (case map_option (px_digest x) (pr_arguments r) of None \<Rightarrow> [] | Some d \<Rightarrow> ''|args:'' @ d)" for c dep r
    by (simp add: decision_key_def split: option.split)
  have "?A c dep r = ?A d dep' q \<and> pr_surface r = pr_surface q \<and>
      map_option (px_digest x) (pr_arguments r) = map_option (px_digest x) (pr_arguments q)"
    using assms(1,4) unfolding shape by (intro bar_tail) auto
  moreover from this
  have "(cache_key x c @ CHR ''|'' # debug_depends_on dep) @ CHR ''|'' # debug_opt_str (pr_listed_as r) =
      (cache_key x d @ CHR ''|'' # debug_depends_on dep') @ CHR ''|'' # debug_opt_str (pr_listed_as q)"
    by simp
  moreover note bar_opt_str [OF this]
  moreover from this have "cache_key x c @ CHR ''|'' # debug_depends_on dep =
      cache_key x d @ CHR ''|'' # debug_depends_on dep'" by simp
  moreover note bar_depends_on [OF this]
  ultimately show ?thesis
    using cache_key_inj [of x, OF _ assms(2,3)] by simp
qed

section \<open>A version stands for one rule\<close>

definition version_unique :: "'p federated_tool_policies list \<Rightarrow> nat \<Rightarrow> bool" where
  "version_unique feds v \<longleftrightarrow>
     (\<forall>fed \<in> set feds. \<forall>f p. fed f = Some p \<longrightarrow> 0 < pub_version p \<and> pub_version p \<le> v) \<and>
     (\<forall>fed \<in> set feds. \<forall>fed' \<in> set feds. \<forall>f p p'.
        fed f = Some p \<longrightarrow> fed' f = Some p' \<longrightarrow> pub_version p = pub_version p' \<longrightarrow> p = p')"

lemma publish_one_cases:
  assumes "publish_one x prev w g = (p, w')"
  obtains (kept) "prev (fg_federation g) = Some p" "w' = w"
    | (fresh) "pub_version p = w + 1" "w' = w + 1"
proof (cases "prev (fg_federation g)")
  case None
  with assms have "pub_version p = w + 1" "w' = w + 1" by (auto simp: publish_one_def)
  then show ?thesis by (rule fresh)
next
  case (Some q)
  then show ?thesis
  proof (cases "pub_governance q = g")
    case True
    with assms Some have "p = q" "w' = w" by (auto simp: publish_one_def)
    with Some show ?thesis by (intro kept) simp_all
  next
    case False
    with assms Some have "pub_version p = w + 1" "w' = w + 1" by (auto simp: publish_one_def)
    then show ?thesis by (rule fresh)
  qed
qed

text \<open>What a publication puts in the set: a rule of the previous set, or one with a new version.\<close>

lemma republish_versions:
  assumes "republish x prev gs acc v = (fed, v')"
    and "\<forall>f p. acc f = Some p \<longrightarrow> prev f = Some p \<or> v0 < pub_version p \<and> pub_version p \<le> v" "v0 \<le> v"
  shows "v \<le> v' \<and> (\<forall>f p. fed f = Some p \<longrightarrow> prev f = Some p \<or> v0 < pub_version p \<and> pub_version p \<le> v')"
  using assms
proof (induction gs arbitrary: acc v)
  case (Cons g gs)
  obtain p w where p: "publish_one x prev v g = (p, w)" by (cases "publish_one x prev v g")
  then have "v \<le> w" by (rule publish_one_cases) auto
  have "\<forall>f q. (acc(fg_federation g \<mapsto> p)) f = Some q \<longrightarrow> prev f = Some q \<or> v0 < pub_version q \<and> pub_version q \<le> w"
    using p
  proof (cases rule: publish_one_cases)
    case kept
    with Cons.prems(2) show ?thesis by auto
  next
    case fresh
    with Cons.prems(2,3) \<open>v \<le> w\<close> show ?thesis by (fastforce split: if_splits)
  qed
  moreover have "republish x prev gs (acc(fg_federation g \<mapsto> p)) w = (fed, v')"
    using Cons.prems(1) p by simp
  ultimately have "w \<le> v' \<and> (\<forall>f p. fed f = Some p \<longrightarrow> prev f = Some p \<or> v0 < pub_version p \<and> pub_version p \<le> v')"
    using Cons.prems(3) \<open>v \<le> w\<close> by (intro Cons.IH) (assumption, assumption, simp)
  with \<open>v \<le> w\<close> show ?case by auto
qed simp

lemma version_unique_republished:
  assumes "version_unique (prev # older) v" "republished x prev gs v = (fed, v')"
  shows "version_unique (fed # prev # older) v'"
proof -
  from republish_versions [of x prev gs Map.empty v fed v' v] assms(2)
  have step: "v \<le> v'" "\<And>f p. fed f = Some p \<Longrightarrow> prev f = Some p \<or> v < pub_version p \<and> pub_version p \<le> v'"
    by (auto simp: republished_def)
  have bound: "0 < pub_version p \<and> pub_version p \<le> v" if "fed' \<in> set (prev # older)" "fed' f = Some p" for fed' f p
    using assms(1) that unfolding version_unique_def by blast
  have uniq: "p = p'" if "fd \<in> set (prev # older)" "fd' \<in> set (prev # older)" "fd f = Some p" "fd' f = Some p'"
    "pub_version p = pub_version p'" for fd fd' f p p'
    using assms(1) that unfolding version_unique_def by blast
  have new: "p = p'" if "fed f = Some p" "fd' \<in> set (prev # older)" "fd' f = Some p'" "pub_version p = pub_version p'"
    for fd' f p p'
  proof -
    have "pub_version p \<le> v" using bound [OF that(2,3)] that(4) by simp
    with step(2) [OF that(1)] have "prev f = Some p" by simp
    with uniq [of prev fd'] that show ?thesis by simp
  qed
  show ?thesis
    unfolding version_unique_def
  proof (intro conjI ballI allI impI)
    fix fd f p assume "fd \<in> set (fed # prev # older)" "fd f = Some p"
    then consider "fd \<in> set (prev # older)" | "prev f = Some p" | "v < pub_version p" "pub_version p \<le> v'"
      using step(2) [of f p] by auto
    then have "0 < pub_version p \<and> pub_version p \<le> v'"
      using step(1) bound [of fd f p] bound [of prev f p] \<open>fd f = Some p\<close> by cases simp_all
    then show "0 < pub_version p" and "pub_version p \<le> v'" by simp_all
  next
    fix fd fd' f p p'
    assume "fd \<in> set (fed # prev # older)" "fd' \<in> set (fed # prev # older)" "fd f = Some p" "fd' f = Some p'"
      "pub_version p = pub_version p'"
    then show "p = p'" using new uniq by (metis option.inject set_ConsD)
  qed
qed

lemma same_version_same_rule:
  assumes "version_unique feds v" "fed \<in> set feds" "fed' \<in> set feds"
    and "federated_version fed f = federated_version fed' f"
  shows "fed f = fed' f"
proof -
  have pos: "0 < pub_version p" if "fd \<in> set feds" "fd f = Some p" for fd p
    using assms(1) that unfolding version_unique_def by blast
  show ?thesis
  proof (cases "fed f"; cases "fed' f")
    fix p p' assume pp: "fed f = Some p" "fed' f = Some p'"
    with assms(4) have "pub_version p = pub_version p'" by (simp add: federated_version_def)
    with pp assms(1-3) have "p = p'" unfolding version_unique_def by blast
    with pp show ?thesis by simp
  qed (use assms(2-4) pos [of fed] pos [of fed'] in \<open>auto simp: federated_version_def\<close>)
qed

section \<open>Runs of a gate with a cache\<close>

text \<open>
  \<open>gate_run x gate R feds v entries\<close>: a gate that serves requests of \<open>R\<close> has seen the sets \<open>feds\<close>
  published (the newest first), the process has handed out the versions up to \<open>v\<close>, and the cache holds
  \<open>entries\<close>.  A decision may run under any published set, since it loads the set once and another thread
  may publish meanwhile; a decision whose lookup missed stores its outcome later, whatever happened in
  between (\<open>late_store\<close>); and other gates of the process take versions too.
\<close>

inductive gate_run ::
  "'p policy_ext \<Rightarrow> 'p policy_gate \<Rightarrow> (tool_policy_context \<times> policy_route) set \<Rightarrow>
     'p federated_tool_policies list \<Rightarrow> nat \<Rightarrow> cache_entries \<Rightarrow> bool"
  for x gate R where
  start: "gate_run x gate R [Map.empty] v []"
| publish: "gate_run x gate R (fed # older) v entries \<Longrightarrow> republished x fed gs v = (fed', v') \<Longrightarrow>
    gate_run x gate R (fed' # fed # older) v' entries"
| other_gate: "gate_run x gate R feds v entries \<Longrightarrow> v \<le> v' \<Longrightarrow> gate_run x gate R feds v' entries"
| decide: "gate_run x gate R feds v entries \<Longrightarrow> fed \<in> set feds \<Longrightarrow> (ctx, r) \<in> R \<Longrightarrow>
    evaluate x gate fed ctx r now later entries = (outcome, entries') \<Longrightarrow> gate_run x gate R feds v entries'"
| late_store: "gate_run x gate R feds v entries \<Longrightarrow> fed \<in> set feds \<Longrightarrow> (ctx, r) \<in> R \<Longrightarrow>
    pg_cache gate = Some c \<Longrightarrow>
    gate_run x gate R feds v
      (cache_put c (decision_key x ctx (depends_on fed r) r) (evaluate_uncached x (pg_policy gate) ctx fed r)
         (depends_on fed r) fed now entries)"

lemma gate_run_versions: "gate_run x gate R feds v entries \<Longrightarrow> version_unique feds v"
proof (induction rule: gate_run.induct)
  case (start v)
  then show ?case by (simp add: version_unique_def)
next
  case (publish fed older v entries gs fed' v')
  then show ?case using version_unique_republished by blast
next
  case (other_gate feds v entries v')
  then show ?case unfolding version_unique_def by (meson order.trans)
qed

text \<open>Every entry holds the decision for a request that has its key.\<close>

definition sound_entries ::
  "'p policy_ext \<Rightarrow> 'p tool_access_policy \<Rightarrow> (tool_policy_context \<times> policy_route) set \<Rightarrow>
     'p federated_tool_policies list \<Rightarrow> cache_entries \<Rightarrow> bool" where
  "sound_entries x pol R feds entries \<longleftrightarrow>
     (\<forall>(key, entry) \<in> set entries. \<exists>(ctx, r) \<in> R. \<exists>fed \<in> set feds.
        key = decision_key x ctx (depends_on fed r) r \<and> ce_outcome entry = evaluate_uncached x pol ctx fed r)"

lemma sound_entries_mono:
  "sound_entries x pol R feds entries \<Longrightarrow> set feds \<subseteq> set feds' \<Longrightarrow> sound_entries x pol R feds' entries"
  unfolding sound_entries_def by fast

lemma set_cache_put:
  "set (cache_put c key outcome dep fed now entries) \<subseteq>
     insert (key, \<lparr>ce_outcome = outcome, ce_inserted_at = now, ce_depends_on = dep\<rparr>) (set entries)"
proof -
  let ?e = "\<lparr>ce_outcome = outcome, ce_inserted_at = now, ce_depends_on = dep\<rparr>"
  have upd: "set (AList.update k e es) \<subseteq> insert (k, e) (set es)" for k and e :: cache_entry and es
    by (induction es) auto
  let ?kept = "filter (\<lambda>(_, entry). is_live (pc_ttl c) fed now entry) entries"
  have kept: "set ?kept \<subseteq> insert (key, ?e) (set entries)" by auto
  have plain: "set (AList.update key ?e entries) \<subseteq> insert (key, ?e) (set entries)" by (rule upd)
  have both: "set (AList.update key ?e ?kept) \<subseteq> insert (key, ?e) (set entries)"
    using upd [of key ?e ?kept] kept by blast
  show ?thesis
    unfolding cache_put_def Let_def using kept plain both by (simp split: if_split)
qed

lemma sound_cache_put:
  assumes "sound_entries x pol R feds entries" "fed \<in> set feds" "(ctx, r) \<in> R"
  shows "sound_entries x pol R feds
    (cache_put c (decision_key x ctx (depends_on fed r) r) (evaluate_uncached x pol ctx fed r) dep fed now entries)"
  unfolding sound_entries_def
proof
  fix ke assume "ke \<in> set (cache_put c (decision_key x ctx (depends_on fed r) r)
    (evaluate_uncached x pol ctx fed r) dep fed now entries)"
  then consider "ke \<in> set entries" | "ke = (decision_key x ctx (depends_on fed r) r,
      \<lparr>ce_outcome = evaluate_uncached x pol ctx fed r, ce_inserted_at = now, ce_depends_on = dep\<rparr>)"
    using set_cache_put by fastforce
  then show "case ke of (key, entry) \<Rightarrow> \<exists>(ctx, r) \<in> R. \<exists>fed \<in> set feds.
      key = decision_key x ctx (depends_on fed r) r \<and> ce_outcome entry = evaluate_uncached x pol ctx fed r"
    using assms unfolding sound_entries_def by cases auto
qed

lemma gate_run_sound: "gate_run x gate R feds v entries \<Longrightarrow> sound_entries x (pg_policy gate) R feds entries"
proof (induction rule: gate_run.induct)
  case (start v)
  then show ?case by (simp add: sound_entries_def)
next
  case (publish fed older v entries gs fed' v')
  then show ?case by (intro sound_entries_mono [OF publish.IH]) auto
next
  case (decide feds v entries fed ctx r now later outcome entries')
  then show ?case
    by (auto simp: evaluate_def Let_def split: option.splits intro: sound_cache_put)
next
  case (late_store feds v entries fed ctx r c now)
  then show ?case by (intro sound_cache_put)
qed

text \<open>The bound on the entries, which are kept one for each key.\<close>

definition bounded_entries :: "'p policy_gate \<Rightarrow> cache_entries \<Rightarrow> bool" where
  "bounded_entries gate entries \<longleftrightarrow>
     distinct (map fst entries) \<and>
     (case pg_cache gate of None \<Rightarrow> entries = [] | Some c \<Rightarrow> length entries \<le> pc_max_entries c)"

lemma length_update: "length (AList.update k e es) \<le> Suc (length es)"
  by (induction es) auto

lemma bounded_cache_put:
  assumes "distinct (map fst entries)" "length entries \<le> pc_max_entries c"
  shows "distinct (map fst (cache_put c key outcome dep fed now entries)) \<and>
    length (cache_put c key outcome dep fed now entries) \<le> pc_max_entries c"
proof -
  let ?kept = "filter (\<lambda>(_, entry). is_live (pc_ttl c) fed now entry) entries"
  have "distinct (map fst ?kept)" using assms(1) by (simp add: distinct_map_filter)
  moreover have "length ?kept \<le> pc_max_entries c"
    using length_filter_le [of _ entries] assms(2) order.trans by blast
  moreover have "length (AList.update key e es) \<le> n" if "\<not> n \<le> length es" for e :: cache_entry and es n
    using length_update [of key e es] that by linarith
  ultimately show ?thesis
    using assms(1,2) by (simp add: cache_put_def Let_def distinct_update)
qed

lemma gate_run_bounded: "gate_run x gate R feds v entries \<Longrightarrow> bounded_entries gate entries"
proof (induction rule: gate_run.induct)
  case (decide feds v entries fed ctx r now later outcome entries')
  then show ?case
    using bounded_cache_put by (fastforce simp: evaluate_def bounded_entries_def Let_def split: option.splits)
next
  case (late_store feds v entries fed ctx r c now)
  then show ?case using bounded_cache_put by (fastforce simp: bounded_entries_def)
qed (auto simp: bounded_entries_def split: option.splits)

section \<open>A cached decision is a decision\<close>

text \<open>Two contexts that differ at most in the order of their claims.\<close>

definition reordered :: "tool_policy_context \<Rightarrow> tool_policy_context \<Rightarrow> bool" where
  "reordered c d \<longleftrightarrow>
     tpc_tool_name c = tpc_tool_name d \<and> tpc_trust_level c = tpc_trust_level d \<and>
     tpc_principal_id c = tpc_principal_id d \<and> tpc_auth_provider c = tpc_auth_provider d \<and>
     tpc_identity_kind c = tpc_identity_kind d \<and> tpc_issuer c = tpc_issuer d \<and>
     tpc_attributes c = tpc_attributes d \<and> mset (tpc_roles c) = mset (tpc_roles d) \<and>
     mset (tpc_groups c) = mset (tpc_groups d) \<and> mset (tpc_scopes c) = mset (tpc_scopes d)"

definition order_free :: "'p policy_ext \<Rightarrow> bool" where
  "order_free x \<longleftrightarrow> (\<forall>cel c d r. reordered c d \<longrightarrow> evaluate_on x cel c r = evaluate_on x cel d r)"

definition hashes_apart :: "'p policy_ext \<Rightarrow> (tool_policy_context \<times> policy_route) set \<Rightarrow> bool" where
  "hashes_apart x R \<longleftrightarrow>
     (\<forall>(c, _) \<in> R. \<forall>(d, _) \<in> R. px_hash x (claims_of c) = px_hash x (claims_of d) \<longrightarrow> claims_of c = claims_of d)"

definition digests_apart :: "'p policy_ext \<Rightarrow> (tool_policy_context \<times> policy_route) set \<Rightarrow> bool" where
  "digests_apart x R \<longleftrightarrow>
     (\<forall>(_, r) \<in> R. \<forall>a. pr_arguments r = Some a \<longrightarrow> CHR ''|'' \<notin> set (px_digest x a)) \<and>
     (\<forall>(_, r) \<in> R. \<forall>(_, q) \<in> R. \<forall>a b. pr_arguments r = Some a \<longrightarrow> pr_arguments q = Some b \<longrightarrow>
        px_digest x a = px_digest x b \<longrightarrow> a = b)"

lemma sort_eq_mset: "sort xs = sort ys \<Longrightarrow> mset xs = mset ys"
  by (metis mset_sort)

lemma reorderedI:
  "tpc_principal_id c = tpc_principal_id d \<Longrightarrow> tpc_tool_name c = tpc_tool_name d \<Longrightarrow>
     tpc_trust_level c = tpc_trust_level d \<Longrightarrow> claims_of c = claims_of d \<Longrightarrow> reordered c d"
  by (auto simp: reordered_def claims_of_def dest: sort_eq_mset)

lemma reordered_scopes: "reordered c d \<Longrightarrow> missing_scopes rule c = missing_scopes rule d"
  using mset_eq_setD by (fastforce simp: reordered_def missing_scopes_def)

lemma rules_for_cong:
  assumes "tpc_tool_name c = tpc_tool_name d" "\<forall>f. pr_federation r = Some f \<longrightarrow> fed f = fed' f"
  shows "rules_for pol c fed r = rules_for pol d fed' r"
proof -
  have "named_rules pol c r = named_rules pol d r" unfolding named_rules_def assms(1) ..
  moreover have "pr_federation r = Some f \<Longrightarrow> federated_rule_of fed f = federated_rule_of fed' f" for f
    using assms(2) by (simp add: federated_rule_of_def)
  ultimately show ?thesis
    unfolding rules_for_def assms(1)
    by (cases "pr_federation r") (simp_all cong: option.case_cong federated_rule.case_cong)
qed

lemma first_rule_denial_cong:
  "(\<And>rule. eval_rule_cel x rule c r = eval_rule_cel x rule d r) \<Longrightarrow>
     first_rule_denial x rules c r = first_rule_denial x rules d r"
  by (induction rules) (simp_all split: option.split)

lemma uncached_cong:
  assumes "reordered c d" "order_free x" "\<forall>f. pr_federation r = Some f \<longrightarrow> fed f = fed' f"
  shows "evaluate_uncached x pol c fed r = evaluate_uncached x pol d fed' r"
proof -
  have ev: "evaluate_on x cel c r = evaluate_on x cel d r" for cel
    using assms(1,2) unfolding order_free_def by blast
  have name: "tpc_tool_name c = tpc_tool_name d" "tpc_trust_level c = tpc_trust_level d"
    using assms(1) by (auto simp: reordered_def)
  have sc: "scope_denial rules c = scope_denial rules d" for rules
    unfolding scope_denial_def reordered_scopes [OF assms(1)] name(1) ..
  have "eval_rule_cel x rule c r = eval_rule_cel x rule d r" for rule
    unfolding eval_rule_cel_def ev name(1) ..
  then have fr: "first_rule_denial x rules c r = first_rule_denial x rules d r" for rules
    by (rule first_rule_denial_cong)
  have ce: "evaluate_cel_allow_if x pol c r = evaluate_cel_allow_if x pol d r"
    unfolding evaluate_cel_allow_if_def ev name(1) ..
  have td: "trust_denial c m = trust_denial d m" for m unfolding trust_denial_def name ..
  show ?thesis
    unfolding evaluate_uncached_def rules_for_cong [OF name(1) assms(3)] name(2) sc fr ce td ..
qed

lemma depends_on_eqD:
  assumes "depends_on fed r = depends_on fed' q"
  shows "pr_federation r = pr_federation q"
    and "pr_federation r = Some f \<Longrightarrow> federated_version fed f = federated_version fed' f"
  using assms by (cases "pr_federation r"; cases "pr_federation q"; simp add: depends_on_def)+

lemma same_key_same_decision:
  assumes key: "decision_key x c (depends_on fed r) r = decision_key x d (depends_on fed' q) q"
    and R: "(c, r) \<in> R" "(d, q) \<in> R" and feds: "fed \<in> set feds" "fed' \<in> set feds" "version_unique feds v"
    and plain: "\<forall>(c, _) \<in> R. plain_principal c"
    and apart: "hashes_apart x R" "digests_apart x R" and free: "order_free x"
  shows "evaluate_uncached x pol c fed r = evaluate_uncached x pol d fed' q"
proof -
  have "plain_principal c" "plain_principal d" using plain R by auto
  moreover have "\<forall>a. pr_arguments r = Some a \<or> pr_arguments q = Some a \<longrightarrow> CHR ''|'' \<notin> set (px_digest x a)"
    using apart(2) R unfolding digests_apart_def by auto
  ultimately have parts: "tpc_principal_id c = tpc_principal_id d \<and> tpc_tool_name c = tpc_tool_name d \<and>
      tpc_trust_level c = tpc_trust_level d \<and> px_hash x (claims_of c) = px_hash x (claims_of d) \<and>
      depends_on fed r = depends_on fed' q \<and> pr_listed_as r = pr_listed_as q \<and> pr_surface r = pr_surface q \<and>
      map_option (px_digest x) (pr_arguments r) = map_option (px_digest x) (pr_arguments q)"
    by (rule decision_key_inj [OF key])
  then have "claims_of c = claims_of d" using apart(1) R unfolding hashes_apart_def by blast
  with parts have re: "reordered c d" by (intro reorderedI) simp_all
  have "pr_arguments r = pr_arguments q"
  proof (cases "pr_arguments r"; cases "pr_arguments q")
    fix a b assume ab: "pr_arguments r = Some a" "pr_arguments q = Some b"
    with parts have "px_digest x a = px_digest x b" by simp
    with ab apart(2) R have "a = b" unfolding digests_apart_def by blast
    with ab show ?thesis by simp
  qed (use parts in auto)
  with parts depends_on_eqD [of fed r fed' q] have "r = q" by simp
  moreover have "\<forall>f. pr_federation r = Some f \<longrightarrow> fed f = fed' f"
    using parts depends_on_eqD [of fed r fed' q] same_version_same_rule [OF feds(3,1,2)] by blast
  ultimately show ?thesis using uncached_cong [OF re free] by blast
qed

lemma cache_hit_sound:
  assumes "gate_run x gate R feds v entries" "fed \<in> set feds" "(ctx, r) \<in> R"
    and "\<forall>(c, _) \<in> R. plain_principal c" "hashes_apart x R" "digests_apart x R" "order_free x"
    and "cache_get c (decision_key x ctx (depends_on fed r) r) now entries = Some outcome"
  shows "outcome = evaluate_uncached x (pg_policy gate) ctx fed r"
proof -
  from assms(8) obtain entry where
    "(decision_key x ctx (depends_on fed r) r, entry) \<in> set entries" "ce_outcome entry = outcome"
    by (auto simp: cache_get_def split: option.splits if_splits dest: map_of_SomeD)
  with gate_run_sound [OF assms(1)] obtain d q fed' where "(d, q) \<in> R" "fed' \<in> set feds"
    "decision_key x ctx (depends_on fed r) r = decision_key x d (depends_on fed' q) q"
    "outcome = evaluate_uncached x (pg_policy gate) d fed' q"
    unfolding sound_entries_def by fastforce
  with same_key_same_decision [of x ctx fed r d fed' q R feds v] gate_run_versions [OF assms(1)] assms(2-7)
  show ?thesis by simp
qed

text \<open>Two callers and an event subscription that a small gate serves.\<close>

definition tiny_requests :: "(tool_policy_context \<times> policy_route) set" where
  "tiny_requests = {(tiny_context [''bank''], tiny_route), (from_request_context (Anonymous ''http'') ''event:paid'', event_route None)}"

definition tiny_gate :: "string policy_gate" where
  "tiny_gate = \<lparr>pg_policy = projr (from_config tiny_cel tiny_config), pg_cache = Some (cache_new 60000 2)\<rparr>"

lemma tiny_apart:
  "\<forall>(c, _) \<in> tiny_requests. plain_principal c" "hashes_apart tiny_cel tiny_requests"
  "digests_apart tiny_cel tiny_requests"
  by (simp_all add: tiny_requests_def plain_principal_def hashes_apart_def digests_apart_def claims_of_def
      tiny_defs event_route_def gateway_def)

lemma tiny_order_free: "order_free tiny_cel"
  by (simp add: order_free_def evaluate_on_def tiny_cel_def cel_variables_def trust_level_name_def reordered_def)


lemma tiny_run:
  "gate_run tiny_cel tiny_gate tiny_requests [fst (from_federations tiny_cel [tiny_governance] 0), Map.empty] 1
     (snd (evaluate tiny_cel tiny_gate (fst (from_federations tiny_cel [tiny_governance] 0)) (tiny_context [''bank''])
        tiny_route 0 0 []))"
proof -
  let ?fed = "fst (from_federations tiny_cel [tiny_governance] 0)"
  have "republished tiny_cel Map.empty [tiny_governance] 0 = (?fed, 1)"
    by (simp add: from_federations_def republished_def publish_one_def)
  from gate_run.publish [OF gate_run.start this]
  have "gate_run tiny_cel tiny_gate tiny_requests [?fed, Map.empty] 1 []" .
  then show ?thesis
    by (rule gate_run.decide [where fed = ?fed and ctx = "tiny_context [''bank'']" and r = tiny_route
          and now = 0 and later = 0]) (simp_all add: tiny_requests_def prod_eq_iff)
qed


definition header_caller :: "string \<Rightarrow> string \<Rightarrow> tool_policy_context" where
  "header_caller who tool = from_request_context (HttpHeader who ''header'') tool"

definition vault_config :: tool_access_policy_config where
  "vault_config =
     \<lparr>tac_default_minimum_trust = HeaderAsserted, tac_cel_allow_if = None,
      tac_rules = [\<lparr>ttr_tool_name = ''vault:plan'', ttr_minimum_trust = VerifiedTrust, ttr_cel_allow_if = None,
                    ttr_required_scopes = [], ttr_surface = None\<rparr>]\<rparr>"

definition vault_gate :: "string policy_gate" where
  "vault_gate = \<lparr>pg_policy = projr (from_config tiny_cel vault_config), pg_cache = Some (cache_new 60000 2)\<rparr>"

lemma vault_decisions:
  "evaluate_uncached tiny_cel (pg_policy vault_gate) (header_caller ''ann:vault'' ''plan'') Map.empty gateway = Allow"
  "evaluate_uncached tiny_cel (pg_policy vault_gate) (header_caller ''ann'' ''vault:plan'') Map.empty gateway \<noteq> Allow"
proof -
  have "from_config tiny_cel vault_config = Inr (pg_policy vault_gate)"
    by (simp add: vault_gate_def vault_config_def from_config_def rule_from_rule_def rule_compile_def compile_opt_def)
  note iff = allow_via_rules [OF this published_set.no_federation]
  show "evaluate_uncached tiny_cel (pg_policy vault_gate) (header_caller ''ann:vault'' ''plan'') Map.empty gateway = Allow"
    unfolding iff
    by (simp add: vault_config_def gateway_def applies_def header_caller_def from_request_context_def)
  show "evaluate_uncached tiny_cel (pg_policy vault_gate) (header_caller ''ann'' ''vault:plan'') Map.empty gateway \<noteq> Allow"
    unfolding iff
    by (simp add: vault_config_def gateway_def applies_def header_caller_def from_request_context_def rule_passes_def
        trust_order)
qed

text \<open>
  C35.  The cache key joins the principal and the called name with a colon that both may contain.  The caller
  \<open>p:a\<close> that calls \<open>t\<close> and the caller \<open>p\<close> that calls \<open>a:t\<close>, with the same claims, have the same key: the
  decision made for the first is handed to the second as long as it is cached.
\<close>

theorem cached_decision_crosses_callers:
  assumes "pg_cache gate = Some c" "0 < pc_max_entries c" "soon - later \<le> pc_ttl c"
    and "first = ctx\<lparr>tpc_principal_id := Some (p @ '':'' @ a), tpc_tool_name := t\<rparr>"
    and "second = ctx\<lparr>tpc_principal_id := Some p, tpc_tool_name := a @ '':'' @ t\<rparr>"
  shows "fst (evaluate x gate fed second r soon soon (snd (evaluate x gate fed first r now later []))) =
    evaluate_uncached x (pg_policy gate) first fed r"
proof -
  have "decision_key x second dep r = decision_key x first dep r" for dep
    by (simp add: assms(4,5) decision_key_def cache_key_def trust_level_name_def claims_of_def)
  with assms(1-3) show ?thesis
    by (simp add: evaluate_def cache_get_def cache_put_def Let_def)
qed

theorem cached_decision_crosses_callers_witness:
  "evaluate_uncached tiny_cel (pg_policy vault_gate) (header_caller ''ann'' ''vault:plan'') Map.empty gateway \<noteq> Allow \<and>
   fst (evaluate tiny_cel vault_gate Map.empty (header_caller ''ann'' ''vault:plan'') gateway 1 1
     (snd (evaluate tiny_cel vault_gate Map.empty (header_caller ''ann:vault'' ''plan'') gateway 0 0 []))) = Allow"
proof -
  have "fst (evaluate tiny_cel vault_gate Map.empty (header_caller ''ann'' ''vault:plan'') gateway 1 1
      (snd (evaluate tiny_cel vault_gate Map.empty (header_caller ''ann:vault'' ''plan'') gateway 0 0 []))) =
    evaluate_uncached tiny_cel (pg_policy vault_gate) (header_caller ''ann:vault'' ''plan'') Map.empty gateway"
    by (rule cached_decision_crosses_callers [where c = "cache_new 60000 2" and p = "''ann''" and a = "''vault''" and t = "''plan''"
          and ctx = "header_caller ''ann'' ''plan''"])
      (simp_all add: vault_gate_def cache_new_def from_millis_def header_caller_def from_request_context_def)
  with vault_decisions show ?thesis by simp
qed

end
