(* ===== verification/Pipeline_Config.thy ===== *)
theory Pipeline_Config
  imports Request_Identity "HOL-Library.AList"
begin

text \<open>
  The steps of a pipeline as they are configured and as they are kept in the row of a suspended pipeline:
  \<open>PipelineStepConfig\<close> of \<open>src/config/backend.rs\<close> with its own (de)serializer.  Floating-point settings are JSON
  numbers here, which the gateway only passes on.  \<open>RequestContext\<close> of \<open>src/runtime/mod.rs\<close> is here too: a
  suspended pipeline keeps the context of the request that started it.
\<close>

section \<open>Steps\<close>

record sampling_message_config =
  smc_role :: string
  smc_content :: string

datatype elicitation_mode = FormMode | UrlMode

record backend_step =
  bst_id :: string
  bst_kind :: string
  bst_spec :: "(string \<times> json) list"
  bst_input_transform :: "string option"

record transform_step =
  tst_id :: string
  tst_expression :: string

record plugin_transform_step =
  pts_id :: string
  pts_plugin :: string
  pts_config :: json

record cel_gate_step =
  cgs_id :: string
  cgs_expression :: string
  cgs_error_message :: "string option"

record elicitation_step =
  els_id :: string
  els_message :: string
  els_mode :: elicitation_mode
  els_requested_schema :: "json option"
  els_url :: "string option"
  els_elicitation_id :: "string option"
  els_presentation_hint :: "string option"
  els_meta :: "json option"
  els_timeout_ms :: nat
  els_correlation_token :: "string option"
  els_skip_if_unsupported :: bool

record sampling_step =
  sms_id :: string
  sms_messages :: "sampling_message_config list"
  sms_max_tokens :: nat
  sms_timeout_ms :: nat
  sms_system_prompt :: "string option"
  sms_include_context :: "string option"
  sms_temperature :: "json option"
  sms_stop_sequences :: "string list option"
  sms_model_preferences :: "json option"
  sms_tools :: "json list option"
  sms_tool_choice :: "json option"
  sms_meta :: "json option"
  sms_metadata :: "json option"
  sms_correlation_token :: "string option"
  sms_skip_if_unsupported :: bool

record roots_list_step =
  rls_id :: string
  rls_timeout_ms :: nat
  rls_correlation_token :: "string option"
  rls_skip_if_unsupported :: bool

text \<open>The fields of an input are the correlation token, then as the source has them.\<close>

datatype gather_input =
    GatherElicitation string string "json option"
  | GatherSampling string "sampling_message_config list" nat "string option"
  | GatherRoots string

fun correlation_token :: "gather_input \<Rightarrow> string" where
  "correlation_token (GatherElicitation token _ _) = token"
| "correlation_token (GatherSampling token _ _ _) = token"
| "correlation_token (GatherRoots token) = token"

record gather_step =
  gst_id :: string
  gst_inputs :: "gather_input list"

record log_step =
  lst_id :: string
  lst_level :: string
  lst_logger :: "string option"
  lst_data :: json

record progress_step =
  pgs_id :: string
  pgs_progress :: json
  pgs_total :: "json option"
  pgs_message :: "string option"

record sql_tx_nested_step =
  stn_id :: string
  stn_sql :: string
  stn_params :: "string list"
  stn_row_mode :: string
  stn_input_transform :: "string option"

record sql_tx_step =
  stx_id :: string
  stx_backend :: string
  stx_steps :: "sql_tx_nested_step list"
  stx_input_transform :: "string option"

record sql_await_step =
  saw_id :: string
  saw_backend :: string
  saw_input_transform :: "string option"

datatype pipeline_step =
    StepBackend backend_step
  | StepTransform transform_step
  | StepPluginTransform plugin_transform_step
  | StepCelGate cel_gate_step
  | StepElicitation elicitation_step
  | StepSampling sampling_step
  | StepRootsList roots_list_step
  | StepGather gather_step
  | StepLog log_step
  | StepProgress progress_step
  | StepSqlTx sql_tx_step
  | StepSqlAwait sql_await_step

definition CONTROL_STEP_KINDS :: "string list" where
  "CONTROL_STEP_KINDS =
     [''transform'', ''plugin_transform'', ''cel_gate'', ''elicitation'', ''sampling'', ''roots_list'', ''gather'',
      ''log'', ''progress'', ''sql_tx'', ''sql_await'']"

fun step_id :: "pipeline_step \<Rightarrow> string" where
  "step_id (StepBackend s) = bst_id s"
| "step_id (StepTransform s) = tst_id s"
| "step_id (StepPluginTransform s) = pts_id s"
| "step_id (StepCelGate s) = cgs_id s"
| "step_id (StepElicitation s) = els_id s"
| "step_id (StepSampling s) = sms_id s"
| "step_id (StepRootsList s) = rls_id s"
| "step_id (StepGather s) = gst_id s"
| "step_id (StepLog s) = lst_id s"
| "step_id (StepProgress s) = pgs_id s"
| "step_id (StepSqlTx s) = stx_id s"
| "step_id (StepSqlAwait s) = saw_id s"

fun type_label :: "pipeline_step \<Rightarrow> string" where
  "type_label (StepBackend s) = bst_kind s"
| "type_label (StepTransform _) = ''transform''"
| "type_label (StepPluginTransform _) = ''plugin_transform''"
| "type_label (StepCelGate _) = ''cel_gate''"
| "type_label (StepElicitation _) = ''elicitation''"
| "type_label (StepSampling _) = ''sampling''"
| "type_label (StepRootsList _) = ''roots_list''"
| "type_label (StepGather _) = ''gather''"
| "type_label (StepLog _) = ''log''"
| "type_label (StepProgress _) = ''progress''"
| "type_label (StepSqlTx _) = ''sql_tx''"
| "type_label (StepSqlAwait _) = ''sql_await''"

fun is_suspending :: "pipeline_step \<Rightarrow> bool" where
  "is_suspending (StepElicitation _) = True"
| "is_suspending (StepSampling _) = True"
| "is_suspending (StepRootsList _) = True"
| "is_suspending (StepGather _) = True"
| "is_suspending _ = False"

fun input_transform :: "pipeline_step \<Rightarrow> string option" where
  "input_transform (StepBackend s) = bst_input_transform s"
| "input_transform (StepSqlTx s) = stx_input_transform s"
| "input_transform (StepSqlAwait s) = saw_input_transform s"
| "input_transform _ = None"

record pipeline_backend_config =
  pbc_pipeline_timeout_ms :: nat
  pbc_steps :: "pipeline_step list"

definition default_cel_gate_error_message :: "string \<Rightarrow> string" where
  "default_cel_gate_error_message sid = ''pipeline gate failed at step '' @ sid"

section \<open>Steps as JSON\<close>

text \<open>
  The derived serde of the control steps is the parameter: \<open>ss_to_value\<close> writes the fields of a control step,
  \<open>ss_from_value\<close> reads the step of a kind.
\<close>

record step_serde =
  ss_to_value :: "pipeline_step \<Rightarrow> string + json"
  ss_from_value :: "string \<Rightarrow> json \<Rightarrow> string + pipeline_step"

definition missing_field :: "string \<Rightarrow> string" where
  "missing_field name = ''missing field `'' @ name @ ''`''"

definition deserialize_step :: "step_serde \<Rightarrow> (string \<times> json) list \<Rightarrow> string + pipeline_step" where
  "deserialize_step sx obj =
     (case map_of obj ''kind'' of
        None \<Rightarrow> Inl (missing_field ''kind'')
      | Some (JStr kind) \<Rightarrow>
          if kind \<in> set CONTROL_STEP_KINDS then ss_from_value sx kind (JObj obj)
          else
            (let obj1 = AList.delete ''kind'' obj in
             case map_of obj1 ''id'' of
               None \<Rightarrow> Inl (missing_field ''id'')
             | Some (JStr i) \<Rightarrow>
                 (let obj2 = AList.delete ''id'' obj1; obj3 = AList.delete ''input_transform'' obj2;
                      step = (\<lambda>it. Inr (StepBackend \<lparr>bst_id = i, bst_kind = kind, bst_spec = obj3, bst_input_transform = it\<rparr>)) in
                  case map_of obj2 ''input_transform'' of
                    None \<Rightarrow> step None
                  | Some JNull \<Rightarrow> step None
                  | Some (JStr it) \<Rightarrow> step (Some it)
                  | Some _ \<Rightarrow> Inl ''pipeline step `input_transform` must be a string'')
             | Some _ \<Rightarrow> Inl ''pipeline step `id` must be a string'')
      | Some _ \<Rightarrow> Inl ''pipeline step `kind` must be a string'')"

definition serialize_step :: "step_serde \<Rightarrow> pipeline_step \<Rightarrow> string + json" where
  "serialize_step sx step =
     (case step of
        StepBackend s \<Rightarrow>
          (let head = [(''kind'', JStr (bst_kind s)), (''id'', JStr (bst_id s))] @
                 (case bst_input_transform s of None \<Rightarrow> [] | Some it \<Rightarrow> [(''input_transform'', JStr it)])
           in Inr (JObj (fold (\<lambda>(k, v) obj. AList.update k v obj) (bst_spec s) head)))
      | _ \<Rightarrow>
          (case ss_to_value sx step of
             Inl e \<Rightarrow> Inl e
           | Inr (JObj obj) \<Rightarrow> Inr (JObj (AList.update ''kind'' (JStr (type_label step)) obj))
           | Inr v \<Rightarrow> Inr v))"

text \<open>A step a configuration can hold: the reserved keys of a backend step are not in its spec.\<close>

definition RESERVED_STEP_KEYS :: "string list" where
  "RESERVED_STEP_KEYS = [''kind'', ''id'', ''input_transform'']"

fun parsed_step :: "pipeline_step \<Rightarrow> bool" where
  "parsed_step (StepBackend s) \<longleftrightarrow>
     bst_kind s \<notin> set CONTROL_STEP_KINDS \<and> distinct (map fst (bst_spec s)) \<and>
     (\<forall>k \<in> set RESERVED_STEP_KEYS. k \<notin> fst ` set (bst_spec s))"
| "parsed_step _ \<longleftrightarrow> True"

lemma update_fresh: "k \<notin> fst ` set ys \<Longrightarrow> AList.update k v ys = ys @ [(k, v)]"
  by (induction ys) auto

lemma fold_update_fresh:
  assumes "distinct (map fst xs)" "fst ` set xs \<inter> fst ` set ys = {}"
  shows "fold (\<lambda>(k, v) obj. AList.update k v obj) xs ys = ys @ xs"
  using assms
proof (induction xs arbitrary: ys)
  case (Cons x xs)
  obtain k v where x: "x = (k, v)" by fastforce
  have "k \<notin> fst ` set ys" using Cons.prems(2) x by auto
  with Cons x show ?case by (auto simp: update_fresh)
qed simp

lemma delete_not_in: "k \<notin> fst ` set xs \<Longrightarrow> AList.delete k xs = xs"
  by (induction xs) auto

text \<open>The derived serde of control steps reads back what it wrote, with the \<open>kind\<close> beside the fields.\<close>

definition serde_ok :: "step_serde \<Rightarrow> bool" where
  "serde_ok sx \<longleftrightarrow> (\<forall>step. type_label step \<in> set CONTROL_STEP_KINDS \<longrightarrow>
     (\<exists>obj. ss_to_value sx step = Inr (JObj obj) \<and>
            ss_from_value sx (type_label step) (JObj (AList.update ''kind'' (JStr (type_label step)) obj)) = Inr step))"

lemma backend_step_round_trip:
  assumes "parsed_step (StepBackend s)"
  shows "\<exists>obj. serialize_step sx (StepBackend s) = Inr (JObj obj) \<and> deserialize_step sx obj = Inr (StepBackend s)"
proof -
  define head where "head = [(''kind'', JStr (bst_kind s)), (''id'', JStr (bst_id s))] @
      (case bst_input_transform s of None \<Rightarrow> [] | Some it \<Rightarrow> [(''input_transform'', JStr it)])"
  have keys: "''kind'' \<notin> fst ` set (bst_spec s)" "''id'' \<notin> fst ` set (bst_spec s)" "''input_transform'' \<notin> fst ` set (bst_spec s)"
    using assms by (simp_all add: RESERVED_STEP_KEYS_def)
  then have "fst ` set (bst_spec s) \<inter> fst ` set head = {}" by (force simp: head_def split: option.splits)
  with assms have "serialize_step sx (StepBackend s) = Inr (JObj (head @ bst_spec s))"
    by (simp add: serialize_step_def head_def Let_def fold_update_fresh)
  moreover have none: "map_of (bst_spec s) ''input_transform'' = None" using keys(3) by (simp add: map_of_eq_None_iff)
  have "deserialize_step sx (head @ bst_spec s) = Inr (StepBackend s)"
    using assms keys none
    by (cases "bst_input_transform s")
      (simp_all add: deserialize_step_def head_def Let_def delete_not_in del: map_of_eq_Some_iff)
  ultimately show ?thesis by blast
qed

lemma control_step_round_trip:
  assumes "serde_ok sx" "\<And>s. step \<noteq> StepBackend s"
  shows "\<exists>obj. serialize_step sx step = Inr (JObj obj) \<and> deserialize_step sx obj = Inr step"
proof -
  have label: "type_label step \<in> set CONTROL_STEP_KINDS"
    using assms(2) by (cases step) (auto simp: CONTROL_STEP_KINDS_def)
  with assms(1) obtain obj where "ss_to_value sx step = Inr (JObj obj)"
    "ss_from_value sx (type_label step) (JObj (AList.update ''kind'' (JStr (type_label step)) obj)) = Inr step"
    unfolding serde_ok_def by blast
  with label assms(2) show ?thesis
    by (cases step) (auto simp: serialize_step_def deserialize_step_def update_conv')
qed

lemma step_round_trip:
  assumes "serde_ok sx" "parsed_step step"
  shows "\<exists>obj. serialize_step sx step = Inr (JObj obj) \<and> deserialize_step sx obj = Inr step"
  using assms backend_step_round_trip control_step_round_trip by (cases step) blast+

section \<open>The context of a request\<close>

datatype transport_kind = HttpTransport | StdioTransport

datatype protocol_version = V_2025_11_25 | V_2026_07_28

text \<open>
  \<open>RequestContext\<close> without the handles it shares with its clones in memory (\<open>connect_link\<close> and the session
  cache).  The trace context, capabilities and callers of other protocols are only passed on.
\<close>

record request_context =
  rc_request_id :: string
  rc_upstream_request_id :: "string option"
  rc_session_id :: "string option"
  rc_resume_cursor :: "string option"
  rc_identity :: request_identity
  rc_transport :: transport_kind
  rc_started_at :: nat
  rc_negotiated_version :: protocol_version
  rc_trace_context :: "json option"
  rc_modern_request_capabilities :: "json option"
  rc_inbound_bearer :: "string option"
  rc_session_ephemeral :: bool
  rc_personal_agent :: "json option"
  rc_pap_operation :: "string option"
  rc_client_ip :: "string option"
  rc_client :: "json option"

text \<open>Who may resume a suspended pipeline.\<close>

definition resumer_owns_pipeline :: "string option \<Rightarrow> string \<Rightarrow> string option \<Rightarrow> string option \<Rightarrow> bool" where
  "resumer_owns_pipeline owner_principal owner_session resumer_principal resumer_session \<longleftrightarrow>
     owner_principal = resumer_principal \<and>
     (owner_principal = None \<or> owner_session \<noteq> [] \<and> resumer_session = Some owner_session)"

end
