(* ===== verification/Pipeline_Store.thy ===== *)
theory Pipeline_Store
  imports Memory_Kv Pipeline_Config
begin

text \<open>
  The pipeline store of \<open>src/runtime/stores/pipeline_store.rs\<close>: \<open>KvBackedPipelineStore\<close> over a key-value
  store.  It keeps the state of suspended pipelines, the server requests they wait for, and the deliveries
  buffered for the sessions.

  The state is the store below and the index of the sessions with buffered deliveries.  The client's
  capabilities, which the store only serialises, are a JSON value.
  Serde, base64, UUIDs and the listing helper of the cluster API are parameters.  An \<open>anyhow\<close> error is its
  text.  \<open>state_version\<close> is a \<open>nat\<close>: it counts the resumptions of one pipeline.
\<close>

section \<open>Data\<close>

datatype pipeline_surface = ToolSurface | PromptSurface | ResourceSurface

record step_result =
  sr_output :: json
  sr_is_error :: bool
  sr_duration_ms :: nat

record pipeline_state =
  ps_pipeline_id :: string
  ps_session_id :: string
  ps_original_jsonrpc_id :: json
  ps_tool_name :: string
  ps_steps :: "pipeline_step list"
  ps_current_step_index :: nat
  ps_completed_steps :: "(string \<times> step_result) list"
  ps_original_args :: json
  ps_request_context :: request_context
  ps_created_at :: nat
  ps_suspended_at :: "nat option"
  ps_pipeline_timeout_ms :: nat
  ps_pending_server_request_id :: "string option"
  ps_elicitation_timeout_ms :: "nat option"
  ps_related_task_id :: "string option"
  ps_client_capabilities :: json
  ps_state_version :: nat
  ps_surface :: pipeline_surface

record pending_server_request =
  psr_server_request_id :: string
  psr_pipeline_id :: string
  psr_session_id :: string
  psr_step_id :: string
  psr_timeout_ms :: nat
  psr_created_at :: nat

datatype delivery_kind =
    ServerRequest
  | DeferredToolResult
  | PipelineError
  | ProgressNotification
  | ResourceUpdated
  | Notification

record delivery_message =
  dm_kind :: delivery_kind
  dm_jsonrpc_message :: json
  dm_delivery_id :: string

text \<open>What the store calls outside the repository; \<open>pl_render\<close> is \<open>Value::to_string\<close> and
  \<open>pl_internal\<close> the rendering of \<open>ClusterError::Internal\<close>.\<close>

record 'v pipeline_ext =
  pl_to_vec :: "pipeline_state \<Rightarrow> string + 'v"
  pl_from_slice :: "'v \<Rightarrow> string + pipeline_state"
  pl_request_to_vec :: "pending_server_request \<Rightarrow> string + 'v"
  pl_request_from_slice :: "'v \<Rightarrow> string + pending_server_request"
  pl_delivery_to_vec :: "delivery_message \<Rightarrow> string + 'v"
  pl_delivery_from_slice :: "'v \<Rightarrow> string + delivery_message"
  pl_text :: "string \<Rightarrow> 'v"
  pl_utf8_lossy :: "'v \<Rightarrow> string"
  pl_render :: "json \<Rightarrow> string"
  pl_b64 :: "string \<Rightarrow> string"
  pl_internal :: "string \<Rightarrow> cluster_error"

record 's pipeline_store =
  pst_kv :: 's
  pst_sessions_with_pending :: "string set"

type_synonym ('s, 'v) list_all_rows =
  "('s, 'v) kv_ops \<Rightarrow> string \<Rightarrow> clock \<Rightarrow> 's \<Rightarrow> ('s, (string \<times> 'v kv_entry) list) kv_result"

definition pipeline_ttl :: duration where
  "pipeline_ttl = from_secs 300"

definition delivery_ttl :: duration where
  "delivery_ttl = from_secs 300"

definition pending_request_ttl :: duration where
  "pending_request_ttl = from_secs 300"

section \<open>Keys\<close>

definition pipeline_key :: "string \<Rightarrow> string" where
  "pipeline_key pid = ''pipeline:'' @ pid"

definition pipeline_claim_key :: "string \<Rightarrow> nat \<Rightarrow> string" where
  "pipeline_claim_key pid version = ''pipeline-claim:'' @ pid @ '':'' @ show_nat version"

definition pending_req_key :: "string \<Rightarrow> string" where
  "pending_req_key srv_req_id = ''pending_req:'' @ srv_req_id"

definition suspended_rpc_key :: "'v pipeline_ext \<Rightarrow> string \<Rightarrow> string \<Rightarrow> string" where
  "suspended_rpc_key x session_id rendered_rpc_id =
     ''pipeline-rpc:'' @ pl_b64 x session_id @ '':'' @ pl_b64 x rendered_rpc_id"

definition delivery_session_prefix :: "string \<Rightarrow> string" where
  "delivery_session_prefix session_id = ''delivery:'' @ session_id @ '':''"

definition delivery_key :: "string \<Rightarrow> string \<Rightarrow> string" where
  "delivery_key session_id delivery_id = ''delivery:'' @ session_id @ '':'' @ delivery_id"

definition delivery_seq_key :: "string \<Rightarrow> string" where
  "delivery_seq_key session_id = ''delivery-seq:'' @ session_id"

definition delivery_seq_of :: "string \<Rightarrow> int option" where
  "delivery_seq_of delivery_id =
     (case split_once (CHR ''-'') delivery_id of
        None \<Rightarrow> None
      | Some (sq, _) \<Rightarrow> if length sq \<noteq> 20 then None else parse_i64 sq)"

text \<open>\<open>{seq:020}\<close>: the decimal digits, padded with zeros to 20 places after a possible sign.\<close>

definition pad20 :: "int \<Rightarrow> string" where
  "pad20 n =
     (let sign = (if n < 0 then ''-'' else []); digits = show_nat (nat \<bar>n\<bar>)
      in sign @ replicate (20 - length sign - length digits) (CHR ''0'') @ digits)"

section \<open>Construction\<close>

definition session_of_key :: "string \<Rightarrow> string option" where
  "session_of_key key =
     map_option fst (Option.bind (strip_prefix key ''delivery:'') (split_once (CHR '':'')))"

definition pipeline_store_new :: "('s, 'v) kv_ops \<Rightarrow> clock \<Rightarrow> 's \<Rightarrow> 's pipeline_store" where
  "pipeline_store_new kv c s =
     (case kv_list_prefix kv ''delivery:'' 4096 c s of
        (Inr entries, s') \<Rightarrow>
          \<lparr>pst_kv = s', pst_sessions_with_pending = set (List.map_filter (session_of_key \<circ> fst) entries)\<rparr>
      | (Inl _, s') \<Rightarrow> \<lparr>pst_kv = s', pst_sessions_with_pending = {}\<rparr>)"

section \<open>Pipelines\<close>

text \<open>The pointer from the JSON-RPC id of a suspended pipeline, written after its row.\<close>

definition put_rpc_pointer ::
    "('s, 'v) kv_ops \<Rightarrow> 'v pipeline_ext \<Rightarrow> pipeline_state \<Rightarrow> clock \<Rightarrow> 's \<Rightarrow> ('s, unit) kv_result" where
  "put_rpc_pointer kv x st c s =
     (if ps_suspended_at st \<noteq> None then
        kv_put kv (suspended_rpc_key x (ps_session_id st) (pl_render x (ps_original_jsonrpc_id st)))
          (pl_text x (ps_pipeline_id st)) (Some pipeline_ttl) c s
      else (Inr (), s))"

definition save_pipeline ::
    "('s, 'v) kv_ops \<Rightarrow> 'v pipeline_ext \<Rightarrow> pipeline_state \<Rightarrow> clock \<Rightarrow> 's \<Rightarrow> (string + unit) \<times> 's" where
  "save_pipeline kv x st c s =
     (case pl_to_vec x st of
        Inl e \<Rightarrow> (Inl e, s)
      | Inr bytes \<Rightarrow>
          (case kv_put kv (pipeline_key (ps_pipeline_id st)) bytes (Some pipeline_ttl) c s of
             (Inl e, s1) \<Rightarrow> (Inl (''kv save_pipeline: '' @ e), s1)
           | (Inr _, s1) \<Rightarrow>
               (case put_rpc_pointer kv x st c s1 of
                  (Inl e, s2) \<Rightarrow> (Inl (''kv save_pipeline: '' @ e), s2)
                | (Inr _, s2) \<Rightarrow> (Inr (), s2))))"

definition load_pipeline ::
    "('s, 'v) kv_ops \<Rightarrow> 'v pipeline_ext \<Rightarrow> string \<Rightarrow> clock \<Rightarrow> 's \<Rightarrow> (string + pipeline_state option) \<times> 's" where
  "load_pipeline kv x pid c s =
     (case kv_get kv (pipeline_key pid) c s of
        (Inl e, s1) \<Rightarrow> (Inl (''kv load_pipeline: '' @ e), s1)
      | (Inr None, s1) \<Rightarrow> (Inr None, s1)
      | (Inr (Some v), s1) \<Rightarrow>
          (case pl_from_slice x (ent_bytes v) of
             Inl e \<Rightarrow> (Inl e, s1)
           | Inr st \<Rightarrow> (Inr (Some st), s1)))"

text \<open>
  \<open>try_claim_pipeline\<close> makes three store calls that calls of other replicas may come between: it reads
  the row and compares the version, takes the marker of the version, and writes the row with the next
  version.  Each step says where the claim goes on or how it ended.
\<close>

datatype claim_pc =
    ClaimRead
  | ClaimMark pipeline_state
  | ClaimBump pipeline_state
  | ClaimDone "string + bool"

definition claim_failed :: "string \<Rightarrow> claim_pc" where
  "claim_failed e = ClaimDone (Inl (''kv try_claim_pipeline: '' @ e))"

text \<open>\<open>ClusterError::Internal\<close> around a codec error, as it is rendered.\<close>

definition codec_error :: "'v pipeline_ext \<Rightarrow> string \<Rightarrow> string \<Rightarrow> string \<Rightarrow> cluster_error" where
  "codec_error x what pid e = pl_internal x (what @ '' pipeline `'' @ pid @ ''`: '' @ e)"

fun claim_step ::
    "('s, 'v) kv_ops \<Rightarrow> 'v pipeline_ext \<Rightarrow> string \<Rightarrow> nat \<Rightarrow> claim_pc \<Rightarrow> clock \<Rightarrow> 's \<Rightarrow> claim_pc \<times> 's" where
  "claim_step kv x pid expected_version ClaimRead c s =
     (case kv_get kv (pipeline_key pid) c s of
        (Inl e, s1) \<Rightarrow> (claim_failed e, s1)
      | (Inr None, s1) \<Rightarrow> (ClaimDone (Inr False), s1)
      | (Inr (Some v), s1) \<Rightarrow>
          (case pl_from_slice x (ent_bytes v) of
             Inl e \<Rightarrow> (claim_failed (codec_error x ''decode'' pid e), s1)
           | Inr current \<Rightarrow>
               (if ps_state_version current \<noteq> expected_version then ClaimDone (Inr False)
                else ClaimMark current, s1)))"
| "claim_step kv x pid expected_version (ClaimMark current) c s =
     (case kv_put_if_absent kv (pipeline_claim_key pid expected_version) (pl_text x ''1'') (Some pipeline_ttl) c s of
        (Inl e, s1) \<Rightarrow> (claim_failed e, s1)
      | (Inr won, s1) \<Rightarrow> (if won then ClaimBump current else ClaimDone (Inr False), s1))"
| "claim_step kv x pid expected_version (ClaimBump current) c s =
     (case pl_to_vec x (current\<lparr>ps_state_version := ps_state_version current + 1\<rparr>) of
        Inl e \<Rightarrow> (claim_failed (codec_error x ''encode'' pid e), s)
      | Inr bytes \<Rightarrow>
          (case kv_put kv (pipeline_key pid) bytes (Some pipeline_ttl) c s of
             (Inl e, s1) \<Rightarrow> (claim_failed e, s1)
           | (Inr _, s1) \<Rightarrow> (ClaimDone (Inr True), s1)))"
| "claim_step kv x pid expected_version (ClaimDone r) c s = (ClaimDone r, s)"

fun claim_run ::
    "nat \<Rightarrow> ('s, 'v) kv_ops \<Rightarrow> 'v pipeline_ext \<Rightarrow> string \<Rightarrow> nat \<Rightarrow> claim_pc \<Rightarrow> clock \<Rightarrow> 's \<Rightarrow> claim_pc \<times> 's" where
  "claim_run 0 kv x pid v pc c s = (pc, s)"
| "claim_run (Suc n) kv x pid v pc c s = (case claim_step kv x pid v pc c s of (pc', s') \<Rightarrow> claim_run n kv x pid v pc' c s')"

text \<open>The whole call, with nothing in between: three steps always end it.\<close>

definition try_claim_pipeline ::
    "('s, 'v) kv_ops \<Rightarrow> 'v pipeline_ext \<Rightarrow> string \<Rightarrow> nat \<Rightarrow> clock \<Rightarrow> 's \<Rightarrow> (string + bool) \<times> 's" where
  "try_claim_pipeline kv x pid expected_version c s =
     (case claim_run 3 kv x pid expected_version ClaimRead c s of
        (ClaimDone r, s') \<Rightarrow> (r, s')
      | (_, s') \<Rightarrow> (Inr False, s'))"

lemma claim_run_ends: "\<exists>r s'. claim_run 3 kv x pid v ClaimRead c s = (ClaimDone r, s')"
  by (auto simp: numeral_3_eq_3 claim_failed_def split: prod.splits sum.splits option.splits)

text \<open>\<open>set_original_jsonrpc_id_if_version\<close>: the read with the version check, then the write.\<close>

definition patch_read ::
    "('s, 'v) kv_ops \<Rightarrow> 'v pipeline_ext \<Rightarrow> string \<Rightarrow> nat \<Rightarrow> clock \<Rightarrow> 's \<Rightarrow> (string + pipeline_state option) \<times> 's" where
  "patch_read kv x pid expected_version c s =
     (case kv_get kv (pipeline_key pid) c s of
        (Inl e, s1) \<Rightarrow> (Inl e, s1)
      | (Inr None, s1) \<Rightarrow> (Inr None, s1)
      | (Inr (Some v), s1) \<Rightarrow>
          (case pl_from_slice x (ent_bytes v) of
             Inl e \<Rightarrow> (Inl (codec_error x ''decode'' pid e), s1)
           | Inr current \<Rightarrow> (Inr (if ps_state_version current \<noteq> expected_version then None else Some current), s1)))"

definition patch_write ::
    "('s, 'v) kv_ops \<Rightarrow> 'v pipeline_ext \<Rightarrow> string \<Rightarrow> json \<Rightarrow> pipeline_state \<Rightarrow> clock \<Rightarrow> 's \<Rightarrow> (string + bool) \<times> 's" where
  "patch_write kv x pid new_id current c s =
     (let patched = current\<lparr>ps_original_jsonrpc_id := new_id\<rparr> in
      case pl_to_vec x patched of
        Inl e \<Rightarrow> (Inl (codec_error x ''encode'' pid e), s)
      | Inr bytes \<Rightarrow>
          (case kv_put kv (pipeline_key pid) bytes (Some pipeline_ttl) c s of
             (Inl e, s1) \<Rightarrow> (Inl e, s1)
           | (Inr _, s1) \<Rightarrow>
               (case put_rpc_pointer kv x patched c s1 of
                  (Inl e, s2) \<Rightarrow> (Inl e, s2)
                | (Inr _, s2) \<Rightarrow> (Inr True, s2))))"

definition set_original_jsonrpc_id_if_version ::
    "('s, 'v) kv_ops \<Rightarrow> 'v pipeline_ext \<Rightarrow> string \<Rightarrow> nat \<Rightarrow> json \<Rightarrow> clock \<Rightarrow> 's \<Rightarrow> (string + bool) \<times> 's" where
  "set_original_jsonrpc_id_if_version kv x pid expected_version new_id c s =
     (let failed = (\<lambda>e. Inl (''kv set_original_jsonrpc_id: '' @ e)) in
      case patch_read kv x pid expected_version c s of
        (Inl e, s1) \<Rightarrow> (failed e, s1)
      | (Inr None, s1) \<Rightarrow> (Inr False, s1)
      | (Inr (Some current), s1) \<Rightarrow>
          (case patch_write kv x pid new_id current c s1 of
             (Inl e, s2) \<Rightarrow> (failed e, s2)
           | (Inr b, s2) \<Rightarrow> (Inr b, s2)))"

definition delete_pipeline :: "('s, 'v) kv_ops \<Rightarrow> string \<Rightarrow> clock \<Rightarrow> 's \<Rightarrow> (string + unit) \<times> 's" where
  "delete_pipeline kv pid c s =
     (case kv_delete kv (pipeline_key pid) c s of
        (Inl e, s1) \<Rightarrow> (Inl (''kv delete_pipeline: '' @ e), s1)
      | (Inr _, s1) \<Rightarrow> (Inr (), s1))"

section \<open>Pending server requests\<close>

definition save_pending_server_request ::
    "('s, 'v) kv_ops \<Rightarrow> 'v pipeline_ext \<Rightarrow> pending_server_request \<Rightarrow> clock \<Rightarrow> 's \<Rightarrow> (string + unit) \<times> 's" where
  "save_pending_server_request kv x rq c s =
     (case pl_request_to_vec x rq of
        Inl e \<Rightarrow> (Inl e, s)
      | Inr bytes \<Rightarrow>
          (case kv_put kv (pending_req_key (psr_server_request_id rq)) bytes (Some pending_request_ttl) c s of
             (Inl e, s1) \<Rightarrow> (Inl (''kv save_pending_server_request: '' @ e), s1)
           | (Inr _, s1) \<Rightarrow> (Inr (), s1)))"

definition load_pending_server_request ::
    "('s, 'v) kv_ops \<Rightarrow> 'v pipeline_ext \<Rightarrow> string \<Rightarrow> clock \<Rightarrow> 's \<Rightarrow> (string + pending_server_request option) \<times> 's" where
  "load_pending_server_request kv x rid c s =
     (case kv_get kv (pending_req_key rid) c s of
        (Inl e, s1) \<Rightarrow> (Inl (''kv load_pending_server_request: '' @ e), s1)
      | (Inr None, s1) \<Rightarrow> (Inr None, s1)
      | (Inr (Some v), s1) \<Rightarrow>
          (case pl_request_from_slice x (ent_bytes v) of
             Inl e \<Rightarrow> (Inl e, s1)
           | Inr rq \<Rightarrow> (Inr (Some rq), s1)))"

definition delete_pending_server_request :: "('s, 'v) kv_ops \<Rightarrow> string \<Rightarrow> clock \<Rightarrow> 's \<Rightarrow> (string + unit) \<times> 's" where
  "delete_pending_server_request kv rid c s =
     (case kv_delete kv (pending_req_key rid) c s of
        (Inl e, s1) \<Rightarrow> (Inl (''kv delete_pending_server_request: '' @ e), s1)
      | (Inr _, s1) \<Rightarrow> (Inr (), s1))"

section \<open>Deliveries\<close>

definition store_pending_delivery ::
    "('s, 'v) kv_ops \<Rightarrow> 'v pipeline_ext \<Rightarrow> string \<Rightarrow> string \<Rightarrow> delivery_message \<Rightarrow> clock \<Rightarrow> 's pipeline_store \<Rightarrow>
     (string + string) \<times> 's pipeline_store" where
  "store_pending_delivery kv x uuid session_id message c st =
     (let failed = (\<lambda>e s. (Inl (''kv store_pending_delivery: '' @ e), st\<lparr>pst_kv := s\<rparr>)) in
      case pl_delivery_to_vec x message of
        Inl e \<Rightarrow> (Inl e, st)
      | Inr bytes \<Rightarrow>
          (case kv_incr kv (delivery_seq_key session_id) 1 (Some delivery_ttl) c (pst_kv st) of
             (Inl e, s1) \<Rightarrow> failed e s1
           | (Inr sq, s1) \<Rightarrow>
               (let delivery_id = pad20 sq @ ''-'' @ uuid in
                case kv_put kv (delivery_key session_id delivery_id) bytes (Some delivery_ttl) c s1 of
                  (Inl e, s2) \<Rightarrow> failed e s2
                | (Inr _, s2) \<Rightarrow>
                    (Inr delivery_id,
                     st\<lparr>pst_kv := s2,
                        pst_sessions_with_pending := insert session_id (pst_sessions_with_pending st)\<rparr>))))"

text \<open>The loop of a drain: decode a row, stamp its id, and delete it; a row that does not decode is skipped.\<close>

fun drain_rows ::
    "('s, 'v) kv_ops \<Rightarrow> 'v pipeline_ext \<Rightarrow> string \<Rightarrow> (string \<times> 'v kv_entry) list \<Rightarrow> clock \<Rightarrow> 's \<Rightarrow>
     delivery_message list \<times> 's" where
  "drain_rows kv x p [] c s = ([], s)"
| "drain_rows kv x p ((key, v) # entries) c s =
     (case pl_delivery_from_slice x (ent_bytes v) of
        Inl _ \<Rightarrow> drain_rows kv x p entries c s
      | Inr msg \<Rightarrow>
          (let stamped = (case strip_prefix key p of None \<Rightarrow> msg | Some did \<Rightarrow> msg\<lparr>dm_delivery_id := did\<rparr>);
               (_, s1) = kv_delete kv key c s;
               (msgs, s2) = drain_rows kv x p entries c s1
           in (stamped # msgs, s2)))"

definition drain_pending_deliveries ::
    "('s, 'v) kv_ops \<Rightarrow> 'v pipeline_ext \<Rightarrow> string \<Rightarrow> clock \<Rightarrow> 's \<Rightarrow> (string + delivery_message list) \<times> 's" where
  "drain_pending_deliveries kv x session_id c s =
     (let p = delivery_session_prefix session_id in
      case kv_list_prefix kv p 1024 c s of
        (Inl e, s1) \<Rightarrow> (Inl (''kv take_pending_deliveries: '' @ e), s1)
      | (Inr entries, s1) \<Rightarrow>
          (case drain_rows kv x p (sort_key fst entries) c s1 of (msgs, s2) \<Rightarrow> (Inr msgs, s2)))"

definition take_pending_deliveries_scan ::
    "('s, 'v) kv_ops \<Rightarrow> 'v pipeline_ext \<Rightarrow> string \<Rightarrow> clock \<Rightarrow> 's pipeline_store \<Rightarrow>
     (string + delivery_message list) \<times> 's pipeline_store" where
  "take_pending_deliveries_scan kv x session_id c st =
     (case drain_pending_deliveries kv x session_id c (pst_kv st) of
        (r, s) \<Rightarrow> (r, \<lparr>pst_kv = s, pst_sessions_with_pending = pst_sessions_with_pending st - {session_id}\<rparr>))"

definition take_pending_deliveries ::
    "('s, 'v) kv_ops \<Rightarrow> 'v pipeline_ext \<Rightarrow> string \<Rightarrow> clock \<Rightarrow> 's pipeline_store \<Rightarrow>
     (string + delivery_message list) \<times> 's pipeline_store" where
  "take_pending_deliveries kv x session_id c st =
     (if session_id \<notin> pst_sessions_with_pending st then (Inr [], st)
      else take_pending_deliveries_scan kv x session_id c st)"

definition delete_delivery :: "('s, 'v) kv_ops \<Rightarrow> string \<Rightarrow> string \<Rightarrow> clock \<Rightarrow> 's \<Rightarrow> (string + unit) \<times> 's" where
  "delete_delivery kv session_id delivery_id c s =
     (if delivery_id = [] then (Inr (), s)
      else (case kv_delete kv (delivery_key session_id delivery_id) c s of
              (Inl e, s1) \<Rightarrow> (Inl (''kv delete_delivery: '' @ e), s1)
            | (Inr _, s1) \<Rightarrow> (Inr (), s1)))"

definition below_ack :: "string \<Rightarrow> int \<Rightarrow> string \<Rightarrow> bool" where
  "below_ack p acked_seq key =
     (case Option.bind (strip_prefix key p) delivery_seq_of of None \<Rightarrow> False | Some sq \<Rightarrow> sq < acked_seq)"

fun prune_rows :: "('s, 'v) kv_ops \<Rightarrow> string \<Rightarrow> int \<Rightarrow> (string \<times> 'v kv_entry) list \<Rightarrow> clock \<Rightarrow> 's \<Rightarrow> 's" where
  "prune_rows kv p acked_seq [] c s = s"
| "prune_rows kv p acked_seq ((key, _) # entries) c s =
     prune_rows kv p acked_seq entries c (if below_ack p acked_seq key then snd (kv_delete kv key c s) else s)"

definition ack_prune_deliveries ::
    "('s, 'v) kv_ops \<Rightarrow> string \<Rightarrow> string \<Rightarrow> clock \<Rightarrow> 's \<Rightarrow> (string + unit) \<times> 's" where
  "ack_prune_deliveries kv session_id acked_delivery_id c s =
     (let failed = (\<lambda>e. Inl (''kv ack_prune_deliveries: '' @ e)) in
      if acked_delivery_id = [] then (Inr (), s)
      else (case delivery_seq_of acked_delivery_id of
              None \<Rightarrow> delete_delivery kv session_id acked_delivery_id c s
            | Some acked_seq \<Rightarrow>
                (let p = delivery_session_prefix session_id in
                 case kv_delete kv (delivery_key session_id acked_delivery_id) c s of
                   (Inl e, s1) \<Rightarrow> (failed e, s1)
                 | (Inr False, s1) \<Rightarrow> (Inr (), s1)
                 | (Inr True, s1) \<Rightarrow>
                     (case kv_list_prefix kv p 1024 c s1 of
                        (Inl e, s2) \<Rightarrow> (failed e, s2)
                      | (Inr entries, s2) \<Rightarrow> (Inr (), prune_rows kv p acked_seq entries c s2)))))"

section \<open>Sweeps and lookups\<close>

definition all_pipelines ::
    "('s, 'v) kv_ops \<Rightarrow> 'v pipeline_ext \<Rightarrow> ('s, 'v) list_all_rows \<Rightarrow> clock \<Rightarrow> 's \<Rightarrow> ('s, pipeline_state list) kv_result" where
  "all_pipelines kv x la c s =
     (case la kv ''pipeline:'' c s of
        (Inl e, s1) \<Rightarrow> (Inl e, s1)
      | (Inr rows, s1) \<Rightarrow>
          (Inr (List.map_filter (\<lambda>(_, v). case pl_from_slice x (ent_bytes v) of Inl _ \<Rightarrow> None | Inr st \<Rightarrow> Some st) rows), s1))"

text \<open>\<open>(now - then).num_milliseconds() as u64\<close>: a negative difference wraps to a huge one.\<close>

definition elapsed_u64 :: "nat \<Rightarrow> nat \<Rightarrow> nat" where
  "elapsed_u64 now earlier = nat (num_milliseconds now earlier mod 2 ^ 64)"

definition list_expired_pipelines ::
    "('s, 'v) kv_ops \<Rightarrow> 'v pipeline_ext \<Rightarrow> ('s, 'v) list_all_rows \<Rightarrow> clock \<Rightarrow> 's \<Rightarrow> (string + string list) \<times> 's" where
  "list_expired_pipelines kv x la c s =
     (case all_pipelines kv x la c s of
        (Inl e, s1) \<Rightarrow> (Inl (''kv list_expired_pipelines: '' @ e), s1)
      | (Inr states, s1) \<Rightarrow>
          (Inr (map ps_pipeline_id
             (filter (\<lambda>st. ps_pipeline_timeout_ms st \<le> elapsed_u64 (clk_utc c) (ps_created_at st)) states)), s1))"

definition elicitation_over :: "clock \<Rightarrow> pipeline_state \<Rightarrow> bool" where
  "elicitation_over c st =
     (case (ps_suspended_at st, ps_elicitation_timeout_ms st) of
        (Some suspended_at, Some elic_ms) \<Rightarrow> elic_ms \<noteq> 0 \<and> elic_ms \<le> elapsed_u64 (clk_utc c) suspended_at
      | _ \<Rightarrow> False)"

definition list_elicitation_timed_out ::
    "('s, 'v) kv_ops \<Rightarrow> 'v pipeline_ext \<Rightarrow> ('s, 'v) list_all_rows \<Rightarrow> clock \<Rightarrow> 's \<Rightarrow>
     (string + (string \<times> string \<times> json) list) \<times> 's" where
  "list_elicitation_timed_out kv x la c s =
     (case all_pipelines kv x la c s of
        (Inl e, s1) \<Rightarrow> (Inl (''kv list_elicitation_timed_out: '' @ e), s1)
      | (Inr states, s1) \<Rightarrow>
          (Inr (map (\<lambda>st. (ps_pipeline_id st, ps_session_id st, ps_original_jsonrpc_id st))
             (filter (elicitation_over c) states)), s1))"

definition find_suspended_by_jsonrpc_id ::
    "('s, 'v) kv_ops \<Rightarrow> 'v pipeline_ext \<Rightarrow> string \<Rightarrow> string \<Rightarrow> clock \<Rightarrow> 's \<Rightarrow> (string + pipeline_state option) \<times> 's" where
  "find_suspended_by_jsonrpc_id kv x session_id original_jsonrpc_id c s =
     (let failed = (\<lambda>e. Inl (''kv find_suspended_by_jsonrpc_id: '' @ e)) in
      case kv_get kv (suspended_rpc_key x session_id original_jsonrpc_id) c s of
        (Inl e, s1) \<Rightarrow> (failed e, s1)
      | (Inr None, s1) \<Rightarrow> (Inr None, s1)
      | (Inr (Some pointer), s1) \<Rightarrow>
          (case kv_get kv (pipeline_key (pl_utf8_lossy x (ent_bytes pointer))) c s1 of
             (Inl e, s2) \<Rightarrow> (failed e, s2)
           | (Inr None, s2) \<Rightarrow> (Inr None, s2)
           | (Inr (Some v), s2) \<Rightarrow>
               (case pl_from_slice x (ent_bytes v) of
                  Inl _ \<Rightarrow> (Inr None, s2)
                | Inr st \<Rightarrow>
                    (Inr (if ps_suspended_at st \<noteq> None \<and> ps_session_id st = session_id \<and>
                            pl_render x (ps_original_jsonrpc_id st) = original_jsonrpc_id
                          then Some st else None), s2))))"

section \<open>The order of delivery ids\<close>

lemma digits_value_append: "digits_value (xs @ ys) = digits_value xs * 10 ^ length ys + digits_value ys"
proof (induction ys rule: rev_induct)
  case (snoc y ys)
  then show ?case
    using digits_value_snoc [of "xs @ ys" y] by (simp add: digits_value_snoc algebra_simps)
qed (simp add: digits_value_def)

lemma digits_value_Cons:
  "digits_value (ch # ds) = (of_char ch - 48) * 10 ^ length ds + digits_value ds"
  using digits_value_append [of "[ch]" ds] by (simp add: digits_value_def)

lemma digits_value_bound: "list_all is_digit ds \<Longrightarrow> digits_value ds < 10 ^ length ds"
proof (induction ds)
  case (Cons ch ds)
  then have "of_char ch - 48 \<le> (9::nat)" by (auto simp: is_digit_def)
  then have "(of_char ch - 48) * 10 ^ length ds \<le> 9 * (10::nat) ^ length ds" by (rule mult_le_mono1)
  moreover have "digits_value ds < 10 ^ length ds" using Cons by simp
  ultimately show ?case unfolding digits_value_Cons list.size add_Suc_right power_Suc add_0_right by linarith
qed (simp add: digits_value_def)

lemma digits_less:
  assumes "length s = length t" "list_all is_digit s" "list_all is_digit t" "digits_value s < digits_value t"
  shows "s < t"
  using assms
proof (induction s t rule: list_induct2)
  case (Cons c s d t)
  show ?case
  proof (cases "c = d")
    case True
    with Cons show ?thesis by (simp add: digits_value_Cons)
  next
    case False
    have dig: "of_char c \<in> {48..57::nat}" "of_char d \<in> {48..57::nat}"
      using Cons.prems by (auto simp: is_digit_def)
    have "digits_value t < 10 ^ length s" using digits_value_bound [of t] Cons by simp
    have "\<not> (of_char d :: nat) < of_char c"
    proof
      assume "(of_char d :: nat) < of_char c"
      then have "of_char d - 48 + 1 \<le> (of_char c - 48 :: nat)" using dig by auto
      then have "(of_char d - 48 + 1) * 10 ^ length s \<le> (of_char c - 48 :: nat) * 10 ^ length s"
        by (rule mult_le_mono1)
      with Cons.prems Cons.hyps \<open>digits_value t < 10 ^ length s\<close> show False
        by (simp add: digits_value_Cons)
    qed
    moreover have "(of_char c :: nat) \<noteq> of_char d" using False by simp
    ultimately have "(of_char c :: nat) < of_char d" by (metis nat_neq_iff)
    then have "c < d" by (simp add: less_char_def)
    then show ?thesis by simp
  qed
qed (simp add: digits_value_def)

lemma show_nat_length: "n < 10 ^ k \<Longrightarrow> 0 < k \<Longrightarrow> length (show_nat n) \<le> k"
proof (induction n arbitrary: k rule: show_nat.induct)
  case (1 n)
  show ?case
  proof (cases "n < 10")
    case True
    with 1(3) show ?thesis by (simp add: show_nat.simps [of n])
  next
    case False
    then obtain j where k: "k = Suc j" "0 < j"
      using 1(2,3) by (cases k; cases "k - 1") auto
    then have "n div 10 < 10 ^ j" using 1(2) by (simp add: less_mult_imp_div_less mult.commute)
    with 1(1) [OF False] k False show ?thesis by (simp add: show_nat.simps [of n])
  qed
qed

lemma pad20_props:
  assumes "0 \<le> n" "fits_i64 n"
  shows "length (pad20 n) = 20" "list_all is_digit (pad20 n)" "digits_value (pad20 n) = nat n"
proof -
  have "nat n < 10 ^ 20" using assms by (simp add: fits_i64_def nat_less_iff)
  then have len: "length (show_nat (nat n)) \<le> 20" by (rule show_nat_length) simp
  have pad: "pad20 n = replicate (20 - length (show_nat (nat n))) (CHR ''0'') @ show_nat (nat n)"
    using assms(1) by (simp add: pad20_def Let_def)
  from pad len show "length (pad20 n) = 20" by simp
  show "list_all is_digit (pad20 n)"
    using show_nat_hd by (auto simp: pad list_all_iff is_digit_def split: if_splits)
  have "digits_value (replicate j (CHR ''0'') @ ds) = digits_value ds" for j ds
    by (induction j) (simp_all add: digits_value_Cons)
  moreover have "digits_value (show_nat m) = m" for m
    using parse_digits_show_nat [of m] by (auto simp: parse_digits_def split: if_splits)
  ultimately show "digits_value (pad20 n) = nat n" by (simp add: pad)
qed

lemma pad20_less:
  assumes "0 \<le> a" "a < b" "fits_i64 a" "fits_i64 b"
  shows "pad20 a @ u < pad20 b @ w"
proof -
  have "pad20 a < pad20 b"
    using assms pad20_props [of a] pad20_props [of b] by (intro digits_less) auto
  then show ?thesis
    using assms pad20_props(1) [of a] pad20_props(1) [of b]
    by (simp add: list_less_def lexord_sufI)
qed

lemma delivery_seq_of_pad20:
  assumes "0 \<le> n" "fits_i64 n"
  shows "delivery_seq_of (pad20 n @ ''-'' @ u) = Some n"
proof -
  note pad = pad20_props [OF assms]
  have no_dash: "CHR ''-'' \<notin> set (pad20 n)" using pad(2) by (auto simp: list_all_iff is_digit_def)
  obtain ch rest where s: "pad20 n = ch # rest" using pad(1) by (cases "pad20 n") auto
  then have "is_digit ch" using pad(2) by simp
  then have "ch \<noteq> CHR ''-''" "ch \<noteq> CHR ''+''" by (auto simp: is_digit_def)
  moreover have "parse_digits (pad20 n) = Some (nat n)" using pad s by (simp add: parse_digits_def)
  moreover have "nat n < 2 ^ 63" using assms by (simp add: fits_i64_def nat_less_iff)
  ultimately have "parse_i64 (pad20 n) = Some n" using assms(1) s by (simp add: parse_i64_def)
  with pad(1) split_once_append [OF no_dash, of u] show ?thesis
    by (simp add: delivery_seq_of_def)
qed

end
