(* ===== verification/Pipeline_Engine.thy ===== *)
theory Pipeline_Engine
  imports Pipeline_Store
begin

text \<open>
  The pipeline interpreter of \<open>src/runtime/execution/pipeline.rs\<close> with the entry points of
  \<open>src/runtime/execution/mod.rs\<close>.  A pipeline runs its steps in order; each sees the results of the steps before
  it.  A step that needs the client (elicitation, sampling, roots, gather) saves the pipeline in the pipeline
  store and ends the run; \<open>resume_pipeline\<close> records the client's answer and goes on with the next step.

  The state of a dispatcher is the pipeline store, the progress it has reported, and the world: the clock,
  UUIDs, cancellation tokens and everything backends and plugins do.  Backend adapters, plugins, CEL, serde and
  the types of the wire crate are parameters.  Metrics, traces and audit events are left out.
\<close>

section \<open>Results and requests\<close>

datatype tool_content = TextContent string | OtherContent json

record tool_call_result =
  tcr_content :: "tool_content list"
  tcr_structured_content :: "json option"
  tcr_is_error :: bool
  tcr_meta :: "json option"

record server_request =
  srq_id :: json
  srq_method :: string
  srq_params :: json

datatype pipeline_outcome =
    OutcomeComplete tool_call_result
  | OutcomeSuspended server_request
  | OutcomeSuspendedMulti "server_request list"

datatype step_outcome =
    StepSuccess json
  | StepError string
  | StepFailed tool_call_result
  | StepGateAbort string

record elicitation_create_params =
  ecp_mode :: string
  ecp_message :: string
  ecp_requested_schema :: "json option"
  ecp_elicitation_id :: "string option"
  ecp_url :: "string option"
  ecp_presentation_hint :: "string option"
  ecp_meta :: "json option"

record sampling_create_message_params =
  scp_messages :: "sampling_message_config list"
  scp_max_tokens :: nat
  scp_model_preferences :: "json option"
  scp_system_prompt :: "string option"
  scp_include_context :: "string option"
  scp_temperature :: "json option"
  scp_stop_sequences :: "string list option"
  scp_metadata :: "json option"
  scp_tools :: "json list option"
  scp_tool_choice :: "json option"
  scp_meta :: "json option"

record mock_backend_config =
  mbc_response :: json
  mbc_delay_ms :: nat
  mbc_error :: bool
  mbc_error_message :: "string option"

datatype transform_result = TransformModified json | TransformUnchanged | TransformFailed string

datatype cel_output = CelBool bool | CelOther json

record expr_request_context =
  erc_principal_id :: "string option"
  erc_trust_level :: string
  erc_auth_provider :: "string option"
  erc_session_id :: "string option"
  erc_transport :: string
  erc_client_name :: "string option"
  erc_client_version :: "string option"
  erc_roles :: "string list"
  erc_groups :: "string list"
  erc_scopes :: "string list"
  erc_attributes :: "(string \<times> string) list"

record expr_context =
  ec_arguments :: json
  ec_tool_name :: string
  ec_context :: expr_request_context
  ec_steps :: "json option"

text \<open>Log levels of the two wires are their ranks; a cancellation token is a name of the world's.\<close>

record backend_request =
  bir_context :: request_context
  bir_tool_name :: string
  bir_arguments :: "json option"
  bir_expr_ctx :: expr_context
  bir_progress_token :: "json option"
  bir_request_log_level :: "nat option"
  bir_legacy_session_log_level :: "nat option"
  bir_client_capabilities :: json
  bir_cancellation_token :: "nat option"
  bir_idempotency_hint :: "(string \<times> string) option"

section \<open>The dispatcher\<close>

text \<open>
  \<open>xe_backend\<close> is a backend adapter for a kind and profile (the NATS, Kafka, HTTP and envelope helpers);
  \<open>xe_cel_compile\<close> and \<open>xe_cel_context\<close> give the error of a failed compilation and a failed context.
\<close>

record 'w engine_lib =
  xe_now :: "'w \<Rightarrow> clock"
  xe_uuid :: "'w \<Rightarrow> string \<times> 'w"
  xe_cancelled :: "nat \<Rightarrow> 'w \<Rightarrow> bool"
  xe_sleep :: "nat \<Rightarrow> 'w \<Rightarrow> 'w"
  xe_publish :: "string \<Rightarrow> delivery_message \<Rightarrow> 'w \<Rightarrow> 'w"
  xe_supports_elicitation :: "json \<Rightarrow> bool"
  xe_supports_elicitation_form :: "json \<Rightarrow> bool"
  xe_supports_elicitation_url :: "json \<Rightarrow> bool"
  xe_supports_sampling :: "json \<Rightarrow> bool"
  xe_supports_sampling_tools :: "json \<Rightarrow> bool"
  xe_supports_sampling_context :: "json \<Rightarrow> bool"
  xe_supports_roots :: "json \<Rightarrow> bool"
  xe_trace_object :: "json \<Rightarrow> 'w \<Rightarrow> json"
  xe_elicitation_params :: "elicitation_create_params \<Rightarrow> json"
  xe_sampling_params :: "sampling_create_message_params \<Rightarrow> json"
  xe_default_sampling_max_tokens :: nat
  xe_cel_compile :: "string \<Rightarrow> string option"
  xe_cel_context :: "expr_context \<Rightarrow> string option"
  xe_cel_execute :: "string \<Rightarrow> expr_context \<Rightarrow> string + cel_output"
  xe_cel_to_json :: "cel_output \<Rightarrow> json"
  xe_cel_debug :: "cel_output \<Rightarrow> string"
  xe_client :: "request_context \<Rightarrow> (string \<times> string option) option"
  xe_to_string :: "json \<Rightarrow> string + string"
  xe_from_str :: "string \<Rightarrow> json option"
  xe_display :: "json \<Rightarrow> string"
  xe_debug_str :: "string \<Rightarrow> string"
  xe_debug_list :: "string list \<Rightarrow> string"
  xe_utf8_lossy :: "string \<Rightarrow> string"
  xe_result_from_value :: "json \<Rightarrow> tool_call_result option"
  xe_mock_config :: "(string \<times> json) list \<Rightarrow> mock_backend_config option"
  xe_parse_log_level :: "string \<Rightarrow> nat option"
  xe_log_permits :: "nat \<Rightarrow> nat \<Rightarrow> bool"
  xe_parse_logging_level :: "string \<Rightarrow> nat option"
  xe_progress_notification :: "json \<Rightarrow> nat \<Rightarrow> nat \<Rightarrow> string \<Rightarrow> json option"
  xe_backend :: "string \<Rightarrow> string \<Rightarrow> backend_request \<Rightarrow> 'w \<Rightarrow> tool_call_result \<times> 'w"
  xe_sql_registered :: bool
  xe_sql_transaction :: "string \<Rightarrow> sql_tx_nested_step list \<Rightarrow> json \<Rightarrow> 'w \<Rightarrow> (string + json) \<times> 'w"
  xe_sql_execute :: "string \<Rightarrow> string \<Rightarrow> string \<Rightarrow> backend_request \<Rightarrow> 'w \<Rightarrow> (string + string) \<times> 'w"
  xe_transform_registered :: "string \<Rightarrow> bool"
  xe_transform :: "string \<Rightarrow> json \<Rightarrow> json \<Rightarrow> backend_request \<Rightarrow> 'w \<Rightarrow> transform_result \<times> 'w"

record ('w, 's, 'v) engine =
  en_ext :: "'w engine_lib"
  en_kv :: "('s, 'v) kv_ops"
  en_px :: "'v pipeline_ext"
  en_pipeline_configs :: "string \<Rightarrow> pipeline_backend_config option"
  en_has_bus :: bool
  en_has_store :: bool

record ('w, 's) engine_state =
  eg_world :: 'w
  eg_store :: "'s pipeline_store"
  eg_progress :: "string \<Rightarrow> string \<Rightarrow> nat option"

definition eg_now :: "('w, 's, 'v) engine \<Rightarrow> ('w, 's) engine_state \<Rightarrow> clock" where
  "eg_now en eg = xe_now (en_ext en) (eg_world eg)"

text \<open>A call on the key-value store below the pipeline store, at the current time.\<close>

definition on_kv ::
  "('w, 's, 'v) engine \<Rightarrow> (clock \<Rightarrow> 's \<Rightarrow> 'r \<times> 's) \<Rightarrow> ('w, 's) engine_state \<Rightarrow> 'r \<times> ('w, 's) engine_state" where
  "on_kv en f eg =
     (let (r, s) = f (eg_now en eg) (pst_kv (eg_store eg)) in (r, eg\<lparr>eg_store := (eg_store eg)\<lparr>pst_kv := s\<rparr>\<rparr>))"

definition in_world :: "('w \<Rightarrow> 'r \<times> 'w) \<Rightarrow> ('w, 's) engine_state \<Rightarrow> 'r \<times> ('w, 's) engine_state" where
  "in_world f eg = (let (r, w) = f (eg_world eg) in (r, eg\<lparr>eg_world := w\<rparr>))"

definition error_result :: "string \<Rightarrow> tool_call_result" where
  "error_result text = \<lparr>tcr_content = [TextContent text], tcr_structured_content = None, tcr_is_error = True, tcr_meta = None\<rparr>"

section \<open>Helpers of the steps\<close>

definition coerce_sampling_max_tokens :: "'w engine_lib \<Rightarrow> nat \<Rightarrow> nat" where
  "coerce_sampling_max_tokens x configured = (if configured = 0 then xe_default_sampling_max_tokens x else configured)"

fun text_of :: "tool_content \<Rightarrow> string option" where
  "text_of (TextContent t) = Some t"
| "text_of (OtherContent _) = None"

definition extract_error_message :: "tool_call_result \<Rightarrow> string option" where
  "extract_error_message result =
     (if \<not> tcr_is_error result then None
      else case List.map_filter text_of (tcr_content result) of [] \<Rightarrow> None | t # _ \<Rightarrow> Some t)"

text \<open>The form restriction of SEP-1330 on a requested schema.\<close>

datatype form_error =
    SchemaNotObject
  | TopLevelType json
  | PropertyNotObject string
  | ArrayWithoutItems string
  | NotPrimitive string string
  | UnionEntryNotString string
  | UnionNotPrimitive string string
  | TypeNotStringOrArray string json
  | PropertyWithoutType string

definition PRIMITIVES :: "string list" where
  "PRIMITIVES = [''string'', ''number'', ''integer'', ''boolean'', ''null'']"

fun union_error :: "string \<Rightarrow> json list \<Rightarrow> form_error option" where
  "union_error name [] = None"
| "union_error name (t # ts) =
     (case as_str t of
        None \<Rightarrow> Some (UnionEntryNotString name)
      | Some s \<Rightarrow> if s \<notin> set PRIMITIVES then Some (UnionNotPrimitive name s) else union_error name ts)"

definition property_error :: "string \<Rightarrow> json \<Rightarrow> form_error option" where
  "property_error name prop =
     (case as_object prop of
        None \<Rightarrow> Some (PropertyNotObject name)
      | Some pobj \<Rightarrow>
          if map_of pobj ''enum'' \<noteq> None then None
          else if map_of pobj ''oneOf'' \<noteq> None \<or> map_of pobj ''anyOf'' \<noteq> None then None
          else (case map_of pobj ''type'' of
                  Some (JStr s) \<Rightarrow>
                    if s = ''array'' then (if map_of pobj ''items'' = None then Some (ArrayWithoutItems name) else None)
                    else if s \<notin> set PRIMITIVES then Some (NotPrimitive name s) else None
                | Some (JArr items) \<Rightarrow> union_error name items
                | Some other \<Rightarrow> Some (TypeNotStringOrArray name other)
                | None \<Rightarrow> Some (PropertyWithoutType name)))"

fun properties_error :: "(string \<times> json) list \<Rightarrow> form_error option" where
  "properties_error [] = None"
| "properties_error ((name, prop) # props) =
     (case property_error name prop of Some e \<Rightarrow> Some e | None \<Rightarrow> properties_error props)"

definition validate_elicitation_requested_schema :: "json option \<Rightarrow> form_error option" where
  "validate_elicitation_requested_schema schema =
     (case schema of
        None \<Rightarrow> None
      | Some v \<Rightarrow>
          (case as_object v of
             None \<Rightarrow> Some SchemaNotObject
           | Some obj \<Rightarrow>
               (case map_of obj ''type'' of
                  Some t \<Rightarrow> if t \<noteq> JStr ''object'' then Some (TopLevelType t)
                             else (case Option.bind (map_of obj ''properties'') as_object of
                                     None \<Rightarrow> None | Some props \<Rightarrow> properties_error props)
                | None \<Rightarrow> (case Option.bind (map_of obj ''properties'') as_object of
                             None \<Rightarrow> None | Some props \<Rightarrow> properties_error props))))"

abbreviation quoted :: "string \<Rightarrow> string" where
  "quoted s \<equiv> [CHR 0x27] @ s @ [CHR 0x27]"

definition other_forms :: string where
  "other_forms = quoted ''enum'' @ '' / '' @ quoted ''oneOf'' @ '' / '' @ quoted ''anyOf'' @ '')''"

fun form_error_text :: "'w engine_lib \<Rightarrow> form_error \<Rightarrow> string" where
  "form_error_text x SchemaNotObject = ''requestedSchema must be a JSON object''"
| "form_error_text x (TopLevelType t) =
     ''requestedSchema top-level type must be '' @ quoted ''object'' @ '', got '' @ xe_display x t"
| "form_error_text x (PropertyNotObject name) = ''requestedSchema.properties.'' @ name @ '' must be an object schema''"
| "form_error_text x (ArrayWithoutItems name) =
     ''requestedSchema.properties.'' @ name @ '' is type '' @ quoted ''array'' @ '' but lacks `items`''"
| "form_error_text x (NotPrimitive name s) =
     ''requestedSchema.properties.'' @ name @ ''.type '' @ xe_debug_str x s @
     '' is not a primitive (allowed: '' @ xe_debug_list x PRIMITIVES @ '', '' @ quoted ''array'' @ '', or one of '' @ other_forms"
| "form_error_text x (UnionEntryNotString name) =
     ''requestedSchema.properties.'' @ name @ ''.type entries must be strings''"
| "form_error_text x (UnionNotPrimitive name s) =
     ''requestedSchema.properties.'' @ name @ ''.type union contains non-primitive '' @ xe_debug_str x s"
| "form_error_text x (TypeNotStringOrArray name other) =
     ''requestedSchema.properties.'' @ name @ ''.type must be a string or array, got '' @ xe_display x other"
| "form_error_text x (PropertyWithoutType name) =
     ''requestedSchema.properties.'' @ name @ '' must declare a primitive '' @ quoted ''type'' @ '' (or '' @ other_forms"

text \<open>\<open>mint_server_request_id\<close>: a fresh UUID; its check of the originating request id only reports.\<close>

definition mint_server_request_id ::
  "('w, 's, 'v) engine \<Rightarrow> ('w, 's) engine_state \<Rightarrow> string \<times> ('w, 's) engine_state" where
  "mint_server_request_id en eg = (let (u, eg') = in_world (xe_uuid (en_ext en)) eg in (''srv-req-'' @ u, eg'))"

definition inject_trace_into_meta :: "'w engine_lib \<Rightarrow> json option \<Rightarrow> json option \<Rightarrow> 'w \<Rightarrow> json option" where
  "inject_trace_into_meta x meta tc w =
     (case tc of
        None \<Rightarrow> meta
      | Some t \<Rightarrow>
          (case xe_trace_object x t w of
             JObj trace_map \<Rightarrow>
               (let out = (case meta of
                             Some (JObj existing) \<Rightarrow> existing
                           | Some other \<Rightarrow> [(''_original'', other)]
                           | None \<Rightarrow> [])
                in Some (JObj (fold (\<lambda>(k, v) obj. AList.update k v obj) trace_map out)))
           | _ \<Rightarrow> meta))"

section \<open>Outcomes of steps\<close>

definition VERBATIM_RESULT_KEY :: string where
  "VERBATIM_RESULT_KEY = ''__mcpg_verbatim_result''"

definition from_tool_result :: "'w engine_lib \<Rightarrow> tool_call_result \<Rightarrow> step_outcome" where
  "from_tool_result x result =
     (if tcr_is_error result then StepFailed result
      else StepSuccess
        (case tcr_structured_content result of
           Some v \<Rightarrow> v
         | None \<Rightarrow>
             (case tcr_content result of
                TextContent text # _ \<Rightarrow> (case xe_from_str x text of None \<Rightarrow> JNull | Some v \<Rightarrow> v)
              | _ \<Rightarrow> JNull)))"

definition completed_result :: "'w engine_lib \<Rightarrow> json \<Rightarrow> tool_call_result" where
  "completed_result x out =
     (case Option.bind (json_get out VERBATIM_RESULT_KEY) (xe_result_from_value x) of
        Some result \<Rightarrow> result
      | None \<Rightarrow>
          (let text = (case out of JStr s \<Rightarrow> s | other \<Rightarrow> (case xe_to_string x other of Inr t \<Rightarrow> t | Inl _ \<Rightarrow> ''null''))
           in \<lparr>tcr_content = [TextContent text],
               tcr_structured_content = (if as_object out = None then None else Some out),
               tcr_is_error = False, tcr_meta = None\<rparr>))"

fun stopped_result :: "'w engine_lib \<Rightarrow> string \<Rightarrow> string \<Rightarrow> nat \<Rightarrow> nat \<Rightarrow> step_outcome \<Rightarrow> tool_call_result" where
  "stopped_result x profile sid completed total_steps (StepFailed result) = result\<lparr>tcr_is_error := True\<rparr>"
| "stopped_result x profile sid completed total_steps (StepError e) =
     \<lparr>tcr_content = [TextContent (''pipeline '' @ quoted profile @ '' failed at step '' @ quoted sid @ '': '' @ e)],
      tcr_structured_content = Some (JObj [(''pipeline'', JStr profile), (''failed_step'', JStr sid), (''error'', JStr e),
        (''completed_steps'', JNum (show_nat completed)), (''total_steps'', JNum (show_nat total_steps))]),
      tcr_is_error = True, tcr_meta = None\<rparr>"
| "stopped_result x profile sid completed total_steps (StepGateAbort reason) =
     \<lparr>tcr_content = [TextContent reason],
      tcr_structured_content = Some (JObj [(''pipeline'', JStr profile), (''gate_step'', JStr sid), (''reason'', JStr reason),
        (''completed_steps'', JNum (show_nat completed)), (''total_steps'', JNum (show_nat total_steps))]),
      tcr_is_error = True, tcr_meta = None\<rparr>"
| "stopped_result x profile sid completed total_steps (StepSuccess out) = completed_result x out"

definition completed_steps_to_value :: "(string \<times> step_result) list \<Rightarrow> json" where
  "completed_steps_to_value completed =
     JObj (map (\<lambda>(i, r). (i, JObj [(''output'', sr_output r), (''is_error'', JBool (sr_is_error r)),
                                   (''duration_ms'', JNum (show_nat (sr_duration_ms r)))])) completed)"

section \<open>Expressions\<close>

definition run_cel :: "'w engine_lib \<Rightarrow> string \<Rightarrow> expr_context \<Rightarrow> string + cel_output" where
  "run_cel x trimmed ctx =
     (case xe_cel_compile x trimmed of
        Some e \<Rightarrow> Inl (''failed to compile CEL: '' @ e)
      | None \<Rightarrow>
          (case xe_cel_context x ctx of
             Some e \<Rightarrow> Inl (''failed to build CEL context: '' @ e)
           | None \<Rightarrow>
               (case xe_cel_execute x trimmed ctx of
                  Inl e \<Rightarrow> Inl (''CEL execution failed: '' @ e)
                | Inr out \<Rightarrow> Inr out)))"

definition evaluate_pipeline_cel_bool :: "'w engine_lib \<Rightarrow> string \<Rightarrow> expr_context \<Rightarrow> string + bool" where
  "evaluate_pipeline_cel_bool x expression ctx =
     (let trimmed = trim expression in
      if trimmed = ''true'' then Inr True
      else if trimmed = ''false'' then Inr False
      else (case run_cel x trimmed ctx of
              Inl e \<Rightarrow> Inl e
            | Inr (CelBool b) \<Rightarrow> Inr b
            | Inr other \<Rightarrow> Inl (''gate expression must return boolean, got: '' @ xe_cel_debug x other)))"

definition evaluate_pipeline_cel_transform :: "'w engine_lib \<Rightarrow> string \<Rightarrow> expr_context \<Rightarrow> string + json" where
  "evaluate_pipeline_cel_transform x expression ctx =
     (case run_cel x (trim expression) ctx of Inl e \<Rightarrow> Inl e | Inr out \<Rightarrow> Inr (xe_cel_to_json x out))"

definition resolve_step_input :: "'w engine_lib \<Rightarrow> pipeline_step \<Rightarrow> expr_context \<Rightarrow> string + json" where
  "resolve_step_input x step ctx =
     (case input_transform step of
        Some expr \<Rightarrow> evaluate_pipeline_cel_transform x expr ctx
      | None \<Rightarrow> Inr (ec_arguments ctx))"

definition trust_label :: "request_trust_level \<Rightarrow> string" where
  "trust_label t =
     (case t of Unauthenticated \<Rightarrow> ''unauthenticated'' | HeaderAsserted \<Rightarrow> ''header_asserted'' | VerifiedTrust \<Rightarrow> ''verified'')"

definition expr_request_context_of :: "'w engine_lib \<Rightarrow> request_context \<Rightarrow> expr_request_context" where
  "expr_request_context_of x rc =
     \<lparr>erc_principal_id = principal_id (rc_identity rc), erc_trust_level = trust_label (identity_trust_level (rc_identity rc)),
      erc_auth_provider = identity_auth_provider (rc_identity rc), erc_session_id = rc_session_id rc,
      erc_transport = (case rc_transport rc of HttpTransport \<Rightarrow> ''http'' | StdioTransport \<Rightarrow> ''stdio''),
      erc_client_name = map_option fst (xe_client x rc), erc_client_version = Option.bind (xe_client x rc) snd,
      erc_roles = identity_roles (rc_identity rc), erc_groups = identity_groups (rc_identity rc),
      erc_scopes = identity_scopes (rc_identity rc), erc_attributes = identity_attributes (rc_identity rc)\<rparr>"

definition to_expr_context :: "'w engine_lib \<Rightarrow> request_context \<Rightarrow> string \<Rightarrow> json option \<Rightarrow> expr_context" where
  "to_expr_context x rc tool_name arguments =
     \<lparr>ec_arguments = (case arguments of None \<Rightarrow> JObj [] | Some a \<Rightarrow> a), ec_tool_name = tool_name,
      ec_context = expr_request_context_of x rc, ec_steps = None\<rparr>"

section \<open>Steps that run at once\<close>

definition build_step_request :: "backend_request \<Rightarrow> json \<Rightarrow> backend_request" where
  "build_step_request rq step_input =
     rq\<lparr>bir_arguments := Some step_input, bir_expr_ctx := (bir_expr_ctx rq)\<lparr>ec_arguments := step_input\<rparr>\<rparr>"

definition default_mock_config :: mock_backend_config where
  "default_mock_config = \<lparr>mbc_response = JNull, mbc_delay_ms = 0, mbc_error = False, mbc_error_message = None\<rparr>"

definition execute_pipeline_mock_step ::
  "'w engine_lib \<Rightarrow> mock_backend_config \<Rightarrow> 'w \<Rightarrow> step_outcome \<times> 'w" where
  "execute_pipeline_mock_step x config w =
     (let w' = (if 0 < mbc_delay_ms config then xe_sleep x (mbc_delay_ms config) w else w) in
      (if mbc_error config
       then StepError (case mbc_error_message config of None \<Rightarrow> ''mock step error'' | Some m \<Rightarrow> m)
       else StepSuccess (mbc_response config), w'))"

definition execute_transform_step :: "'w engine_lib \<Rightarrow> string \<Rightarrow> expr_context \<Rightarrow> step_outcome" where
  "execute_transform_step x expression ctx =
     (case evaluate_pipeline_cel_transform x expression ctx of
        Inr v \<Rightarrow> StepSuccess v
      | Inl e \<Rightarrow> StepError (''transform evaluation failed: '' @ e))"

definition execute_cel_gate_step :: "'w engine_lib \<Rightarrow> cel_gate_step \<Rightarrow> expr_context \<Rightarrow> step_outcome" where
  "execute_cel_gate_step x gate ctx =
     (case evaluate_pipeline_cel_bool x (cgs_expression gate) ctx of
        Inr True \<Rightarrow> StepSuccess (JBool True)
      | Inr False \<Rightarrow>
          StepGateAbort (case cgs_error_message gate of
                           Some m \<Rightarrow> m | None \<Rightarrow> default_cel_gate_error_message (cgs_id gate))
      | Inl e \<Rightarrow> StepError (''gate expression evaluation failed: '' @ e))"

definition json_strings :: "string list \<Rightarrow> json" where
  "json_strings xs = JArr (map JStr xs)"

definition json_opt :: "string option \<Rightarrow> json" where
  "json_opt v = (case v of None \<Rightarrow> JNull | Some s \<Rightarrow> JStr s)"

definition transform_context_value :: "expr_context \<Rightarrow> json" where
  "transform_context_value ctx =
     (let rc = ec_context ctx in
      JObj [(''arguments'', ec_arguments ctx), (''tool_name'', JStr (ec_tool_name ctx)),
        (''steps'', case ec_steps ctx of None \<Rightarrow> JNull | Some v \<Rightarrow> v),
        (''context'', JObj [(''principal_id'', json_opt (erc_principal_id rc)), (''trust_level'', JStr (erc_trust_level rc)),
           (''session_id'', json_opt (erc_session_id rc)), (''transport'', JStr (erc_transport rc)),
           (''roles'', json_strings (erc_roles rc)), (''groups'', json_strings (erc_groups rc)),
           (''scopes'', json_strings (erc_scopes rc)),
           (''attributes'', JObj (map (\<lambda>(k, v). (k, JStr v)) (erc_attributes rc)))])])"

definition execute_plugin_transform_step ::
  "'w engine_lib \<Rightarrow> plugin_transform_step \<Rightarrow> expr_context \<Rightarrow> backend_request \<Rightarrow> 'w \<Rightarrow> step_outcome \<times> 'w" where
  "execute_plugin_transform_step x step ctx rq w =
     (if \<not> xe_transform_registered x (pts_plugin step)
      then (StepError (''plugin_transform step references transform plugin '' @ quoted (pts_plugin step) @
              '' which is not registered''), w)
      else
        (let context_value = transform_context_value ctx in
         case xe_transform x (pts_plugin step) context_value (pts_config step) rq w of
           (TransformModified v, w') \<Rightarrow> (StepSuccess v, w')
         | (TransformUnchanged, w') \<Rightarrow> (StepSuccess context_value, w')
         | (TransformFailed m, w') \<Rightarrow> (StepError (''plugin_transform '' @ quoted (pts_plugin step) @ '' failed: '' @ m), w')))"

definition log_step_suppressed :: "'w engine_lib \<Rightarrow> string \<Rightarrow> bool \<Rightarrow> nat option \<Rightarrow> nat option \<Rightarrow> bool" where
  "log_step_suppressed x level version_is_modern request_log_level legacy_session_log_level =
     (if version_is_modern
      then (case request_log_level of
              None \<Rightarrow> True
            | Some minimum \<Rightarrow>
                (case xe_parse_log_level x level of None \<Rightarrow> False | Some msg \<Rightarrow> \<not> xe_log_permits x msg minimum))
      else (case legacy_session_log_level of
              None \<Rightarrow> False
            | Some minimum \<Rightarrow>
                (case xe_parse_logging_level x level of None \<Rightarrow> False | Some msg \<Rightarrow> msg < minimum)))"

text \<open>Buffers a notification for a later stream of the session and publishes it.\<close>

definition buffer_and_publish ::
  "('w, 's, 'v) engine \<Rightarrow> string \<Rightarrow> delivery_message \<Rightarrow> ('w, 's) engine_state \<Rightarrow> ('w, 's) engine_state" where
  "buffer_and_publish en session_id message eg =
     (let eg1 = (if en_has_store en
                 then (let (u, eg0) = in_world (xe_uuid (en_ext en)) eg in
                       eg0\<lparr>eg_store := snd (store_pending_delivery (en_kv en) (en_px en) u session_id message (eg_now en eg0) (eg_store eg0))\<rparr>)
                 else eg)
      in if en_has_bus en then eg1\<lparr>eg_world := xe_publish (en_ext en) session_id message (eg_world eg1)\<rparr> else eg1)"

definition notification_json :: "string \<Rightarrow> (string \<times> json) list \<Rightarrow> json" where
  "notification_json meth params = JObj [(''jsonrpc'', JStr ''2.0''), (''method'', JStr meth), (''params'', JObj params)]"

definition publish_log_notification ::
  "('w, 's, 'v) engine \<Rightarrow> string \<Rightarrow> string \<Rightarrow> string option \<Rightarrow> json \<Rightarrow> bool \<Rightarrow> nat option \<Rightarrow> nat option \<Rightarrow>
     ('w, 's) engine_state \<Rightarrow> ('w, 's) engine_state" where
  "publish_log_notification en session_id level logger data version_is_modern request_log_level legacy_level eg =
     (if log_step_suppressed (en_ext en) level version_is_modern request_log_level legacy_level then eg
      else if \<not> en_has_bus en \<and> \<not> en_has_store en then eg
      else buffer_and_publish en session_id
             \<lparr>dm_kind = Notification,
              dm_jsonrpc_message = notification_json ''notifications/message''
                ([(''level'', JStr level)] @ (case logger of None \<Rightarrow> [] | Some l \<Rightarrow> [(''logger'', JStr l)]) @ [(''data'', data)]),
              dm_delivery_id = []\<rparr> eg)"

definition publish_progress_notification ::
  "('w, 's, 'v) engine \<Rightarrow> string \<Rightarrow> json option \<Rightarrow> progress_step \<Rightarrow> ('w, 's) engine_state \<Rightarrow> ('w, 's) engine_state" where
  "publish_progress_notification en session_id progress_token step eg =
     (case progress_token of
        None \<Rightarrow> eg
      | Some token \<Rightarrow>
          if \<not> en_has_bus en \<and> \<not> en_has_store en then eg
          else buffer_and_publish en session_id
                 \<lparr>dm_kind = ProgressNotification,
                  dm_jsonrpc_message = notification_json ''notifications/progress''
                    ([(''progressToken'', token), (''progress'', pgs_progress step)] @
                     (case pgs_total step of None \<Rightarrow> [] | Some t \<Rightarrow> [(''total'', t)]) @
                     (case pgs_message step of None \<Rightarrow> [] | Some m \<Rightarrow> [(''message'', JStr m)])),
                  dm_delivery_id = []\<rparr> eg)"

definition progress_output :: "progress_step \<Rightarrow> json" where
  "progress_output step =
     JObj [(''progress'', pgs_progress step), (''total'', case pgs_total step of None \<Rightarrow> JNull | Some t \<Rightarrow> t),
           (''message'', json_opt (pgs_message step))]"

definition execute_sql_tx_step :: "'w engine_lib \<Rightarrow> sql_tx_step \<Rightarrow> json \<Rightarrow> 'w \<Rightarrow> step_outcome \<times> 'w" where
  "execute_sql_tx_step x cfg step_input w =
     (case xe_sql_transaction x (stx_backend cfg) (stx_steps cfg) step_input w of
        (Inr v, w') \<Rightarrow> (StepSuccess v, w')
      | (Inl e, w') \<Rightarrow> (StepError (''sql_tx '' @ quoted (stx_id cfg) @ '': '' @ e), w'))"

definition execute_sql_await_step ::
  "'w engine_lib \<Rightarrow> sql_await_step \<Rightarrow> json \<Rightarrow> backend_request \<Rightarrow> 'w \<Rightarrow> step_outcome \<times> 'w" where
  "execute_sql_await_step x cfg step_input rq w =
     (case xe_to_string x step_input of
        Inl e \<Rightarrow> (StepError (''sql_await '' @ quoted (saw_id cfg) @
                     '': failed to serialize step input as binding payload: '' @ e), w)
      | Inr payload \<Rightarrow>
          (case xe_sql_execute x (saw_backend cfg) (rc_request_id (bir_context rq) @ ''::'' @ saw_id cfg) payload rq w of
             (Inr response, w') \<Rightarrow>
               (StepSuccess (case xe_from_str x response of Some v \<Rightarrow> v | None \<Rightarrow> JStr (xe_utf8_lossy x response)), w')
           | (Inl e, w') \<Rightarrow> (StepError (''sql_await '' @ quoted (saw_id cfg) @ '' on binding '' @ quoted (saw_backend cfg) @ '': '' @ e), w')))"

definition execute_backend_step ::
  "'w engine_lib \<Rightarrow> string \<Rightarrow> backend_step \<Rightarrow> json \<Rightarrow> backend_request \<Rightarrow> 'w \<Rightarrow> step_outcome \<times> 'w" where
  "execute_backend_step x profile step step_input rq w =
     (if bst_kind step = ''mock''
      then execute_pipeline_mock_step x
             (case xe_mock_config x (bst_spec step) of None \<Rightarrow> default_mock_config | Some c \<Rightarrow> c) w
      else
        (let (result, w') = xe_backend x (bst_kind step) (profile @ ''._step_.'' @ bst_id step) (build_step_request rq step_input) w
         in (from_tool_result x result, w')))"

text \<open>
  One step that does not suspend.  The synchronous path answers a suspending step with an error; the
  suspending path never gets here with one.
\<close>

definition execute_step ::
  "('w, 's, 'v) engine \<Rightarrow> string \<Rightarrow> string \<Rightarrow> backend_request \<Rightarrow> expr_context \<Rightarrow> pipeline_step \<Rightarrow> json \<Rightarrow>
     ('w, 's) engine_state \<Rightarrow> step_outcome \<times> ('w, 's) engine_state" where
  "execute_step en profile session_id rq ctx step step_input eg =
     (let x = en_ext en in
      case step of
        StepCelGate gate \<Rightarrow> (execute_cel_gate_step x gate ctx, eg)
      | StepTransform t \<Rightarrow> (execute_transform_step x (tst_expression t) ctx, eg)
      | StepPluginTransform t \<Rightarrow> in_world (execute_plugin_transform_step x t ctx rq) eg
      | StepLog l \<Rightarrow>
          (StepSuccess (lst_data l),
           publish_log_notification en session_id (lst_level l)
             (case lst_logger l of Some name \<Rightarrow> Some name | None \<Rightarrow> Some profile) (lst_data l)
             (rc_negotiated_version (bir_context rq) = V_2026_07_28) (bir_request_log_level rq)
             (bir_legacy_session_log_level rq) eg)
      | StepProgress p \<Rightarrow>
          (StepSuccess (progress_output p), publish_progress_notification en session_id (bir_progress_token rq) p eg)
      | StepSqlTx t \<Rightarrow>
          if xe_sql_registered x then in_world (execute_sql_tx_step x t step_input) eg
          else (StepError (''sql_tx pipeline step: no '' @ quoted ''sql'' @ '' backend is registered''), eg)
      | StepSqlAwait a \<Rightarrow>
          if xe_sql_registered x then in_world (execute_sql_await_step x a step_input rq) eg
          else (StepError (''sql_await pipeline step: no '' @ quoted ''sql'' @ '' backend is registered''), eg)
      | StepBackend b \<Rightarrow> in_world (execute_backend_step x profile b step_input rq) eg
      | _ \<Rightarrow> (StepError ''suspending steps require the pipeline execution path'', eg))"

section \<open>Steps that ask the client\<close>

definition gating_error :: "'w engine_lib \<Rightarrow> json \<Rightarrow> pipeline_step \<Rightarrow> string option" where
  "gating_error x caps step =
     (case step of
        StepElicitation e \<Rightarrow>
          if \<not> xe_supports_elicitation x caps
          then Some ''client did not advertise elicitation capability; cannot emit elicitation/create''
          else if els_mode e = FormMode \<and> \<not> xe_supports_elicitation_form x caps
          then Some ''client did not advertise form-mode elicitation; this pipeline step requires it''
          else if els_mode e = UrlMode \<and> \<not> xe_supports_elicitation_url x caps
          then Some ''client did not advertise url-mode elicitation; configure the step with mode: form or upgrade the client''
          else None
      | StepSampling _ \<Rightarrow>
          if \<not> xe_supports_sampling x caps
          then Some ''client did not advertise sampling capability; cannot emit sampling/createMessage'' else None
      | StepRootsList _ \<Rightarrow>
          if \<not> xe_supports_roots x caps
          then Some ''client did not advertise roots capability; cannot emit roots/list'' else None
      | _ \<Rightarrow> None)"

fun skip_if_unsupported :: "pipeline_step \<Rightarrow> bool" where
  "skip_if_unsupported (StepElicitation s) = els_skip_if_unsupported s"
| "skip_if_unsupported (StepSampling s) = sms_skip_if_unsupported s"
| "skip_if_unsupported (StepRootsList s) = rls_skip_if_unsupported s"
| "skip_if_unsupported _ = False"

text \<open>A step's result is recorded and the index moves to the next step.\<close>

definition record_step :: "string \<Rightarrow> step_result \<Rightarrow> pipeline_state \<Rightarrow> pipeline_state" where
  "record_step sid r st =
     st\<lparr>ps_completed_steps := AList.update sid r (ps_completed_steps st),
        ps_current_step_index := ps_current_step_index st + 1\<rparr>"

definition skipped_result :: "string \<Rightarrow> step_result" where
  "skipped_result message =
     \<lparr>sr_output = JObj [(''skipped'', JBool True), (''reason'', JStr message)], sr_is_error = False, sr_duration_ms = 0\<rparr>"

text \<open>The state a suspension saves, and the request it waits for; failures of the store are ignored.\<close>

definition suspended_state :: "nat \<Rightarrow> string option \<Rightarrow> nat \<Rightarrow> pipeline_state \<Rightarrow> pipeline_state" where
  "suspended_state now pending timeout_ms st =
     st\<lparr>ps_suspended_at := Some now, ps_pending_server_request_id := pending, ps_elicitation_timeout_ms := Some timeout_ms,
        ps_state_version := ps_state_version st + 1\<rparr>"

definition pending_request :: "nat \<Rightarrow> string \<Rightarrow> string \<Rightarrow> nat \<Rightarrow> pipeline_state \<Rightarrow> pending_server_request" where
  "pending_request now server_request_id sid timeout_ms st =
     \<lparr>psr_server_request_id = server_request_id, psr_pipeline_id = ps_pipeline_id st, psr_session_id = ps_session_id st,
      psr_step_id = sid, psr_timeout_ms = timeout_ms, psr_created_at = now\<rparr>"

definition suspend_on ::
  "('w, 's, 'v) engine \<Rightarrow> string \<Rightarrow> string \<Rightarrow> nat \<Rightarrow> pipeline_state \<Rightarrow> ('w, 's) engine_state \<Rightarrow> ('w, 's) engine_state" where
  "suspend_on en server_request_id sid timeout_ms st eg =
     (let now = clk_utc (eg_now en eg); st' = suspended_state now (Some server_request_id) timeout_ms st;
          (_, eg1) = on_kv en (save_pipeline (en_kv en) (en_px en) st') eg;
          (_, eg2) = on_kv en (save_pending_server_request (en_kv en) (en_px en) (pending_request now server_request_id sid timeout_ms st')) eg1
      in eg2)"

definition request_id_for ::
  "('w, 's, 'v) engine \<Rightarrow> string option \<Rightarrow> ('w, 's) engine_state \<Rightarrow> string \<times> ('w, 's) engine_state" where
  "request_id_for en token eg = (case token of Some t \<Rightarrow> (t, eg) | None \<Rightarrow> mint_server_request_id en eg)"

definition suspend_elicitation ::
  "('w, 's, 'v) engine \<Rightarrow> backend_request \<Rightarrow> elicitation_step \<Rightarrow> pipeline_state \<Rightarrow> ('w, 's) engine_state \<Rightarrow>
     pipeline_outcome \<times> ('w, 's) engine_state" where
  "suspend_elicitation en rq e st eg =
     (let x = en_ext en;
          (server_request_id, eg1) = request_id_for en (els_correlation_token e) eg;
          meta = inject_trace_into_meta x (els_meta e) (rc_trace_context (bir_context rq)) (eg_world eg1)
      in case validate_elicitation_requested_schema (els_requested_schema e) of
           Some reason \<Rightarrow> (OutcomeComplete (error_result (''elicitation/create rejected: '' @ form_error_text x reason)), eg1)
         | None \<Rightarrow>
             (OutcomeSuspended
                \<lparr>srq_id = JStr server_request_id, srq_method = ''elicitation/create'',
                 srq_params = xe_elicitation_params x
                   \<lparr>ecp_mode = (case els_mode e of FormMode \<Rightarrow> ''form'' | UrlMode \<Rightarrow> ''url''), ecp_message = els_message e,
                    ecp_requested_schema = els_requested_schema e,
                    ecp_elicitation_id = (case els_mode e of FormMode \<Rightarrow> None | UrlMode \<Rightarrow> Some server_request_id),
                    ecp_url = (case els_mode e of FormMode \<Rightarrow> None | UrlMode \<Rightarrow> els_url e),
                    ecp_presentation_hint = els_presentation_hint e, ecp_meta = meta\<rparr>\<rparr>,
              suspend_on en server_request_id (els_id e) (els_timeout_ms e) st eg1))"

definition suspend_sampling ::
  "('w, 's, 'v) engine \<Rightarrow> backend_request \<Rightarrow> sampling_step \<Rightarrow> pipeline_state \<Rightarrow> ('w, 's) engine_state \<Rightarrow>
     pipeline_outcome \<times> ('w, 's) engine_state" where
  "suspend_sampling en rq m st eg =
     (let x = en_ext en; caps = ps_client_capabilities st in
      if (sms_tools m \<noteq> None \<or> sms_tool_choice m \<noteq> None) \<and> \<not> xe_supports_sampling_tools x caps
      then (OutcomeComplete (error_result
              ''step configured with sampling tools / toolChoice but client did not advertise sampling.tools''), eg)
      else if sms_include_context m \<noteq> None \<and> \<not> xe_supports_sampling_context x caps
      then (OutcomeComplete (error_result
              ''step configured with includeContext but client did not advertise sampling.context''), eg)
      else
        (let (server_request_id, eg1) = request_id_for en (sms_correlation_token m) eg;
             meta = inject_trace_into_meta x (sms_meta m) (rc_trace_context (bir_context rq)) (eg_world eg1)
         in (OutcomeSuspended
               \<lparr>srq_id = JStr server_request_id, srq_method = ''sampling/createMessage'',
                srq_params = xe_sampling_params x
                  \<lparr>scp_messages = sms_messages m, scp_max_tokens = coerce_sampling_max_tokens x (sms_max_tokens m),
                   scp_model_preferences = sms_model_preferences m, scp_system_prompt = sms_system_prompt m,
                   scp_include_context = sms_include_context m, scp_temperature = sms_temperature m,
                   scp_stop_sequences = sms_stop_sequences m, scp_metadata = sms_metadata m, scp_tools = sms_tools m,
                   scp_tool_choice = sms_tool_choice m, scp_meta = meta\<rparr>\<rparr>,
             suspend_on en server_request_id (sms_id m) (sms_timeout_ms m) st eg1)))"

definition roots_params :: "'w engine_lib \<Rightarrow> backend_request \<Rightarrow> 'w \<Rightarrow> json" where
  "roots_params x rq w =
     (case inject_trace_into_meta x None (rc_trace_context (bir_context rq)) w of
        Some meta \<Rightarrow> JObj [(''_meta'', meta)] | None \<Rightarrow> JObj [])"

definition suspend_roots ::
  "('w, 's, 'v) engine \<Rightarrow> backend_request \<Rightarrow> roots_list_step \<Rightarrow> pipeline_state \<Rightarrow> ('w, 's) engine_state \<Rightarrow>
     pipeline_outcome \<times> ('w, 's) engine_state" where
  "suspend_roots en rq r st eg =
     (let (server_request_id, eg1) = request_id_for en (rls_correlation_token r) eg in
      (OutcomeSuspended \<lparr>srq_id = JStr server_request_id, srq_method = ''roots/list'',
                         srq_params = roots_params (en_ext en) rq (eg_world eg1)\<rparr>,
       suspend_on en server_request_id (rls_id r) (rls_timeout_ms r) st eg1))"

text \<open>The request of a gather input and its timeout, if the client supports it.\<close>

definition gather_request :: "'w engine_lib \<Rightarrow> json \<Rightarrow> backend_request \<Rightarrow> 'w \<Rightarrow> gather_input \<Rightarrow> (server_request \<times> nat) option" where
  "gather_request x caps rq w input =
     (let meta = inject_trace_into_meta x None (rc_trace_context (bir_context rq)) w in
      case input of
        GatherElicitation token message schema \<Rightarrow>
          if \<not> xe_supports_elicitation x caps then None
          else Some (\<lparr>srq_id = JStr token, srq_method = ''elicitation/create'',
                      srq_params = xe_elicitation_params x
                        \<lparr>ecp_mode = ''form'', ecp_message = message, ecp_requested_schema = schema, ecp_elicitation_id = None,
                         ecp_url = None, ecp_presentation_hint = None, ecp_meta = meta\<rparr>\<rparr>, 60000)
      | GatherSampling token messages max_tokens system_prompt \<Rightarrow>
          if \<not> xe_supports_sampling x caps then None
          else Some (\<lparr>srq_id = JStr token, srq_method = ''sampling/createMessage'',
                      srq_params = xe_sampling_params x
                        \<lparr>scp_messages = messages, scp_max_tokens = coerce_sampling_max_tokens x max_tokens,
                         scp_model_preferences = None, scp_system_prompt = system_prompt, scp_include_context = None,
                         scp_temperature = None, scp_stop_sequences = None, scp_metadata = None, scp_tools = None,
                         scp_tool_choice = None, scp_meta = meta\<rparr>\<rparr>, 60000)
      | GatherRoots token \<Rightarrow>
          if \<not> xe_supports_roots x caps then None
          else Some (\<lparr>srq_id = JStr token, srq_method = ''roots/list'', srq_params = roots_params x rq w\<rparr>, 30000))"

fun gather_requests ::
  "('w, 's, 'v) engine \<Rightarrow> backend_request \<Rightarrow> string \<Rightarrow> pipeline_state \<Rightarrow> gather_input list \<Rightarrow> ('w, 's) engine_state \<Rightarrow>
     (server_request list \<times> nat) \<times> ('w, 's) engine_state" where
  "gather_requests en rq sid st [] eg = (([], 0), eg)"
| "gather_requests en rq sid st (input # inputs) eg =
     (case gather_request (en_ext en) (ps_client_capabilities st) rq (eg_world eg) input of
        None \<Rightarrow> gather_requests en rq sid st inputs eg
      | Some (request, timeout_ms) \<Rightarrow>
          (let (_, eg1) = on_kv en (save_pending_server_request (en_kv en) (en_px en)
                 (pending_request (clk_utc (eg_now en eg)) (correlation_token input) sid timeout_ms st)) eg;
               ((requests, longest), eg2) = gather_requests en rq sid st inputs eg1
           in ((request # requests, max timeout_ms longest), eg2)))"

section \<open>The loop\<close>

text \<open>Where one turn of the loop leads: on with the state and possibly a new last output, or out.\<close>

datatype turn = NextStep pipeline_state "json option" | EndPipeline pipeline_outcome

definition suspend_gather ::
  "('w, 's, 'v) engine \<Rightarrow> backend_request \<Rightarrow> gather_step \<Rightarrow> pipeline_state \<Rightarrow> ('w, 's) engine_state \<Rightarrow>
     turn \<times> ('w, 's) engine_state" where
  "suspend_gather en rq g st eg =
     (let ((requests, longest), eg1) = gather_requests en rq (gst_id g) st (gst_inputs g) eg in
      if requests = []
      then (NextStep (record_step (gst_id g) \<lparr>sr_output = JObj [], sr_is_error = False, sr_duration_ms = 0\<rparr> st) None, eg1)
      else
        (let st' = suspended_state (clk_utc (eg_now en eg1)) None longest st;
             (_, eg2) = on_kv en (save_pipeline (en_kv en) (en_px en) st') eg1
         in (EndPipeline (OutcomeSuspendedMulti requests), eg2)))"

definition progress_token_str :: "json \<Rightarrow> string" where
  "progress_token_str token = (case token of JStr s \<Rightarrow> s | JNum n \<Rightarrow> n | _ \<Rightarrow> [])"

definition emit_pipeline_progress ::
  "('w, 's, 'v) engine \<Rightarrow> request_context \<Rightarrow> json \<Rightarrow> nat \<Rightarrow> nat \<Rightarrow> ('w, 's) engine_state \<Rightarrow> ('w, 's) engine_state" where
  "emit_pipeline_progress en rc token completed total_steps eg =
     (if \<not> en_has_bus en then eg
      else case rc_session_id rc of
             None \<Rightarrow> eg
           | Some session_id \<Rightarrow>
               (let token_str = progress_token_str token;
                    backwards = (case eg_progress eg session_id token_str of Some prev \<Rightarrow> completed < prev | None \<Rightarrow> False)
                in if token_str \<noteq> [] \<and> backwards then eg
                   else
                     (let eg1 = (if token_str = [] then eg
                                 else eg\<lparr>eg_progress := (eg_progress eg)(session_id := (eg_progress eg session_id)(token_str \<mapsto> completed))\<rparr>)
                      in case xe_progress_notification (en_ext en) token completed total_steps
                                (''Step '' @ show_nat completed @ ''/'' @ show_nat total_steps @ '' completed'') of
                           None \<Rightarrow> eg1
                         | Some message \<Rightarrow>
                             eg1\<lparr>eg_world := xe_publish (en_ext en) session_id
                               \<lparr>dm_kind = ProgressNotification, dm_jsonrpc_message = message, dm_delivery_id = []\<rparr> (eg_world eg1)\<rparr>)))"

definition step_context :: "backend_request \<Rightarrow> (string \<times> step_result) list \<Rightarrow> json \<Rightarrow> expr_context" where
  "step_context rq completed args =
     (bir_expr_ctx rq)\<lparr>ec_steps := Some (completed_steps_to_value completed), ec_arguments := args\<rparr>"

definition step_duration_ms :: "('w, 's, 'v) engine \<Rightarrow> ('w, 's) engine_state \<Rightarrow> ('w, 's) engine_state \<Rightarrow> nat" where
  "step_duration_ms en eg eg' = as_millis (clk_inst (eg_now en eg') - clk_inst (eg_now en eg))"

text \<open>A step that runs at once, on the suspending path.\<close>

definition plain_turn ::
  "('w, 's, 'v) engine \<Rightarrow> string \<Rightarrow> backend_request \<Rightarrow> pipeline_step \<Rightarrow> pipeline_state \<Rightarrow> ('w, 's) engine_state \<Rightarrow>
     turn \<times> ('w, 's) engine_state" where
  "plain_turn en profile rq step st eg =
     (let ctx = step_context rq (ps_completed_steps st) (ps_original_args st) in
      case resolve_step_input (en_ext en) step ctx of
        Inl e \<Rightarrow> (EndPipeline (OutcomeComplete (error_result
                   (''step '' @ quoted (step_id step) @ '' input_transform failed: '' @ e))), eg)
      | Inr step_input \<Rightarrow>
          (case execute_step en profile (ps_session_id st) rq ctx step step_input eg of
             (StepSuccess out, eg1) \<Rightarrow>
               (let st' = record_step (step_id step)
                      \<lparr>sr_output = out, sr_is_error = False, sr_duration_ms = step_duration_ms en eg eg1\<rparr> st;
                    eg2 = (case bir_progress_token rq of
                             None \<Rightarrow> eg1
                           | Some token \<Rightarrow>
                               emit_pipeline_progress en (bir_context rq) token (ps_current_step_index st') (length (ps_steps st')) eg1)
                in (NextStep st' (Some out), eg2))
           | (stop, eg1) \<Rightarrow>
               (EndPipeline (OutcomeComplete (stopped_result (en_ext en) profile (step_id step) (ps_current_step_index st)
                  (length (ps_steps st)) stop)), eg1)))"

definition pipeline_timed_out :: "('w, 's, 'v) engine \<Rightarrow> pipeline_state \<Rightarrow> ('w, 's) engine_state \<Rightarrow> bool" where
  "pipeline_timed_out en st eg \<longleftrightarrow>
     ps_pipeline_timeout_ms st \<le> nat (max 0 (num_milliseconds (clk_utc (eg_now en eg)) (ps_created_at st)))"

definition request_cancelled :: "('w, 's, 'v) engine \<Rightarrow> backend_request \<Rightarrow> ('w, 's) engine_state \<Rightarrow> bool" where
  "request_cancelled en rq eg \<longleftrightarrow>
     (case bir_cancellation_token rq of None \<Rightarrow> False | Some token \<Rightarrow> xe_cancelled (en_ext en) token (eg_world eg))"

definition pipeline_turn ::
  "('w, 's, 'v) engine \<Rightarrow> string \<Rightarrow> backend_request \<Rightarrow> pipeline_state \<Rightarrow> ('w, 's) engine_state \<Rightarrow> turn \<times> ('w, 's) engine_state" where
  "pipeline_turn en profile rq st eg =
     (let step = ps_steps st ! ps_current_step_index st; stop = (\<lambda>(out, eg'). (EndPipeline out, eg')) in
      if pipeline_timed_out en st eg then (EndPipeline (OutcomeComplete (error_result ''pipeline execution timed out'')), eg)
      else if request_cancelled en rq eg
      then (EndPipeline (OutcomeComplete (error_result ''pipeline cancelled before next step'')), eg)
      else case gating_error (en_ext en) (ps_client_capabilities st) step of
             Some message \<Rightarrow>
               if skip_if_unsupported step then (NextStep (record_step (step_id step) (skipped_result message) st) None, eg)
               else (EndPipeline (OutcomeComplete (error_result message)), eg)
           | None \<Rightarrow>
               (case step of
                  StepElicitation e \<Rightarrow> stop (suspend_elicitation en rq e st eg)
                | StepSampling m \<Rightarrow> stop (suspend_sampling en rq m st eg)
                | StepRootsList r \<Rightarrow> stop (suspend_roots en rq r st eg)
                | StepGather g \<Rightarrow> suspend_gather en rq g st eg
                | _ \<Rightarrow> plain_turn en profile rq step st eg))"

text \<open>Every turn that goes on records one step and moves to the next.\<close>

lemma record_step_simps [simp]:
  "ps_steps (record_step sid r st) = ps_steps st" "ps_current_step_index (record_step sid r st) = Suc (ps_current_step_index st)"
  by (simp_all add: record_step_def)

lemma turn_advances:
  assumes "pipeline_turn en profile rq st eg = (NextStep st' out, eg')"
  shows "ps_steps st' = ps_steps st \<and> ps_current_step_index st' = Suc (ps_current_step_index st)"
  using assms
  by (auto simp: pipeline_turn_def plain_turn_def suspend_gather_def Let_def
      split: if_splits option.splits pipeline_step.splits sum.splits prod.splits step_outcome.splits)

function execute_pipeline_steps ::
  "('w, 's, 'v) engine \<Rightarrow> string \<Rightarrow> backend_request \<Rightarrow> json \<Rightarrow> pipeline_state \<Rightarrow> ('w, 's) engine_state \<Rightarrow>
     pipeline_outcome \<times> ('w, 's) engine_state" where
  "execute_pipeline_steps en profile rq last_step_output st eg =
     (if ps_current_step_index st < length (ps_steps st)
      then (case pipeline_turn en profile rq st eg of
              (NextStep st' None, eg') \<Rightarrow> execute_pipeline_steps en profile rq last_step_output st' eg'
            | (NextStep st' (Some out), eg') \<Rightarrow> execute_pipeline_steps en profile rq out st' eg'
            | (EndPipeline outcome, eg') \<Rightarrow> (outcome, eg'))
      else (OutcomeComplete (completed_result (en_ext en) last_step_output), eg))"
  by pat_completeness auto

termination execute_pipeline_steps
  by (relation "measure (\<lambda>(_, _, _, _, st, _). length (ps_steps st) - ps_current_step_index st)")
    (auto dest!: turn_advances [OF sym])

declare execute_pipeline_steps.simps [simp del]

section \<open>The synchronous path\<close>

fun binding_steps ::
  "('w, 's, 'v) engine \<Rightarrow> string \<Rightarrow> backend_request \<Rightarrow> pipeline_backend_config \<Rightarrow> nat \<Rightarrow> nat \<Rightarrow> pipeline_step list \<Rightarrow>
     (string \<times> step_result) list \<Rightarrow> json \<Rightarrow> ('w, 's) engine_state \<Rightarrow> tool_call_result \<times> ('w, 's) engine_state" where
  "binding_steps en profile rq config start i [] results last_step_output eg =
     (completed_result (en_ext en) last_step_output, eg)"
| "binding_steps en profile rq config start i (step # steps) results last_step_output eg =
     (if from_millis (pbc_pipeline_timeout_ms config) \<le> clk_inst (eg_now en eg) - start
      then (error_result (''pipeline '' @ quoted profile @ '' timed out after '' @ show_nat (pbc_pipeline_timeout_ms config) @
              ''ms at step '' @ quoted (step_id step)), eg)
      else
        (let ctx = step_context rq results (case bir_arguments rq of None \<Rightarrow> JObj [] | Some a \<Rightarrow> a) in
         case resolve_step_input (en_ext en) step ctx of
           Inl e \<Rightarrow> (error_result (''pipeline '' @ quoted profile @ '' step '' @ quoted (step_id step) @ '' input_transform failed: '' @ e), eg)
         | Inr step_input \<Rightarrow>
             (case execute_step en profile (case rc_session_id (bir_context rq) of None \<Rightarrow> [] | Some i \<Rightarrow> i) rq ctx step step_input eg of
                (StepSuccess out, eg1) \<Rightarrow>
                  binding_steps en profile rq config start (i + 1) steps
                    (AList.update (step_id step)
                       \<lparr>sr_output = out, sr_is_error = False, sr_duration_ms = step_duration_ms en eg eg1\<rparr> results) out eg1
              | (stop, eg1) \<Rightarrow>
                  (stopped_result (en_ext en) profile (step_id step) i (length (pbc_steps config)) stop, eg1))))"

definition execute_pipeline_binding ::
  "('w, 's, 'v) engine \<Rightarrow> string \<Rightarrow> backend_request \<Rightarrow> ('w, 's) engine_state \<Rightarrow> tool_call_result \<times> ('w, 's) engine_state" where
  "execute_pipeline_binding en profile rq eg =
     (case en_pipeline_configs en profile of
        None \<Rightarrow> (error_result (''pipeline '' @ quoted profile @ '' not found''), eg)
      | Some config \<Rightarrow> binding_steps en profile rq config (clk_inst (eg_now en eg)) 0 (pbc_steps config) [] JNull eg)"

section \<open>Starting and resuming\<close>

definition pipeline_has_suspending_steps :: "('w, 's, 'v) engine \<Rightarrow> string \<Rightarrow> bool" where
  "pipeline_has_suspending_steps en profile \<longleftrightarrow>
     (case en_pipeline_configs en profile of None \<Rightarrow> False | Some cfg \<Rightarrow> list_ex is_suspending (pbc_steps cfg))"

definition initial_state :: "pipeline_backend_config \<Rightarrow> backend_request \<Rightarrow> pipeline_surface \<Rightarrow> nat \<Rightarrow> pipeline_state" where
  "initial_state config rq surface now =
     \<lparr>ps_pipeline_id = rc_request_id (bir_context rq),
      ps_session_id = (case rc_session_id (bir_context rq) of None \<Rightarrow> [] | Some i \<Rightarrow> i),
      ps_original_jsonrpc_id = JNull, ps_tool_name = bir_tool_name rq, ps_steps = pbc_steps config, ps_current_step_index = 0,
      ps_completed_steps = [], ps_original_args = (case bir_arguments rq of None \<Rightarrow> JNull | Some a \<Rightarrow> a),
      ps_request_context = bir_context rq, ps_created_at = now, ps_suspended_at = None,
      ps_pipeline_timeout_ms = pbc_pipeline_timeout_ms config, ps_pending_server_request_id = None,
      ps_elicitation_timeout_ms = None, ps_related_task_id = None, ps_client_capabilities = bir_client_capabilities rq,
      ps_state_version = 0, ps_surface = surface\<rparr>"

definition execute_pipeline ::
  "('w, 's, 'v) engine \<Rightarrow> string \<Rightarrow> backend_request \<Rightarrow> pipeline_surface \<Rightarrow> ('w, 's) engine_state \<Rightarrow>
     pipeline_outcome \<times> ('w, 's) engine_state" where
  "execute_pipeline en profile rq surface eg =
     (case en_pipeline_configs en profile of
        None \<Rightarrow> (OutcomeComplete (error_result (''pipeline config not found for profile '' @ quoted profile)), eg)
      | Some config \<Rightarrow>
          if \<not> list_ex is_suspending (pbc_steps config)
          then (let (result, eg') = execute_pipeline_binding en profile rq eg in (OutcomeComplete result, eg'))
          else execute_pipeline_steps en profile rq JNull (initial_state config rq surface (clk_utc (eg_now en eg))) eg)"

text \<open>A resumed run has no progress token, log floor, cancellation token or idempotency hint.\<close>

definition resumed_request :: "'w engine_lib \<Rightarrow> pipeline_state \<Rightarrow> backend_request" where
  "resumed_request x st =
     \<lparr>bir_context = ps_request_context st, bir_tool_name = ps_tool_name st, bir_arguments = Some (ps_original_args st),
      bir_expr_ctx = to_expr_context x (ps_request_context st) (ps_tool_name st) (Some (ps_original_args st)),
      bir_progress_token = None, bir_request_log_level = None, bir_legacy_session_log_level = None,
      bir_client_capabilities = ps_client_capabilities st, bir_cancellation_token = None, bir_idempotency_hint = None\<rparr>"

definition with_answer :: "step_result \<Rightarrow> pipeline_state \<Rightarrow> pipeline_state" where
  "with_answer r st =
     (if ps_current_step_index st < length (ps_steps st)
      then record_step (step_id (ps_steps st ! ps_current_step_index st)) r st else st)"

definition resume_pipeline ::
  "('w, 's, 'v) engine \<Rightarrow> pipeline_state \<Rightarrow> step_result \<Rightarrow> ('w, 's) engine_state \<Rightarrow> pipeline_outcome \<times> ('w, 's) engine_state" where
  "resume_pipeline en st answer eg =
     execute_pipeline_steps en (ps_tool_name st) (resumed_request (en_ext en) st) JNull (with_answer answer st) eg"

end
