(* ===== verification/Request_State.thy ===== *)
theory Request_State
  imports Memory_Kv
begin

text \<open>
  The \<open>requestState\<close> blob of the modern wire: \<open>RequestStateCodec\<close> of
  \<open>src/protocol/v_2026_07_28/dispatch/request_state.rs\<close> and the store behind it,
  \<open>src/runtime/stores/request_state_store.rs\<close>.  A small payload is encrypted into the blob and bound to its
  owner; a large one is kept in the store under a handle.  Bytes are strings of 8-bit characters.  The AEAD
  cipher, base64, BLAKE3 and the random nonces and UUIDs are parameters.

  The interface to the store is the locale \<open>request_state_contract\<close>, interpreted on the key-value backed store
  and on the in-memory one.
\<close>

section \<open>The store\<close>

datatype request_state_error =
    InvalidPrefix string
  | InvalidPayload string
  | AuthenticationFailed
  | HandleNotFound string
  | Replayed
  | StoreError string

record 's request_state_store =
  rst_put :: "string \<Rightarrow> string \<Rightarrow> clock \<Rightarrow> 's \<Rightarrow> (request_state_error + unit) \<times> 's"
  rst_get :: "string \<Rightarrow> clock \<Rightarrow> 's \<Rightarrow> (request_state_error + string option) \<times> 's"
  rst_delete :: "string \<Rightarrow> clock \<Rightarrow> 's \<Rightarrow> (request_state_error + unit) \<times> 's"
  rst_claim_once :: "string \<Rightarrow> clock \<Rightarrow> 's \<Rightarrow> (request_state_error + bool) \<times> 's"

definition DEFAULT_REQUEST_STATE_TTL :: duration where
  "DEFAULT_REQUEST_STATE_TTL = from_secs 3600"

definition request_state_key :: "string \<Rightarrow> string" where
  "request_state_key handle = ''request_state/'' @ handle"

definition kv_put_payload ::
  "('s, string) kv_ops \<Rightarrow> duration option \<Rightarrow> string \<Rightarrow> string \<Rightarrow> clock \<Rightarrow> 's \<Rightarrow> (request_state_error + unit) \<times> 's" where
  "kv_put_payload kv ttl handle payload c s =
     (case kv_put kv (request_state_key handle) payload ttl c s of
        (Inl e, s') \<Rightarrow> (Inl (StoreError e), s') | (Inr u, s') \<Rightarrow> (Inr u, s'))"

definition kv_get_payload ::
  "('s, string) kv_ops \<Rightarrow> string \<Rightarrow> clock \<Rightarrow> 's \<Rightarrow> (request_state_error + string option) \<times> 's" where
  "kv_get_payload kv handle c s =
     (case kv_get kv (request_state_key handle) c s of
        (Inl e, s') \<Rightarrow> (Inl (StoreError e), s') | (Inr v, s') \<Rightarrow> (Inr (map_option ent_bytes v), s'))"

definition kv_delete_payload ::
  "('s, string) kv_ops \<Rightarrow> string \<Rightarrow> clock \<Rightarrow> 's \<Rightarrow> (request_state_error + unit) \<times> 's" where
  "kv_delete_payload kv handle c s =
     (case kv_delete kv (request_state_key handle) c s of
        (Inl e, s') \<Rightarrow> (Inl (StoreError e), s') | (Inr _, s') \<Rightarrow> (Inr (), s'))"

definition kv_claim_once ::
  "('s, string) kv_ops \<Rightarrow> duration option \<Rightarrow> string \<Rightarrow> clock \<Rightarrow> 's \<Rightarrow> (request_state_error + bool) \<times> 's" where
  "kv_claim_once kv ttl key c s =
     (case kv_put_if_absent kv (request_state_key key) ''1'' ttl c s of
        (Inl e, s') \<Rightarrow> (Inl (StoreError e), s') | (Inr b, s') \<Rightarrow> (Inr b, s'))"

definition kv_request_state_store :: "('s, string) kv_ops \<Rightarrow> duration option \<Rightarrow> 's request_state_store" where
  "kv_request_state_store kv ttl =
     \<lparr>rst_put = kv_put_payload kv ttl, rst_get = kv_get_payload kv, rst_delete = kv_delete_payload kv,
      rst_claim_once = kv_claim_once kv ttl\<rparr>"

text \<open>The in-memory store: one map under a lock; rows never expire.\<close>

type_synonym memory_states = "(string \<times> string) list"

definition memory_put_payload :: "string \<Rightarrow> string \<Rightarrow> clock \<Rightarrow> memory_states \<Rightarrow> (request_state_error + unit) \<times> memory_states" where
  "memory_put_payload handle payload c m = (Inr (), AList.update handle payload m)"

definition memory_get_payload :: "string \<Rightarrow> clock \<Rightarrow> memory_states \<Rightarrow> (request_state_error + string option) \<times> memory_states" where
  "memory_get_payload handle c m = (Inr (map_of m handle), m)"

definition memory_delete_payload :: "string \<Rightarrow> clock \<Rightarrow> memory_states \<Rightarrow> (request_state_error + unit) \<times> memory_states" where
  "memory_delete_payload handle c m = (Inr (), AList.delete handle m)"

definition memory_claim_once :: "string \<Rightarrow> clock \<Rightarrow> memory_states \<Rightarrow> (request_state_error + bool) \<times> memory_states" where
  "memory_claim_once key c m = (if map_of m key \<noteq> None then (Inr False, m) else (Inr True, AList.update key [] m))"

definition memory_request_state_store :: "memory_states request_state_store" where
  "memory_request_state_store =
     \<lparr>rst_put = memory_put_payload, rst_get = memory_get_payload, rst_delete = memory_delete_payload,
      rst_claim_once = memory_claim_once\<rparr>"

section \<open>The codec\<close>

text \<open>\<open>ae_encrypt\<close> and \<open>ae_decrypt\<close> take the nonce, the text and the associated data, under the gateway's key.\<close>

record codec_ext =
  ae_encrypt :: "string \<Rightarrow> string \<Rightarrow> string \<Rightarrow> string + string"
  ae_decrypt :: "string \<Rightarrow> string \<Rightarrow> string \<Rightarrow> string option"
  ae_b64_encode :: "string \<Rightarrow> string"
  ae_b64_decode :: "string \<Rightarrow> string + string"
  ae_blake3_hex :: "string \<Rightarrow> string"

record 's request_state_codec =
  rsc_ext :: codec_ext
  rsc_inline_threshold :: nat
  rsc_store :: "'s request_state_store"

definition DEFAULT_INLINE_THRESHOLD_BYTES :: nat where
  "DEFAULT_INLINE_THRESHOLD_BYTES = 8 * 1024"

definition PREFIX_INLINE :: string where
  "PREFIX_INLINE = ''c.''"

definition PREFIX_HANDLE :: string where
  "PREFIX_HANDLE = ''h.''"

definition new_codec :: "codec_ext \<Rightarrow> 's request_state_store \<Rightarrow> 's request_state_codec" where
  "new_codec x store = \<lparr>rsc_ext = x, rsc_inline_threshold = DEFAULT_INLINE_THRESHOLD_BYTES, rsc_store = store\<rparr>"

definition with_inline_threshold :: "nat \<Rightarrow> 's request_state_codec \<Rightarrow> 's request_state_codec" where
  "with_inline_threshold threshold cd = cd\<lparr>rsc_inline_threshold := threshold\<rparr>"

definition owner_aad :: "string option \<Rightarrow> string" where
  "owner_aad owner =
     ''mcpg.mrtr.owner.v1'' @ [CHR 0x1F] @
     (case owner of
        Some p \<Rightarrow> if p \<noteq> [] then p else CHR 0x00 # ''anonymous''
      | None \<Rightarrow> CHR 0x00 # ''anonymous'')"

definition encode_inline :: "codec_ext \<Rightarrow> string \<Rightarrow> string \<Rightarrow> string \<Rightarrow> request_state_error + string" where
  "encode_inline x nonce payload aad =
     (case ae_encrypt x nonce payload aad of
        Inl e \<Rightarrow> Inl (InvalidPayload (''encrypt failed: '' @ e))
      | Inr ciphertext \<Rightarrow> Inr (PREFIX_INLINE @ ae_b64_encode x (nonce @ ciphertext)))"

definition decode_inline :: "codec_ext \<Rightarrow> string \<Rightarrow> string \<Rightarrow> request_state_error + string" where
  "decode_inline x b64 aad =
     (case ae_b64_decode x b64 of
        Inl e \<Rightarrow> Inl (InvalidPayload (''base64: '' @ e))
      | Inr buf \<Rightarrow>
          if length buf < 12 then Inl (InvalidPayload ''ciphertext shorter than nonce'')
          else (case ae_decrypt x (take 12 buf) (drop 12 buf) aad of
                  None \<Rightarrow> Inl AuthenticationFailed | Some payload \<Rightarrow> Inr payload))"

definition encode_handle ::
  "'s request_state_store \<Rightarrow> string \<Rightarrow> string \<Rightarrow> clock \<Rightarrow> 's \<Rightarrow> (request_state_error + string) \<times> 's" where
  "encode_handle store uuid payload c s =
     (case rst_put store uuid payload c s of
        (Inl e, s') \<Rightarrow> (Inl e, s') | (Inr _, s') \<Rightarrow> (Inr (PREFIX_HANDLE @ uuid), s'))"

definition decode_handle ::
  "'s request_state_store \<Rightarrow> string \<Rightarrow> clock \<Rightarrow> 's \<Rightarrow> (request_state_error + string) \<times> 's" where
  "decode_handle store handle c s =
     (case rst_get store handle c s of
        (Inl e, s') \<Rightarrow> (Inl e, s')
      | (Inr (Some payload), s') \<Rightarrow> (Inr payload, s')
      | (Inr None, s') \<Rightarrow> (Inl (HandleNotFound handle), s'))"

text \<open>\<open>encode\<close> with the nonce and the UUID it would draw.\<close>

definition encode ::
  "'s request_state_codec \<Rightarrow> string \<Rightarrow> string \<Rightarrow> string \<Rightarrow> string \<Rightarrow> clock \<Rightarrow> 's \<Rightarrow> (request_state_error + string) \<times> 's" where
  "encode cd nonce uuid payload aad c s =
     (if length payload \<le> rsc_inline_threshold cd then (encode_inline (rsc_ext cd) nonce payload aad, s)
      else encode_handle (rsc_store cd) uuid payload c s)"

definition decode ::
  "'s request_state_codec \<Rightarrow> string \<Rightarrow> string \<Rightarrow> clock \<Rightarrow> 's \<Rightarrow> (request_state_error + string) \<times> 's" where
  "decode cd state aad c s =
     (case strip_prefix state PREFIX_INLINE of
        Some rest \<Rightarrow> (decode_inline (rsc_ext cd) rest aad, s)
      | None \<Rightarrow>
          (case strip_prefix state PREFIX_HANDLE of
             Some rest \<Rightarrow> decode_handle (rsc_store cd) rest c s
           | None \<Rightarrow> (Inl (InvalidPrefix state), s)))"

definition enforce_single_use :: "'s request_state_codec \<Rightarrow> string \<Rightarrow> clock \<Rightarrow> 's \<Rightarrow> (request_state_error + unit) \<times> 's" where
  "enforce_single_use cd state c s =
     (case strip_prefix state PREFIX_INLINE of
        None \<Rightarrow> (Inr (), s)
      | Some rest \<Rightarrow>
          (case rst_claim_once (rsc_store cd) (''claim:'' @ ae_blake3_hex (rsc_ext cd) rest) c s of
             (Inl e, s') \<Rightarrow> (Inl e, s')
           | (Inr True, s') \<Rightarrow> (Inr (), s')
           | (Inr False, s') \<Rightarrow> (Inl Replayed, s')))"

definition cleanup :: "'s request_state_codec \<Rightarrow> string \<Rightarrow> clock \<Rightarrow> 's \<Rightarrow> (request_state_error + unit) \<times> 's" where
  "cleanup cd state c s =
     (case strip_prefix state PREFIX_HANDLE of
        None \<Rightarrow> (Inr (), s)
      | Some handle \<Rightarrow> rst_delete (rsc_store cd) handle c s)"

section \<open>The contract of the store\<close>

text \<open>
  A store shows rows: each handle has a payload and possibly a deadline.  A write is read back until its
  deadline, a claim is won by the first caller until its marker expires.
\<close>

locale request_state_contract =
  fixes store :: "'s request_state_store"
    and rows_of :: "'s \<Rightarrow> string rows"
    and ok :: "'s \<Rightarrow> bool"
    and ttl :: "duration option"
  assumes put_payload_law: "ok s \<Longrightarrow> \<exists>s'. rst_put store h p c s = (Inr (), s') \<and> ok s'
      \<and> same_from (clk_inst c) (rows_of s') ((rows_of s)(h \<mapsto> (p, deadline ttl c)))"
    and get_payload_law: "ok s \<Longrightarrow> \<exists>s'. rst_get store h c s = (Inr (map_option fst (live_at (rows_of s) (clk_inst c) h)), s') \<and> ok s'
      \<and> same_from (clk_inst c) (rows_of s') (rows_of s)"
    and delete_payload_law: "ok s \<Longrightarrow> \<exists>s'. rst_delete store h c s = (Inr (), s') \<and> ok s'
      \<and> same_from (clk_inst c) (rows_of s') ((rows_of s)(h := None))"
    and claim_once_law: "ok s \<Longrightarrow> \<exists>p s'. rst_claim_once store h c s = (Inr (live_at (rows_of s) (clk_inst c) h = None), s') \<and> ok s'
      \<and> same_from (clk_inst c) (rows_of s')
          (if live_at (rows_of s) (clk_inst c) h = None then (rows_of s)(h \<mapsto> (p, deadline ttl c)) else rows_of s)"

text \<open>Any key-value store of bytes gives one, whatever else it holds.\<close>

definition payload_rows :: "('s \<Rightarrow> string rows) \<Rightarrow> 's \<Rightarrow> string rows" where
  "payload_rows view s h = view s (request_state_key h)"

lemma request_state_key_inj [simp]: "request_state_key a = request_state_key b \<longleftrightarrow> a = b"
  by (simp add: request_state_key_def)

lemma live_payload_rows: "live_at (payload_rows view s) t h = live_at (view s) t (request_state_key h)"
  by (simp add: payload_rows_def live_at_def)

lemma same_from_payload_rows:
  "same_from t (view s') (view s) \<Longrightarrow> same_from t (payload_rows view s') (payload_rows view s)"
  "same_from t (view s') ((view s)(request_state_key h := r)) \<Longrightarrow> same_from t (payload_rows view s') ((payload_rows view s)(h := r))"
  by (simp_all add: same_from_def live_payload_rows fun_eq_iff) (simp_all add: live_at_def payload_rows_def)

locale kv_bytes = kv_store kv view ok for kv :: "('s, string) kv_ops" and view ok

sublocale kv_bytes \<subseteq> payloads: request_state_contract "kv_request_state_store kv ttl" "payload_rows view" ok ttl for ttl
proof unfold_locales
  fix s h p and c :: clock assume s: "ok s"
  from put_law [OF s, of "request_state_key h" p ttl c]
  show "\<exists>s'. rst_put (kv_request_state_store kv ttl) h p c s = (Inr (), s') \<and> ok s' \<and>
      same_from (clk_inst c) (payload_rows view s') ((payload_rows view s)(h \<mapsto> (p, deadline ttl c)))"
    by (auto simp: kv_request_state_store_def kv_put_payload_def intro: same_from_payload_rows)
  from get_law [OF s, of "request_state_key h" c]
  show "\<exists>s'. rst_get (kv_request_state_store kv ttl) h c s =
      (Inr (map_option fst (live_at (payload_rows view s) (clk_inst c) h)), s') \<and> ok s' \<and>
      same_from (clk_inst c) (payload_rows view s') (payload_rows view s)"
    by (auto simp: kv_request_state_store_def kv_get_payload_def live_payload_rows intro: same_from_payload_rows)
  from delete_law [OF s, of "request_state_key h" c]
  show "\<exists>s'. rst_delete (kv_request_state_store kv ttl) h c s = (Inr (), s') \<and> ok s' \<and>
      same_from (clk_inst c) (payload_rows view s') ((payload_rows view s)(h := None))"
    by (auto simp: kv_request_state_store_def kv_delete_payload_def intro: same_from_payload_rows)
  from put_if_absent_law [OF s, of "request_state_key h" "''1''" ttl c] obtain s' where
    claim: "kv_put_if_absent kv (request_state_key h) ''1'' ttl c s = (Inr (live_at (view s) (clk_inst c) (request_state_key h) = None), s')"
      "ok s'" "same_from (clk_inst c) (view s') (if live_at (view s) (clk_inst c) (request_state_key h) = None
         then (view s)(request_state_key h \<mapsto> (''1'', deadline ttl c)) else view s)"
    by blast
  show "\<exists>p s'. rst_claim_once (kv_request_state_store kv ttl) h c s =
      (Inr (live_at (payload_rows view s) (clk_inst c) h = None), s') \<and> ok s' \<and>
      same_from (clk_inst c) (payload_rows view s')
        (if live_at (payload_rows view s) (clk_inst c) h = None then (payload_rows view s)(h \<mapsto> (p, deadline ttl c)) else payload_rows view s)"
    by (rule exI [where x = "''1''"], rule exI [where x = s'])
      (use claim in \<open>auto simp: kv_request_state_store_def kv_claim_once_def live_payload_rows intro: same_from_payload_rows split: if_splits\<close>)
qed

interpretation mem_bytes: kv_bytes "memory_kv lib" memory_view memory_ok for lib :: "string cluster_lib"
  by unfold_locales

definition memory_payload_rows :: "memory_states \<Rightarrow> string rows" where
  "memory_payload_rows m h = map_option (\<lambda>p. (p, None)) (map_of m h)"

lemma live_memory_payload: "live_at (memory_payload_rows m) t h = map_option (\<lambda>p. (p, None)) (map_of m h)"
  by (cases "map_of m h") (simp_all add: live_at_def memory_payload_rows_def)

lemma memory_payload_rows_upd:
  "memory_payload_rows (AList.update h p m) = (memory_payload_rows m)(h \<mapsto> (p, None))"
  "memory_payload_rows (AList.delete h m) = (memory_payload_rows m)(h := None)"
  by (auto simp: memory_payload_rows_def fun_eq_iff update_conv' delete_conv')

interpretation mem_states: request_state_contract memory_request_state_store memory_payload_rows "\<lambda>_. True" None
  by unfold_locales
    (auto simp: memory_request_state_store_def memory_put_payload_def memory_get_payload_def memory_delete_payload_def
      memory_claim_once_def live_memory_payload memory_payload_rows_upd option.map_comp o_def option.map_ident
      intro: exI [where x = "[]"])

section \<open>Blobs in use\<close>

text \<open>What the replicas do with other blobs between two uses of the row \<open>u\<close>: any calls but a write or a removal of \<open>u\<close>.\<close>

inductive codec_run :: "'s request_state_codec \<Rightarrow> string \<Rightarrow> clock \<Rightarrow> 's \<Rightarrow> clock \<Rightarrow> 's \<Rightarrow> bool" for cd u c0 s0 where
  run_start: "codec_run cd u c0 s0 c0 s0"
| run_encode: "codec_run cd u c0 s0 c s \<Longrightarrow> clk_inst c \<le> clk_inst c' \<Longrightarrow> uuid \<noteq> u \<Longrightarrow>
     encode cd nonce uuid payload aad c' s = (r, s') \<Longrightarrow> codec_run cd u c0 s0 c' s'"
| run_decode: "codec_run cd u c0 s0 c s \<Longrightarrow> clk_inst c \<le> clk_inst c' \<Longrightarrow>
     decode cd state aad c' s = (r, s') \<Longrightarrow> codec_run cd u c0 s0 c' s'"
| run_cleanup: "codec_run cd u c0 s0 c s \<Longrightarrow> clk_inst c \<le> clk_inst c' \<Longrightarrow> state \<noteq> PREFIX_HANDLE @ u \<Longrightarrow>
     cleanup cd state c' s = (r', s') \<Longrightarrow> codec_run cd u c0 s0 c' s'"
| run_spend: "codec_run cd u c0 s0 c s \<Longrightarrow> clk_inst c \<le> clk_inst c' \<Longrightarrow>
     enforce_single_use cd state c' s = (r', s') \<Longrightarrow> codec_run cd u c0 s0 c' s'"

lemma blob_prefixes [simp]:
  "strip_prefix (PREFIX_HANDLE @ h) PREFIX_INLINE = None" "strip_prefix (PREFIX_INLINE @ b) PREFIX_HANDLE = None"
  by (simp_all add: strip_prefix_def PREFIX_HANDLE_def PREFIX_INLINE_def)

text \<open>The row \<open>u\<close> holds \<open>p\<close> from the time of \<open>c\<close> on, until the deadline \<open>d\<close>.\<close>

definition keeps_row :: "string rows \<Rightarrow> clock \<Rightarrow> string \<Rightarrow> string \<Rightarrow> nat option \<Rightarrow> bool" where
  "keeps_row m c u p d \<longleftrightarrow> (\<forall>t. clk_inst c \<le> t \<longrightarrow> \<not> expired_by d t \<longrightarrow> live_at m t u = Some (p, d))"

lemma keeps_row_same: "same_from (clk_inst c) m' m \<Longrightarrow> keeps_row m' c u p d = keeps_row m c u p d"
  by (auto simp: keeps_row_def same_from_def)

lemma keeps_row_later: "keeps_row m c u p d \<Longrightarrow> clk_inst c \<le> clk_inst c' \<Longrightarrow> keeps_row m c' u p d"
  by (auto simp: keeps_row_def)

lemma keeps_row_other: "keeps_row m c u p d \<Longrightarrow> h \<noteq> u \<Longrightarrow> keeps_row (m(h := r)) c u p d"
  by (auto simp: keeps_row_def)

lemma keeps_row_written: "keeps_row (m(u \<mapsto> (p, d))) c u p d"
  by (simp add: keeps_row_def live_at_upd_same)

lemma keeps_row_claimed:
  assumes "keeps_row m c u p d" "live_at m (clk_inst c) h = None"
  shows "keeps_row (m(h \<mapsto> r)) c u p d"
proof (cases "h = u")
  case True
  have "expired_by d t" if "clk_inst c \<le> t" for t
    using assms True expired_by_mono [OF _ that] unfolding keeps_row_def by force
  then show ?thesis by (simp add: keeps_row_def)
qed (use assms keeps_row_other in blast)

context request_state_contract
begin

lemma codec_call_keeps_row:
  assumes "ok s" "rsc_store cd = store" "keeps_row (rows_of s) c u p d"
  shows "encode cd nonce uuid payload aad c s = (r, s') \<Longrightarrow> uuid \<noteq> u \<Longrightarrow> ok s' \<and> keeps_row (rows_of s') c u p d"
    and "decode cd state aad c s = (r, s') \<Longrightarrow> ok s' \<and> keeps_row (rows_of s') c u p d"
    and "cleanup cd state c s = (r', s') \<Longrightarrow> state \<noteq> PREFIX_HANDLE @ u \<Longrightarrow> ok s' \<and> keeps_row (rows_of s') c u p d"
    and "enforce_single_use cd state c s = (r', s') \<Longrightarrow> ok s' \<and> keeps_row (rows_of s') c u p d"
proof -
  show "ok s' \<and> keeps_row (rows_of s') c u p d" if "encode cd nonce uuid payload aad c s = (r, s')" "uuid \<noteq> u"
    using that assms put_payload_law [OF assms(1), of uuid payload c] keeps_row_other [OF assms(3), of uuid]
    by (auto simp: encode_def encode_handle_def keeps_row_same split: if_splits)
  show "ok s' \<and> keeps_row (rows_of s') c u p d" if "decode cd state aad c s = (r, s')"
  proof (cases "strip_prefix state PREFIX_INLINE = None")
    case True
    show ?thesis
    proof (cases "strip_prefix state PREFIX_HANDLE")
      case (Some h)
      obtain s1 where g: "rst_get store h c s = (Inr (map_option fst (live_at (rows_of s) (clk_inst c) h)), s1)" "ok s1"
        "same_from (clk_inst c) (rows_of s1) (rows_of s)" using get_payload_law [OF assms(1), of h c] by blast
      have "s' = s1" using that True Some g(1) assms(2) by (auto simp: decode_def decode_handle_def split: option.splits)
      with g assms(3) show ?thesis by (simp add: keeps_row_same)
    qed (use True that assms in \<open>auto simp: decode_def\<close>)
  qed (use that assms in \<open>auto simp: decode_def\<close>)
  show "ok s' \<and> keeps_row (rows_of s') c u p d" if "cleanup cd state c s = (r', s')" "state \<noteq> PREFIX_HANDLE @ u"
  proof (cases "strip_prefix state PREFIX_HANDLE")
    case (Some h)
    with that(2) have "h \<noteq> u" using strip_prefix_SomeD by blast
    with that(1) Some assms delete_payload_law [OF assms(1), of h c] keeps_row_other [OF assms(3), of h] show ?thesis
      by (auto simp: cleanup_def keeps_row_same)
  qed (use that assms in \<open>simp add: cleanup_def\<close>)
  show "ok s' \<and> keeps_row (rows_of s') c u p d" if "enforce_single_use cd state c s = (r', s')"
  proof (cases "strip_prefix state PREFIX_INLINE")
    case (Some rest)
    let ?k = "''claim:'' @ ae_blake3_hex (rsc_ext cd) rest"
    obtain q s1 where cl: "rst_claim_once store ?k c s = (Inr (live_at (rows_of s) (clk_inst c) ?k = None), s1)" "ok s1"
      "same_from (clk_inst c) (rows_of s1) (if live_at (rows_of s) (clk_inst c) ?k = None then (rows_of s)(?k \<mapsto> (q, deadline ttl c)) else rows_of s)"
      using claim_once_law [OF assms(1), of ?k c] by blast
    have "s' = s1" using that Some cl(1) assms(2) by (auto simp: enforce_single_use_def split: bool.splits)
    with cl keeps_row_claimed [OF assms(3)] assms(3) show ?thesis by (auto simp: keeps_row_same split: if_splits)
  qed (use that assms in \<open>simp add: enforce_single_use_def\<close>)
qed

lemma codec_run_keeps_row:
  assumes "codec_run cd u c0 s0 c s" "ok s0" "rsc_store cd = store" "keeps_row (rows_of s0) c0 u p d"
  shows "ok s \<and> keeps_row (rows_of s) c u p d"
  using assms
proof (induction rule: codec_run.induct)
  case (run_encode c s c' uuid nonce payload aad r s')
  then show ?case using codec_call_keeps_row(1) [of s cd c' u p d] keeps_row_later by blast
next
  case (run_decode c s c' state aad r s')
  then show ?case using codec_call_keeps_row(2) [of s cd c' u p d] keeps_row_later by blast
next
  case (run_cleanup c s c' state r' s')
  then show ?case using codec_call_keeps_row(3) [of s cd c' u p d] keeps_row_later by blast
next
  case (run_spend c s c' state r' s')
  then show ?case using codec_call_keeps_row(4) [of s cd c' u p d] keeps_row_later by blast
qed simp

end

section \<open>Results\<close>

text \<open>What an AEAD cipher and base64 promise: what was sealed opens, and only under its associated data.\<close>

definition aead_opens :: "codec_ext \<Rightarrow> bool" where
  "aead_opens x \<longleftrightarrow> (\<forall>n m a ct. ae_encrypt x n m a = Inr ct \<longrightarrow> ae_decrypt x n ct a = Some m) \<and>
     (\<forall>b. ae_b64_decode x (ae_b64_encode x b) = Inr b)"

definition aead_binds :: "codec_ext \<Rightarrow> bool" where
  "aead_binds x \<longleftrightarrow> (\<forall>n m a ct a'. ae_encrypt x n m a = Inr ct \<longrightarrow> a' \<noteq> a \<longrightarrow> ae_decrypt x n ct a' = None)"

lemma inline_blob:
  assumes "encode_inline x nonce payload aad = Inr state"
  obtains ct where "ae_encrypt x nonce payload aad = Inr ct" "state = PREFIX_INLINE @ ae_b64_encode x (nonce @ ct)"
  using assms by (auto simp: encode_inline_def split: sum.splits)

lemma decode_inline_blob:
  assumes "aead_opens x" "length nonce = 12"
  shows "decode_inline x (ae_b64_encode x (nonce @ ct)) aad =
    (case ae_decrypt x nonce ct aad of None \<Rightarrow> Inl AuthenticationFailed | Some p \<Rightarrow> Inr p)"
  using assms by (simp add: decode_inline_def aead_opens_def)

text \<open>
  C18.  A resumption blob gives its payload back: decoded for the same owner, on any replica, within the time to
  live of the store, after whatever the replicas did with other blobs in between, an inline and a handle blob
  both decode to what was encoded.
\<close>

theorem resumption_blob_round_trips:
  assumes "request_state_contract (rsc_store cd) rows_of ok ttl" and "aead_opens (rsc_ext cd)" and "length nonce = 12" and "ok s0"
    and "encode cd nonce u payload aad c0 s0 = (Inr state, s1)" and "codec_run cd u c0 s1 c s" and "clk_inst c \<le> clk_inst c'"
    and "\<not> expired_by (deadline ttl c0) (clk_inst c')"
  shows "fst (decode cd state aad c' s) = Inr payload"
proof (cases "length payload \<le> rsc_inline_threshold cd")
  case True
  with assms(5) obtain ct where "ae_encrypt (rsc_ext cd) nonce payload aad = Inr ct"
    "state = PREFIX_INLINE @ ae_b64_encode (rsc_ext cd) (nonce @ ct)"
    by (auto simp: encode_def elim: inline_blob)
  with assms(2,3) decode_inline_blob [OF assms(2,3)] show ?thesis by (simp add: decode_def aead_opens_def)
next
  case False
  note laws = assms(1)
  obtain s1' where put: "rst_put (rsc_store cd) u payload c0 s0 = (Inr (), s1')" "ok s1'"
    "same_from (clk_inst c0) (rows_of s1') ((rows_of s0)(u \<mapsto> (payload, deadline ttl c0)))"
    using request_state_contract.put_payload_law [OF laws assms(4), of u payload c0] by blast
  with False assms(5) have s1: "s1 = s1'" and state: "state = PREFIX_HANDLE @ u"
    by (auto simp: encode_def encode_handle_def)
  have "keeps_row (rows_of s1) c0 u payload (deadline ttl c0)"
    using put(3) s1 by (simp add: keeps_row_same keeps_row_written)
  from request_state_contract.codec_run_keeps_row [OF laws assms(6) _ refl this] put(2) s1
  have "ok s" "keeps_row (rows_of s) c' u payload (deadline ttl c0)"
    using keeps_row_later [OF _ assms(7)] by auto
  with request_state_contract.get_payload_law [OF laws, of s u c'] assms(8) state show ?thesis
    by (auto simp: decode_def decode_handle_def keeps_row_def)
qed

lemma owner_aad_inj:
  assumes "owner_aad a = owner_aad b" "a \<noteq> Some (CHR 0x00 # ''anonymous'')" "b \<noteq> Some (CHR 0x00 # ''anonymous'')"
    "a \<noteq> Some []" "b \<noteq> Some []"
  shows "a = b"
  using assms by (cases a; cases b) (auto simp: owner_aad_def split: if_splits)

text \<open>
  C19.  An inline blob is bound to its owner: presented by another principal, or by an anonymous caller, it fails
  to authenticate, and the store is left alone.
\<close>

theorem inline_blob_bound_to_owner:
  assumes "aead_opens (rsc_ext cd)" and "aead_binds (rsc_ext cd)" and "length nonce = 12"
    and "length payload \<le> rsc_inline_threshold cd" and "encode cd nonce u payload (owner_aad p) c0 s0 = (Inr state, s1)"
    and "q \<noteq> p" and "p \<notin> {Some [], Some (CHR 0x00 # ''anonymous'')}" and "q \<notin> {Some [], Some (CHR 0x00 # ''anonymous'')}"
  shows "decode cd state (owner_aad q) c s = (Inl AuthenticationFailed, s)"
proof -
  from assms(4,5) obtain ct where ct: "ae_encrypt (rsc_ext cd) nonce payload (owner_aad p) = Inr ct"
    "state = PREFIX_INLINE @ ae_b64_encode (rsc_ext cd) (nonce @ ct)"
    by (auto simp: encode_def elim: inline_blob)
  have "owner_aad q \<noteq> owner_aad p" using owner_aad_inj [of q p] assms(6-8) by auto
  with assms(2) ct(1) have "ae_decrypt (rsc_ext cd) nonce ct (owner_aad q) = None" unfolding aead_binds_def by blast
  with ct(2) decode_inline_blob [OF assms(1,3)] show ?thesis by (simp add: decode_def)
qed

text \<open>
  C37.  A spent inline blob still decodes.  The first \<open>enforce_single_use\<close> succeeds and every later one within the
  time to live reports a replay, on every replica; but \<open>decode\<close>, the only check before a resumption, accepts the
  blob as before.
\<close>

theorem spent_blob_still_decodes:
  assumes "request_state_contract (rsc_store cd) rows_of ok ttl" and "aead_opens (rsc_ext cd)" and "length nonce = 12" and "ok s0"
    and "length payload \<le> rsc_inline_threshold cd" and "encode cd nonce u payload aad c0 s0 = (Inr state, s1)"
    and "enforce_single_use cd state c1 s1 = (Inr (), s2)"
    and "codec_run cd (''claim:'' @ ae_blake3_hex (rsc_ext cd) (drop 2 state)) c1 s2 c s" and "clk_inst c \<le> clk_inst c'"
    and "\<not> expired_by (deadline ttl c1) (clk_inst c')"
  shows "fst (enforce_single_use cd state c' s) = Inl Replayed \<and> decode cd state aad c' s = (Inr payload, s)"
proof -
  note laws = assms(1)
  from assms(5,6) obtain ct where ct: "ae_encrypt (rsc_ext cd) nonce payload aad = Inr ct"
    "state = PREFIX_INLINE @ ae_b64_encode (rsc_ext cd) (nonce @ ct)" and s1: "s1 = s0"
    by (auto simp: encode_def elim: inline_blob)
  let ?rest = "ae_b64_encode (rsc_ext cd) (nonce @ ct)"
  let ?k = "''claim:'' @ ae_blake3_hex (rsc_ext cd) ?rest"
  have k: "drop 2 state = ?rest" using ct(2) by (simp add: PREFIX_INLINE_def)
  obtain q s2' where cl: "rst_claim_once (rsc_store cd) ?k c1 s0 = (Inr (live_at (rows_of s0) (clk_inst c1) ?k = None), s2')" "ok s2'"
    "same_from (clk_inst c1) (rows_of s2')
       (if live_at (rows_of s0) (clk_inst c1) ?k = None then (rows_of s0)(?k \<mapsto> (q, deadline ttl c1)) else rows_of s0)"
    using request_state_contract.claim_once_law [OF laws assms(4), of ?k c1] by blast
  have won: "live_at (rows_of s0) (clk_inst c1) ?k = None" and s2: "s2 = s2'"
    using assms(7) cl(1) ct(2) s1 by (auto simp: enforce_single_use_def split: bool.splits)
  have "keeps_row (rows_of s2) c1 ?k q (deadline ttl c1)"
    using cl(3) won s2 by (simp add: keeps_row_same keeps_row_written)
  from request_state_contract.codec_run_keeps_row [OF laws assms(8) [unfolded k] _ refl this] cl(2) s2
  have s: "ok s" "keeps_row (rows_of s) c' ?k q (deadline ttl c1)" using keeps_row_later [OF _ assms(9)] by auto
  then have "live_at (rows_of s) (clk_inst c') ?k \<noteq> None" using assms(10) by (simp add: keeps_row_def)
  with request_state_contract.claim_once_law [OF laws s(1), of ?k c'] ct(2)
  have "fst (enforce_single_use cd state c' s) = Inl Replayed" by (auto simp: enforce_single_use_def)
  moreover have "decode cd state aad c' s = (Inr payload, s)"
    using ct assms(2) decode_inline_blob [OF assms(2,3)] by (simp add: decode_def aead_opens_def)
  ultimately show ?thesis ..
qed

section \<open>Witnesses\<close>

text \<open>A cipher that writes the associated data in front of the text, and two replicas on one in-process store.\<close>

definition seal_head :: "string \<Rightarrow> string" where
  "seal_head a = replicate (length a) (CHR ''x'') @ CHR ''y'' # a"

lemma takeWhile_head: "takeWhile (\<lambda>ch. ch = x) (replicate n x @ y # r) = replicate n x" if "y \<noteq> x"
  by (induction n) (simp_all add: that)

lemma seal_head_eq:
  assumes "seal_head a @ r = seal_head b @ t"
  shows "a = b"
proof -
  have "takeWhile (\<lambda>ch. ch = CHR ''x'') (seal_head c @ u) = replicate (length c) (CHR ''x'')" for c u
    by (simp add: seal_head_def takeWhile_head)
  with assms have "length a = length b" by (metis length_replicate)
  with assms show ?thesis by (simp add: seal_head_def)
qed

definition sample_codec_ext :: codec_ext where
  "sample_codec_ext = \<lparr>ae_encrypt = (\<lambda>_ m a. Inr (seal_head a @ m)),
     ae_decrypt = (\<lambda>_ ct a. strip_prefix ct (seal_head a)),
     ae_b64_encode = (\<lambda>b. b), ae_b64_decode = Inr, ae_blake3_hex = (\<lambda>b. b)\<rparr>"

lemma sample_codec_laws [simp]: "aead_opens sample_codec_ext" "aead_binds sample_codec_ext"
  using seal_head_eq by (auto simp: aead_opens_def aead_binds_def sample_codec_ext_def strip_prefix_def prefix_def)

abbreviation states_mem :: "(string memory, string) kv_ops" where
  "states_mem \<equiv> memory_kv (plain_lib [])"

definition sample_codec :: "string memory request_state_codec" where
  "sample_codec = with_inline_threshold 4
     (new_codec sample_codec_ext (kv_request_state_store states_mem (Some DEFAULT_REQUEST_STATE_TTL)))"

lemma sample_codec_fields [simp]:
  "rsc_ext sample_codec = sample_codec_ext" "rsc_inline_threshold sample_codec = 4"
  "rsc_store sample_codec = kv_request_state_store states_mem (Some DEFAULT_REQUEST_STATE_TTL)"
  by (simp_all add: sample_codec_def new_codec_def with_inline_threshold_def)

theorem resumption_blob_round_trips_witness:
  "\<exists>s1. encode sample_codec ''nonce-12byte'' ''u1'' ''pipeline-1'' (owner_aad (Some ''bob'')) (at_ms 0) [] = (Inr ''h.u1'', s1) \<and>
    fst (decode sample_codec ''h.u1'' (owner_aad (Some ''bob'')) (at_ms 5) s1) = Inr ''pipeline-1''"
proof -
  obtain s1 where e: "encode sample_codec ''nonce-12byte'' ''u1'' ''pipeline-1'' (owner_aad (Some ''bob'')) (at_ms 0) [] = (Inr ''h.u1'', s1)"
    by (simp add: encode_def encode_handle_def kv_request_state_store_def kv_put_payload_def memory_op_defs PREFIX_HANDLE_def)
  have "fst (decode sample_codec ''h.u1'' (owner_aad (Some ''bob'')) (at_ms 5) s1) = Inr ''pipeline-1''"
    by (rule resumption_blob_round_trips [OF _ _ _ _ e run_start, where rows_of = "payload_rows memory_view" and ok = memory_ok and
          ttl = "Some DEFAULT_REQUEST_STATE_TTL"])
      (simp_all add: mem_bytes.payloads.request_state_contract_axioms DEFAULT_REQUEST_STATE_TTL_def from_secs_def from_millis_def)
  with e show ?thesis by blast
qed

theorem inline_blob_bound_to_owner_witness:
  "\<exists>state. encode sample_codec ''nonce-12byte'' ''u1'' ''p1'' (owner_aad (Some ''bob'')) (at_ms 0) [] = (Inr state, []) \<and>
    decode sample_codec state (owner_aad None) (at_ms 5) [] = (Inl AuthenticationFailed, [])"
proof -
  obtain state where e: "encode sample_codec ''nonce-12byte'' ''u1'' ''p1'' (owner_aad (Some ''bob'')) (at_ms 0) [] = (Inr state, [])"
    by (simp add: encode_def encode_inline_def sample_codec_ext_def)
  have "decode sample_codec state (owner_aad None) (at_ms 5) [] = (Inl AuthenticationFailed, [])"
    by (rule inline_blob_bound_to_owner [OF _ _ _ _ e]) simp_all
  with e show ?thesis by blast
qed

theorem spent_blob_still_decodes_witness:
  "\<exists>state s2. encode sample_codec ''nonce-12byte'' ''u1'' ''p1'' (owner_aad None) (at_ms 0) [] = (Inr state, []) \<and>
    enforce_single_use sample_codec state (at_ms 1) [] = (Inr (), s2) \<and>
    fst (enforce_single_use sample_codec state (at_ms 5) s2) = Inl Replayed \<and>
    decode sample_codec state (owner_aad None) (at_ms 5) s2 = (Inr ''p1'', s2)"
proof -
  obtain state where e: "encode sample_codec ''nonce-12byte'' ''u1'' ''p1'' (owner_aad None) (at_ms 0) [] = (Inr state, [])"
    and st: "state = PREFIX_INLINE @ ''nonce-12byte'' @ seal_head (owner_aad None) @ ''p1''"
    by (simp add: encode_def encode_inline_def sample_codec_ext_def)
  obtain s2 where sp: "enforce_single_use sample_codec state (at_ms 1) [] = (Inr (), s2)"
    by (simp add: st enforce_single_use_def kv_request_state_store_def kv_claim_once_def memory_op_defs Let_def)
  have "fst (enforce_single_use sample_codec state (at_ms 5) s2) = Inl Replayed \<and>
      decode sample_codec state (owner_aad None) (at_ms 5) s2 = (Inr ''p1'', s2)"
    by (rule spent_blob_still_decodes [OF _ _ _ _ _ e sp run_start, where rows_of = "payload_rows memory_view" and ok = memory_ok and
          ttl = "Some DEFAULT_REQUEST_STATE_TTL"])
      (simp_all add: mem_bytes.payloads.request_state_contract_axioms DEFAULT_REQUEST_STATE_TTL_def from_secs_def from_millis_def)
  with e sp show ?thesis by blast
qed

end
