(* ===== verification/Resource_Template.thy ===== *)
theory Resource_Template
  imports Backend_Routes
begin

text \<open>
  URI templates of resources and the normal form of resource URIs (\<open>src/backends/capability_registry.rs\<close>).
  A template is cut into literals and variables once; a read matches its URI against the parts.  The source
  walks the characters of a template and the model its bytes, which is the same since the braces are ASCII.
  The \<open>url\<close> crate is a parameter.
\<close>

section \<open>Templates\<close>

datatype template_part = Literal string | Variable string

record compiled_resource_template =
  crt_profile :: string
  crt_parts :: "template_part list"
  crt_variables :: "string list"

definition push_literal :: "template_part list \<Rightarrow> string \<Rightarrow> template_part list" where
  "push_literal parts buf = (if buf = [] then parts else parts @ [Literal buf])"

definition ends_in_variable :: "template_part list \<Rightarrow> bool" where
  "ends_in_variable parts = (parts \<noteq> [] \<and> (case last parts of Variable _ \<Rightarrow> True | Literal _ \<Rightarrow> False))"

text \<open>The loop of the compiler: the characters left, the parts and variables so far, and the open literal.\<close>

function compile_loop ::
  "string \<Rightarrow> template_part list \<Rightarrow> string list \<Rightarrow> string \<Rightarrow> (template_part list \<times> string list) option" where
  "compile_loop [] parts variables buf = Some (push_literal parts buf, variables)"
| "compile_loop (ch # chars) parts variables buf =
     (if ch = CHR ''{'' then
        (case split_once (CHR ''}'') chars of
           None \<Rightarrow> None
         | Some (name, chars') \<Rightarrow>
             if name = [] \<or> ends_in_variable (push_literal parts buf) then None
             else compile_loop chars' (push_literal parts buf @ [Variable name]) (variables @ [name]) [])
      else compile_loop chars parts variables (buf @ [ch]))"
  by pat_completeness auto
termination
  by (relation "measure (\<lambda>(chars, _, _, _). length chars)") (auto dest!: split_once_SomeD)

definition compile_resource_template :: "string \<Rightarrow> string \<Rightarrow> compiled_resource_template option" where
  "compile_resource_template profile template =
     (case compile_loop template [] [] [] of
        None \<Rightarrow> None
      | Some (parts, variables) \<Rightarrow>
          if variables = [] then None
          else Some \<lparr>crt_profile = profile, crt_parts = parts, crt_variables = variables\<rparr>)"

text \<open>\<open>str::find\<close> of a string: the position of its first occurrence.\<close>

fun find_str :: "string \<Rightarrow> string \<Rightarrow> nat option" where
  "find_str s p =
     (if prefix p s then Some 0
      else (case s of [] \<Rightarrow> None | _ # rest \<Rightarrow> map_option Suc (find_str rest p)))"

declare find_str.simps [simp del]

definition capture_end :: "template_part list \<Rightarrow> string \<Rightarrow> nat option" where
  "capture_end parts remaining =
     (case parts of
        Literal next_lit # _ \<Rightarrow> find_str remaining next_lit
      | Variable _ # _ \<Rightarrow> None
      | [] \<Rightarrow> Some (length remaining))"

fun match_parts :: "template_part list \<Rightarrow> string \<Rightarrow> (string \<times> string) list \<Rightarrow> (string \<times> string) list option" where
  "match_parts [] remaining captured = (if remaining = [] then Some captured else None)"
| "match_parts (Literal lit # parts) remaining captured =
     (if prefix lit remaining then match_parts parts (drop (length lit) remaining) captured else None)"
| "match_parts (Variable name # parts) remaining captured =
     (case capture_end parts remaining of
        None \<Rightarrow> None
      | Some n \<Rightarrow>
          if n = 0 \<or> CHR ''/'' \<in> set (take n remaining) then None
          else match_parts parts (drop n remaining) (AList.update name (take n remaining) captured))"

definition match_uri :: "compiled_resource_template \<Rightarrow> string \<Rightarrow> (string \<times> string) list option" where
  "match_uri template uri =
     (case match_parts (crt_parts template) uri [] of
        None \<Rightarrow> None
      | Some captured \<Rightarrow>
          if list_all (\<lambda>var. map_of captured var \<noteq> None) (crt_variables template) then Some captured else None)"

text \<open>The template string again, as the completion lookups rebuild it.\<close>

definition part_text :: "template_part \<Rightarrow> string" where
  "part_text part = (case part of Literal lit \<Rightarrow> lit | Variable name \<Rightarrow> ''{'' @ name @ ''}'')"

definition rebuilt :: "compiled_resource_template \<Rightarrow> string" where
  "rebuilt template = concat (map part_text (crt_parts template))"

lemma part_text_simps [simp]: "part_text (Literal lit) = lit" "part_text (Variable name) = ''{'' @ name @ ''}''"
  by (simp_all add: part_text_def)

section \<open>Normal forms of URIs\<close>

record 'u url_ops =
  url_parse :: "string \<Rightarrow> 'u option"
  url_set_scheme :: "string \<Rightarrow> 'u \<Rightarrow> 'u"
  url_host_str :: "'u \<Rightarrow> string option"
  url_set_host :: "string \<Rightarrow> 'u \<Rightarrow> 'u"
  url_port :: "'u \<Rightarrow> nat option"
  url_clear_port :: "'u \<Rightarrow> 'u"
  url_as_str :: "'u \<Rightarrow> string"

definition default_port :: "string \<Rightarrow> nat option" where
  "default_port scheme =
     (if scheme = ''http'' \<or> scheme = ''ws'' then Some 80
      else if scheme = ''https'' \<or> scheme = ''wss'' then Some 443
      else if scheme = ''ftp'' then Some 21
      else if scheme = ''ftps'' then Some 990
      else None)"

definition ALLOWED_SCHEMES :: "string list" where
  "ALLOWED_SCHEMES =
     [''http'', ''https'', ''ws'', ''wss'', ''ftp'', ''ftps'', ''file'', ''mcp'', ''mcp-res'', ''resource'',
      ''blob'', ''data'', ''urn'', ''s3'', ''gs'', ''az'']"

definition normal_host :: "'u url_ops \<Rightarrow> 'u \<Rightarrow> 'u" where
  "normal_host x u =
     (case url_host_str x u of
        None \<Rightarrow> u
      | Some host \<Rightarrow>
          (let lower_host = map ascii_lower host in
           if lower_host \<noteq> host then url_set_host x lower_host u else u))"

definition normal_port :: "'u url_ops \<Rightarrow> string \<Rightarrow> 'u \<Rightarrow> 'u" where
  "normal_port x scheme u =
     (case default_port scheme of
        None \<Rightarrow> u
      | Some dp \<Rightarrow> if url_port x u = Some dp then url_clear_port x u else u)"

definition normalize_resource_uri :: "'u url_ops \<Rightarrow> string list \<Rightarrow> string \<Rightarrow> string" where
  "normalize_resource_uri x extra_schemes uri =
     (let trimmed = trim uri in
      case split_once (CHR '':'') trimmed of
        None \<Rightarrow> trimmed
      | Some (scheme, rest) \<Rightarrow>
          (let lower_scheme = map ascii_lower scheme;
               scheme_allowed = (lower_scheme \<in> set ALLOWED_SCHEMES \<or> lower_scheme \<in> set extra_schemes) in
           case url_parse x trimmed of
             Some u \<Rightarrow> url_as_str x (normal_port x lower_scheme (normal_host x (url_set_scheme x lower_scheme u)))
           | None \<Rightarrow> if scheme_allowed then trimmed else lower_scheme @ '':'' @ rest))"

definition set_extra_resource_uri_schemes :: "string list \<Rightarrow> string list option \<Rightarrow> string list option" where
  "set_extra_resource_uri_schemes schemes current =
     (case current of None \<Rightarrow> Some (map (map ascii_lower) schemes) | Some _ \<Rightarrow> current)"

definition extra_schemes_of :: "string list option \<Rightarrow> string list" where
  "extra_schemes_of current = (case current of None \<Rightarrow> [] | Some schemes \<Rightarrow> schemes)"

section \<open>A match undoes an expansion\<close>

text \<open>The parts the compiler makes: no empty literal, no two parts of the same kind next to each other.\<close>

fun well_cut :: "template_part list \<Rightarrow> bool" where
  "well_cut (Literal a # Literal b # ps) = False"
| "well_cut (Variable a # Variable b # ps) = False"
| "well_cut (Literal a # ps) = (a \<noteq> [] \<and> well_cut ps)"
| "well_cut (Variable a # ps) = (a \<noteq> [] \<and> well_cut ps)"
| "well_cut [] = True"

definition part_names :: "template_part list \<Rightarrow> string list" where
  "part_names parts = List.map_filter (\<lambda>p. case p of Literal _ \<Rightarrow> None | Variable n \<Rightarrow> Some n) parts"

lemma part_names_simps [simp]:
  "part_names [] = []" "part_names (Literal a # ps) = part_names ps" "part_names (Variable a # ps) = a # part_names ps"
  "part_names (ps @ qs) = part_names ps @ part_names qs"
  by (simp_all add: part_names_def map_filter_def)

lemma well_cut_snoc:
  "well_cut (ps @ [p]) \<longleftrightarrow> well_cut ps \<and>
     (case p of Literal a \<Rightarrow> a \<noteq> [] \<and> (ps \<noteq> [] \<longrightarrow> ends_in_variable ps) | Variable a \<Rightarrow> a \<noteq> [] \<and> \<not> ends_in_variable ps)"
  by (induction ps rule: well_cut.induct) (auto simp: ends_in_variable_def split: template_part.splits)

lemma compile_loop_spec:
  assumes "compile_loop chars parts variables buf = Some (parts', variables')"
    and "well_cut parts" "buf \<noteq> [] \<longrightarrow> parts = [] \<or> ends_in_variable parts" "variables = part_names parts"
    and "buf = [] \<longrightarrow> parts = [] \<or> ends_in_variable parts"
  shows "well_cut parts' \<and> variables' = part_names parts' \<and>
    concat (map part_text parts') = concat (map part_text parts) @ buf @ chars"
  using assms
proof (induction chars parts variables buf rule: compile_loop.induct)
  case (1 parts variables buf)
  then show ?case by (auto simp: push_literal_def well_cut_snoc)
next
  case (2 ch chars parts variables buf)
  show ?case
  proof (cases "ch = CHR ''{''")
    case True
    with 2(3) obtain name chars' where nm: "split_once (CHR ''}'') chars = Some (name, chars')" "name \<noteq> []"
      "\<not> ends_in_variable (push_literal parts buf)"
      and rest: "compile_loop chars' (push_literal parts buf @ [Variable name]) (variables @ [name]) [] = Some (parts', variables')"
      by (auto split: option.splits if_splits)
    from split_once_SomeD [OF nm(1)] have chars: "chars = name @ CHR ''}'' # chars'" by simp
    have "well_cut (push_literal parts buf)" using 2(4,5) by (auto simp: push_literal_def well_cut_snoc)
    then have "well_cut parts' \<and> variables' = part_names parts' \<and>
        concat (map part_text parts') = concat (map part_text (push_literal parts buf @ [Variable name])) @ [] @ chars'"
      using 2(1) [OF True nm(1) refl _ rest] nm(2,3) 2(6)
      by (auto simp: well_cut_snoc ends_in_variable_def push_literal_def split: if_splits)
    with True chars show ?thesis by (simp add: push_literal_def)
  next
    case False
    with 2 show ?thesis by auto
  qed
qed

lemma compile_resource_templateD:
  assumes "compile_resource_template profile template = Some c"
  shows "well_cut (crt_parts c)" "crt_variables c = part_names (crt_parts c)" "rebuilt c = template" "crt_profile c = profile"
  using assms compile_loop_spec [of template "[]" "[]" "[]"]
  by (auto simp: compile_resource_template_def rebuilt_def split: option.splits if_splits)

text \<open>The URI a template stands for when its variables have values, and values that can be read back.\<close>

fun expand_part :: "(string \<Rightarrow> string) \<Rightarrow> template_part \<Rightarrow> string" where
  "expand_part val (Literal lit) = lit"
| "expand_part val (Variable name) = val name"

definition expand :: "compiled_resource_template \<Rightarrow> (string \<Rightarrow> string) \<Rightarrow> string" where
  "expand template val = concat (map (expand_part val) (crt_parts template))"

definition plain_value :: "string \<Rightarrow> bool" where
  "plain_value v \<longleftrightarrow> v \<noteq> [] \<and> CHR ''/'' \<notin> set v"

fun readable :: "(string \<Rightarrow> string) \<Rightarrow> template_part list \<Rightarrow> bool" where
  "readable val (Variable name # Literal lit # ps) = (hd lit \<notin> set (val name) \<and> readable val ps)"
| "readable val (p # ps) = readable val ps"
| "readable val [] = True"

lemma find_str_Some: "find_str s p = Some n \<Longrightarrow> n \<le> length s \<and> prefix p (drop n s)"
proof (induction s arbitrary: n)
  case (Cons c s)
  then show ?case by (subst (asm) (2) find_str.simps) (auto split: if_splits)
qed (subst (asm) find_str.simps, auto split: if_splits)

lemma find_str_first:
  assumes "p \<noteq> []" "hd p \<notin> set v"
  shows "find_str (v @ p @ rest) p = Some (length v)"
  using assms(2)
proof (induction v)
  case Nil
  then show ?case by (subst find_str.simps) simp
next
  case (Cons c v)
  have "\<not> prefix p (c # v @ p @ rest)" using assms(1) Cons.prems by (cases p) auto
  with Cons show ?case by (subst find_str.simps) simp
qed

lemma match_parts_captured:
  "match_parts ps rest cap = Some cap' \<Longrightarrow> n \<notin> set (part_names ps) \<Longrightarrow> map_of cap' n = map_of cap n"
proof (induction ps rest cap rule: match_parts.induct)
  case (2 lit ps rest cap)
  then show ?case by (auto split: if_splits)
next
  case (3 name ps rest cap)
  then show ?case by (auto simp: update_conv' split: option.splits if_splits)
qed (auto split: if_splits)

lemma match_parts_sound:
  assumes "match_parts ps uri cap = Some cap'" "distinct (part_names ps)"
  shows "concat (map (expand_part (\<lambda>n. the (map_of cap' n))) ps) = uri \<and>
    (\<forall>n \<in> set (part_names ps). \<exists>v. map_of cap' n = Some v \<and> plain_value v)"
  using assms
proof (induction ps uri cap rule: match_parts.induct)
  case (1 rest cap)
  then show ?case by (auto split: if_splits)
next
  case (2 lit ps rest cap)
  then show ?case by (auto simp: prefix_def split: if_splits)
next
  case (3 name ps rest cap)
  from 3(2) obtain n where n: "capture_end ps rest = Some n" "n \<noteq> 0" "CHR ''/'' \<notin> set (take n rest)"
    and m: "match_parts ps (drop n rest) (AList.update name (take n rest) cap) = Some cap'"
    by (auto split: option.splits if_splits)
  have "rest \<noteq> []"
    using n by (auto simp: capture_end_def split: list.splits template_part.splits dest: find_str_Some)
  with n have v: "plain_value (take n rest)" by (auto simp: plain_value_def)
  have IH: "concat (map (expand_part (\<lambda>n. the (map_of cap' n))) ps) = drop n rest \<and>
      (\<forall>n \<in> set (part_names ps). \<exists>v. map_of cap' n = Some v \<and> plain_value v)"
    using n(2,3) 3(3) by (intro 3(1) [OF n(1) _ m]) simp_all
  have "map_of cap' name = Some (take n rest)"
    using match_parts_captured [OF m, of name] 3(3) by (simp add: update_conv')
  with IH v show ?case by simp
qed

lemma well_cut_ConsD: "well_cut (p # ps) \<Longrightarrow> well_cut ps" "well_cut (Literal lit # ps) \<Longrightarrow> lit \<noteq> []"
  by (cases p; cases ps; auto split: template_part.splits elim: well_cut.elims)+

lemma readable_ConsD: "readable val (p # ps) \<Longrightarrow> readable val ps"
  by (induction val "p # ps" rule: readable.induct) auto

lemma capture_end_expanded:
  assumes "well_cut (Variable name # ps)" "readable val (Variable name # ps)"
  shows "capture_end ps (val name @ concat (map (expand_part val) ps)) = Some (length (val name))"
proof (cases ps)
  case (Cons p qs)
  with assms(1) obtain lit where p: "p = Literal lit" by (cases p) auto
  then have "lit \<noteq> []" using well_cut_ConsD(1) [OF assms(1)] Cons well_cut_ConsD(2) by blast
  with assms(2) Cons p show ?thesis using find_str_first [of lit "val name"] by (simp add: capture_end_def)
qed (simp add: capture_end_def)

lemma match_parts_complete:
  assumes "well_cut ps" "distinct (part_names ps)" "\<forall>n \<in> set (part_names ps). plain_value (val n)" "readable val ps"
  shows "\<exists>cap'. match_parts ps (concat (map (expand_part val) ps)) cap = Some cap' \<and>
    (\<forall>n \<in> set (part_names ps). map_of cap' n = Some (val n))"
  using assms
proof (induction ps arbitrary: cap)
  case (Cons p ps)
  note IH = Cons.IH [OF well_cut_ConsD(1) [OF Cons.prems(1)] _ _ readable_ConsD [OF Cons.prems(4)]]
  show ?case
  proof (cases p)
    case (Literal lit)
    with Cons.prems IH show ?thesis by simp
  next
    case (Variable name)
    with Cons.prems IH [of "AList.update name (val name) cap"] obtain cap' where
      m: "match_parts ps (concat (map (expand_part val) ps)) (AList.update name (val name) cap) = Some cap'"
      "\<forall>n \<in> set (part_names ps). map_of cap' n = Some (val n)" by auto
    then have "map_of cap' name = Some (val name)"
      using match_parts_captured [OF m(1), of name] Cons.prems(2) Variable by (simp add: update_conv')
    moreover have "plain_value (val name)" using Cons.prems(3) Variable by simp
    ultimately show ?thesis
      using m capture_end_expanded [of name ps val] Cons.prems(1,4) Variable by (auto simp: plain_value_def)
  qed
qed simp



end
