(* ===== verification/Schema_Safety.thy ===== *)
theory Schema_Safety
  imports Backend_Routes
begin

text \<open>
  The checks a tool schema has to pass before it is compiled: \<open>src/config/schema_safety.rs\<close>.  \<open>walk\<close> visits
  the schema depth first and carries the number of nodes it may still visit.  The JSON Schema compiler is a
  parameter; the error values carry what the messages name, and \<open>schema_error_text\<close> is their text.
\<close>

section \<open>The checks\<close>

definition MAX_SCHEMA_DEPTH :: nat where
  "MAX_SCHEMA_DEPTH = 32"

definition MAX_COMPOSITION_BREADTH :: nat where
  "MAX_COMPOSITION_BREADTH = 64"

definition MAX_SCHEMA_NODES :: nat where
  "MAX_SCHEMA_NODES = 10000"

definition COMPOSITION_KEYS :: "string list" where
  "COMPOSITION_KEYS = [''allOf'', ''anyOf'', ''oneOf'']"

datatype schema_error =
    TooDeep
  | TooManyNodes
  | OffDocumentRef string
  | NotAnArray string
  | TooWide string nat

definition schema_error_text :: "string \<Rightarrow> schema_error \<Rightarrow> string" where
  "schema_error_text path e = path @ '': '' @
     (case e of
        TooDeep \<Rightarrow> ''JSON Schema nesting exceeds the 32-level depth bound; '' @
          ''a tool schema this deep is rejected as a validation-time DoS vector''
      | TooManyNodes \<Rightarrow> ''JSON Schema exceeds the 10000-node total-size bound''
      | OffDocumentRef reference \<Rightarrow> ''JSON Schema `$ref` points off-document to '' @ [CHR 0x27] @ reference @ [CHR 0x27] @ ''; '' @
          ''network and file `$ref` targets are banned (SSRF / supply-chain risk). '' @
          ''Inline the schema or use the gateway `schema_registry` indirection.''
      | NotAnArray key \<Rightarrow> ''JSON Schema `'' @ key @ ''` must be an array of subschemas''
      | TooWide key n \<Rightarrow> ''JSON Schema `'' @ key @ ''` has '' @ show_nat n @ '' branches, exceeding the '' @
          ''64-branch breadth bound'')"

definition is_offdocument_ref :: "string \<Rightarrow> bool" where
  "is_offdocument_ref reference =
     (let lower = map ascii_lower (trim reference) in
      prefix ''http://'' lower \<or> prefix ''https://'' lower \<or> prefix ''file://'' lower \<or> prefix ''file:'' lower)"

fun composition_error :: "(string \<times> json) list \<Rightarrow> string list \<Rightarrow> schema_error option" where
  "composition_error members [] = None"
| "composition_error members (key # keys) =
     (case map_of members key of
        None \<Rightarrow> composition_error members keys
      | Some (JArr branches) \<Rightarrow>
          if length branches > MAX_COMPOSITION_BREADTH then Some (TooWide key (length branches))
          else composition_error members keys
      | Some _ \<Rightarrow> Some (NotAnArray key))"

definition object_error :: "(string \<times> json) list \<Rightarrow> schema_error option" where
  "object_error members =
     (case Option.bind (map_of members ''$ref'') as_str of
        Some reference \<Rightarrow>
          if is_offdocument_ref reference then Some (OffDocumentRef reference)
          else composition_error members COMPOSITION_KEYS
      | None \<Rightarrow> composition_error members COMPOSITION_KEYS)"

fun walk :: "json \<Rightarrow> nat \<Rightarrow> nat \<Rightarrow> schema_error + nat"
  and walk_fields :: "(string \<times> json) list \<Rightarrow> nat \<Rightarrow> nat \<Rightarrow> schema_error + nat"
  and walk_items :: "json list \<Rightarrow> nat \<Rightarrow> nat \<Rightarrow> schema_error + nat" where
  "walk node depth node_budget =
     (if depth > MAX_SCHEMA_DEPTH then Inl TooDeep
      else if node_budget = 0 then Inl TooManyNodes
      else (case node of
              JObj members \<Rightarrow>
                (case object_error members of
                   Some e \<Rightarrow> Inl e
                 | None \<Rightarrow> walk_fields members (depth + 1) (node_budget - 1))
            | JArr items \<Rightarrow> walk_items items (depth + 1) (node_budget - 1)
            | _ \<Rightarrow> Inr (node_budget - 1)))"
| "walk_fields [] depth node_budget = Inr node_budget"
| "walk_fields ((_, v) # members) depth node_budget =
     (case walk v depth node_budget of Inl e \<Rightarrow> Inl e | Inr left \<Rightarrow> walk_fields members depth left)"
| "walk_items [] depth node_budget = Inr node_budget"
| "walk_items (v # items) depth node_budget =
     (case walk v depth node_budget of Inl e \<Rightarrow> Inl e | Inr left \<Rightarrow> walk_items items depth left)"

declare walk.simps [simp del]

definition validate_tool_schema :: "json \<Rightarrow> string \<Rightarrow> string + unit" where
  "validate_tool_schema schema path =
     (case walk schema 0 MAX_SCHEMA_NODES of
        Inl e \<Rightarrow> Inl (schema_error_text path e)
      | Inr _ \<Rightarrow> Inr ())"

text \<open>\<open>build\<close> is the compiler, with a retriever that refuses every reference outside the document.\<close>

definition compile_checked :: "(json \<Rightarrow> string + 'w) \<Rightarrow> json \<Rightarrow> string \<Rightarrow> string + 'w" where
  "compile_checked build schema path =
     (case validate_tool_schema schema path of
        Inl e \<Rightarrow> Inl e
      | Inr _ \<Rightarrow>
          (case build schema of
             Inl e \<Rightarrow> Inl (path @ '' is not a valid JSON Schema: '' @ e)
           | Inr validator \<Rightarrow> Inr validator))"

section \<open>What a schema that passes looks like\<close>

text \<open>The nodes of a document, the level of its deepest node below the root, and its objects.\<close>

fun nodes :: "json \<Rightarrow> nat" where
  "nodes (JObj members) = 1 + (\<Sum>(_, v) \<leftarrow> members. nodes v)"
| "nodes (JArr items) = 1 + (\<Sum>v \<leftarrow> items. nodes v)"
| "nodes _ = 1"

fun levels :: "json \<Rightarrow> nat" where
  "levels (JObj members) = foldr max (map (\<lambda>(_, v). 1 + levels v) members) 0"
| "levels (JArr items) = foldr max (map (\<lambda>v. 1 + levels v) items) 0"
| "levels _ = 0"

fun objects :: "json \<Rightarrow> (string \<times> json) list list" where
  "objects (JObj members) = members # concat (map (\<lambda>(_, v). objects v) members)"
| "objects (JArr items) = concat (map objects items)"
| "objects _ = []"

lemma composition_error_None:
  "composition_error members keys = None \<longleftrightarrow>
     (\<forall>key \<in> set keys. \<forall>v. map_of members key = Some v \<longrightarrow>
        (\<exists>branches. v = JArr branches \<and> length branches \<le> MAX_COMPOSITION_BREADTH))"
  by (induction keys) (auto split: option.splits json.splits)

lemma object_error_None:
  "object_error members = None \<longleftrightarrow>
     (\<forall>reference. map_of members ''$ref'' = Some (JStr reference) \<longrightarrow> \<not> is_offdocument_ref reference) \<and>
     (\<forall>key \<in> set COMPOSITION_KEYS. \<forall>v. map_of members key = Some v \<longrightarrow>
        (\<exists>branches. v = JArr branches \<and> length branches \<le> MAX_COMPOSITION_BREADTH))"
proof (cases "map_of members ''$ref''")
  case (Some v)
  then show ?thesis by (cases v) (auto simp: object_error_def composition_error_None)
qed (simp add: object_error_def composition_error_None)

lemma nodes_pos: "0 < nodes v"
  by (cases v) auto

lemma foldr_max_le: "d + foldr max (xs :: nat list) 0 \<le> n \<longleftrightarrow> d \<le> n \<and> (\<forall>x \<in> set xs. d + x \<le> n)"
  by (induction xs) auto

lemma walk_spec:
  "walk node depth b = Inr left \<longleftrightarrow>
     depth + levels node \<le> MAX_SCHEMA_DEPTH \<and> nodes node + left = b \<and>
     (\<forall>members \<in> set (objects node). object_error members = None)"
  "walk_fields members depth b = Inr left \<longleftrightarrow>
     (\<forall>(_, v) \<in> set members. depth + levels v \<le> MAX_SCHEMA_DEPTH) \<and> (\<Sum>(_, v) \<leftarrow> members. nodes v) + left = b \<and>
     (\<forall>(_, v) \<in> set members. \<forall>members \<in> set (objects v). object_error members = None)"
  "walk_items items depth b = Inr left \<longleftrightarrow>
     (\<forall>v \<in> set items. depth + levels v \<le> MAX_SCHEMA_DEPTH) \<and> (\<Sum>v \<leftarrow> items. nodes v) + left = b \<and>
     (\<forall>v \<in> set items. \<forall>members \<in> set (objects v). object_error members = None)"
proof (induction node depth b and members depth b and items depth b arbitrary: left and left and left
    rule: walk_walk_fields_walk_items.induct)
  case (1 node depth b)
  show ?case
  proof (cases "depth > MAX_SCHEMA_DEPTH \<or> b = 0")
    case True
    then show ?thesis using nodes_pos [of node] by (auto simp: walk.simps)
  next
    case False
    then show ?thesis
    proof (cases node)
      case (JArr items)
      have "walk_items items (depth + 1) (b - 1) = Inr left \<longleftrightarrow>
          (\<forall>v \<in> set items. depth + 1 + levels v \<le> MAX_SCHEMA_DEPTH) \<and> (\<Sum>v \<leftarrow> items. nodes v) + left = b - 1 \<and>
          (\<forall>v \<in> set items. \<forall>members \<in> set (objects v). object_error members = None)"
        using False JArr by (intro 1) auto
      with JArr False show ?thesis by (auto simp: walk.simps foldr_max_le)
    next
      case (JObj members)
      show ?thesis
      proof (cases "object_error members")
        case None
        have "walk_fields members (depth + 1) (b - 1) = Inr left \<longleftrightarrow>
            (\<forall>(_, v) \<in> set members. depth + 1 + levels v \<le> MAX_SCHEMA_DEPTH) \<and> (\<Sum>(_, v) \<leftarrow> members. nodes v) + left = b - 1 \<and>
            (\<forall>(_, v) \<in> set members. \<forall>m \<in> set (objects v). object_error m = None)"
          using False JObj None by (intro 1) auto
        with JObj False None show ?thesis
          by (simp add: walk.simps foldr_max_le case_prod_beta ball_Un) (auto simp: Suc_le_eq)
      qed (use JObj False in \<open>simp add: walk.simps\<close>)
    qed (auto simp: walk.simps)
  qed
qed (auto split: sum.splits)

text \<open>An object that cannot make the compiler leave the document or branch without bound.\<close>

definition safe_object :: "(string \<times> json) list \<Rightarrow> bool" where
  "safe_object members \<longleftrightarrow>
     (\<forall>reference. map_of members ''$ref'' = Some (JStr reference) \<longrightarrow> \<not> is_offdocument_ref reference) \<and>
     (\<forall>key \<in> {''allOf'', ''anyOf'', ''oneOf''}. \<forall>v. map_of members key = Some v \<longrightarrow>
        (\<exists>branches. v = JArr branches \<and> length branches \<le> 64))"

lemma safe_object_iff: "safe_object members \<longleftrightarrow> object_error members = None"
  by (auto simp: safe_object_def object_error_None COMPOSITION_KEYS_def MAX_COMPOSITION_BREADTH_def)

text \<open>
  C30.  A tool schema is compiled exactly when the compiler takes it and it is at most 32 levels deep, has at
  most 10000 nodes, and no object in it refers to a network or file location or has a composition keyword
  with anything but an array of at most 64 branches.
\<close>

theorem compiled_schema_is_bounded:
  "compile_checked build schema path = Inr w \<longleftrightarrow>
     levels schema \<le> 32 \<and> nodes schema \<le> 10000 \<and> list_all safe_object (objects schema) \<and> build schema = Inr w"
proof -
  have "(\<exists>left. walk schema 0 MAX_SCHEMA_NODES = Inr left) \<longleftrightarrow>
      levels schema \<le> 32 \<and> nodes schema \<le> 10000 \<and> list_all safe_object (objects schema)"
    unfolding walk_spec
    by (auto simp: MAX_SCHEMA_DEPTH_def MAX_SCHEMA_NODES_def list_all_iff safe_object_iff intro: le_add_diff_inverse)
  then show ?thesis
    by (auto simp: compile_checked_def validate_tool_schema_def split: sum.splits)
qed

end
