(* ===== verification/Capability_Registry.thy ===== *)
theory Capability_Registry
  imports Policy_Gate Resource_Template Schema_Safety
begin

text \<open>
  The catalog of everything a client may call or read: \<open>src/backends/capability_registry.rs\<close> and the overlay
  of federated capabilities in \<open>src/backends/federation.rs\<close>.

  The registry is a record with the source's fields; the overlay, which the federation engine swaps
  atomically, is one of them.  Icons and content annotations are copied field by field into the same shape,
  so they are JSON values.  The schemas a plugin derives for a binding, the merge of two schemas, the JSON
  Schema compiler and its validators, and the URL parser are parameters.  Logging has no effect here; the set
  of names already reported is only there to log once.
\<close>

section \<open>Descriptors and bindings\<close>

datatype task_support = TaskForbidden | TaskOptional | TaskRequired

record tool_annotations =
  ta_title :: "string option"
  ta_read_only_hint :: "bool option"
  ta_destructive_hint :: "bool option"
  ta_idempotent_hint :: "bool option"
  ta_open_world_hint :: "bool option"

record tool_descriptor =
  td_name :: string
  td_title :: "string option"
  td_description :: string
  td_input_schema :: json
  td_output_schema :: "json option"
  td_annotations :: "tool_annotations option"
  td_execution :: "task_support option"
  td_icons :: "json option"
  td_meta :: "json option"

record prompt_argument =
  pa_name :: string
  pa_title :: "string option"
  pa_description :: "string option"
  pa_required :: bool

record prompt_descriptor =
  pd_name :: string
  pd_title :: "string option"
  pd_description :: "string option"
  pd_arguments :: "prompt_argument list"
  pd_icons :: "json option"
  pd_meta :: "json option"

record resource_descriptor =
  rd_uri :: string
  rd_name :: string
  rd_title :: "string option"
  rd_description :: "string option"
  rd_mime_type :: "string option"
  rd_size :: "nat option"
  rd_icons :: "json option"
  rd_annotations :: "json option"
  rd_meta :: "json option"

record resource_template =
  rt_uri_template :: string
  rt_name :: string
  rt_title :: "string option"
  rt_description :: "string option"
  rt_mime_type :: "string option"
  rt_annotations :: "json option"
  rt_icons :: "json option"
  rt_meta :: "json option"

record annotations_config =
  ac_read_only :: "bool option"
  ac_destructive :: "bool option"
  ac_idempotent :: "bool option"
  ac_open_world :: "bool option"

record prompt_argument_config =
  pac_name :: string
  pac_description :: "string option"
  pac_required :: bool
  pac_completions :: "string list option"

datatype completion_source = StaticValues "string list" | DynamicSource string json

record binding_config = backend_binding +
  bc_title :: "string option"
  bc_description :: string
  bc_input_schema :: "json option"
  bc_output_schema :: "json option"
  bc_annotations :: "annotations_config option"
  bc_task_support :: "string option"
  bc_icons :: "json option"
  bc_descriptor_meta :: "json option"
  bc_prompt_arguments :: "prompt_argument_config list option"
  bc_uri :: "string option"
  bc_uri_template :: "string option"
  bc_mime_type :: "string option"
  bc_resource_size :: "nat option"
  bc_resource_annotations :: "json option"
  bc_mcp_app_url :: "string option"
  bc_variable_completions :: "(string \<times> completion_source) list option"

record ('w, 'u) registry_ext =
  rx_input_schema :: "string \<Rightarrow> string \<Rightarrow> json option"
  rx_output_schema :: "string \<Rightarrow> string \<Rightarrow> json option"
  rx_merge_schema :: "json \<Rightarrow> json \<Rightarrow> json"
  rx_build :: "json \<Rightarrow> string + 'w"
  rx_valid :: "'w \<Rightarrow> json \<Rightarrow> bool"
  rx_errors :: "'w \<Rightarrow> json \<Rightarrow> (string \<times> string) list"
  rx_url :: "'u url_ops"
  rx_extra_schemes :: "string list"

abbreviation normal_uri :: "('w, 'u) registry_ext \<Rightarrow> string \<Rightarrow> string" where
  "normal_uri x \<equiv> normalize_resource_uri (rx_url x) (rx_extra_schemes x)"

section \<open>The registry\<close>

record registered_tool =
  rgt_descriptor :: tool_descriptor
  rgt_route :: backend_invocation_route

record registered_prompt =
  rgp_descriptor :: prompt_descriptor
  rgp_route :: prompt_route

record registered_resource =
  rgr_descriptor :: resource_descriptor
  rgr_route :: resource_route
  rgr_app_url_pattern :: "string option"
  rgr_normalized_uri :: string

record dynamic_completion_entry =
  dce_backend_name :: string
  dce_kind :: string
  dce_config :: json

record compiled_federated_template =
  cft_matcher :: compiled_resource_template
  cft_source :: string
  cft_prefix :: string
  cft_uri_template :: string

record federated_catalog =
  fc_tools :: "registered_tool list"
  fc_resources :: "registered_resource list"
  fc_resource_index :: "string \<rightharpoonup> nat"
  fc_resource_templates :: "(resource_template \<times> string) list"
  fc_resource_template_routes :: "compiled_federated_template list"
  fc_prompts :: "registered_prompt list"

record 'w capability_registry =
  cr_tools :: "registered_tool list"
  cr_prompts :: "registered_prompt list"
  cr_resources :: "registered_resource list"
  cr_resource_templates :: "resource_template list"
  cr_resource_template_routes :: "compiled_resource_template list"
  cr_schema_validators :: "string \<rightharpoonup> 'w"
  cr_output_schema_validators :: "string \<rightharpoonup> 'w"
  cr_binding_routes :: "string \<rightharpoonup> backend_invocation_route"
  cr_prompt_completions :: "string \<times> string \<rightharpoonup> string list"
  cr_template_completions :: "string \<times> string \<rightharpoonup> string list"
  cr_dynamic_completions :: "string \<times> string \<rightharpoonup> dynamic_completion_entry"
  cr_federated :: federated_catalog

definition registered_resource_new ::
  "('w, 'u) registry_ext \<Rightarrow> resource_descriptor \<Rightarrow> resource_route \<Rightarrow> string option \<Rightarrow> registered_resource" where
  "registered_resource_new x descriptor r app_url_pattern =
     \<lparr>rgr_descriptor = descriptor, rgr_route = r, rgr_app_url_pattern = app_url_pattern,
      rgr_normalized_uri = normal_uri x (rd_uri descriptor)\<rparr>"

section \<open>The overlay of federated capabilities\<close>

record federated_resource_template =
  frt_descriptor :: resource_template
  frt_source :: string
  frt_prefix :: string

definition empty_catalog :: federated_catalog where
  "empty_catalog =
     \<lparr>fc_tools = [], fc_resources = [], fc_resource_index = Map.empty, fc_resource_templates = [],
      fc_resource_template_routes = [], fc_prompts = []\<rparr>"

definition compile_federated_template :: "federated_resource_template \<Rightarrow> compiled_federated_template option" where
  "compile_federated_template t =
     (case compile_resource_template (frt_source t) (rt_uri_template (frt_descriptor t)) of
        None \<Rightarrow> None
      | Some matcher \<Rightarrow>
          Some \<lparr>cft_matcher = matcher, cft_source = frt_source t, cft_prefix = frt_prefix t,
                cft_uri_template = rt_uri_template (frt_descriptor t)\<rparr>)"

text \<open>The position of the first resource under each normal form.\<close>

fun index_resources :: "registered_resource list \<Rightarrow> nat \<Rightarrow> (string \<rightharpoonup> nat) \<Rightarrow> (string \<rightharpoonup> nat)" where
  "index_resources [] position index = index"
| "index_resources (r # rs) position index =
     index_resources rs (Suc position)
       (case index (rgr_normalized_uri r) of None \<Rightarrow> index(rgr_normalized_uri r \<mapsto> position) | Some _ \<Rightarrow> index)"

definition catalog_from_parts ::
  "('w, 'u) registry_ext \<Rightarrow> registered_tool list \<Rightarrow> (resource_descriptor \<times> resource_route) list \<Rightarrow>
     federated_resource_template list \<Rightarrow> registered_prompt list \<Rightarrow> federated_catalog" where
  "catalog_from_parts x tools resources templates prompts =
     (let registered = map (\<lambda>(d, r). registered_resource_new x d r None) resources in
      \<lparr>fc_tools = tools, fc_resources = registered, fc_resource_index = index_resources registered 0 Map.empty,
       fc_resource_templates = map (\<lambda>t. (frt_descriptor t, frt_source t)) templates,
       fc_resource_template_routes = List.map_filter compile_federated_template templates,
       fc_prompts = prompts\<rparr>)"

definition catalog_resource :: "federated_catalog \<Rightarrow> string \<Rightarrow> registered_resource option" where
  "catalog_resource cat normalized =
     (case fc_resource_index cat normalized of
        None \<Rightarrow> None
      | Some position \<Rightarrow> if position < length (fc_resources cat) then Some (fc_resources cat ! position) else None)"

definition catalog_len :: "federated_catalog \<Rightarrow> nat" where
  "catalog_len cat =
     length (fc_tools cat) + length (fc_resources cat) + length (fc_resource_templates cat) + length (fc_prompts cat)"

definition catalog_is_empty :: "federated_catalog \<Rightarrow> bool" where
  "catalog_is_empty cat \<longleftrightarrow>
     fc_tools cat = [] \<and> fc_resources cat = [] \<and> fc_resource_templates cat = [] \<and> fc_prompts cat = []"

text \<open>The engine's \<open>store\<close> on the shared handle.\<close>

definition store_overlay :: "federated_catalog \<Rightarrow> 'w capability_registry \<Rightarrow> 'w capability_registry" where
  "store_overlay cat reg = reg\<lparr>cr_federated := cat\<rparr>"

section \<open>Registration\<close>

record debug_tool_backends =
  dtb_command_probe_profile :: string
  dtb_network_probe_profile :: string
  dtb_network_json_call_profile :: string

definition default_debug_tool_backends :: debug_tool_backends where
  "default_debug_tool_backends =
     \<lparr>dtb_command_probe_profile = ''default_command_probe'', dtb_network_probe_profile = ''default_network_probe'',
      dtb_network_json_call_profile = ''default_network_probe''\<rparr>"

record debug_tool_exposure =
  dte_command_probe :: bool
  dte_network_probe :: bool
  dte_network_json_call :: bool
  dte_operational_overview_prompt :: bool
  dte_runtime_overview_resource :: bool

definition default_debug_tool_exposure :: debug_tool_exposure where
  "default_debug_tool_exposure =
     \<lparr>dte_command_probe = True, dte_network_probe = True, dte_network_json_call = False,
      dte_operational_overview_prompt = True, dte_runtime_overview_resource = True\<rparr>"

definition object_schema :: "bool \<Rightarrow> json" where
  "object_schema additional = JObj [(''type'', JStr ''object''), (''additionalProperties'', JBool additional)]"

definition debug_tool :: "string \<Rightarrow> string \<Rightarrow> string \<Rightarrow> bool \<Rightarrow> backend_invocation_route \<Rightarrow> registered_tool" where
  "debug_tool name title description additional r =
     \<lparr>rgt_descriptor =
        \<lparr>td_name = name, td_title = Some title, td_description = description, td_input_schema = object_schema additional,
         td_output_schema = None, td_annotations = None, td_execution = None, td_icons = None, td_meta = None\<rparr>,
      rgt_route = r\<rparr>"

definition debug_tools :: "debug_tool_backends \<Rightarrow> debug_tool_exposure \<Rightarrow> registered_tool list" where
  "debug_tools profiles exposure =
     [debug_tool ''mcpg.runtime.snapshot'' ''MCPG Runtime Snapshot''
        ''Return the current MCPG runtime snapshot.'' False RuntimeSnapshot,
      debug_tool ''mcpg.request.echo'' ''MCPG Request Echo''
        ''Return normalized request and argument details through the adapter-facing execution seam.'' True RequestEcho] @
     (if dte_command_probe exposure
      then [debug_tool ''mcpg.debug.command_probe'' ''MCPG Debug Command Probe''
              ''Execute the configured debug command through the command-based execution path.'' True
              (CommandProbe (dtb_command_probe_profile profiles))] else []) @
     (if dte_network_probe exposure
      then [debug_tool ''mcpg.debug.network_probe'' ''MCPG Debug Network Probe''
              ''Execute the configured debug network probe through the network-based execution path.'' True
              (NetworkProbe (dtb_network_probe_profile profiles))] else []) @
     (if dte_network_json_call exposure
      then [debug_tool ''mcpg.debug.network_json_call'' ''MCPG Debug Network JSON Call''
              (''POST the tool arguments as JSON to the configured debug network endpoint '' @
               ''through the network-based execution path.'') True
              (NetworkJsonCall (dtb_network_json_call_profile profiles))] else [])"

abbreviation as_binding :: "binding_config \<Rightarrow> backend_binding" where
  "as_binding \<equiv> backend_binding.truncate"

definition build_tool_annotations :: "binding_config \<Rightarrow> tool_annotations option" where
  "build_tool_annotations b =
     (case bc_annotations b of
        None \<Rightarrow> None
      | Some ann \<Rightarrow>
          if ac_read_only ann = None \<and> ac_destructive ann = None \<and> ac_idempotent ann = None \<and> ac_open_world ann = None
          then None
          else Some \<lparr>ta_title = None, ta_read_only_hint = ac_read_only ann, ta_destructive_hint = ac_destructive ann,
                     ta_idempotent_hint = ac_idempotent ann, ta_open_world_hint = ac_open_world ann\<rparr>)"

definition build_tool_execution :: "binding_config \<Rightarrow> task_support option" where
  "build_tool_execution b =
     (case bc_task_support b of
        None \<Rightarrow> None
      | Some s \<Rightarrow>
          if s = ''forbidden'' then Some TaskForbidden
          else if s = ''optional'' then Some TaskOptional
          else if s = ''required'' then Some TaskRequired
          else None)"

text \<open>An operator's schema over the one the plugin derives.\<close>

definition compose_schema :: "('w, 'u) registry_ext \<Rightarrow> json option \<Rightarrow> json option \<Rightarrow> json option" where
  "compose_schema x operator derived =
     (case (operator, derived) of
        (Some oper, Some der) \<Rightarrow> Some (rx_merge_schema x der oper)
      | (Some oper, None) \<Rightarrow> Some oper
      | (None, Some der) \<Rightarrow> Some der
      | (None, None) \<Rightarrow> None)"

definition derived_schema :: "(string \<Rightarrow> string \<Rightarrow> json option) \<Rightarrow> binding_config \<Rightarrow> json option" where
  "derived_schema lookup b = Option.bind (binding_plugin_kind (as_binding b)) (\<lambda>kind. lookup kind (bb_name b))"

definition composed_output_schema :: "('w, 'u) registry_ext \<Rightarrow> binding_config \<Rightarrow> json option" where
  "composed_output_schema x b = compose_schema x (bc_output_schema b) (derived_schema (rx_output_schema x) b)"

definition register_tool :: "('w, 'u) registry_ext \<Rightarrow> binding_config \<Rightarrow> registered_tool" where
  "register_tool x b =
     \<lparr>rgt_descriptor =
        \<lparr>td_name = bb_name b, td_title = bc_title b, td_description = bc_description b,
         td_input_schema = (case compose_schema x (bc_input_schema b) (derived_schema (rx_input_schema x) b) of
                              None \<Rightarrow> object_schema True | Some schema \<Rightarrow> schema),
         td_output_schema = composed_output_schema x b,
         td_annotations = build_tool_annotations b, td_execution = build_tool_execution b,
         td_icons = bc_icons b, td_meta = bc_descriptor_meta b\<rparr>,
      rgt_route = classify_behavioral_route (as_binding b)\<rparr>"

text \<open>A schema that does not compile leaves its tool without a validator.\<close>

definition add_validator ::
  "('w, 'u) registry_ext \<Rightarrow> string \<Rightarrow> (binding_config \<Rightarrow> json option) \<Rightarrow> (string \<rightharpoonup> 'w) \<Rightarrow> binding_config \<Rightarrow> (string \<rightharpoonup> 'w)" where
  "add_validator x what schema_of validators b =
     (case schema_of b of
        None \<Rightarrow> validators
      | Some schema \<Rightarrow>
          (case compile_checked (rx_build x) schema
                  (''binding '' @ [CHR 0x27] @ bb_name b @ [CHR 0x27] @ '' '' @ what) of
             Inl _ \<Rightarrow> validators
           | Inr validator \<Rightarrow> validators(bb_name b \<mapsto> validator)))"

definition register_prompt :: "binding_config \<Rightarrow> registered_prompt" where
  "register_prompt b =
     \<lparr>rgp_descriptor =
        \<lparr>pd_name = bb_name b, pd_title = bc_title b, pd_description = Some (bc_description b),
         pd_arguments = map (\<lambda>a. \<lparr>pa_name = pac_name a, pa_title = None, pa_description = pac_description a,
                                   pa_required = pac_required a\<rparr>)
           (case bc_prompt_arguments b of None \<Rightarrow> [] | Some args \<Rightarrow> args),
         pd_icons = bc_icons b, pd_meta = bc_descriptor_meta b\<rparr>,
      rgp_route = PromptBinding (bb_name b)\<rparr>"

fun add_argument_completions ::
  "string \<Rightarrow> prompt_argument_config list \<Rightarrow> (string \<times> string \<rightharpoonup> string list) \<Rightarrow> (string \<times> string \<rightharpoonup> string list)" where
  "add_argument_completions name [] comps = comps"
| "add_argument_completions name (a # args) comps =
     add_argument_completions name args
       (case pac_completions a of None \<Rightarrow> comps | Some values \<Rightarrow> comps((name, pac_name a) \<mapsto> values))"

definition add_prompt_completions ::
  "(string \<times> string \<rightharpoonup> string list) \<Rightarrow> binding_config \<Rightarrow> (string \<times> string \<rightharpoonup> string list)" where
  "add_prompt_completions comps b =
     (case bc_prompt_arguments b of None \<Rightarrow> comps | Some args \<Rightarrow> add_argument_completions (bb_name b) args comps)"

definition merge_mcp_app_url :: "json option \<Rightarrow> string option \<Rightarrow> json option" where
  "merge_mcp_app_url existing_meta app_url =
     (case (existing_meta, app_url) of
        (None, None) \<Rightarrow> None
      | (Some meta, None) \<Rightarrow> Some meta
      | (None, Some url) \<Rightarrow> Some (JObj [(''mcpAppUrl'', JStr url)])
      | (Some (JObj members), Some url) \<Rightarrow> Some (JObj (AList.update ''mcpAppUrl'' (JStr url) members))
      | (Some other, Some url) \<Rightarrow> Some (JObj [(''_original'', other), (''mcpAppUrl'', JStr url)]))"

definition register_resource :: "('w, 'u) registry_ext \<Rightarrow> binding_config \<Rightarrow> registered_resource" where
  "register_resource x b =
     registered_resource_new x
       \<lparr>rd_uri = (case bc_uri b of None \<Rightarrow> ''mcpg://resources/'' @ bb_name b | Some uri \<Rightarrow> uri),
        rd_name = bb_name b, rd_title = bc_title b, rd_description = Some (bc_description b),
        rd_mime_type = bc_mime_type b, rd_size = bc_resource_size b, rd_icons = bc_icons b,
        rd_annotations = bc_resource_annotations b,
        rd_meta = merge_mcp_app_url (bc_descriptor_meta b) (bc_mcp_app_url b)\<rparr>
       (ResourceBinding (bb_name b))
       (case bc_mcp_app_url b of None \<Rightarrow> None | Some u \<Rightarrow> if find_str u ''${'' \<noteq> None then Some u else None)"

definition overview_prompt :: registered_prompt where
  "overview_prompt =
     \<lparr>rgp_descriptor =
        \<lparr>pd_name = ''mcpg_operational_overview'', pd_title = Some ''MCPG Operational Overview'',
         pd_description = Some ''Summarize the current MCPG server posture and capability surface.'',
         pd_arguments = [], pd_icons = None, pd_meta = None\<rparr>,
      rgp_route = OperationalOverview\<rparr>"

definition overview_resource :: "('w, 'u) registry_ext \<Rightarrow> registered_resource" where
  "overview_resource x =
     registered_resource_new x
       \<lparr>rd_uri = ''mcpg://runtime/overview'', rd_name = ''runtime-overview'', rd_title = Some ''MCPG Runtime Overview'',
        rd_description = Some ''Current runtime and readiness details for the gateway.'',
        rd_mime_type = Some ''application/json'', rd_size = None, rd_icons = None, rd_annotations = None, rd_meta = None\<rparr>
       RuntimeOverview None"

definition binding_kind_of :: "binding_config \<Rightarrow> string" where
  "binding_kind_of b = (case binding_plugin_kind (as_binding b) of None \<Rightarrow> [] | Some kind \<Rightarrow> kind)"

definition register_template :: "binding_config \<Rightarrow> string \<Rightarrow> resource_template" where
  "register_template b uri_template =
     \<lparr>rt_uri_template = uri_template, rt_name = bb_name b, rt_title = bc_title b,
      rt_description = Some (bc_description b), rt_mime_type = bc_mime_type b, rt_annotations = None,
      rt_icons = bc_icons b, rt_meta = merge_mcp_app_url (bc_descriptor_meta b) (bc_mcp_app_url b)\<rparr>"

definition compiled_of :: "binding_config \<Rightarrow> compiled_resource_template option" where
  "compiled_of b = Option.bind (bc_uri_template b) (compile_resource_template (bb_name b))"

fun add_variable_completions ::
  "(string \<rightharpoonup> string) \<Rightarrow> string \<Rightarrow> string list \<Rightarrow> (string \<times> completion_source) list \<Rightarrow>
     (string \<times> string \<rightharpoonup> string list) \<times> (string \<times> string \<rightharpoonup> dynamic_completion_entry) \<Rightarrow>
     (string \<times> string \<rightharpoonup> string list) \<times> (string \<times> string \<rightharpoonup> dynamic_completion_entry)" where
  "add_variable_completions kinds name variables [] (statics, dynamics) = (statics, dynamics)"
| "add_variable_completions kinds name variables ((var_name, source) # sources) (statics, dynamics) =
     add_variable_completions kinds name variables sources
       (if var_name \<notin> set variables then (statics, dynamics)
        else (case source of
                StaticValues values \<Rightarrow> (statics((name, var_name) \<mapsto> values), dynamics)
              | DynamicSource dyn_backend dyn_config \<Rightarrow>
                  (case kinds dyn_backend of
                     None \<Rightarrow> (statics, dynamics)
                   | Some kind \<Rightarrow>
                       (statics, dynamics((name, var_name) \<mapsto>
                          \<lparr>dce_backend_name = dyn_backend, dce_kind = kind, dce_config = dyn_config\<rparr>)))))"

definition template_completions ::
  "(string \<rightharpoonup> string) \<Rightarrow>
     (string \<times> string \<rightharpoonup> string list) \<times> (string \<times> string \<rightharpoonup> dynamic_completion_entry) \<Rightarrow> binding_config \<Rightarrow>
     (string \<times> string \<rightharpoonup> string list) \<times> (string \<times> string \<rightharpoonup> dynamic_completion_entry)" where
  "template_completions kinds comps b =
     (case (compiled_of b, bc_variable_completions b) of
        (Some compiled, Some sources) \<Rightarrow>
          add_variable_completions kinds (bb_name b) (crt_variables compiled) sources comps
      | _ \<Rightarrow> comps)"

definition registry_new ::
  "('w, 'u) registry_ext \<Rightarrow> bool \<Rightarrow> debug_tool_backends \<Rightarrow> debug_tool_exposure \<Rightarrow> binding_config list \<Rightarrow>
     binding_config list \<Rightarrow> binding_config list \<Rightarrow> binding_config list \<Rightarrow> 'w capability_registry" where
  "registry_new x debug_enabled profiles exposure tools prompts resources templates =
     (let bindings = tools @ prompts @ resources @ templates;
          kinds = map_of (rev (map (\<lambda>b. (bb_name b, binding_kind_of b)) bindings));
          (statics, dynamics) = foldl (template_completions kinds) (Map.empty, Map.empty) templates in
      \<lparr>cr_tools = (if debug_enabled then debug_tools profiles exposure else []) @ map (register_tool x) tools,
       cr_prompts = map register_prompt prompts @
         (if debug_enabled \<and> dte_operational_overview_prompt exposure then [overview_prompt] else []),
       cr_resources = map (register_resource x) resources @
         (if debug_enabled \<and> dte_runtime_overview_resource exposure then [overview_resource x] else []),
       cr_resource_templates =
         List.map_filter (\<lambda>b. map_option (register_template b) (bc_uri_template b)) templates,
       cr_resource_template_routes = List.map_filter compiled_of templates,
       cr_schema_validators = foldl (add_validator x ''input_schema'' bc_input_schema) Map.empty tools,
       cr_output_schema_validators =
         foldl (add_validator x ''output_schema'' (composed_output_schema x)) Map.empty tools,
       cr_binding_routes = map_of (rev (map (\<lambda>b. (bb_name b, classify_behavioral_route (as_binding b))) bindings)),
       cr_prompt_completions = foldl add_prompt_completions Map.empty prompts,
       cr_template_completions = statics,
       cr_dynamic_completions = dynamics,
       cr_federated = empty_catalog\<rparr>)"

definition default_registry :: "('w, 'u) registry_ext \<Rightarrow> 'w capability_registry" where
  "default_registry x =
     registry_new x False default_debug_tool_backends default_debug_tool_exposure [] [] [] []"

section \<open>Validation\<close>

definition error_line :: "string \<times> string \<Rightarrow> string" where
  "error_line = (\<lambda>(path, message). if path = [] then message else path @ '': '' @ message)"

definition validate_tool_arguments ::
  "('w, 'u) registry_ext \<Rightarrow> 'w capability_registry \<Rightarrow> string \<Rightarrow> json option \<Rightarrow> string + unit" where
  "validate_tool_arguments x reg tool_name arguments =
     (case cr_schema_validators reg tool_name of
        None \<Rightarrow> Inr ()
      | Some validator \<Rightarrow>
          (let args = (case arguments of None \<Rightarrow> JObj [] | Some a \<Rightarrow> a) in
           if rx_valid x validator args then Inr ()
           else Inl (''arguments validation failed: '' @ join ''; '' (map error_line (rx_errors x validator args)))))"

definition validate_structured_output ::
  "('w, 'u) registry_ext \<Rightarrow> 'w capability_registry \<Rightarrow> string \<Rightarrow> json option \<Rightarrow> string + unit" where
  "validate_structured_output x reg tool_name structured_content =
     (case structured_content of
        None \<Rightarrow> Inr ()
      | Some content \<Rightarrow>
          (case cr_output_schema_validators reg tool_name of
             None \<Rightarrow> Inr ()
           | Some validator \<Rightarrow>
               if rx_valid x validator content then Inr ()
               else Inl (''structuredContent validation against outputSchema failed: '' @
                         join ''; '' (map error_line (rx_errors x validator content)))))"

section \<open>Listings\<close>

text \<open>The first entry under each key stays.\<close>

fun native_first :: "('a \<Rightarrow> string) \<Rightarrow> string set \<Rightarrow> 'a list \<Rightarrow> 'a list" where
  "native_first key seen [] = []"
| "native_first key seen (item # items) =
     (if key item \<in> seen then native_first key seen items
      else item # native_first key (insert (key item) seen) items)"

definition tools_with_source :: "'w capability_registry \<Rightarrow> (tool_descriptor \<times> string option) list" where
  "tools_with_source reg =
     sort_key (td_name \<circ> fst) (native_first (td_name \<circ> fst) {}
       (map (\<lambda>b. (rgt_descriptor b, tool_federation (rgt_route b))) (cr_tools reg @ fc_tools (cr_federated reg))))"

definition tools_list :: "'w capability_registry \<Rightarrow> tool_descriptor list" where
  "tools_list reg = map fst (tools_with_source reg)"

definition prompts_with_source :: "'w capability_registry \<Rightarrow> (prompt_descriptor \<times> string option) list" where
  "prompts_with_source reg =
     sort_key (pd_name \<circ> fst) (native_first (pd_name \<circ> fst) {}
       (map (\<lambda>b. (rgp_descriptor b, prompt_federation (rgp_route b))) (cr_prompts reg @ fc_prompts (cr_federated reg))))"

definition prompts_list :: "'w capability_registry \<Rightarrow> prompt_descriptor list" where
  "prompts_list reg = map fst (prompts_with_source reg)"

definition resources_list :: "'w capability_registry \<Rightarrow> resource_descriptor list" where
  "resources_list reg =
     sort_key rd_uri (native_first rd_uri {} (map rgr_descriptor (cr_resources reg @ fc_resources (cr_federated reg))))"

definition resource_templates_with_source :: "'w capability_registry \<Rightarrow> (resource_template \<times> string option) list" where
  "resource_templates_with_source reg =
     sort_key (rt_uri_template \<circ> fst) (native_first (rt_uri_template \<circ> fst) {}
       (map (\<lambda>t. (t, None)) (cr_resource_templates reg) @
        map (\<lambda>(t, source). (t, Some source)) (fc_resource_templates (cr_federated reg))))"

definition resource_templates_list :: "'w capability_registry \<Rightarrow> resource_template list" where
  "resource_templates_list reg = map fst (resource_templates_with_source reg)"

section \<open>Routes\<close>

text \<open>The first entry a name finds, native before federated.\<close>

definition find_tool :: "'w capability_registry \<Rightarrow> string \<Rightarrow> registered_tool option" where
  "find_tool reg name =
     (case find (\<lambda>b. td_name (rgt_descriptor b) = name) (cr_tools reg) of
        Some b \<Rightarrow> Some b
      | None \<Rightarrow> find (\<lambda>b. td_name (rgt_descriptor b) = name) (fc_tools (cr_federated reg)))"

definition tool_route :: "'w capability_registry \<Rightarrow> string \<Rightarrow> backend_invocation_route option" where
  "tool_route reg name = map_option rgt_route (find_tool reg name)"

definition tool_task_support :: "'w capability_registry \<Rightarrow> string \<Rightarrow> task_support option" where
  "tool_task_support reg name =
     map_option (\<lambda>b. case td_execution (rgt_descriptor b) of None \<Rightarrow> TaskForbidden | Some ts \<Rightarrow> ts) (find_tool reg name)"

definition find_prompt :: "'w capability_registry \<Rightarrow> string \<Rightarrow> registered_prompt option" where
  "find_prompt reg name =
     (case find (\<lambda>b. pd_name (rgp_descriptor b) = name) (cr_prompts reg) of
        Some b \<Rightarrow> Some b
      | None \<Rightarrow> find (\<lambda>b. pd_name (rgp_descriptor b) = name) (fc_prompts (cr_federated reg)))"

definition prompt_route_of :: "'w capability_registry \<Rightarrow> string \<Rightarrow> prompt_route option" where
  "prompt_route_of reg name = map_option rgp_route (find_prompt reg name)"

definition prompt_descriptor_of :: "'w capability_registry \<Rightarrow> string \<Rightarrow> prompt_descriptor option" where
  "prompt_descriptor_of reg name = map_option rgp_descriptor (find_prompt reg name)"

fun first_match :: "compiled_resource_template list \<Rightarrow> string \<Rightarrow> string \<Rightarrow> resource_route option" where
  "first_match [] uri normalized = None"
| "first_match (t # ts) uri normalized =
     (case match_uri t uri of
        Some vars \<Rightarrow> Some (Template (crt_profile t) vars)
      | None \<Rightarrow>
          (case match_uri t normalized of
             Some vars \<Rightarrow> Some (Template (crt_profile t) vars)
           | None \<Rightarrow> first_match ts uri normalized))"

fun first_federated_match :: "compiled_federated_template list \<Rightarrow> string \<Rightarrow> string \<Rightarrow> resource_route option" where
  "first_federated_match [] uri normalized = None"
| "first_federated_match (t # ts) uri normalized =
     (if match_uri (cft_matcher t) uri \<noteq> None \<or> match_uri (cft_matcher t) normalized \<noteq> None then
        Some (FederatedResource (cft_source t)
          (case strip_prefix uri (cft_prefix t) of None \<Rightarrow> uri | Some upstream_uri \<Rightarrow> upstream_uri)
          (cft_uri_template t))
      else first_federated_match ts uri normalized)"

definition resource_route_of :: "('w, 'u) registry_ext \<Rightarrow> 'w capability_registry \<Rightarrow> string \<Rightarrow> resource_route option" where
  "resource_route_of x reg uri =
     (let normalized = normal_uri x uri in
      case find (\<lambda>b. rgr_normalized_uri b = normalized) (cr_resources reg) of
        Some b \<Rightarrow> Some (rgr_route b)
      | None \<Rightarrow>
          (case first_match (cr_resource_template_routes reg) uri normalized of
             Some r \<Rightarrow> Some r
           | None \<Rightarrow>
               (case catalog_resource (cr_federated reg) normalized of
                  Some b \<Rightarrow> Some (rgr_route b)
                | None \<Rightarrow>
                    first_federated_match (fc_resource_template_routes (cr_federated reg)) uri normalized)))"

definition resource_descriptor_of :: "('w, 'u) registry_ext \<Rightarrow> 'w capability_registry \<Rightarrow> string \<Rightarrow> resource_descriptor option" where
  "resource_descriptor_of x reg uri =
     (let normalized = normal_uri x uri in
      case find (\<lambda>b. rgr_normalized_uri b = normalized) (cr_resources reg) of
        Some b \<Rightarrow> Some (rgr_descriptor b)
      | None \<Rightarrow> map_option rgr_descriptor (catalog_resource (cr_federated reg) normalized))"

definition resource_mime_type :: "('w, 'u) registry_ext \<Rightarrow> 'w capability_registry \<Rightarrow> string \<Rightarrow> string \<Rightarrow> string option" where
  "resource_mime_type x reg uri profile =
     (case Option.bind (resource_descriptor_of x reg uri) rd_mime_type of
        Some mime \<Rightarrow> Some mime
      | None \<Rightarrow> Option.bind (find (\<lambda>t. rt_name t = profile) (cr_resource_templates reg)) rt_mime_type)"

definition resource_app_url_pattern :: "('w, 'u) registry_ext \<Rightarrow> 'w capability_registry \<Rightarrow> string \<Rightarrow> string option" where
  "resource_app_url_pattern x reg uri =
     (let normalized = normal_uri x uri in
      Option.bind (find (\<lambda>b. rgr_normalized_uri b = normalized) (cr_resources reg)) rgr_app_url_pattern)"

definition binding_route :: "'w capability_registry \<Rightarrow> string \<Rightarrow> backend_invocation_route option" where
  "binding_route reg profile = cr_binding_routes reg profile"

section \<open>Completions\<close>

record completion_params =
  cp_ref_type :: string
  cp_ref_name :: "string option"
  cp_ref_uri :: "string option"
  cp_argument_name :: string
  cp_argument_value :: string
  cp_context :: "(string \<times> string) list option"

record completion_values =
  cv_values :: "string list"
  cv_has_more :: "bool option"
  cv_total :: "nat option"

definition clamp_completion_values :: "string list \<Rightarrow> completion_values" where
  "clamp_completion_values filtered =
     \<lparr>cv_values = (if length filtered > 100 then take 100 filtered else filtered),
      cv_has_more = Some (length filtered > 100), cv_total = Some (length filtered)\<rparr>"

definition no_completions :: completion_values where
  "no_completions = \<lparr>cv_values = [], cv_has_more = Some False, cv_total = Some 0\<rparr>"

definition has_completions :: "'w capability_registry \<Rightarrow> bool" where
  "has_completions reg \<longleftrightarrow> cr_prompt_completions reg \<noteq> Map.empty"

definition find_template :: "'w capability_registry \<Rightarrow> string \<Rightarrow> compiled_resource_template option" where
  "find_template reg template_uri = find (\<lambda>t. rebuilt t = template_uri) (cr_resource_template_routes reg)"

definition dynamic_completion_target ::
  "'w capability_registry \<Rightarrow> completion_params \<Rightarrow> dynamic_completion_entry option" where
  "dynamic_completion_target reg p =
     (if cp_ref_type p \<noteq> ''ref/resource'' then None
      else (case Option.bind (cp_ref_uri p) (find_template reg) of
              None \<Rightarrow> None
            | Some t \<Rightarrow>
                if cp_argument_name p \<notin> set (crt_variables t) then None
                else cr_dynamic_completions reg (crt_profile t, cp_argument_name p)))"

definition context_values :: "completion_params \<Rightarrow> string list" where
  "context_values p = (case cp_context p of None \<Rightarrow> [] | Some args \<Rightarrow> map snd args)"

definition complete_prompt :: "'w capability_registry \<Rightarrow> completion_params \<Rightarrow> completion_values" where
  "complete_prompt reg p =
     (case Option.bind (cp_ref_name p) (\<lambda>name. cr_prompt_completions reg (name, cp_argument_name p)) of
        None \<Rightarrow> no_completions
      | Some completions \<Rightarrow>
          clamp_completion_values
            (filter (\<lambda>v. v \<notin> set (context_values p)) (filter (\<lambda>v. prefix (cp_argument_value p) v) completions)))"

definition complete_resource :: "'w capability_registry \<Rightarrow> completion_params \<Rightarrow> completion_values" where
  "complete_resource reg p =
     (case Option.bind (cp_ref_uri p) (find_template reg) of
        None \<Rightarrow> no_completions
      | Some t \<Rightarrow>
          if cp_argument_name p \<in> set (crt_variables t) then
            (let filtered = filter (\<lambda>v. prefix (cp_argument_value p) v) (context_values p) in
             if filtered \<noteq> [] then clamp_completion_values filtered
             else (case cr_template_completions reg (crt_profile t, cp_argument_name p) of
                     None \<Rightarrow> no_completions
                   | Some values \<Rightarrow> clamp_completion_values (filter (\<lambda>v. prefix (cp_argument_value p) v) values)))
          else no_completions)"

definition complete_argument :: "'w capability_registry \<Rightarrow> completion_params \<Rightarrow> completion_values" where
  "complete_argument reg p =
     (if cp_ref_type p = ''ref/prompt'' then complete_prompt reg p
      else if cp_ref_type p = ''ref/resource'' then complete_resource reg p
      else no_completions)"

end
