(* ===== verification/Pipeline_Resume.thy ===== *)
theory Pipeline_Resume
  imports Pipeline_Engine Task_Store Request_State Capability_Registry
begin

text \<open>
  What the gateway does around the pipeline interpreter when a client answers: \<open>src/runtime/delivery.rs\<close> with the
  helpers it calls in \<open>policy_eval.rs\<close>, \<open>invocation.rs\<close> and \<open>util.rs\<close>, the resumption of the modern wire in
  \<open>protocol/v_2026_07_28/dispatch/mrtr.rs\<close>, and the reaper of \<open>runtime/reapers/pipeline_reaper.rs\<close>.

  The state of the gateway is the interpreter's (pipeline store and world), the task store and the store of
  resumption blobs.  The serialisers and types of the wire crate, the bridge to federated servers, nonces and the
  rendering of times are parameters.  Metrics and traces are left out.
\<close>

section \<open>Answers of the gateway\<close>

text \<open>\<open>Panicked\<close> is an \<open>expect\<close> that failed.\<close>

datatype protocol_response =
    NotificationAccepted
  | JsonRpcSuccess json json
  | JsonRpcError "json option" rpc_error_body
  | Panicked string

record http_response =
  hr_status :: nat
  hr_response :: protocol_response

definition protocol_http_error :: "nat \<Rightarrow> json option \<Rightarrow> int \<Rightarrow> string \<Rightarrow> json option \<Rightarrow> http_response" where
  "protocol_http_error http_status rid code message data =
     \<lparr>hr_status = http_status, hr_response = JsonRpcError rid \<lparr>err_code = code, err_message = message, err_data = data\<rparr>\<rparr>"

definition accepted :: http_response where
  "accepted = \<lparr>hr_status = 202, hr_response = NotificationAccepted\<rparr>"

definition success :: "json \<Rightarrow> json \<Rightarrow> http_response" where
  "success rid result = \<lparr>hr_status = 200, hr_response = JsonRpcSuccess rid result\<rparr>"

definition panicked :: "string \<Rightarrow> http_response" where
  "panicked what = \<lparr>hr_status = 500, hr_response = Panicked what\<rparr>"

datatype input_request = InputElicitation json | InputSampling json | InputRoots json

section \<open>The gateway\<close>

text \<open>
  \<open>rl_bridge\<close> is \<open>deliver_response\<close> of the federation's server-request bridge, if there is one;
  \<open>rl_input_required\<close> serialises an \<open>InputRequiredResult\<close>; \<open>rl_prompt_messages\<close> reads the messages of a prompt.
\<close>

record 'w resume_lib =
  rl_render :: "json \<Rightarrow> string"
  rl_rfc3339 :: "nat \<Rightarrow> string"
  rl_nonce :: "'w \<Rightarrow> string \<times> 'w"
  rl_bridge :: "(string \<Rightarrow> string \<Rightarrow> json option \<Rightarrow> json option \<Rightarrow> 'w \<Rightarrow> bool \<times> 'w) option"
  rl_error_to_value :: "rpc_error_body \<Rightarrow> json option"
  rl_request_to_value :: "server_request \<Rightarrow> json"
  rl_response_to_value :: "json \<Rightarrow> json \<Rightarrow> json"
  rl_rpc_error_to_value :: "json \<Rightarrow> rpc_error_body \<Rightarrow> json"
  rl_result_to_value :: "tool_call_result \<Rightarrow> string + json"
  rl_task_notification :: "bool \<Rightarrow> task \<Rightarrow> json"
  rl_related_task_meta :: "json \<Rightarrow> string \<Rightarrow> json"
  rl_from_str :: "string \<Rightarrow> string + json"
  rl_prompt_messages :: "json \<Rightarrow> string + json list"
  rl_prompt_to_value :: "json list \<Rightarrow> string + json"
  rl_input_required :: "string \<Rightarrow> (string \<rightharpoonup> input_request) \<Rightarrow> string + json"
  rl_debug_string :: "string \<Rightarrow> string"

record ('w, 's, 'v, 't, 'u, 'r, 'x, 'y) gateway =
  gw_en :: "('w, 's, 'v) engine"
  gw_lib :: "'w resume_lib"
  gw_task_kv :: "('t, 'u) kv_ops"
  gw_task_ext :: "'u task_ext"
  gw_task_policy :: task_retention_policy
  gw_codec :: "'r request_state_codec option"
  gw_registry_ext :: "('x, 'y) registry_ext"
  gw_registry :: "'x capability_registry"
  gw_debug_enabled :: bool

record ('w, 's, 't, 'r) gateway_state =
  gs_eng :: "('w, 's) engine_state"
  gs_tasks :: "'t task_store"
  gs_blobs :: 'r

definition gs_now :: "('w, 's, 'v, 't, 'u, 'r, 'x, 'y) gateway \<Rightarrow> ('w, 's, 't, 'r) gateway_state \<Rightarrow> clock" where
  "gs_now gw gs = eg_now (gw_en gw) (gs_eng gs)"

text \<open>A call on the pipeline store, on the world and on the task store, at the current time.\<close>

definition on_pipelines ::
  "('w, 's, 'v, 't, 'u, 'r, 'x, 'y) gateway \<Rightarrow> (clock \<Rightarrow> 's \<Rightarrow> 'a \<times> 's) \<Rightarrow> ('w, 's, 't, 'r) gateway_state \<Rightarrow>
     'a \<times> ('w, 's, 't, 'r) gateway_state" where
  "on_pipelines gw f gs = (let (r, eg) = on_kv (gw_en gw) f (gs_eng gs) in (r, gs\<lparr>gs_eng := eg\<rparr>))"

definition on_world ::
  "('w \<Rightarrow> 'a \<times> 'w) \<Rightarrow> ('w, 's, 't, 'r) gateway_state \<Rightarrow> 'a \<times> ('w, 's, 't, 'r) gateway_state" where
  "on_world f gs = (let (r, eg) = in_world f (gs_eng gs) in (r, gs\<lparr>gs_eng := eg\<rparr>))"

definition on_tasks ::
  "('w, 's, 'v, 't, 'u, 'r, 'x, 'y) gateway \<Rightarrow> (clock \<Rightarrow> 't task_store \<Rightarrow> 'a \<times> 't task_store) \<Rightarrow> ('w, 's, 't, 'r) gateway_state \<Rightarrow>
     'a \<times> ('w, 's, 't, 'r) gateway_state" where
  "on_tasks gw f gs = (let (r, ts) = f (gs_now gw gs) (gs_tasks gs) in (r, gs\<lparr>gs_tasks := ts\<rparr>))"

definition debug_error_data ::
  "('w, 's, 'v, 't, 'u, 'r, 'x, 'y) gateway \<Rightarrow> request_context \<Rightarrow> string \<Rightarrow> clock \<Rightarrow> json option" where
  "debug_error_data gw rc hint c =
     (if \<not> gw_debug_enabled gw then None
      else Some (JObj [(''requestId'', JStr (rc_request_id rc)), (''timestamp'', JStr (rl_rfc3339 (gw_lib gw) (clk_utc c))),
                       (''hint'', JStr hint)]))"

section \<open>Deliveries\<close>

text \<open>
  A message is stored in the backlog of its session, stamped with the id of its row if that worked, and published.
  Every delivery of the runtime is of this form.
\<close>

definition deliver ::
  "('w, 's, 'v) engine \<Rightarrow> string \<Rightarrow> delivery_kind \<Rightarrow> json \<Rightarrow> ('w, 's) engine_state \<Rightarrow> ('w, 's) engine_state" where
  "deliver en session_id kind message eg =
     (let m = \<lparr>dm_kind = kind, dm_jsonrpc_message = message, dm_delivery_id = []\<rparr>;
          (u, eg1) = in_world (xe_uuid (en_ext en)) eg;
          (r, st) = store_pending_delivery (en_kv en) (en_px en) u session_id m (eg_now en eg1) (eg_store eg1);
          m' = (case r of Inl _ \<Rightarrow> m | Inr delivery_id \<Rightarrow> m\<lparr>dm_delivery_id := delivery_id\<rparr>)
      in eg1\<lparr>eg_store := st, eg_world := xe_publish (en_ext en) session_id m' (eg_world eg1)\<rparr>)"

definition deliver_server_request ::
  "('w, 's, 'v, 't, 'u, 'r, 'x, 'y) gateway \<Rightarrow> string \<Rightarrow> server_request \<Rightarrow> ('w, 's, 't, 'r) gateway_state \<Rightarrow> ('w, 's, 't, 'r) gateway_state" where
  "deliver_server_request gw session_id request gs =
     gs\<lparr>gs_eng := deliver (gw_en gw) session_id ServerRequest (rl_request_to_value (gw_lib gw) request) (gs_eng gs)\<rparr>"

definition deliver_deferred_tool_result ::
  "('w, 's, 'v, 't, 'u, 'r, 'x, 'y) gateway \<Rightarrow> string \<Rightarrow> json \<Rightarrow> json \<Rightarrow> ('w, 's, 't, 'r) gateway_state \<Rightarrow> ('w, 's, 't, 'r) gateway_state" where
  "deliver_deferred_tool_result gw session_id original_jsonrpc_id result gs =
     gs\<lparr>gs_eng := deliver (gw_en gw) session_id DeferredToolResult
          (rl_response_to_value (gw_lib gw) original_jsonrpc_id result) (gs_eng gs)\<rparr>"

definition deliver_pipeline_terminal_error ::
  "('w, 's, 'v, 't, 'u, 'r, 'x, 'y) gateway \<Rightarrow> string \<Rightarrow> json \<Rightarrow> int \<Rightarrow> string \<Rightarrow> ('w, 's, 't, 'r) gateway_state \<Rightarrow>
     ('w, 's, 't, 'r) gateway_state" where
  "deliver_pipeline_terminal_error gw session_id original_jsonrpc_id code message gs =
     gs\<lparr>gs_eng := deliver (gw_en gw) session_id PipelineError
          (rl_rpc_error_to_value (gw_lib gw) original_jsonrpc_id \<lparr>err_code = code, err_message = message, err_data = None\<rparr>) (gs_eng gs)\<rparr>"

definition notify_session ::
  "('w, 's, 'v, 't, 'u, 'r, 'x, 'y) gateway \<Rightarrow> string \<Rightarrow> json \<Rightarrow> ('w, 's, 't, 'r) gateway_state \<Rightarrow> ('w, 's, 't, 'r) gateway_state" where
  "notify_session gw session_id notification gs = gs\<lparr>gs_eng := deliver (gw_en gw) session_id Notification notification (gs_eng gs)\<rparr>"

definition deliver_notification ::
  "('w, 's, 'v, 't, 'u, 'r, 'x, 'y) gateway \<Rightarrow> string \<Rightarrow> json \<Rightarrow> ('w, 's, 't, 'r) gateway_state \<Rightarrow> ('w, 's, 't, 'r) gateway_state" where
  "deliver_notification gw session_id notification gs = gs\<lparr>gs_eng := deliver (gw_en gw) session_id ServerRequest notification (gs_eng gs)\<rparr>"

definition deliver_task_status_notification ::
  "('w, 's, 'v, 't, 'u, 'r, 'x, 'y) gateway \<Rightarrow> string \<Rightarrow> task \<Rightarrow> bool \<Rightarrow> ('w, 's, 't, 'r) gateway_state \<Rightarrow> ('w, 's, 't, 'r) gateway_state" where
  "deliver_task_status_notification gw session_id t modern gs =
     deliver_notification gw session_id (rl_task_notification (gw_lib gw) modern t) gs"

section \<open>Projection of a result\<close>

datatype surface_decode_error = BackendErrorResponse string | EmptyResponse | MalformedResponse string

fun surface_error_text :: "surface_decode_error \<Rightarrow> string" where
  "surface_error_text (BackendErrorResponse message) = ''backend returned an error response: '' @ message"
| "surface_error_text EmptyResponse = ''backend response was empty''"
| "surface_error_text (MalformedResponse reason) = ''backend response is not a valid surface envelope: '' @ reason"

definition primary_text_body :: "tool_call_result \<Rightarrow> string option" where
  "primary_text_body result = (case List.map_filter text_of (tcr_content result) of [] \<Rightarrow> None | t # _ \<Rightarrow> Some t)"

definition decode_prompt_result :: "'w resume_lib \<Rightarrow> tool_call_result \<Rightarrow> surface_decode_error + json list" where
  "decode_prompt_result x result =
     (if tcr_is_error result
      then Inl (BackendErrorResponse (case primary_text_body result of
                  None \<Rightarrow> ''tool returned isError without a text body'' | Some t \<Rightarrow> t))
      else case primary_text_body result of
             None \<Rightarrow> Inl EmptyResponse
           | Some body \<Rightarrow>
               (case rl_from_str x body of
                  Inl e \<Rightarrow> Inl (MalformedResponse (''prompt body is not JSON: '' @ e))
                | Inr parsed \<Rightarrow>
                    (case json_get parsed ''messages'' of
                       None \<Rightarrow> Inl (MalformedResponse ''prompt body is missing `messages`'')
                     | Some messages_value \<Rightarrow>
                         (case rl_prompt_messages x messages_value of
                            Inl e \<Rightarrow> Inl (MalformedResponse (''prompt `messages` does not match the spec content-block shape: '' @ e))
                          | Inr [] \<Rightarrow> Inl (MalformedResponse ''`messages` must contain at least one entry'')
                          | Inr messages \<Rightarrow> Inr messages))))"

definition prompt_contract_hint :: string where
  "prompt_contract_hint = ''The backend for this prompt binding must return `{ messages: [...] }` with spec-shaped entries.''"

definition prompt_response ::
  "'w resume_lib \<Rightarrow> json \<Rightarrow> json option \<Rightarrow> tool_call_result \<Rightarrow> http_response" where
  "prompt_response x rid data result =
     (case decode_prompt_result x result of
        Inl e \<Rightarrow> protocol_http_error 200 (Some rid) (-32603)
                   (''prompt backend produced a non-conforming response: '' @ surface_error_text e) data
      | Inr messages \<Rightarrow>
          (case rl_prompt_to_value x messages of
             Inr v \<Rightarrow> success rid v | Inl _ \<Rightarrow> panicked ''prompt get result serialized''))"

text \<open>The output schema of the tool is enforced on the completed result.\<close>

definition with_output_schema ::
  "('w, 's, 'v, 't, 'u, 'r, 'x, 'y) gateway \<Rightarrow> string \<Rightarrow> tool_call_result \<Rightarrow> tool_call_result" where
  "with_output_schema gw tool_name result =
     (if tcr_is_error result then result
      else case validate_structured_output (gw_registry_ext gw) (gw_registry gw) tool_name (tcr_structured_content result) of
             Inr _ \<Rightarrow> result
           | Inl e \<Rightarrow> result\<lparr>tcr_structured_content := None, tcr_is_error := True,
               tcr_content := tcr_content result @
                 [TextContent (''tool '' @ quoted tool_name @ '' declared an outputSchema but returned non-conforming structuredContent: '' @ e)]\<rparr>)"

section \<open>Asking again on the modern wire\<close>

text \<open>\<open>Display\<close> of \<open>RequestStateError\<close>; the em dash of two messages is its UTF-8 bytes.\<close>

definition em_dash :: string where
  "em_dash = [CHR 0xE2, CHR 0x80, CHR 0x94]"

fun request_state_error_text :: "'w resume_lib \<Rightarrow> request_state_error \<Rightarrow> string" where
  "request_state_error_text x (InvalidPrefix got) =
     ''invalid requestState prefix: expected '' @ quoted ''c.'' @ '' or '' @ quoted ''h.'' @ '', got `'' @ rl_debug_string x got @ ''`''"
| "request_state_error_text x (InvalidPayload detail) = ''invalid requestState payload: '' @ detail"
| "request_state_error_text x AuthenticationFailed =
     ''requestState ciphertext failed AEAD verification '' @ em_dash @ '' the blob was tampered with or the gateway'' @ [CHR 0x27] @
     ''s encryption key has rotated''"
| "request_state_error_text x (HandleNotFound handle) = ''requestState handle `'' @ handle @ ''` not found in the KV store''"
| "request_state_error_text x Replayed =
     ''requestState blob has already been consumed '' @ em_dash @ '' inline resumption blobs are single-use''"
| "request_state_error_text x (StoreError detail) = ''requestState store error: '' @ detail"

text \<open>The requests of a suspension as the map of an \<open>InputRequiredResult\<close>; \<open>Inl\<close> is a method it has no entry for.\<close>

fun input_requests ::
  "'w resume_lib \<Rightarrow> server_request list \<Rightarrow> (string \<rightharpoonup> input_request) \<Rightarrow> string + (string \<rightharpoonup> input_request)" where
  "input_requests x [] acc = Inr acc"
| "input_requests x (rq # rqs) acc =
     (let token = (case srq_id rq of JStr s \<Rightarrow> s | other \<Rightarrow> rl_render x other) in
      if srq_method rq = ''elicitation/create'' then input_requests x rqs (acc(token \<mapsto> InputElicitation (srq_params rq)))
      else if srq_method rq = ''sampling/createMessage'' then input_requests x rqs (acc(token \<mapsto> InputSampling (srq_params rq)))
      else if srq_method rq = ''roots/list'' then input_requests x rqs (acc(token \<mapsto> InputRoots (srq_params rq)))
      else Inl (srq_method rq))"

definition build_modern_input_required_response_multi ::
  "('w, 's, 'v, 't, 'u, 'r, 'x, 'y) gateway \<Rightarrow> request_context \<Rightarrow> json \<Rightarrow> server_request list \<Rightarrow> string \<Rightarrow>
     ('w, 's, 't, 'r) gateway_state \<Rightarrow> http_response \<times> ('w, 's, 't, 'r) gateway_state" where
  "build_modern_input_required_response_multi gw rc request_id requests pipeline_id gs =
     (let x = gw_lib gw; failed = (\<lambda>message. protocol_http_error 500 (Some request_id) (-32603) message None) in
      case gw_codec gw of
        None \<Rightarrow> (failed ''modern MRTR codec is not installed'', gs)
      | Some codec \<Rightarrow>
          (let (nonce, gs1) = on_world (rl_nonce x) gs;
               (u, gs2) = on_world (xe_uuid (en_ext (gw_en gw))) gs1;
               (blob, bs) = encode codec nonce u pipeline_id (owner_aad (principal_id (rc_identity rc))) (gs_now gw gs2) (gs_blobs gs2);
               gs3 = gs2\<lparr>gs_blobs := bs\<rparr>
           in case blob of
                Inl e \<Rightarrow> (failed (''modern MRTR requestState encode failed: '' @ request_state_error_text x e), gs3)
              | Inr request_state \<Rightarrow>
                  (case input_requests x requests (\<lambda>_. None) of
                     Inl other \<Rightarrow> (failed (''modern MRTR cannot translate `'' @ other @ ''` to InputRequest''), gs3)
                   | Inr inputs \<Rightarrow>
                       (case rl_input_required x request_state inputs of
                          Inl _ \<Rightarrow> (failed ''failed to serialize InputRequiredResult'', gs3)
                        | Inr v \<Rightarrow> (success request_id v, gs3)))))"

definition build_modern_input_required_response ::
  "('w, 's, 'v, 't, 'u, 'r, 'x, 'y) gateway \<Rightarrow> request_context \<Rightarrow> json \<Rightarrow> server_request \<Rightarrow> string \<Rightarrow>
     ('w, 's, 't, 'r) gateway_state \<Rightarrow> http_response \<times> ('w, 's, 't, 'r) gateway_state" where
  "build_modern_input_required_response gw rc request_id request pipeline_id gs =
     build_modern_input_required_response_multi gw rc request_id [request] pipeline_id gs"

section \<open>Taking an answer\<close>

definition no_pending :: "('w, 's, 'v, 't, 'u, 'r, 'x, 'y) gateway \<Rightarrow> request_context \<Rightarrow> clock \<Rightarrow> http_response" where
  "no_pending gw rc c = protocol_http_error 200 None (-32600) ''no pending server request found for this response id''
     (debug_error_data gw rc ''the server request may have expired or already been handled'' c)"

definition reject_foreign_pipeline_resumer ::
  "('w, 's, 'v, 't, 'u, 'r, 'x, 'y) gateway \<Rightarrow> request_context \<Rightarrow> pipeline_state \<Rightarrow> clock \<Rightarrow> http_response option" where
  "reject_foreign_pipeline_resumer gw rc st c =
     (if resumer_owns_pipeline (principal_id (rc_identity (ps_request_context st))) (ps_session_id st)
           (principal_id (rc_identity rc)) (rc_session_id rc)
      then None else Some (no_pending gw rc c))"

definition response_id_str :: "'w resume_lib \<Rightarrow> json \<Rightarrow> string" where
  "response_id_str x response_id = (case response_id of JStr s \<Rightarrow> s | other \<Rightarrow> rl_render x other)"

definition load_suspended ::
  "('w, 's, 'v, 't, 'u, 'r, 'x, 'y) gateway \<Rightarrow> string \<Rightarrow> ('w, 's, 't, 'r) gateway_state \<Rightarrow>
     (http_response + pipeline_state) \<times> ('w, 's, 't, 'r) gateway_state" where
  "load_suspended gw pid gs =
     (case on_pipelines gw (load_pipeline (en_kv (gw_en gw)) (en_px (gw_en gw)) pid) gs of
        (Inr (Some st), gs1) \<Rightarrow> (Inr st, gs1)
      | (Inr None, gs1) \<Rightarrow>
          (Inl (protocol_http_error 200 None (-32001) ''pipeline execution state expired or already completed'' None), gs1)
      | (Inl e, gs1) \<Rightarrow> (Inl (protocol_http_error 200 None (-32603) (''failed to load pipeline state: '' @ e) None), gs1))"

definition claim_suspended ::
  "('w, 's, 'v, 't, 'u, 'r, 'x, 'y) gateway \<Rightarrow> string \<Rightarrow> pipeline_state \<Rightarrow> ('w, 's, 't, 'r) gateway_state \<Rightarrow>
     bool \<times> ('w, 's, 't, 'r) gateway_state" where
  "claim_suspended gw pid st gs =
     (case on_pipelines gw (try_claim_pipeline (en_kv (gw_en gw)) (en_px (gw_en gw)) pid (ps_state_version st)) gs of
        (Inr claimed, gs1) \<Rightarrow> (claimed, gs1)
      | (Inl _, gs1) \<Rightarrow> (False, gs1))"

text \<open>The first three parts of \<open>handle_server_request_response\<close>: find the pipeline, check the owner, claim the version.\<close>

definition accept_answer ::
  "('w, 's, 'v, 't, 'u, 'r, 'x, 'y) gateway \<Rightarrow> request_context \<Rightarrow> string \<Rightarrow> ('w, 's, 't, 'r) gateway_state \<Rightarrow>
     (http_response + pending_server_request \<times> pipeline_state) \<times> ('w, 's, 't, 'r) gateway_state" where
  "accept_answer gw rc rid gs =
     (case on_pipelines gw (load_pending_server_request (en_kv (gw_en gw)) (en_px (gw_en gw)) rid) gs of
        (Inl e, gs1) \<Rightarrow> (Inl (protocol_http_error 200 None (-32603) (''failed to load pending request: '' @ e) None), gs1)
      | (Inr None, gs1) \<Rightarrow> (Inl (no_pending gw rc (gs_now gw gs1)), gs1)
      | (Inr (Some pending), gs1) \<Rightarrow>
          (case load_suspended gw (psr_pipeline_id pending) gs1 of
             (Inl response, gs2) \<Rightarrow> (Inl response, gs2)
           | (Inr st, gs2) \<Rightarrow>
               (case reject_foreign_pipeline_resumer gw rc st (gs_now gw gs2) of
                  Some denied \<Rightarrow> (Inl denied, gs2)
                | None \<Rightarrow>
                    (case claim_suspended gw (psr_pipeline_id pending) st gs2 of
                       (claimed, gs3) \<Rightarrow> (if claimed then Inr (pending, st) else Inl accepted, gs3)))))"

definition answer_result :: "json option \<Rightarrow> rpc_error_body option \<Rightarrow> step_result" where
  "answer_result result error =
     (case error of
        Some err \<Rightarrow> \<lparr>sr_output = JObj [(''error'', JStr (err_message err))], sr_is_error = True, sr_duration_ms = 0\<rparr>
      | None \<Rightarrow> \<lparr>sr_output = (case result of None \<Rightarrow> JNull | Some v \<Rightarrow> v), sr_is_error = False, sr_duration_ms = 0\<rparr>)"

definition run_resumed ::
  "('w, 's, 'v, 't, 'u, 'r, 'x, 'y) gateway \<Rightarrow> pipeline_state \<Rightarrow> step_result \<Rightarrow> ('w, 's, 't, 'r) gateway_state \<Rightarrow>
     pipeline_outcome \<times> ('w, 's, 't, 'r) gateway_state" where
  "run_resumed gw st answer gs = (let (out, eg) = resume_pipeline (gw_en gw) st answer (gs_eng gs) in (out, gs\<lparr>gs_eng := eg\<rparr>))"

definition forget_request ::
  "('w, 's, 'v, 't, 'u, 'r, 'x, 'y) gateway \<Rightarrow> string \<Rightarrow> ('w, 's, 't, 'r) gateway_state \<Rightarrow> ('w, 's, 't, 'r) gateway_state" where
  "forget_request gw rid gs = snd (on_pipelines gw (delete_pending_server_request (en_kv (gw_en gw)) rid) gs)"

definition forget_pipeline ::
  "('w, 's, 'v, 't, 'u, 'r, 'x, 'y) gateway \<Rightarrow> string \<Rightarrow> ('w, 's, 't, 'r) gateway_state \<Rightarrow> ('w, 's, 't, 'r) gateway_state" where
  "forget_pipeline gw pid gs = snd (on_pipelines gw (delete_pipeline (en_kv (gw_en gw)) pid) gs)"

text \<open>The task of a task-augmented pipeline ends with the result, and its client is told.\<close>

definition complete_task ::
  "('w, 's, 'v, 't, 'u, 'r, 'x, 'y) gateway \<Rightarrow> string \<Rightarrow> string \<Rightarrow> tool_call_result \<Rightarrow> ('w, 's, 't, 'r) gateway_state \<Rightarrow>
     http_response \<times> ('w, 's, 't, 'r) gateway_state" where
  "complete_task gw task_id session_id result gs =
     (let status = (if tcr_is_error result then Failed else Completed);
          envelope = Success (case rl_result_to_value (gw_lib gw) result of Inr v \<Rightarrow> v | Inl _ \<Rightarrow> JObj []);
          (_, gs1) = on_tasks gw (store_task_terminal (gw_task_kv gw) (gw_task_ext gw) (gw_task_policy gw) task_id status envelope) gs;
          (final_record, gs2) = on_tasks gw (get_task (gw_task_kv gw) (gw_task_ext gw) task_id session_id) gs1
      in (accepted, case final_record of
                      Inl _ \<Rightarrow> gs2
                    | Inr r \<Rightarrow> deliver_task_status_notification gw session_id (tr_task r) False gs2))"

section \<open>After the pipeline ran on\<close>

abbreviation is_modern :: "request_context \<Rightarrow> bool" where
  "is_modern rc \<equiv> rc_negotiated_version rc = V_2026_07_28"

definition gather_unsupported :: "json \<Rightarrow> http_response" where
  "gather_unsupported rid =
     protocol_http_error 200 (Some rid) (-32603) ''multi-entry MRTR (gather step) is only supported on the modern wire'' None"

definition finish_complete ::
  "('w, 's, 'v, 't, 'u, 'r, 'x, 'y) gateway \<Rightarrow> request_context \<Rightarrow> pending_server_request \<Rightarrow> pipeline_state \<Rightarrow> tool_call_result \<Rightarrow>
     ('w, 's, 't, 'r) gateway_state \<Rightarrow> http_response \<times> ('w, 's, 't, 'r) gateway_state" where
  "finish_complete gw rc pending st result gs =
     (let x = gw_lib gw; rid = ps_original_jsonrpc_id st in
      case ps_related_task_id st of
        Some task_id \<Rightarrow> complete_task gw task_id (psr_session_id pending) result gs
      | None \<Rightarrow>
          if is_modern rc
          then (case ps_surface st of
                  PromptSurface \<Rightarrow> prompt_response x rid (debug_error_data gw rc prompt_contract_hint (gs_now gw gs)) result
                | ResourceSurface \<Rightarrow>
                    (case rl_result_to_value x result of
                       Inr v \<Rightarrow> success rid v | Inl _ \<Rightarrow> panicked ''tool call result serialized'')
                | ToolSurface \<Rightarrow>
                    (case rl_result_to_value x result of
                       Inr v \<Rightarrow> success rid v
                     | Inl _ \<Rightarrow> protocol_http_error 500 (Some rid) (-32603) ''failed to serialize ToolCallResult'' None), gs)
          else (case rl_result_to_value x result of
                  Inl _ \<Rightarrow> (panicked ''tool result serialized'', gs)
                | Inr v \<Rightarrow> (accepted, deliver_deferred_tool_result gw (psr_session_id pending) rid v gs)))"

definition carry_task ::
  "('w, 's, 'v, 't, 'u, 'r, 'x, 'y) gateway \<Rightarrow> string option \<Rightarrow> string \<Rightarrow> server_request \<Rightarrow> ('w, 's, 't, 'r) gateway_state \<Rightarrow>
     server_request \<times> ('w, 's, 't, 'r) gateway_state" where
  "carry_task gw related session_id request gs =
     (case related of
        None \<Rightarrow> (request, gs)
      | Some task_id \<Rightarrow>
          (request\<lparr>srq_params := rl_related_task_meta (gw_lib gw) (srq_params request) task_id\<rparr>,
           snd (on_tasks gw (update_task_status (gw_task_kv gw) (gw_task_ext gw) (gw_task_policy gw) task_id session_id InputRequired
                  (Some ''Pipeline suspended, awaiting input'')) gs)))"

definition finish_answer ::
  "('w, 's, 'v, 't, 'u, 'r, 'x, 'y) gateway \<Rightarrow> request_context \<Rightarrow> string \<Rightarrow> pending_server_request \<Rightarrow> pipeline_state \<Rightarrow>
     pipeline_outcome \<Rightarrow> ('w, 's, 't, 'r) gateway_state \<Rightarrow> http_response \<times> ('w, 's, 't, 'r) gateway_state" where
  "finish_answer gw rc rid pending st outcome gs =
     (case outcome of
        OutcomeComplete result \<Rightarrow>
          finish_complete gw rc pending st (with_output_schema gw (ps_tool_name st) result)
            (forget_request gw rid (forget_pipeline gw (psr_pipeline_id pending) gs))
      | OutcomeSuspended request \<Rightarrow>
          (let (request', gs1) = carry_task gw (ps_related_task_id st) (psr_session_id pending) request (forget_request gw rid gs) in
           if is_modern rc
           then build_modern_input_required_response gw rc (ps_original_jsonrpc_id st) request' (psr_pipeline_id pending) gs1
           else (accepted, deliver_server_request gw (psr_session_id pending) request' gs1))
      | OutcomeSuspendedMulti requests \<Rightarrow>
          (let gs1 = forget_request gw rid gs in
           if is_modern rc
           then build_modern_input_required_response_multi gw rc (ps_original_jsonrpc_id st) requests (psr_pipeline_id pending) gs1
           else (gather_unsupported (ps_original_jsonrpc_id st), gs1)))"

definition offer_to_bridge ::
  "('w, 's, 'v, 't, 'u, 'r, 'x, 'y) gateway \<Rightarrow> request_context \<Rightarrow> string \<Rightarrow> json option \<Rightarrow> rpc_error_body option \<Rightarrow>
     ('w, 's, 't, 'r) gateway_state \<Rightarrow> bool \<times> ('w, 's, 't, 'r) gateway_state" where
  "offer_to_bridge gw rc rid result error gs =
     (case rl_bridge (gw_lib gw) of
        None \<Rightarrow> (False, gs)
      | Some deliver_response \<Rightarrow>
          on_world (deliver_response rid (case rc_session_id rc of None \<Rightarrow> [] | Some i \<Rightarrow> i) result
                      (Option.bind error (rl_error_to_value (gw_lib gw)))) gs)"

definition handle_server_request_response ::
  "('w, 's, 'v, 't, 'u, 'r, 'x, 'y) gateway \<Rightarrow> request_context \<Rightarrow> json \<Rightarrow> json option \<Rightarrow> rpc_error_body option \<Rightarrow>
     ('w, 's, 't, 'r) gateway_state \<Rightarrow> http_response \<times> ('w, 's, 't, 'r) gateway_state" where
  "handle_server_request_response gw rc response_id result error gs =
     (let rid = response_id_str (gw_lib gw) response_id;
          (taken, gs1) = offer_to_bridge gw rc rid result error gs
      in if taken then (accepted, gs1)
         else case accept_answer gw rc rid gs1 of
                (Inl response, gs2) \<Rightarrow> (response, gs2)
              | (Inr (pending, st), gs2) \<Rightarrow>
                  (let (outcome, gs3) = run_resumed gw st (answer_result result error) gs2
                   in finish_answer gw rc rid pending st outcome gs3))"

section \<open>Answers to a gather step\<close>

fun forget_requests ::
  "('w, 's, 'v, 't, 'u, 'r, 'x, 'y) gateway \<Rightarrow> string list \<Rightarrow> ('w, 's, 't, 'r) gateway_state \<Rightarrow> ('w, 's, 't, 'r) gateway_state" where
  "forget_requests gw [] gs = gs"
| "forget_requests gw (token # tokens) gs = forget_requests gw tokens (forget_request gw token gs)"

definition finish_gather ::
  "('w, 's, 'v, 't, 'u, 'r, 'x, 'y) gateway \<Rightarrow> request_context \<Rightarrow> string \<Rightarrow> pipeline_state \<Rightarrow> pipeline_outcome \<Rightarrow>
     ('w, 's, 't, 'r) gateway_state \<Rightarrow> http_response \<times> ('w, 's, 't, 'r) gateway_state" where
  "finish_gather gw rc pid st outcome gs =
     (let x = gw_lib gw; rid = ps_original_jsonrpc_id st in
      case outcome of
        OutcomeComplete complete \<Rightarrow>
          (let result = with_output_schema gw (ps_tool_name st) complete; gs1 = forget_pipeline gw pid gs in
           case ps_related_task_id st of
             Some task_id \<Rightarrow> complete_task gw task_id (ps_session_id st) result gs1
           | None \<Rightarrow>
               (case ps_surface st of
                  PromptSurface \<Rightarrow> prompt_response x rid None result
                | _ \<Rightarrow> (case rl_result_to_value x result of
                          Inr v \<Rightarrow> success rid v | Inl _ \<Rightarrow> panicked ''tool call result serialized''), gs1))
      | OutcomeSuspended request \<Rightarrow> build_modern_input_required_response gw rc rid request pid gs
      | OutcomeSuspendedMulti requests \<Rightarrow> build_modern_input_required_response_multi gw rc rid requests pid gs)"

definition suspended_gather :: "pipeline_state \<Rightarrow> gather_step option" where
  "suspended_gather st =
     (if ps_current_step_index st < length (ps_steps st)
      then (case ps_steps st ! ps_current_step_index st of StepGather g \<Rightarrow> Some g | _ \<Rightarrow> None) else None)"

definition handle_multi_input_resumption ::
  "('w, 's, 'v, 't, 'u, 'r, 'x, 'y) gateway \<Rightarrow> request_context \<Rightarrow> string \<Rightarrow> (string \<times> json) list \<Rightarrow>
     ('w, 's, 't, 'r) gateway_state \<Rightarrow> http_response \<times> ('w, 's, 't, 'r) gateway_state" where
  "handle_multi_input_resumption gw rc pid responses gs =
     (case load_suspended gw pid gs of
        (Inl response, gs1) \<Rightarrow> (response, gs1)
      | (Inr st, gs1) \<Rightarrow>
          (case reject_foreign_pipeline_resumer gw rc st (gs_now gw gs1) of
             Some denied \<Rightarrow> (denied, gs1)
           | None \<Rightarrow>
               (case suspended_gather st of
                  None \<Rightarrow> (protocol_http_error 200 None (-32600)
                             ''multi-entry inputResponses but the suspended pipeline step is not a gather step'' None, gs1)
                | Some g \<Rightarrow>
                    (case claim_suspended gw pid st gs1 of
                       (False, gs2) \<Rightarrow> (accepted, gs2)
                     | (True, gs2) \<Rightarrow>
                         (let (outcome, gs3) = run_resumed gw st
                                \<lparr>sr_output = JObj responses, sr_is_error = False, sr_duration_ms = 0\<rparr> gs2
                          in finish_gather gw rc pid st outcome (forget_requests gw (map correlation_token (gst_inputs g)) gs3))))))"

section \<open>Prompts that ask\<close>

text \<open>
  \<open>try_dispatch_prompt_with_suspension\<close>; the log levels and the client's capabilities are read from the request and
  its session before, and are arguments here.
\<close>

definition prompt_request ::
  "('w, 's, 'v, 't, 'u, 'r, 'x, 'y) gateway \<Rightarrow> string \<Rightarrow> json option \<Rightarrow> nat option \<Rightarrow> nat option \<Rightarrow> json \<Rightarrow> request_context \<Rightarrow> backend_request" where
  "prompt_request gw profile arguments request_log_level legacy_level capabilities rc =
     \<lparr>bir_context = rc, bir_tool_name = profile, bir_arguments = arguments,
      bir_expr_ctx = to_expr_context (en_ext (gw_en gw)) rc profile arguments, bir_progress_token = None,
      bir_request_log_level = request_log_level, bir_legacy_session_log_level = legacy_level,
      bir_client_capabilities = capabilities, bir_cancellation_token = None, bir_idempotency_hint = None\<rparr>"

definition patch_jsonrpc_id ::
  "('w, 's, 'v, 't, 'u, 'r, 'x, 'y) gateway \<Rightarrow> string \<Rightarrow> json \<Rightarrow> ('w, 's, 't, 'r) gateway_state \<Rightarrow> ('w, 's, 't, 'r) gateway_state" where
  "patch_jsonrpc_id gw pid request_id gs =
     (case on_pipelines gw (load_pipeline (en_kv (gw_en gw)) (en_px (gw_en gw)) pid) gs of
        (Inr (Some st), gs1) \<Rightarrow>
          snd (on_pipelines gw (set_original_jsonrpc_id_if_version (en_kv (gw_en gw)) (en_px (gw_en gw)) pid (ps_state_version st) request_id) gs1)
      | (_, gs1) \<Rightarrow> gs1)"

definition run_prompt ::
  "('w, 's, 'v, 't, 'u, 'r, 'x, 'y) gateway \<Rightarrow> string \<Rightarrow> backend_request \<Rightarrow> ('w, 's, 't, 'r) gateway_state \<Rightarrow>
     pipeline_outcome \<times> ('w, 's, 't, 'r) gateway_state" where
  "run_prompt gw profile rq gs =
     (let (out, eg) = execute_pipeline (gw_en gw) profile rq PromptSurface (gs_eng gs) in (out, gs\<lparr>gs_eng := eg\<rparr>))"

definition try_dispatch_prompt_with_suspension ::
  "('w, 's, 'v, 't, 'u, 'r, 'x, 'y) gateway \<Rightarrow> prompt_route \<Rightarrow> json option \<Rightarrow> nat option \<Rightarrow> nat option \<Rightarrow> json \<Rightarrow> request_context \<Rightarrow>
     json \<Rightarrow> ('w, 's, 't, 'r) gateway_state \<Rightarrow> http_response option \<times> ('w, 's, 't, 'r) gateway_state" where
  "try_dispatch_prompt_with_suspension gw route arguments request_log_level legacy_level capabilities rc request_id gs =
     (case route of
        PromptBinding profile \<Rightarrow>
          if \<not> pipeline_has_suspending_steps (gw_en gw) profile then (None, gs)
          else (case run_prompt gw profile (prompt_request gw profile arguments request_log_level legacy_level capabilities rc) gs of
                  (OutcomeComplete result, gs1) \<Rightarrow>
                    (Some (prompt_response (gw_lib gw) request_id (debug_error_data gw rc prompt_contract_hint (gs_now gw gs1)) result), gs1)
                | (OutcomeSuspended request, gs1) \<Rightarrow>
                    (let gs2 = patch_jsonrpc_id gw (rc_request_id rc) request_id gs1 in
                     if is_modern rc
                     then map_prod Some id (build_modern_input_required_response gw rc request_id request (rc_request_id rc) gs2)
                     else (Some accepted, deliver_server_request gw (case rc_session_id rc of None \<Rightarrow> [] | Some i \<Rightarrow> i) request gs2))
                | (OutcomeSuspendedMulti requests, gs1) \<Rightarrow>
                    (let gs2 = patch_jsonrpc_id gw (rc_request_id rc) request_id gs1 in
                     if is_modern rc
                     then map_prod Some id (build_modern_input_required_response_multi gw rc request_id requests (rc_request_id rc) gs2)
                     else (Some (gather_unsupported request_id), gs2)))
      | _ \<Rightarrow> (None, gs))"

section \<open>Resumptions on the modern wire\<close>

datatype input_response = ResponseOk json | ResponseErr rpc_error_body

text \<open>
  \<open>mx_responses\<close> is \<open>InputResponses::from_value\<close>, its entries in the order of their keys; \<open>mx_error_entry\<close> the
  object an error answer is turned into; \<open>mx_internal_error\<close> the wire crate's \<open>handler_internal_error\<close>.
\<close>

record mrtr_lib =
  mx_request_state_key :: string
  mx_input_responses_key :: string
  mx_responses :: "json \<Rightarrow> string + (string \<times> input_response) list"
  mx_error_entry :: "rpc_error_body \<Rightarrow> json"
  mx_utf8 :: "string \<Rightarrow> string option"
  mx_internal_error :: "json option \<Rightarrow> string \<Rightarrow> http_response"
  mx_complete :: string

record mrtr_resumption =
  mr_request_state :: string
  mr_input_responses :: json

definition extract_mrtr_resumption :: "mrtr_lib \<Rightarrow> json option \<Rightarrow> mrtr_resumption option" where
  "extract_mrtr_resumption x meta =
     Option.bind (Option.bind meta as_object) (\<lambda>obj.
     Option.bind (Option.bind (map_of obj (mx_request_state_key x)) as_str) (\<lambda>request_state.
     map_option (\<lambda>responses. \<lparr>mr_request_state = request_state, mr_input_responses = responses\<rparr>)
       (map_of obj (mx_input_responses_key x))))"

definition extract_mrtr_resumption_from_params :: "string option \<Rightarrow> json option \<Rightarrow> mrtr_resumption option" where
  "extract_mrtr_resumption_from_params request_state input_responses =
     Option.bind request_state (\<lambda>rs. map_option (\<lambda>ir. \<lparr>mr_request_state = rs, mr_input_responses = ir\<rparr>) input_responses)"

definition handler_client_error :: "json option \<Rightarrow> nat \<Rightarrow> int \<Rightarrow> string \<Rightarrow> http_response" where
  "handler_client_error rid http_status code message =
     \<lparr>hr_status = http_status, hr_response = JsonRpcError rid \<lparr>err_code = code, err_message = message, err_data = None\<rparr>\<rparr>"

definition map_request_state_decode_error ::
  "'w resume_lib \<Rightarrow> mrtr_lib \<Rightarrow> json option \<Rightarrow> request_state_error \<Rightarrow> http_response" where
  "map_request_state_decode_error x mx rid error =
     (let text = request_state_error_text x error;
          stale = handler_client_error rid 200 (-32600) (''MRTR requestState no longer resolvable: '' @ text);
          invalid = handler_client_error rid 400 (-32602) (''invalid MRTR requestState: '' @ text)
      in case error of
           StoreError _ \<Rightarrow> mx_internal_error mx rid (''MRTR requestState store error: '' @ text)
         | HandleNotFound _ \<Rightarrow> stale
         | Replayed \<Rightarrow> stale
         | _ \<Rightarrow> invalid)"

definition resume_did_not_commit :: "http_response \<Rightarrow> bool" where
  "resume_did_not_commit response =
     (case hr_response response of JsonRpcError _ err \<Rightarrow> err_code err \<in> {-32600, -32001, -32603} | _ \<Rightarrow> False)"

definition on_blobs ::
  "('w, 's, 'v, 't, 'u, 'r, 'x, 'y) gateway \<Rightarrow> (clock \<Rightarrow> 'r \<Rightarrow> 'a \<times> 'r) \<Rightarrow> ('w, 's, 't, 'r) gateway_state \<Rightarrow>
     'a \<times> ('w, 's, 't, 'r) gateway_state" where
  "on_blobs gw f gs = (let (r, bs) = f (gs_now gw gs) (gs_blobs gs) in (r, gs\<lparr>gs_blobs := bs\<rparr>))"

definition spend_request_state_after_resume ::
  "('w, 's, 'v, 't, 'u, 'r, 'x, 'y) gateway \<Rightarrow> 'r request_state_codec \<Rightarrow> string \<Rightarrow> http_response \<Rightarrow> ('w, 's, 't, 'r) gateway_state \<Rightarrow>
     ('w, 's, 't, 'r) gateway_state" where
  "spend_request_state_after_resume gw codec request_state response gs =
     (let gs1 = snd (on_blobs gw (cleanup codec request_state) gs) in
      if resume_did_not_commit response then gs1 else snd (on_blobs gw (enforce_single_use codec request_state) gs1))"

definition stamp_complete_result_type :: "mrtr_lib \<Rightarrow> http_response \<Rightarrow> http_response" where
  "stamp_complete_result_type mx response =
     (case hr_response response of
        JsonRpcSuccess rid (JObj obj) \<Rightarrow>
          if map_of obj ''resultType'' = None
          then response\<lparr>hr_response := JsonRpcSuccess rid (JObj (obj @ [(''resultType'', JStr (mx_complete mx))]))\<rparr> else response
      | _ \<Rightarrow> response)"

text \<open>The call to the runtime: several entries answer a gather step, one entry answers its request.\<close>

definition resume_entries ::
  "('w, 's, 'v, 't, 'u, 'r, 'x, 'y) gateway \<Rightarrow> mrtr_lib \<Rightarrow> request_context \<Rightarrow> string \<Rightarrow> (string \<times> input_response) list \<Rightarrow>
     ('w, 's, 't, 'r) gateway_state \<Rightarrow> http_response \<times> ('w, 's, 't, 'r) gateway_state" where
  "resume_entries gw mx rc pid entries gs =
     (case entries of
        [(token, ResponseOk v)] \<Rightarrow> handle_server_request_response gw rc (JStr token) (Some v) None gs
      | [(token, ResponseErr e)] \<Rightarrow> handle_server_request_response gw rc (JStr token) None (Some e) gs
      | _ \<Rightarrow> handle_multi_input_resumption gw rc pid
               (map (\<lambda>(token, r). (token, case r of ResponseOk v \<Rightarrow> v | ResponseErr e \<Rightarrow> mx_error_entry mx e)) entries) gs)"

definition dispatch_mrtr_resumption ::
  "('w, 's, 'v, 't, 'u, 'r, 'x, 'y) gateway option \<Rightarrow> 'r request_state_codec \<Rightarrow> mrtr_lib \<Rightarrow> request_context \<Rightarrow> json \<Rightarrow> mrtr_resumption \<Rightarrow>
     ('w, 's, 't, 'r) gateway_state \<Rightarrow> http_response \<times> ('w, 's, 't, 'r) gateway_state" where
  "dispatch_mrtr_resumption runtime codec mx rc request_id mrtr gs =
     (case runtime of
        None \<Rightarrow> (mx_internal_error mx (Some request_id) ''gateway runtime is shutting down'', gs)
      | Some gw \<Rightarrow>
          (case on_blobs gw (decode codec (mr_request_state mrtr) (owner_aad (principal_id (rc_identity rc)))) gs of
             (Inl error, gs1) \<Rightarrow> (map_request_state_decode_error (gw_lib gw) mx (Some request_id) error, gs1)
           | (Inr blob, gs1) \<Rightarrow>
               (case mx_utf8 mx blob of
                  None \<Rightarrow> (mx_internal_error mx (Some request_id) ''MRTR requestState decoded to non-UTF-8 bytes'', gs1)
                | Some pid \<Rightarrow>
                    (case mx_responses mx (mr_input_responses mrtr) of
                       Inl e \<Rightarrow> (handler_client_error (Some request_id) 400 (-32602) (''invalid inputResponses: '' @ e), gs1)
                     | Inr [] \<Rightarrow> (handler_client_error (Some request_id) 400 (-32602)
                                   ''MRTR resumption requires at least one inputResponses entry'', gs1)
                     | Inr entries \<Rightarrow>
                         (let (response, gs2) = resume_entries gw mx rc pid entries gs1 in
                          (stamp_complete_result_type mx response,
                           spend_request_state_after_resume gw codec (mr_request_state mrtr) response gs2))))))"

section \<open>The reaper\<close>

definition TIMEOUT_ERROR_CODE :: int where
  "TIMEOUT_ERROR_CODE = -32001"

type_synonym terminal_error = "string \<times> json \<times> int \<times> string"

fun reap_elicitations ::
  "('s, 'v) kv_ops \<Rightarrow> (string \<times> string \<times> json) list \<Rightarrow> clock \<Rightarrow> 's \<Rightarrow> (terminal_error list \<times> nat) \<times> 's" where
  "reap_elicitations kv [] c s = (([], 0), s)"
| "reap_elicitations kv ((pid, session_id, rid) # rest) c s =
     (case delete_pipeline kv pid c s of
        (Inl _, s1) \<Rightarrow> reap_elicitations kv rest c s1
      | (Inr _, s1) \<Rightarrow>
          (let ((errors, n), s2) = reap_elicitations kv rest c s1 in
           (((session_id, rid, TIMEOUT_ERROR_CODE, ''elicitation timed out waiting for client response'') # errors, Suc n), s2)))"

definition suspended_owner ::
  "('s, 'v) kv_ops \<Rightarrow> 'v pipeline_ext \<Rightarrow> string \<Rightarrow> clock \<Rightarrow> 's \<Rightarrow> (string \<times> json) option \<times> 's" where
  "suspended_owner kv x pid c s =
     (case load_pipeline kv x pid c s of
        (Inr (Some st), s1) \<Rightarrow> (if ps_suspended_at st \<noteq> None then Some (ps_session_id st, ps_original_jsonrpc_id st) else None, s1)
      | (_, s1) \<Rightarrow> (None, s1))"

fun reap_expired ::
  "('s, 'v) kv_ops \<Rightarrow> 'v pipeline_ext \<Rightarrow> string list \<Rightarrow> clock \<Rightarrow> 's \<Rightarrow> (terminal_error list \<times> nat) \<times> 's" where
  "reap_expired kv x [] c s = (([], 0), s)"
| "reap_expired kv x (pid # pids) c s =
     (let (owner, s1) = suspended_owner kv x pid c s in
      case delete_pipeline kv pid c s1 of
        (Inl _, s2) \<Rightarrow> reap_expired kv x pids c s2
      | (Inr _, s2) \<Rightarrow>
          (let ((errors, n), s3) = reap_expired kv x pids c s2 in
           ((case owner of None \<Rightarrow> errors
             | Some (session_id, rid) \<Rightarrow> (session_id, rid, TIMEOUT_ERROR_CODE, ''pipeline timed out before completion'') # errors, Suc n), s3)))"

definition sweep_and_collect_deliveries ::
  "('s, 'v) kv_ops \<Rightarrow> 'v pipeline_ext \<Rightarrow> ('s, 'v) list_all_rows \<Rightarrow> clock \<Rightarrow> 's \<Rightarrow> (terminal_error list \<times> nat) \<times> 's" where
  "sweep_and_collect_deliveries kv x la c s =
     (let ((errors, n), s1) = (case list_elicitation_timed_out kv x la c s of
                                 (Inr timed_out, s0) \<Rightarrow> reap_elicitations kv timed_out c s0
                               | (Inl _, s0) \<Rightarrow> (([], 0), s0))
      in case list_expired_pipelines kv x la c s1 of
           (Inl _, s2) \<Rightarrow> ((errors, n), s2)
         | (Inr expired, s2) \<Rightarrow>
             (let ((errors', n'), s3) = reap_expired kv x expired c s2 in ((errors @ errors', n + n'), s3)))"

definition reap_once ::
  "('s, 'v) kv_ops \<Rightarrow> 'v pipeline_ext \<Rightarrow> ('s, 'v) list_all_rows \<Rightarrow> clock \<Rightarrow> 's \<Rightarrow> nat \<times> 's" where
  "reap_once kv x la c s = (let ((_, n), s') = sweep_and_collect_deliveries kv x la c s in (n, s'))"

definition reap_once_with_delivery ::
  "('w, 's, 'v, 't, 'u, 'r, 'x, 'y) gateway \<Rightarrow> ('s, 'v) list_all_rows \<Rightarrow> ('w, 's, 't, 'r) gateway_state \<Rightarrow> nat \<times> ('w, 's, 't, 'r) gateway_state" where
  "reap_once_with_delivery gw la gs =
     (let ((errors, n), gs1) = on_pipelines gw (sweep_and_collect_deliveries (en_kv (gw_en gw)) (en_px (gw_en gw)) la) gs in
      (n, fold (\<lambda>(session_id, rid, code, message). deliver_pipeline_terminal_error gw session_id rid code message) errors gs1))"

end
