(* ===== verification/Pipeline_Properties.thy ===== *)
theory Pipeline_Properties
  imports Pipeline_Store
begin

text \<open>
  Correctness of the pipeline store over any store that keeps the contract: one resumption of a suspended
  pipeline at a time, buffered deliveries in order and once, and the cases in which a sweep or a patch
  harms a live pipeline.
\<close>

section \<open>One winner for each version\<close>

text \<open>
  Replicas claim one version of a pipeline, a store call at a time.  \<open>wins\<close> lists who took the marker and
  when; a claim that ended may be made again; everything else the gateway does to the store in between
  leaves the marker alone, since no other operation writes or deletes a marker key.
\<close>

definition takes_marker :: "claim_pc \<Rightarrow> claim_pc \<Rightarrow> bool" where
  "takes_marker pc pc' = (case (pc, pc') of (ClaimMark _, ClaimBump _) \<Rightarrow> True | _ \<Rightarrow> False)"

inductive claim_race ::
  "('s, 'v) kv_ops \<Rightarrow> ('s \<Rightarrow> 'v rows) \<Rightarrow> ('s \<Rightarrow> bool) \<Rightarrow> 'v pipeline_ext \<Rightarrow> string \<Rightarrow> nat \<Rightarrow>
     's \<Rightarrow> (nat \<Rightarrow> claim_pc) \<Rightarrow> (nat \<times> nat) list \<Rightarrow> nat \<Rightarrow> bool"
  for kv view ok x pid v where
  start: "ok s \<Longrightarrow> claim_race kv view ok x pid v s (\<lambda>_. ClaimRead) [] now"
| step: "claim_race kv view ok x pid v s pcs wins now \<Longrightarrow> now \<le> clk_inst c \<Longrightarrow>
    claim_step kv x pid v (pcs i) c s = (pc', s') \<Longrightarrow>
    claim_race kv view ok x pid v s' (pcs(i := pc'))
      (if takes_marker (pcs i) pc' then wins @ [(i, clk_inst c)] else wins) (clk_inst c)"
| again: "claim_race kv view ok x pid v s pcs wins now \<Longrightarrow> pcs i = ClaimDone r \<Longrightarrow>
    claim_race kv view ok x pid v s (pcs(i := ClaimRead)) wins now"
| other: "claim_race kv view ok x pid v s pcs wins now \<Longrightarrow> now \<le> now' \<Longrightarrow> ok s' \<Longrightarrow>
    \<forall>t \<ge> now'. live_at (view s') t (pipeline_claim_key pid v) = live_at (view s) t (pipeline_claim_key pid v) \<Longrightarrow>
    claim_race kv view ok x pid v s' pcs wins now'"

text \<open>The marker of the last win is live for its whole TTL, so the next win comes after it.\<close>

definition marker_held :: "'v rows \<Rightarrow> string \<Rightarrow> nat \<Rightarrow> (nat \<times> nat) list \<Rightarrow> bool" where
  "marker_held m k now wins \<longleftrightarrow>
     sorted_wrt (\<lambda>(_, t) (_, t'). t + pipeline_ttl \<le> t') wins \<and>
     (\<forall>(_, t) \<in> set wins. \<forall>t'. now \<le> t' \<and> t' < t + pipeline_ttl \<longrightarrow> live_at m t' k \<noteq> None)"

lemma marker_held_later:
  assumes "marker_held m k now wins" "now \<le> now'" "\<forall>t \<ge> now'. live_at m' t k = live_at m t k"
  shows "marker_held m' k now' wins"
  using assms unfolding marker_held_def by fastforce

lemma pipeline_key_not_claim: "pipeline_key p \<noteq> pipeline_claim_key q n"
  by (simp add: pipeline_key_def pipeline_claim_key_def)

context kv_store
begin

lemma claim_read_law:
  assumes "ok s" "claim_step kv x pid v ClaimRead c s = (pc', s')"
  shows "ok s' \<and> same_from (clk_inst c) (view s') (view s) \<and> \<not> takes_marker ClaimRead pc'"
  using assms(1)
proof (cases rule: get_cases [where k = "pipeline_key pid" and c = c, case_names gone row])
  case (gone s1)
  with assms(2) show ?thesis by (auto simp: takes_marker_def)
next
  case (row e d s1)
  with assms(2) show ?thesis
    by (auto simp: takes_marker_def claim_failed_def split: sum.splits)
qed

lemma claim_mark_law:
  assumes "ok s" "claim_step kv x pid v (ClaimMark st) c s = (pc', s')"
  shows "ok s' \<and>
    (if live_at (view s) (clk_inst c) (pipeline_claim_key pid v) = None
     then pc' = ClaimBump st \<and> same_from (clk_inst c) (view s')
        ((view s)(pipeline_claim_key pid v \<mapsto> (pl_text x ''1'', Some (clk_inst c + pipeline_ttl))))
     else pc' = ClaimDone (Inr False) \<and> same_from (clk_inst c) (view s') (view s))"
  using put_if_absent_law [OF assms(1), of "pipeline_claim_key pid v" "pl_text x ''1''" "Some pipeline_ttl" c] assms(2)
  by (auto split: if_splits)

lemma claim_bump_law:
  assumes "ok s" "claim_step kv x pid v (ClaimBump st) c s = (pc', s')"
  shows "ok s' \<and> (\<forall>t \<ge> clk_inst c. \<forall>k. k \<noteq> pipeline_key pid \<longrightarrow> live_at (view s') t k = live_at (view s) t k)"
proof (cases "pl_to_vec x (st\<lparr>ps_state_version := ps_state_version st + 1\<rparr>)")
  case (Inl e)
  with assms show ?thesis by auto
next
  case (Inr b)
  from put_law [OF assms(1), of "pipeline_key pid" b "Some pipeline_ttl" c] obtain s1 where
    "kv_put kv (pipeline_key pid) b (Some pipeline_ttl) c s = (Inr (), s1)" "ok s1"
    "same_from (clk_inst c) (view s1) ((view s)(pipeline_key pid \<mapsto> (b, deadline (Some pipeline_ttl) c)))" by blast
  with assms(2) Inr show ?thesis by (auto simp: same_from_def)
qed

lemma claim_race_held:
  assumes "claim_race kv view ok x pid v s pcs wins now"
  shows "ok s \<and> marker_held (view s) (pipeline_claim_key pid v) now wins \<and> (\<forall>(_, t) \<in> set wins. t \<le> now)"
  using assms
proof (induction rule: claim_race.induct)
  case (start s now)
  then show ?case by (simp add: marker_held_def)
next
  case (step s pcs wins now c i pc' s')
  let ?k = "pipeline_claim_key pid v"
  have IH: "ok s" "marker_held (view s) ?k now wins" "\<forall>(_, t) \<in> set wins. t \<le> now" using step.IH by auto
  have times: "\<forall>(_, t) \<in> set wins. t \<le> clk_inst c" using IH(3) step.hyps(2) by fastforce
  have quiet: ?case if "ok s'" "\<forall>t \<ge> clk_inst c. live_at (view s') t ?k = live_at (view s) t ?k"
    "\<not> takes_marker (pcs i) pc'"
    using marker_held_later [OF IH(2) step.hyps(2) that(2)] that(1,3) times by simp
  show ?case
  proof (cases "pcs i")
    case ClaimRead
    with claim_read_law [OF IH(1), of x pid v c pc' s'] step.hyps(3) show ?thesis
      by (intro quiet) (auto simp: same_from_def)
  next
    case (ClaimMark st)
    note law = claim_mark_law [OF IH(1) step.hyps(3) [unfolded ClaimMark]]
    show ?thesis
    proof (cases "live_at (view s) (clk_inst c) ?k = None")
      case True
      with law have new: "ok s'" "pc' = ClaimBump st" "same_from (clk_inst c) (view s')
          ((view s)(?k \<mapsto> (pl_text x ''1'', Some (clk_inst c + pipeline_ttl))))" by auto
      have over: "t + pipeline_ttl \<le> clk_inst c" if "(j, t) \<in> set wins" for j t
        using True IH(2) step.hyps(2) that unfolding marker_held_def by fastforce
      then have "sorted_wrt (\<lambda>(_, t) (_, t'). t + pipeline_ttl \<le> t') (wins @ [(i, clk_inst c)])"
        using IH(2) by (auto simp: marker_held_def sorted_wrt_append)
      moreover have "live_at (view s') t' ?k \<noteq> None" if "clk_inst c \<le> t'" "t' < clk_inst c + pipeline_ttl" for t'
        using new(3) that by (simp add: same_from_live live_at_upd_same)
      ultimately have "marker_held (view s') ?k (clk_inst c) (wins @ [(i, clk_inst c)])"
        using over unfolding marker_held_def by fastforce
      with new times ClaimMark show ?thesis by (auto simp: takes_marker_def)
    next
      case False
      with law ClaimMark show ?thesis by (intro quiet) (auto simp: takes_marker_def same_from_def)
    qed
  next
    case (ClaimBump st)
    with claim_bump_law [OF IH(1), of x pid v st c pc' s'] step.hyps(3) pipeline_key_not_claim [of pid pid v]
    show ?thesis by (intro quiet) (auto simp: takes_marker_def)
  next
    case (ClaimDone r)
    with step.hyps(3) have "pc' = ClaimDone r" "s' = s" by simp_all
    with IH(1) ClaimDone show ?thesis by (intro quiet) (simp_all add: takes_marker_def)
  qed
next
  case (other s pcs wins now now' s')
  then show ?case using marker_held_later [of "view s" _ now wins now' "view s'"] by fastforce
qed auto

end

lemmas claim_race_held = kv_store.claim_race_held

text \<open>Whoever is past the marker, or was answered true, took it.\<close>

lemma claim_race_winners:
  assumes "claim_race kv view ok x pid v s pcs wins now"
  shows "pcs i = ClaimBump st \<or> pcs i = ClaimDone (Inr True) \<Longrightarrow> i \<in> fst ` set wins"
  using assms
proof (induction arbitrary: i st rule: claim_race.induct)
  case (step s pcs wins now c j pc' s')
  show ?case
  proof (cases "i = j")
    case False
    with step.IH [of i st] step.prems show ?thesis by auto
  next
    case True
    have "takes_marker (pcs j) pc' \<or> (\<exists>st. pcs j = ClaimBump st) \<or> pcs j = ClaimDone (Inr True)"
      using step.hyps(3) step.prems True
      by (cases "pcs j") (auto simp: takes_marker_def claim_failed_def split: prod.splits sum.splits option.splits if_splits)
    with step.IH [of j] True show ?thesis by auto
  qed
qed (auto split: if_splits)

text \<open>
  C7.  Replicas that resume the same version of a suspended pipeline never both win: however their store
  calls interleave, also with everything else the gateway does, two wins of the version's marker are at least
  the pipeline TTL (300 seconds) apart, and a replica whose claim was granted did take the marker.
\<close>

theorem pipeline_version_claimed_once:
  assumes "kv_store kv view ok" "claim_race kv view ok x pid v s pcs wins now"
  shows "sorted_wrt (\<lambda>(_, t) (_, t'). t + pipeline_ttl \<le> t') wins \<and>
    (\<forall>i. pcs i = ClaimDone (Inr True) \<longrightarrow> i \<in> fst ` set wins)"
  using claim_race_held [OF assms] claim_race_winners [OF assms(2)] by (auto simp: marker_held_def)

section \<open>The backlog of a session\<close>

definition delivery_codec :: "'v pipeline_ext \<Rightarrow> bool" where
  "delivery_codec x \<longleftrightarrow>
     (\<forall>msg. \<exists>b. pl_delivery_to_vec x msg = Inr b \<and> pl_delivery_from_slice x b = Inr msg)"

definition delivery_bytes :: "'v pipeline_ext \<Rightarrow> delivery_message \<Rightarrow> 'v" where
  "delivery_bytes x msg = projr (pl_delivery_to_vec x msg)"

lemma delivery_codecD [ext_law]:
  "delivery_codec x \<Longrightarrow> pl_delivery_to_vec x msg = Inr (delivery_bytes x msg)"
  "delivery_codec x \<Longrightarrow> pl_delivery_from_slice x (delivery_bytes x msg) = Inr msg"
  unfolding delivery_codec_def delivery_bytes_def by (metis sum.sel(2))+

text \<open>A buffered delivery is its sequence number, its UUID and the message.\<close>

type_synonym delivery = "int \<times> string \<times> delivery_message"

fun delivery_id_of :: "delivery \<Rightarrow> string" where
  "delivery_id_of (sq, uuid, _) = pad20 sq @ ''-'' @ uuid"

fun stamped :: "delivery \<Rightarrow> delivery_message" where
  "stamped (sq, uuid, msg) = msg\<lparr>dm_delivery_id := pad20 sq @ ''-'' @ uuid\<rparr>"

definition row_of :: "'v pipeline_ext \<Rightarrow> string \<Rightarrow> delivery \<Rightarrow> string \<times> 'v" where
  "row_of x session d = (delivery_key session (delivery_id_of d), delivery_bytes x (snd (snd d)))"

definition in_order :: "delivery list \<Rightarrow> bool" where
  "in_order ds \<longleftrightarrow> sorted_wrt (<) (map fst ds) \<and> (\<forall>d \<in> set ds. 0 \<le> fst d \<and> fits_i64 (fst d))"

text \<open>From \<open>now\<close> to \<open>stop\<close> the live rows under the session's prefix are those of \<open>ds\<close>, and the counter is \<open>n\<close>.\<close>

definition backlog ::
  "('v \<Rightarrow> cluster_error + int) \<Rightarrow> 'v pipeline_ext \<Rightarrow> string \<Rightarrow> 'v rows \<Rightarrow> nat \<Rightarrow> nat \<Rightarrow> int \<Rightarrow> delivery list \<Rightarrow> bool" where
  "backlog count x session m now stop n ds \<longleftrightarrow>
     in_order ds \<and> 0 \<le> n \<and> (\<forall>d \<in> set ds. fst d \<le> n) \<and>
     (\<forall>t. now \<le> t \<and> t < stop \<longrightarrow>
        row_count count m t (delivery_seq_key session) = Inr n \<and>
        (\<forall>k. prefix (delivery_session_prefix session) k \<longrightarrow>
           map_option fst (live_at m t k) = map_of (map (row_of x session) ds) k))"

lemma delivery_key_prefix: "delivery_key session did = delivery_session_prefix session @ did"
  by (simp add: delivery_key_def delivery_session_prefix_def)

lemma prefix_delivery_key [simp]: "prefix (delivery_session_prefix session) (delivery_key session did)"
  by (simp add: delivery_key_prefix)

lemma delivery_key_inj [simp]: "delivery_key session a = delivery_key session b \<longleftrightarrow> a = b"
  by (simp add: delivery_key_prefix)

lemma seq_key_outside [simp]: "\<not> prefix (delivery_session_prefix session) (delivery_seq_key session')"
  "delivery_seq_key session' \<noteq> delivery_key session did"
  by (simp_all add: delivery_session_prefix_def delivery_seq_key_def delivery_key_def)

lemma in_order_keys:
  assumes "in_order ds"
  shows "sorted_wrt (<) (map (\<lambda>d. delivery_key session (delivery_id_of d)) ds)"
  unfolding sorted_wrt_map
proof (rule sorted_wrt_mono_rel)
  show "sorted_wrt (\<lambda>a b. fst a < fst b) ds" using assms by (simp add: in_order_def sorted_wrt_map)
  fix a b assume ab: "a \<in> set ds" "b \<in> set ds" "fst a < fst b"
  obtain sa ua ma sb ub mb where eq: "a = (sa, ua, ma)" "b = (sb, ub, mb)" by (cases a; cases b)
  have "0 \<le> sa" "fits_i64 sa" "fits_i64 sb" using assms ab eq by (auto simp: in_order_def)
  with ab(3) eq have "delivery_id_of a < delivery_id_of b" by (simp add: pad20_less)
  then show "delivery_key session (delivery_id_of a) < delivery_key session (delivery_id_of b)"
    by (simp add: delivery_key_prefix list_less_def lexord_append_leftI)
qed

lemma in_order_append:
  "in_order (ds @ [d]) \<longleftrightarrow> in_order ds \<and> (\<forall>e \<in> set ds. fst e < fst d) \<and> 0 \<le> fst d \<and> fits_i64 (fst d)"
  by (auto simp: in_order_def sorted_wrt_append)

lemma backlog_later:
  assumes "backlog count x session m now stop n ds" "now \<le> now'" "same_from now' m' m"
  shows "backlog count x session m' now' stop n ds"
  using assms(1) unfolding backlog_def
  using assms(2,3) row_count_same_from [OF assms(3)] same_from_live [OF assms(3)] order.trans by fastforce

context kv_counters
begin

lemma store_delivery_law:
  assumes "ok (pst_kv st)" "delivery_codec x" "backlog count x session (view (pst_kv st)) now stop n ds"
    and "now \<le> clk_inst c" "clk_inst c < stop" "stop \<le> clk_inst c + delivery_ttl" "fits_i64 (n + 1)"
  obtains s' where "store_pending_delivery kv x uuid session msg c st =
      (Inr (delivery_id_of (n + 1, uuid, msg)),
       st\<lparr>pst_kv := s', pst_sessions_with_pending := insert session (pst_sessions_with_pending st)\<rparr>)"
    "ok s'" "backlog count x session (view s') (clk_inst c) stop (n + 1) (ds @ [(n + 1, uuid, msg)])"
proof -
  let ?d = "(n + 1, uuid, msg)" and ?p = "delivery_session_prefix session"
  let ?k = "delivery_key session (delivery_id_of ?d)"
  have bl: "in_order ds" "0 \<le> n" "\<forall>d \<in> set ds. fst d \<le> n"
    and now: "\<And>t. now \<le> t \<Longrightarrow> t < stop \<Longrightarrow> row_count count (view (pst_kv st)) t (delivery_seq_key session) = Inr n"
    and rows: "\<And>t k. now \<le> t \<Longrightarrow> t < stop \<Longrightarrow> prefix ?p k \<Longrightarrow>
      map_option fst (live_at (view (pst_kv st)) t k) = map_of (map (row_of x session) ds) k"
    using assms(3) unfolding backlog_def by auto
  from incr_counts [OF assms(1) now [OF assms(4,5)] assms(7), of delivery_ttl] obtain s1 where
    incr: "kv_incr kv (delivery_seq_key session) 1 (Some delivery_ttl) c (pst_kv st) = (Inr (n + 1), s1)" "ok s1"
    and count1: "\<And>t. clk_inst c \<le> t \<Longrightarrow> row_count count (view s1) t (delivery_seq_key session) =
      (if t < clk_inst c + delivery_ttl then Inr (n + 1) else Inr 0)"
    and rows1: "\<And>t k. clk_inst c \<le> t \<Longrightarrow> k \<noteq> delivery_seq_key session \<Longrightarrow>
      live_at (view s1) t k = live_at (view (pst_kv st)) t k"
    by blast
  from put_law [OF incr(2), of ?k "delivery_bytes x msg" "Some delivery_ttl" c] obtain s2 where
    put: "kv_put kv ?k (delivery_bytes x msg) (Some delivery_ttl) c s1 = (Inr (), s2)" "ok s2"
    "same_from (clk_inst c) (view s2) ((view s1)(?k \<mapsto> (delivery_bytes x msg, Some (clk_inst c + delivery_ttl))))"
    by auto
  have order: "in_order (ds @ [?d])"
    using bl assms(7) by (auto simp: in_order_append)
  have fresh: "map_of (map (row_of x session) (ds @ [?d])) k =
      (if k = ?k then Some (delivery_bytes x msg) else map_of (map (row_of x session) ds) k)" for k
  proof -
    have "fst (row_of x session d) \<noteq> ?k" if "d \<in> set ds" for d
      using in_order_keys [OF order, of session] that unfolding row_of_def by (fastforce simp: sorted_wrt_append)
    then have "?k \<notin> fst ` set (map (row_of x session) ds)"
      unfolding set_map image_image by (intro notI) (erule imageE, metis)
    then have "map_of (map (row_of x session) ds) ?k = None" by (simp only: map_of_eq_None_iff not_False_eq_True)
    moreover have "row_of x session ?d = (?k, delivery_bytes x msg)" by (simp add: row_of_def)
    ultimately show ?thesis by (cases "map_of (map (row_of x session) ds) k") (auto simp: map_add_def)
  qed
  have "backlog count x session (view s2) (clk_inst c) stop (n + 1) (ds @ [?d])"
    unfolding backlog_def
  proof (intro conjI allI impI)
    fix t assume t: "clk_inst c \<le> t \<and> t < stop"
    then show "row_count count (view s2) t (delivery_seq_key session) = Inr (n + 1)"
      using row_count_same_from [OF put(3), of t count "delivery_seq_key session"] count1 [of t] assms(6)
      by (simp add: row_count_other)
    fix k assume k: "prefix ?p k"
    then have "k \<noteq> delivery_seq_key session" by auto
    with t k show "map_option fst (live_at (view s2) t k) = map_of (map (row_of x session) (ds @ [?d])) k"
      using same_from_live [OF put(3), of t] rows1 [of t k] rows [of t k] assms(4,6)
      unfolding fresh by (auto simp: live_at_upd_same)
  qed (use order bl in auto)
  moreover have "store_pending_delivery kv x uuid session msg c st =
      (Inr (delivery_id_of ?d), st\<lparr>pst_kv := s2, pst_sessions_with_pending := insert session (pst_sessions_with_pending st)\<rparr>)"
    using incr(1) put(1) delivery_codecD(1) [OF assms(2), of msg] by (simp add: store_pending_delivery_def Let_def)
  ultimately show thesis using put(2) that by blast
qed

text \<open>A listing of the prefix returns exactly the rows of the backlog, in some order.\<close>

lemma list_backlog:
  assumes "ok s" "backlog count x session (view s) now stop n ds" "now \<le> clk_inst c" "clk_inst c < stop" "length ds < 1024"
  obtains xs s' where "kv_list_prefix kv (delivery_session_prefix session) 1024 c s = (Inr xs, s')" "ok s'"
    "same_from (clk_inst c) (view s') (view s)" "distinct (map fst xs)"
    "set (map (\<lambda>(k, e). (k, ent_bytes e)) xs) = set (map (row_of x session) ds)"
proof -
  let ?p = "delivery_session_prefix session" and ?rows = "map (row_of x session) ds"
  from list_prefix_law [OF assms(1), of ?p 1024 c] obtain xs s' where
    xs: "kv_list_prefix kv ?p 1024 c s = (Inr xs, s')" "ok s'" "same_from (clk_inst c) (view s') (view s)" "distinct (map fst xs)"
    and sound: "\<forall>(k, e) \<in> set xs. prefix ?p k \<and> (\<exists>d. live_at (view s) (clk_inst c) k = Some (ent_bytes e, d))"
    and complete: "length xs < 1024 \<longrightarrow> {k. prefix ?p k \<and> live_at (view s) (clk_inst c) k \<noteq> None} \<subseteq> fst ` set xs"
    by blast
  have rows: "map_option fst (live_at (view s) (clk_inst c) k) = map_of ?rows k" if "prefix ?p k" for k
    using assms(2-4) that unfolding backlog_def by blast
  have dist: "distinct (map fst ?rows)"
    using in_order_keys [of ds session] assms(2) unfolding backlog_def
    by (simp add: row_of_def comp_def strict_sorted_iff)
  have sub: "(k, ent_bytes e) \<in> set ?rows" if "(k, e) \<in> set xs" for k e
  proof -
    from sound that obtain d where "prefix ?p k" "live_at (view s) (clk_inst c) k = Some (ent_bytes e, d)" by blast
    with rows [of k] have "map_of ?rows k = Some (ent_bytes e)" by simp
    then show ?thesis by (rule map_of_SomeD)
  qed
  have "fst ` set xs \<subseteq> fst ` set ?rows"
  proof
    fix k assume "k \<in> fst ` set xs"
    then obtain e where "(k, e) \<in> set xs" by force
    from sub [OF this] show "k \<in> fst ` set ?rows" by (rule image_eqI [rotated]) simp
  qed
  then have "card (fst ` set xs) \<le> card (fst ` set ?rows)" by (intro card_mono) auto
  also have "\<dots> \<le> length ?rows" by (metis card_length length_map list.set_map)
  finally have "length xs < 1024"
    using xs(4) assms(5) by (metis (no_types) distinct_card leD le_less_linear length_map list.set_map order.strict_trans1)
  with complete have all: "{k. prefix ?p k \<and> live_at (view s) (clk_inst c) k \<noteq> None} \<subseteq> fst ` set xs" by blast
  have "(k, b) \<in> set (map (\<lambda>(k, e). (k, ent_bytes e)) xs)" if kb: "(k, b) \<in> set ?rows" for k b
  proof -
    have p: "prefix ?p k" using kb by (auto simp: row_of_def)
    have m: "map_of ?rows k = Some b" using kb dist by simp
    then have "k \<in> fst ` set xs" using all rows [OF p] p by (cases "live_at (view s) (clk_inst c) k") auto
    then obtain e where e: "(k, e) \<in> set xs" by force
    with sub [OF e] dist m have "ent_bytes e = b" by (metis map_of_eq_Some_iff option.inject)
    with e show ?thesis by force
  qed
  moreover have "(k, b) \<in> set ?rows" if "(k, b) \<in> set (map (\<lambda>(k, e). (k, ent_bytes e)) xs)" for k b
    using that sub unfolding set_map by (elim imageE) (metis case_prod_conv old.prod.exhaust prod.inject set_map)
  ultimately have "set (map (\<lambda>(k, e). (k, ent_bytes e)) xs) = set ?rows" unfolding set_eq_iff split_paired_All by blast
  with xs show thesis using that by blast
qed

end

text \<open>Removing the rows of some deliveries leaves the backlog of the others.\<close>

lemma fst_row_of [simp]: "fst (row_of x session d) = delivery_key session (delivery_id_of d)"
  by (simp add: row_of_def)

lemma in_order_filter: "in_order ds \<Longrightarrow> in_order (filter P ds)"
  by (auto simp: in_order_def sorted_wrt_map sorted_wrt_filter)

lemma in_order_distinct:
  "in_order ds \<Longrightarrow> distinct (map (\<lambda>d. delivery_key session (delivery_id_of d)) ds)"
  using in_order_keys [of ds session] by (simp add: strict_sorted_iff)

lemma map_of_filter_rows:
  assumes "distinct (map (\<lambda>d. delivery_key session (delivery_id_of d)) ds)"
  shows "map_of (map (row_of x session) (filter P ds)) k =
    (if \<exists>d \<in> set ds. \<not> P d \<and> k = delivery_key session (delivery_id_of d) then None
     else map_of (map (row_of x session) ds) k)"
  using assms
proof (induction ds)
  case (Cons d ds)
  let ?key = "\<lambda>d. delivery_key session (delivery_id_of d)"
  have cons: "map_of (map (row_of x session) (d # es)) k =
      (if k = ?key d then Some (snd (row_of x session d)) else map_of (map (row_of x session) es) k)" for es
    by (cases "row_of x session d") (auto simp: row_of_def simp del: delivery_id_of.simps)
  have new: "map_of (map (row_of x session) ds) (?key d) = None" "\<forall>e \<in> set ds. ?key d \<noteq> ?key e"
    unfolding map_of_eq_None_iff set_map image_image fst_row_of using Cons.prems
    by (auto simp del: delivery_id_of.simps delivery_key_inj)
  have IH: "map_of (map (row_of x session) (filter P ds)) k =
      (if \<exists>d \<in> set ds. \<not> P d \<and> k = ?key d then None else map_of (map (row_of x session) ds) k)"
    using Cons by simp
  show ?case
  proof (cases "k = ?key d")
    case True
    with new IH cons show ?thesis by (cases "P d") (simp_all del: delivery_id_of.simps delivery_key_inj list.map)
  next
    case False
    with IH cons show ?thesis by (cases "P d") (simp_all del: delivery_id_of.simps delivery_key_inj list.map, blast+)
  qed
qed simp

lemma backlog_filter:
  assumes "backlog count x session m now stop n ds" "now \<le> now'"
    and "\<And>t k. now' \<le> t \<Longrightarrow> live_at m' t k =
      (if \<exists>d \<in> set ds. \<not> P d \<and> k = delivery_key session (delivery_id_of d) then None else live_at m t k)"
  shows "backlog count x session m' now' stop n (filter P ds)"
proof -
  have ds: "in_order ds" "0 \<le> n" "\<forall>d \<in> set ds. fst d \<le> n"
    and old: "\<And>t k. now \<le> t \<Longrightarrow> t < stop \<Longrightarrow> row_count count m t (delivery_seq_key session) = Inr n \<and>
      (prefix (delivery_session_prefix session) k \<longrightarrow>
        map_option fst (live_at m t k) = map_of (map (row_of x session) ds) k)"
    using assms(1) unfolding backlog_def by blast+
  have "live_at m' t (delivery_seq_key session) = live_at m t (delivery_seq_key session)" if "now' \<le> t" for t
    using assms(3) [OF that, of "delivery_seq_key session"] by (simp del: delivery_id_of.simps)
  with old assms(2,3) show ?thesis
    unfolding backlog_def map_of_filter_rows [OF in_order_distinct [OF ds(1)]]
    using in_order_filter [OF ds(1)] ds(2,3) by (auto simp: row_count_def simp del: delivery_id_of.simps)
qed

context kv_counters
begin

lemma drain_rows_law:
  assumes "ok s" "delivery_codec x" "map (\<lambda>(k, e). (k, ent_bytes e)) es = map (row_of x session) ds"
  shows "\<exists>s'. drain_rows kv x (delivery_session_prefix session) es c s = (map stamped ds, s') \<and> ok s' \<and>
    (\<forall>t \<ge> clk_inst c. \<forall>k. live_at (view s') t k =
       (if \<exists>d \<in> set ds. k = delivery_key session (delivery_id_of d) then None else live_at (view s) t k))"
  using assms(1,3)
proof (induction ds arbitrary: es s)
  case (Cons d ds)
  let ?k = "delivery_key session (delivery_id_of d)"
  obtain e es' where es: "es = (?k, e) # es'" "ent_bytes e = delivery_bytes x (snd (snd d))"
    "map (\<lambda>(k, e). (k, ent_bytes e)) es' = map (row_of x session) ds"
    using Cons.prems(2) by (cases es) (auto simp: row_of_def)
  from delete_law [OF Cons.prems(1), of ?k c] obtain b s1 where
    del: "kv_delete kv ?k c s = (Inr b, s1)" "ok s1" "same_from (clk_inst c) (view s1) ((view s)(?k := None))" by blast
  from Cons.IH [OF del(2) es(3)] obtain s' where s':
    "drain_rows kv x (delivery_session_prefix session) es' c s1 = (map stamped ds, s')" "ok s'"
    and live: "\<And>t k. clk_inst c \<le> t \<Longrightarrow> live_at (view s') t k =
       (if \<exists>d \<in> set ds. k = delivery_key session (delivery_id_of d) then None else live_at (view s1) t k)" by blast
  have "live_at (view s') t k =
      (if \<exists>d \<in> set (d # ds). k = delivery_key session (delivery_id_of d) then None else live_at (view s) t k)"
    if "clk_inst c \<le> t" for t k
    using live [OF that, of k] same_from_live [OF del(3) that] by (cases "k = ?k") (auto simp del: delivery_id_of.simps)
  moreover have "strip_prefix ?k (delivery_session_prefix session) = Some (delivery_id_of d)"
    by (simp add: delivery_key_prefix)
  then have "drain_rows kv x (delivery_session_prefix session) es c s = (map stamped (d # ds), s')"
    using es(2) del(1) s'(1) delivery_codecD(2) [OF assms(2), of "snd (snd d)"]
    unfolding es(1) by (cases d) (simp add: Let_def)
  ultimately show ?case using s'(2) by blast
qed simp

lemma drain_law:
  assumes "ok s" "delivery_codec x" "backlog count x session (view s) now stop n ds"
    and "now \<le> clk_inst c" "clk_inst c < stop" "length ds < 1024"
  obtains s' where "drain_pending_deliveries kv x session c s = (Inr (map stamped ds), s')" "ok s'"
    "backlog count x session (view s') (clk_inst c) stop n []"
proof -
  from list_backlog [OF assms(1,3-6)] obtain xs s1 where
    xs: "kv_list_prefix kv (delivery_session_prefix session) 1024 c s = (Inr xs, s1)" "ok s1"
    "same_from (clk_inst c) (view s1) (view s)" "distinct (map fst xs)"
    "set (map (\<lambda>(k, e). (k, ent_bytes e)) xs) = set (map (row_of x session) ds)" by blast
  let ?ys = "map (\<lambda>(k, e). (k, ent_bytes e)) (sort_key fst xs)" and ?rows = "map (row_of x session) ds"
  have keys: "sorted_wrt (<) (map fst ?rows)"
    using in_order_keys [of ds session] assms(3) by (simp add: backlog_def comp_def del: delivery_id_of.simps)
  have fsts: "map fst ?ys = map fst (sort_key fst xs)" by (simp add: case_prod_beta comp_def)
  have "?ys = ?rows"
  proof (rule map_sorted_distinct_set_unique [where f = fst])
    show "sorted (map fst ?ys)" unfolding fsts by (rule sorted_sort_key)
    show "distinct (map fst ?ys)" unfolding fsts using xs(4) by (simp add: distinct_map)
    show "sorted (map fst ?rows)" "distinct (map fst ?rows)" using keys by (simp_all add: strict_sorted_iff)
    show "set ?ys = set ?rows" using xs(5) by simp
    have "inj_on fst (set ?rows)" using keys by (simp only: strict_sorted_iff distinct_map)
    then show "inj_on fst (set ?ys \<union> set ?rows)" using xs(5) by simp
  qed
  from drain_rows_law [OF xs(2) assms(2) this] obtain s' where
    s': "drain_rows kv x (delivery_session_prefix session) (sort_key fst xs) c s1 = (map stamped ds, s')" "ok s'"
    and live: "\<And>t k. clk_inst c \<le> t \<Longrightarrow> live_at (view s') t k =
      (if \<exists>d \<in> set ds. k = delivery_key session (delivery_id_of d) then None else live_at (view s1) t k)" by blast
  have "backlog count x session (view s') (clk_inst c) stop n (filter (\<lambda>_. False) ds)"
    by (rule backlog_filter [OF assms(3,4)]) (use live same_from_live [OF xs(3)] in auto)
  then show thesis using that s' xs(1) by (simp add: drain_pending_deliveries_def)
qed

end

text \<open>An acknowledgement removes the delivery it names and every earlier one.\<close>

lemma below_ack_delivery:
  assumes "in_order ds" "d \<in> set ds"
  shows "below_ack (delivery_session_prefix session) sq (delivery_key session (delivery_id_of d)) \<longleftrightarrow> fst d < sq"
proof -
  obtain n u msg where d: "d = (n, u, msg)" by (cases d)
  with assms have "0 \<le> n" "fits_i64 n" by (auto simp: in_order_def)
  with d show ?thesis using delivery_seq_of_pad20 [of n u] by (simp add: below_ack_def delivery_key_prefix)
qed

lemma in_order_eqI: "in_order ds \<Longrightarrow> d \<in> set ds \<Longrightarrow> e \<in> set ds \<Longrightarrow> fst d = fst e \<Longrightarrow> d = e"
  by (metis in_order_def distinct_map inj_onD strict_sorted_iff)

context kv_counters
begin

lemma prune_rows_law:
  assumes "ok s"
  shows "ok (prune_rows kv p sq es c s) \<and> (\<forall>t \<ge> clk_inst c. \<forall>k. live_at (view (prune_rows kv p sq es c s)) t k =
    (if k \<in> fst ` set es \<and> below_ack p sq k then None else live_at (view s) t k))"
  using assms
proof (induction es arbitrary: s)
  case (Cons e es)
  obtain k0 v where e: "e = (k0, v)" by (cases e)
  show ?case
  proof (cases "below_ack p sq k0")
    case True
    from delete_law [OF Cons.prems, of k0 c] obtain b s1 where
      del: "kv_delete kv k0 c s = (Inr b, s1)" "ok s1" "same_from (clk_inst c) (view s1) ((view s)(k0 := None))" by blast
    note IH = Cons.IH [OF del(2)]
    have "live_at (view s1) t k = (if k = k0 then None else live_at (view s) t k)" if "clk_inst c \<le> t" for t k
      using same_from_live [OF del(3) that] by simp
    with IH True del(1) e show ?thesis by auto
  next
    case False
    with Cons.IH [OF Cons.prems] e show ?thesis by auto
  qed
qed simp

lemma ack_law:
  assumes "ok s" "backlog count x session (view s) now stop n ds" "d \<in> set ds"
    and "now \<le> clk_inst c" "clk_inst c < stop" "length ds < 1024"
  obtains s' where "ack_prune_deliveries kv session (delivery_id_of d) c s = (Inr (), s')" "ok s'"
    "backlog count x session (view s') (clk_inst c) stop n (filter (\<lambda>e. fst d < fst e) ds)"
proof -
  let ?p = "delivery_session_prefix session" and ?key = "\<lambda>d. delivery_key session (delivery_id_of d)"
  let ?rest = "filter (\<lambda>e. fst e \<noteq> fst d) ds"
  have ord: "in_order ds" using assms(2) by (simp add: backlog_def)
  obtain sq u msg where d: "d = (sq, u, msg)" by (cases d)
  have sq: "delivery_seq_of (delivery_id_of d) = Some (fst d)" "delivery_id_of d \<noteq> []"
    using ord assms(3) d delivery_seq_of_pad20 [of sq u] by (auto simp: in_order_def)
  have "map_option fst (live_at (view s) (clk_inst c) (?key d)) = map_of (map (row_of x session) ds) (?key d)"
    using assms(2,4,5) prefix_delivery_key unfolding backlog_def by blast
  moreover have "?key d \<in> fst ` set (map (row_of x session) ds)"
    unfolding set_map image_image fst_row_of using assms(3) by blast
  then have "map_of (map (row_of x session) ds) (?key d) \<noteq> None" by (simp only: map_of_eq_None_iff not_not)
  ultimately have "live_at (view s) (clk_inst c) (?key d) \<noteq> None" by (auto simp del: delivery_id_of.simps)
  with delete_law [OF assms(1), of "?key d" c] obtain s1 where
    del: "kv_delete kv (?key d) c s = (Inr True, s1)" "ok s1" "same_from (clk_inst c) (view s1) ((view s)(?key d := None))"
    by (metis (full_types))
  have only: "(\<exists>e \<in> set ds. \<not> fst e \<noteq> fst d \<and> k = ?key e) \<longleftrightarrow> k = ?key d" for k
    using in_order_eqI [OF ord assms(3)] assms(3) by metis
  have rest: "backlog count x session (view s1) (clk_inst c) stop n ?rest"
    by (rule backlog_filter [OF assms(2,4)]) (use same_from_live [OF del(3)] only in \<open>simp del: delivery_id_of.simps delivery_key_inj\<close>)
  have "length ?rest < 1024" using assms(6) by (rule le_less_trans [OF length_filter_le])
  from list_backlog [OF del(2) rest le_refl assms(5) this] obtain xs s2 where
    xs: "kv_list_prefix kv ?p 1024 c s1 = (Inr xs, s2)" "ok s2" "same_from (clk_inst c) (view s2) (view s1)"
    "set (map (\<lambda>(k, e). (k, ent_bytes e)) xs) = set (map (row_of x session) ?rest)" by blast
  have "fst ` set xs = fst ` set (map (\<lambda>(k, e). (k, ent_bytes e)) xs)" by force
  also have "\<dots> = fst ` set (map (row_of x session) ?rest)" by (simp only: xs(4))
  also have "\<dots> = ?key ` set ?rest" unfolding set_map image_image fst_row_of ..
  finally have keys: "fst ` set xs = ?key ` set ?rest" .
  have below: "below_ack ?p (fst d) (?key e) \<longleftrightarrow> \<not> fst d < fst e" if "e \<in> set ?rest" for e
    using below_ack_delivery [OF ord, of e session "fst d"] that by (auto simp del: delivery_id_of.simps)
  have gone: "(k \<in> fst ` set xs \<and> below_ack ?p (fst d) k) \<longleftrightarrow> (\<exists>e \<in> set ?rest. \<not> fst d < fst e \<and> k = ?key e)" for k
    unfolding keys image_iff using below by metis
  let ?s' = "prune_rows kv ?p (fst d) xs c s2"
  note prune = prune_rows_law [OF xs(2), of ?p "fst d" xs c]
  have "backlog count x session (view ?s') (clk_inst c) stop n (filter (\<lambda>e. fst d < fst e) ?rest)"
    by (rule backlog_filter [OF rest le_refl])
      (use prune same_from_live [OF xs(3)] in \<open>simp only: gone\<close>)
  moreover have "filter (\<lambda>e. fst d < fst e) ?rest = filter (\<lambda>e. fst d < fst e) ds"
    by (auto intro: filter_cong)
  ultimately show thesis using that [of ?s'] prune sq del(1) xs(1) by (simp add: ack_prune_deliveries_def)
qed

end

section \<open>A client that comes back\<close>

text \<open>Messages for one session, buffered one after the other: each with its UUID and the time.\<close>

type_synonym send = "string \<times> delivery_message \<times> clock"

abbreviation send_time :: "send \<Rightarrow> nat" where
  "send_time sd \<equiv> clk_inst (snd (snd sd))"

fun store_deliveries ::
  "('s, 'v) kv_ops \<Rightarrow> 'v pipeline_ext \<Rightarrow> string \<Rightarrow> send list \<Rightarrow> 's pipeline_store \<Rightarrow>
     (string + string) list \<times> 's pipeline_store" where
  "store_deliveries kv x session [] st = ([], st)"
| "store_deliveries kv x session ((uuid, msg, c) # sends) st =
     (let (r, st1) = store_pending_delivery kv x uuid session msg c st;
          (rs, st2) = store_deliveries kv x session sends st1
      in (r # rs, st2))"

fun numbered :: "int \<Rightarrow> send list \<Rightarrow> delivery list" where
  "numbered n [] = []"
| "numbered n ((uuid, msg, _) # sends) = (n + 1, uuid, msg) # numbered (n + 1) sends"

lemma numbered_simps [simp]:
  "length (numbered n sends) = length sends" "map (snd \<circ> snd) (numbered n sends) = map (fst \<circ> snd) sends"
  by (induction n sends rule: numbered.induct) simp_all

lemma map_stamped:
  "map stamped ds = map2 (\<lambda>did msg. msg\<lparr>dm_delivery_id := did\<rparr>) (map delivery_id_of ds) (map (snd \<circ> snd) ds)"
  by (induction ds) auto

lemma in_order_drop:
  assumes "in_order ds" "i < length ds"
  shows "filter (\<lambda>e. fst (ds ! i) < fst e) ds = drop (Suc i) ds"
proof -
  let ?a = "take i ds" and ?d = "ds ! i" and ?b = "drop (Suc i) ds"
  have ds: "ds = ?a @ ?d # ?b" using assms(2) by (rule id_take_nth_drop)
  have "sorted_wrt (<) (map fst (?a @ ?d # ?b))" using assms(1) ds by (simp add: in_order_def)
  then have "\<forall>e \<in> set ?a. \<not> fst ?d < fst e" "\<forall>e \<in> set ?b. fst ?d < fst e"
    unfolding map_append list.map sorted_wrt_append by fastforce+
  then have "filter (\<lambda>e. fst ?d < fst e) (?a @ ?d # ?b) = ?b" by (simp add: filter_True filter_False)
  with ds show ?thesis by simp
qed

context kv_counters
begin

lemma store_deliveries_law:
  assumes "ok (pst_kv st)" "delivery_codec x" "backlog count x session (view (pst_kv st)) now stop n ds"
    and "sorted (now # map send_time sends)" "\<forall>sd \<in> set sends. send_time sd < stop \<and> stop \<le> send_time sd + delivery_ttl"
    and "fits_i64 (n + int (length sends))"
  shows "\<exists>st'. store_deliveries kv x session sends st = (map (Inr \<circ> delivery_id_of) (numbered n sends), st') \<and> ok (pst_kv st') \<and>
    backlog count x session (view (pst_kv st')) (last (now # map send_time sends)) stop (n + int (length sends)) (ds @ numbered n sends)"
  using assms(1,3-6)
proof (induction sends arbitrary: st now n ds)
  case (Cons sd sends)
  obtain uuid msg c where sd: "sd = (uuid, msg, c)" by (cases sd)
  have "0 \<le> n" using Cons.prems(2) by (simp add: backlog_def)
  then have fit: "fits_i64 (n + 1)" using Cons.prems(5) by (simp add: fits_i64_def)
  have times: "now \<le> clk_inst c" "clk_inst c < stop" "stop \<le> clk_inst c + delivery_ttl"
    using Cons.prems(3,4) sd by auto
  from store_delivery_law [OF Cons.prems(1) assms(2) Cons.prems(2) times fit, of uuid msg] obtain s' where
    one: "store_pending_delivery kv x uuid session msg c st = (Inr (delivery_id_of (n + 1, uuid, msg)),
       st\<lparr>pst_kv := s', pst_sessions_with_pending := insert session (pst_sessions_with_pending st)\<rparr>)"
    "ok s'" "backlog count x session (view s') (clk_inst c) stop (n + 1) (ds @ [(n + 1, uuid, msg)])" by blast
  let ?st = "st\<lparr>pst_kv := s', pst_sessions_with_pending := insert session (pst_sessions_with_pending st)\<rparr>"
  have "\<exists>st'. store_deliveries kv x session sends ?st = (map (Inr \<circ> delivery_id_of) (numbered (n + 1) sends), st') \<and> ok (pst_kv st') \<and>
    backlog count x session (view (pst_kv st')) (last (clk_inst c # map send_time sends)) stop (n + 1 + int (length sends))
      ((ds @ [(n + 1, uuid, msg)]) @ numbered (n + 1) sends)"
    by (rule Cons.IH) (use one Cons.prems sd in \<open>auto simp: algebra_simps\<close>)
  with one(1) show ?case by (auto simp: sd add.assoc [symmetric] add.commute)
qed simp

end

text \<open>
  C25.  A client that reconnects misses nothing and sees nothing twice.  Messages buffered for its session
  get ids that it can acknowledge; when it acknowledges one of them, a drain by any replica then returns the
  messages sent after it, exactly those, in the order they were sent and stamped with their ids, and a second
  drain returns none.  The buffer holds fewer than 1024 messages and all happens within the delivery TTL.
\<close>

theorem reconnect_replays_unacknowledged:
  assumes "kv_counters kv view ok count" "delivery_codec x" "ok (pst_kv st)"
    and "backlog count x session (view (pst_kv st)) now stop n []"
    and "sorted (now # map send_time sends @ [clk_inst c1, clk_inst c2, clk_inst c3])" "clk_inst c3 < stop"
    and "\<forall>sd \<in> set sends. stop \<le> send_time sd + delivery_ttl"
    and "fits_i64 (n + int (length sends))" "length sends < 1024" "i < length sends"
  shows "\<exists>ids st1 s2 st3 st4. store_deliveries kv x session sends st = (map Inr ids, st1) \<and> length ids = length sends \<and>
    ack_prune_deliveries kv session (ids ! i) c1 (pst_kv st1) = (Inr (), s2) \<and>
    take_pending_deliveries_scan kv x session c2 \<lparr>pst_kv = s2, pst_sessions_with_pending = known\<rparr> =
      (Inr (map2 (\<lambda>did msg. msg\<lparr>dm_delivery_id := did\<rparr>) (drop (Suc i) ids) (drop (Suc i) (map (fst \<circ> snd) sends))), st3) \<and>
    take_pending_deliveries_scan kv x session c3 st3 = (Inr [], st4)"
proof -
  let ?ds = "numbered n sends"
  have times: "sorted (now # map send_time sends)" "\<forall>sd \<in> set sends. send_time sd < stop \<and> stop \<le> send_time sd + delivery_ttl"
    "last (now # map send_time sends) \<le> clk_inst c1" "clk_inst c1 \<le> clk_inst c2" "clk_inst c2 \<le> clk_inst c3"
    using assms(5-7) last_in_set [of "now # map send_time sends"] by (auto simp: sorted_append)
  from kv_counters.store_deliveries_law [OF assms(1,3,2,4) times(1,2) assms(8)] obtain st1 where
    st1: "store_deliveries kv x session sends st = (map (Inr \<circ> delivery_id_of) ?ds, st1)" "ok (pst_kv st1)"
    "backlog count x session (view (pst_kv st1)) (last (now # map send_time sends)) stop (n + int (length sends)) ?ds" by auto
  have d: "?ds ! i \<in> set ?ds" using assms(10) by (intro nth_mem) simp
  have t1: "clk_inst c1 < stop" and t2: "clk_inst c2 < stop" using times(4,5) assms(6) by linarith+
  have len: "length ?ds < 1024" using assms(9) by simp
  obtain s2 where s2: "ack_prune_deliveries kv session (delivery_id_of (?ds ! i)) c1 (pst_kv st1) = (Inr (), s2)" "ok s2"
    "backlog count x session (view s2) (clk_inst c1) stop (n + int (length sends)) (filter (\<lambda>e. fst (?ds ! i) < fst e) ?ds)"
    using kv_counters.ack_law [OF assms(1) st1(2,3) d times(3) t1 len] by blast
  have tail: "filter (\<lambda>e. fst (?ds ! i) < fst e) ?ds = drop (Suc i) ?ds"
    using st1(3) assms(10) by (intro in_order_drop) (simp_all add: backlog_def)
  have len2: "length (drop (Suc i) ?ds) < 1024" using len by simp
  obtain s3 where s3: "drain_pending_deliveries kv x session c2 s2 = (Inr (map stamped (drop (Suc i) ?ds)), s3)" "ok s3"
    "backlog count x session (view s3) (clk_inst c2) stop (n + int (length sends)) []"
    using kv_counters.drain_law [OF assms(1) s2(2) assms(2) s2(3) [unfolded tail] times(4) t2 len2] by blast
  obtain s4 where s4: "drain_pending_deliveries kv x session c3 s3 = (Inr [], s4)"
    using kv_counters.drain_law [OF assms(1) s3(2) assms(2) s3(3) times(5) assms(6)] by auto
  have "map stamped (drop (Suc i) ?ds) = map2 (\<lambda>did msg. msg\<lparr>dm_delivery_id := did\<rparr>)
      (drop (Suc i) (map delivery_id_of ?ds)) (drop (Suc i) (map (fst \<circ> snd) sends))"
    using numbered_simps(2) [of n sends] unfolding map_stamped by (metis drop_map)
  note tail_msgs = this
  show ?thesis
  proof (intro exI conjI)
    show "store_deliveries kv x session sends st = (map Inr (map delivery_id_of ?ds), st1)" using st1(1) by simp
    show "ack_prune_deliveries kv session (map delivery_id_of ?ds ! i) c1 (pst_kv st1) = (Inr (), s2)"
      using s2(1) assms(10) by simp
    show "take_pending_deliveries_scan kv x session c2 \<lparr>pst_kv = s2, pst_sessions_with_pending = known\<rparr> =
      (Inr (map2 (\<lambda>did msg. msg\<lparr>dm_delivery_id := did\<rparr>) (drop (Suc i) (map delivery_id_of ?ds))
        (drop (Suc i) (map (fst \<circ> snd) sends))), \<lparr>pst_kv = s3, pst_sessions_with_pending = known - {session}\<rparr>)"
      using s3(1) tail_msgs by (simp add: take_pending_deliveries_scan_def)
    show "take_pending_deliveries_scan kv x session c3 \<lparr>pst_kv = s3, pst_sessions_with_pending = known - {session}\<rparr> =
      (Inr [], \<lparr>pst_kv = s4, pst_sessions_with_pending = known - {session} - {session}\<rparr>)"
      using s4 by (simp add: take_pending_deliveries_scan_def)
  qed simp
qed

section \<open>A patch that crosses a claim\<close>

text \<open>
  What the serialiser keeps: every field but the caller's bearer token, which is never written.  A state whose
  steps were read from a configuration and that holds no token is read back as it was written.
\<close>

definition persisted :: "pipeline_state \<Rightarrow> pipeline_state" where
  "persisted st = st\<lparr>ps_request_context := (ps_request_context st)\<lparr>rc_inbound_bearer := None\<rparr>\<rparr>"

definition storable :: "pipeline_state \<Rightarrow> bool" where
  "storable st \<longleftrightarrow> rc_inbound_bearer (ps_request_context st) = None \<and> list_all parsed_step (ps_steps st)"

definition pipeline_codec :: "'v pipeline_ext \<Rightarrow> bool" where
  "pipeline_codec x \<longleftrightarrow>
     (\<forall>st. storable st \<longrightarrow> (\<exists>b. pl_to_vec x st = Inr b \<and> pl_from_slice x b = Inr st)) \<and>
     (\<forall>st. pl_to_vec x st = pl_to_vec x (persisted st))"

lemma persisted_storable: "storable st \<Longrightarrow> persisted st = st"
  by (simp add: persisted_def storable_def)

lemma storable_persisted: "list_all parsed_step (ps_steps st) \<Longrightarrow> storable (persisted st)"
  by (simp add: persisted_def storable_def)

lemma storable_upd [simp]:
  "storable (st\<lparr>ps_state_version := v\<rparr>) = storable st" "storable (st\<lparr>ps_original_jsonrpc_id := i\<rparr>) = storable st"
  by (simp_all add: storable_def)

text \<open>At time \<open>t\<close> the store holds the pipeline \<open>st\<close>.\<close>

definition holds_pipeline :: "'v pipeline_ext \<Rightarrow> 'v rows \<Rightarrow> nat \<Rightarrow> string \<Rightarrow> pipeline_state \<Rightarrow> bool" where
  "holds_pipeline x m t pid st \<longleftrightarrow> (\<exists>b d. live_at m t (pipeline_key pid) = Some (b, d) \<and> pl_from_slice x b = Inr st)"

lemma holds_pipeline_same: "live_at m t = live_at m' t \<Longrightarrow> holds_pipeline x m t pid st = holds_pipeline x m' t pid st"
  by (simp add: holds_pipeline_def)

lemma rpc_key_apart [simp]: "pipeline_key pid \<noteq> suspended_rpc_key x session rid"
  "pipeline_claim_key pid v \<noteq> suspended_rpc_key x session rid"
  by (simp_all add: pipeline_key_def pipeline_claim_key_def suspended_rpc_key_def)

context kv_store
begin

lemma get_pipeline:
  assumes "ok s" "holds_pipeline x (view s) (clk_inst c) pid st"
  obtains e s' where "kv_get kv (pipeline_key pid) c s = (Inr (Some e), s')" "pl_from_slice x (ent_bytes e) = Inr st"
    "ok s'" "same_from (clk_inst c) (view s') (view s)"
  using get_cases [OF assms(1), of "pipeline_key pid" c] assms(2) unfolding holds_pipeline_def by (metis option.distinct(1) option.inject prod.inject)

lemma put_pipeline:
  assumes "ok s" "pipeline_codec x" "storable st"
  obtains b s' where "pl_to_vec x st = Inr b" "kv_put kv (pipeline_key pid) b (Some pipeline_ttl) c s = (Inr (), s')" "ok s'"
    "\<And>t. clk_inst c \<le> t \<Longrightarrow> t < clk_inst c + pipeline_ttl \<Longrightarrow> holds_pipeline x (view s') t pid st"
    "\<And>t k. clk_inst c \<le> t \<Longrightarrow> k \<noteq> pipeline_key pid \<Longrightarrow> live_at (view s') t k = live_at (view s) t k"
proof -
  from assms(2,3) obtain b where b: "pl_to_vec x st = Inr b" "pl_from_slice x b = Inr st" by (auto simp: pipeline_codec_def)
  from put_law [OF assms(1), of "pipeline_key pid" b "Some pipeline_ttl" c] obtain s' where
    put: "kv_put kv (pipeline_key pid) b (Some pipeline_ttl) c s = (Inr (), s')" "ok s'"
    "same_from (clk_inst c) (view s') ((view s)(pipeline_key pid \<mapsto> (b, Some (clk_inst c + pipeline_ttl))))" by auto
  show thesis
    by (rule that [OF b(1) put(1,2)])
      (use same_from_live [OF put(3)] b(2) in \<open>auto simp: holds_pipeline_def live_at_upd_same\<close>)
qed

lemma try_claim_wins:
  assumes "ok s" "pipeline_codec x" "holds_pipeline x (view s) (clk_inst c) pid st"
    and "live_at (view s) (clk_inst c) (pipeline_claim_key pid (ps_state_version st)) = None" "storable st"
  obtains s' where "try_claim_pipeline kv x pid (ps_state_version st) c s = (Inr True, s')" "ok s'"
    "\<And>t. clk_inst c \<le> t \<Longrightarrow> t < clk_inst c + pipeline_ttl \<Longrightarrow>
       live_at (view s') t (pipeline_claim_key pid (ps_state_version st)) \<noteq> None"
proof -
  let ?m = "pipeline_claim_key pid (ps_state_version st)"
  from get_pipeline [OF assms(1,3)] obtain e s1 where
    g: "kv_get kv (pipeline_key pid) c s = (Inr (Some e), s1)" "pl_from_slice x (ent_bytes e) = Inr st"
    "ok s1" "same_from (clk_inst c) (view s1) (view s)" by blast
  have free: "live_at (view s1) (clk_inst c) ?m = None" using assms(4) same_from_live [OF g(4) le_refl] by simp
  from put_if_absent_law [OF g(3), of ?m "pl_text x ''1''" "Some pipeline_ttl" c] free obtain s2 where
    p: "kv_put_if_absent kv ?m (pl_text x ''1'') (Some pipeline_ttl) c s1 = (Inr True, s2)" "ok s2"
    "same_from (clk_inst c) (view s2) ((view s1)(?m \<mapsto> (pl_text x ''1'', Some (clk_inst c + pipeline_ttl))))" by auto
  from put_pipeline [OF p(2) assms(2), of "st\<lparr>ps_state_version := ps_state_version st + 1\<rparr>" pid c, unfolded storable_upd, OF assms(5)] obtain b s3 where
    w: "pl_to_vec x (st\<lparr>ps_state_version := ps_state_version st + 1\<rparr>) = Inr b"
    "kv_put kv (pipeline_key pid) b (Some pipeline_ttl) c s2 = (Inr (), s3)" "ok s3"
    "\<And>t k. clk_inst c \<le> t \<Longrightarrow> k \<noteq> pipeline_key pid \<Longrightarrow> live_at (view s3) t k = live_at (view s2) t k" by metis
  have "live_at (view s3) t ?m \<noteq> None" if "clk_inst c \<le> t" "t < clk_inst c + pipeline_ttl" for t
    using w(4) [OF that(1) pipeline_key_not_claim [symmetric]] same_from_live [OF p(3) that(1)] that(2)
    by (simp add: live_at_upd_same)
  then show thesis using that [OF _ w(3)] g(1,2) p(1) w(1,2) by (simp add: try_claim_pipeline_def numeral_3_eq_3)
qed

lemma try_claim_refused:
  assumes "ok s" "holds_pipeline x (view s) (clk_inst c) pid st"
    and "ps_state_version st \<noteq> v \<or> live_at (view s) (clk_inst c) (pipeline_claim_key pid v) \<noteq> None"
  shows "fst (try_claim_pipeline kv x pid v c s) = Inr False"
proof -
  from get_pipeline [OF assms(1,2)] obtain e s1 where
    g: "kv_get kv (pipeline_key pid) c s = (Inr (Some e), s1)" "pl_from_slice x (ent_bytes e) = Inr st"
    "ok s1" "same_from (clk_inst c) (view s1) (view s)" by blast
  show ?thesis
  proof (cases "ps_state_version st = v")
    case True
    then have "live_at (view s1) (clk_inst c) (pipeline_claim_key pid v) \<noteq> None"
      using assms(3) same_from_live [OF g(4) le_refl] by simp
    with put_if_absent_law [OF g(3), of "pipeline_claim_key pid v" "pl_text x ''1''" "Some pipeline_ttl" c] obtain s2 where
      "kv_put_if_absent kv (pipeline_claim_key pid v) (pl_text x ''1'') (Some pipeline_ttl) c s1 = (Inr False, s2)" by auto
    with g True show ?thesis by (simp add: try_claim_pipeline_def numeral_3_eq_3)
  next
    case False
    with g show ?thesis by (simp add: try_claim_pipeline_def numeral_3_eq_3)
  qed
qed

lemma patch_write_law:
  assumes "ok s" "pipeline_codec x" "storable st"
  obtains s' where "patch_write kv x pid new_id st c s = (Inr True, s')" "ok s'"
    "\<And>t. clk_inst c \<le> t \<Longrightarrow> t < clk_inst c + pipeline_ttl \<Longrightarrow>
       holds_pipeline x (view s') t pid (st\<lparr>ps_original_jsonrpc_id := new_id\<rparr>)"
    "\<And>t v. clk_inst c \<le> t \<Longrightarrow> live_at (view s') t (pipeline_claim_key pid v) = live_at (view s) t (pipeline_claim_key pid v)"
proof -
  let ?st = "st\<lparr>ps_original_jsonrpc_id := new_id\<rparr>"
  let ?k = "suspended_rpc_key x (ps_session_id ?st) (pl_render x (ps_original_jsonrpc_id ?st))"
  from put_pipeline [OF assms(1,2), of ?st pid c, unfolded storable_upd, OF assms(3)] obtain b s1 where
    w: "pl_to_vec x ?st = Inr b" "kv_put kv (pipeline_key pid) b (Some pipeline_ttl) c s = (Inr (), s1)" "ok s1"
    "\<And>t. clk_inst c \<le> t \<Longrightarrow> t < clk_inst c + pipeline_ttl \<Longrightarrow> holds_pipeline x (view s1) t pid ?st"
    "\<And>t k. clk_inst c \<le> t \<Longrightarrow> k \<noteq> pipeline_key pid \<Longrightarrow> live_at (view s1) t k = live_at (view s) t k" by blast
  obtain s2 where p: "put_rpc_pointer kv x ?st c s1 = (Inr (), s2)" "ok s2"
    "\<And>t k. clk_inst c \<le> t \<Longrightarrow> k \<noteq> ?k \<Longrightarrow> live_at (view s2) t k = live_at (view s1) t k"
  proof (cases "ps_suspended_at st = None")
    case True
    with that [of s1] w(3) show thesis by (simp add: put_rpc_pointer_def)
  next
    case False
    from put_law [OF w(3), of ?k "pl_text x (ps_pipeline_id ?st)" "Some pipeline_ttl" c] obtain s2 where
      "kv_put kv ?k (pl_text x (ps_pipeline_id ?st)) (Some pipeline_ttl) c s1 = (Inr (), s2)" "ok s2"
      "same_from (clk_inst c) (view s2) ((view s1)(?k \<mapsto> (pl_text x (ps_pipeline_id ?st), deadline (Some pipeline_ttl) c)))" by blast
    with False that [of s2] show thesis by (simp add: put_rpc_pointer_def same_from_def)
  qed
  show thesis
  proof (rule that)
    show "patch_write kv x pid new_id st c s = (Inr True, s2)" using w(1,2) p(1) by (simp add: patch_write_def Let_def)
    show "holds_pipeline x (view s2) t pid ?st" if "clk_inst c \<le> t" "t < clk_inst c + pipeline_ttl" for t
      using w(4) [OF that] p(3) [OF that(1), of "pipeline_key pid"] by (simp add: holds_pipeline_def)
    show "live_at (view s2) t (pipeline_claim_key pid v) = live_at (view s) t (pipeline_claim_key pid v)" if "clk_inst c \<le> t" for t v
      using w(5) [OF that, of "pipeline_claim_key pid v"] p(3) [OF that, of "pipeline_claim_key pid v"]
        pipeline_key_not_claim [of pid pid v] by simp
  qed (rule p(2))
qed

end

text \<open>
  C36.  \<open>set_original_jsonrpc_id_if_version\<close> can undo a claim.  It reads the row at version \<open>v\<close>; another
  replica claims \<open>v\<close> and moves the row to \<open>v + 1\<close>; then the patch writes what it read, and the row is at
  \<open>v\<close> again.  While the claim's marker lives the pipeline can be claimed at neither version.
\<close>

theorem patch_rewinds_claim:
  assumes "kv_store kv view ok" "pipeline_codec x" "ok s"
    and "holds_pipeline x (view s) (clk_inst c0) pid st" "holds_pipeline x (view s) (clk_inst c1) pid st"
    and "live_at (view s) (clk_inst c1) (pipeline_claim_key pid (ps_state_version st)) = None"
    and "sorted [clk_inst c0, clk_inst c1, clk_inst c2, clk_inst c3]" "clk_inst c3 < clk_inst c1 + pipeline_ttl"
    and "storable st"
  shows "\<exists>s1 s2 s3 s4. patch_read kv x pid (ps_state_version st) c0 s = (Inr (Some st), s1) \<and>
    try_claim_pipeline kv x pid (ps_state_version st) c1 s1 = (Inr True, s2) \<and>
    patch_write kv x pid new_id st c2 s2 = (Inr True, s3) \<and>
    load_pipeline kv x pid c3 s3 = (Inr (Some (st\<lparr>ps_original_jsonrpc_id := new_id\<rparr>)), s4) \<and>
    fst (try_claim_pipeline kv x pid (ps_state_version st) c3 s3) = Inr False \<and>
    fst (try_claim_pipeline kv x pid (ps_state_version st + 1) c3 s3) = Inr False"
proof -
  let ?v = "ps_state_version st" and ?st = "st\<lparr>ps_original_jsonrpc_id := new_id\<rparr>"
  note laws = assms(1)
  have times: "clk_inst c0 \<le> clk_inst c1" "clk_inst c1 \<le> clk_inst c2" "clk_inst c2 \<le> clk_inst c3" using assms(7) by auto
  obtain e s1 where r: "kv_get kv (pipeline_key pid) c0 s = (Inr (Some e), s1)" "pl_from_slice x (ent_bytes e) = Inr st"
    "ok s1" "same_from (clk_inst c0) (view s1) (view s)" by (rule kv_store.get_pipeline [OF laws assms(3,4)])
  have h1: "holds_pipeline x (view s1) (clk_inst c1) pid st"
    and free: "live_at (view s1) (clk_inst c1) (pipeline_claim_key pid ?v) = None"
    using assms(5,6) same_from_live [OF r(4) times(1)] by (simp_all add: holds_pipeline_def)
  obtain s2 where cl: "try_claim_pipeline kv x pid ?v c1 s1 = (Inr True, s2)" "ok s2"
    "\<And>t. clk_inst c1 \<le> t \<Longrightarrow> t < clk_inst c1 + pipeline_ttl \<Longrightarrow> live_at (view s2) t (pipeline_claim_key pid ?v) \<noteq> None"
    using kv_store.try_claim_wins [OF laws r(3) assms(2) h1 free assms(9)] by metis
  obtain s3 where w: "patch_write kv x pid new_id st c2 s2 = (Inr True, s3)" "ok s3"
    "\<And>t. clk_inst c2 \<le> t \<Longrightarrow> t < clk_inst c2 + pipeline_ttl \<Longrightarrow> holds_pipeline x (view s3) t pid ?st"
    "\<And>t v. clk_inst c2 \<le> t \<Longrightarrow> live_at (view s3) t (pipeline_claim_key pid v) = live_at (view s2) t (pipeline_claim_key pid v)"
    using kv_store.patch_write_law [OF laws cl(2) assms(2,9), of pid new_id c2] by metis
  have h3: "holds_pipeline x (view s3) (clk_inst c3) pid ?st" using w(3) times assms(8) by simp
  have marked: "live_at (view s3) (clk_inst c3) (pipeline_claim_key pid ?v) \<noteq> None"
    using w(4) [OF times(3)] cl(3) [of "clk_inst c3"] times assms(8) by simp
  obtain e' s4 where l: "kv_get kv (pipeline_key pid) c3 s3 = (Inr (Some e'), s4)" "pl_from_slice x (ent_bytes e') = Inr ?st"
    by (rule kv_store.get_pipeline [OF laws w(2) h3])
  have "patch_read kv x pid ?v c0 s = (Inr (Some st), s1)" "load_pipeline kv x pid c3 s3 = (Inr (Some ?st), s4)"
    using r(1,2) l by (simp_all add: patch_read_def load_pipeline_def)
  moreover have "fst (try_claim_pipeline kv x pid u c3 s3) = Inr False" if "u = ?v \<or> u = ?v + 1" for u
    by (rule kv_store.try_claim_refused [OF laws w(2) h3]) (use that marked in auto)
  ultimately show ?thesis using cl(1) w(1) by blast
qed

section \<open>Sweeps under skewed clocks\<close>

lemma elapsed_u64_negative:
  assumes "now + 1000000 \<le> created" "(created - now) div 1000000 \<le> 2 ^ 63"
  shows "2 ^ 63 \<le> elapsed_u64 now created"
proof -
  let ?d = "(created - now) div 1000000"
  have "1 \<le> ?d" using assms(1) by linarith
  have d: "int ?d \<le> 2 ^ 63" using assms(2) by (metis of_nat_le_iff of_nat_numeral of_nat_power)
  moreover have "1 \<le> int ?d" using \<open>1 \<le> ?d\<close> by linarith
  ultimately have d: "int ?d \<le> 2 ^ 63" "1 \<le> int ?d" by blast+
  have "num_milliseconds now created mod 2 ^ 64 = 2 ^ 64 - int ?d"
    using assms(1) d by (simp add: num_milliseconds_def zmod_zminus1_eq_if)
  moreover have "(2::int) ^ 63 \<le> 2 ^ 64 - int ?d" using d(1) by simp
  ultimately have "nat (2 ^ 63) \<le> elapsed_u64 now created" unfolding elapsed_u64_def by (intro nat_mono) simp
  then show ?thesis by (simp add: nat_power_eq)
qed

text \<open>
  The sweep of expired pipelines reports one that was just created when the sweeping replica's wall clock
  is a millisecond or more behind the creating replica's: the negative age is cast to an unsigned number and
  exceeds every timeout up to 2 to the 63 ms.
\<close>

theorem skewed_clock_expires_pipeline:
  assumes "kv_listing kv view ok la" "ok s" "holds_pipeline x (view s) (clk_inst c) pid st"
    and "clk_utc c + 1000000 \<le> ps_created_at st" "(ps_created_at st - clk_utc c) div 1000000 \<le> 2 ^ 63"
    and "ps_pipeline_timeout_ms st \<le> 2 ^ 63"
  shows "\<exists>ids s'. list_expired_pipelines kv x la c s = (Inr ids, s') \<and> ps_pipeline_id st \<in> set ids"
proof -
  from assms(3) obtain b d where row: "live_at (view s) (clk_inst c) (pipeline_key pid) = Some (b, d)" "pl_from_slice x b = Inr st"
    by (auto simp: holds_pipeline_def)
  from kv_listing.list_all_law [OF assms(1,2), of "''pipeline:''" c] obtain rows s' where
    la: "la kv ''pipeline:'' c s = (Inr rows, s')"
    and sound: "\<forall>(k, e) \<in> set rows. \<exists>d. live_at (view s) (clk_inst c) k = Some (ent_bytes e, d)"
    and all: "{k. prefix ''pipeline:'' k \<and> live_at (view s) (clk_inst c) k \<noteq> None} \<subseteq> fst ` set rows" by blast
  have "pipeline_key pid \<in> fst ` set rows" using all row(1) by (auto simp: pipeline_key_def)
  then obtain e where e: "(pipeline_key pid, e) \<in> set rows" by force
  with sound row(1) have "ent_bytes e = b" by fastforce
  with e row(2) have "st \<in> set (List.map_filter (\<lambda>(_, v). case pl_from_slice x (ent_bytes v) of Inl _ \<Rightarrow> None | Inr st \<Rightarrow> Some st) rows)"
    by (force simp: map_filter_def image_iff)
  moreover have "ps_pipeline_timeout_ms st \<le> elapsed_u64 (clk_utc c) (ps_created_at st)"
    using elapsed_u64_negative [OF assms(4,5)] assms(6) by simp
  ultimately show ?thesis using la by (force simp: list_expired_pipelines_def all_pipelines_def)
qed

section \<open>Witnesses\<close>

text \<open>Payloads that keep what was serialised.\<close>

datatype pipeline_payload =
    PState pipeline_state
  | PRequest pending_server_request
  | PDelivery delivery_message
  | PText string
  | PCount int

definition sample_px :: "pipeline_payload pipeline_ext" where
  "sample_px = \<lparr>pl_to_vec = (\<lambda>st. Inr (PState (persisted st))),
     pl_from_slice = (\<lambda>v. case v of PState st \<Rightarrow> Inr st | _ \<Rightarrow> Inl ''expected a pipeline''),
     pl_request_to_vec = (\<lambda>r. Inr (PRequest r)),
     pl_request_from_slice = (\<lambda>v. case v of PRequest r \<Rightarrow> Inr r | _ \<Rightarrow> Inl ''expected a request''),
     pl_delivery_to_vec = (\<lambda>m. Inr (PDelivery m)),
     pl_delivery_from_slice = (\<lambda>v. case v of PDelivery m \<Rightarrow> Inr m | _ \<Rightarrow> Inl ''expected a delivery''),
     pl_text = PText, pl_utf8_lossy = (\<lambda>v. case v of PText t \<Rightarrow> t | _ \<Rightarrow> []),
     pl_render = (\<lambda>_. ''1''), pl_b64 = id, pl_internal = id\<rparr>"

definition pipeline_lib :: "pipeline_payload cluster_lib" where
  "pipeline_lib = \<lparr>cl_parse_counter = (\<lambda>v. case v of PCount n \<Rightarrow> Inr n | _ \<Rightarrow> Inl ''not a counter''), cl_counter_bytes = PCount,
     cl_counter_overflow = ''overflow'', cl_floor_add = (\<lambda>n fl d. Inr (max n fl + d)),
     cl_from_unordered = (\<lambda>xs p cu n. \<lparr>page_entries = take n xs, page_next = None\<rparr>)\<rparr>"

abbreviation pipeline_mem :: "(pipeline_payload memory, pipeline_payload) kv_ops" where
  "pipeline_mem \<equiv> memory_kv pipeline_lib"

lemma sample_px_codecs [simp]: "delivery_codec sample_px" "pipeline_codec sample_px"
  by (auto simp: delivery_codec_def pipeline_codec_def sample_px_def persisted_storable) (simp_all add: persisted_def)

lemma pipeline_lib_counting [simp]: "counting_ok pipeline_lib m = memory_ok m"
  by (simp add: counting_ok_def counter_lib_def floor_lib_def pipeline_lib_def)

definition sample_context :: request_context where
  "sample_context = \<lparr>rc_request_id = ''p1'', rc_upstream_request_id = None, rc_session_id = Some ''s1'', rc_resume_cursor = None,
     rc_identity = Anonymous ''test'', rc_transport = HttpTransport, rc_started_at = 0, rc_negotiated_version = V_2025_11_25,
     rc_trace_context = None, rc_modern_request_capabilities = None, rc_inbound_bearer = None, rc_session_ephemeral = False,
     rc_personal_agent = None, rc_pap_operation = None, rc_client_ip = None, rc_client = None\<rparr>"

definition sample_pipeline :: "nat \<Rightarrow> pipeline_state" where
  "sample_pipeline created = \<lparr>ps_pipeline_id = ''p1'', ps_session_id = ''s1'', ps_original_jsonrpc_id = JNull,
     ps_tool_name = ''deploy'', ps_steps = [], ps_current_step_index = 1, ps_completed_steps = [], ps_original_args = JNull,
     ps_request_context = sample_context, ps_created_at = created, ps_suspended_at = Some created, ps_pipeline_timeout_ms = 60000,
     ps_pending_server_request_id = None, ps_elicitation_timeout_ms = None, ps_related_task_id = None,
     ps_client_capabilities = JNull, ps_state_version = 1, ps_surface = ToolSurface\<rparr>"

lemma sample_pipeline_fields [simp]:
  "ps_pipeline_id (sample_pipeline t) = ''p1''" "ps_created_at (sample_pipeline t) = t"
  "ps_pipeline_timeout_ms (sample_pipeline t) = 60000" "ps_state_version (sample_pipeline t) = 1" "storable (sample_pipeline t)"
  by (simp_all add: sample_pipeline_def sample_context_def storable_def)

definition pipeline_rows :: "nat \<Rightarrow> pipeline_payload memory" where
  "pipeline_rows created =
     [(''pipeline:p1'', \<lparr>se_bytes = PState (sample_pipeline created), se_expires_system = None,
        se_expires_instant = Some (from_millis 1000)\<rparr>)]"

lemma pipeline_rows_ok [simp]: "memory_ok (pipeline_rows created)"
  by (simp add: pipeline_rows_def memory_ok_def)

lemma pipeline_rows_hold [simp]:
  "t < from_millis 1000 \<Longrightarrow> holds_pipeline sample_px (memory_view (pipeline_rows created)) t ''p1'' (sample_pipeline created)"
  by (simp add: holds_pipeline_def live_memory_view pipeline_rows_def pipeline_key_def is_expired_def sample_px_def)

lemma pipeline_rows_unclaimed [simp]:
  "live_at (memory_view (pipeline_rows created)) t (pipeline_claim_key ''p1'' v) = None"
  by (simp add: live_memory_view pipeline_rows_def pipeline_claim_key_def)

theorem patch_rewinds_claim_witness:
  "\<exists>s1 s2 s3. patch_read pipeline_mem sample_px ''p1'' 1 (at_ms 2) (pipeline_rows 0) = (Inr (Some (sample_pipeline 0)), s1) \<and>
    try_claim_pipeline pipeline_mem sample_px ''p1'' 1 (at_ms 3) s1 = (Inr True, s2) \<and>
    patch_write pipeline_mem sample_px ''p1'' (JStr ''7'') (sample_pipeline 0) (at_ms 4) s2 = (Inr True, s3) \<and>
    fst (try_claim_pipeline pipeline_mem sample_px ''p1'' 1 (at_ms 5) s3) = Inr False \<and>
    fst (try_claim_pipeline pipeline_mem sample_px ''p1'' 2 (at_ms 5) s3) = Inr False"
proof -
  have v: "ps_state_version (sample_pipeline 0) = 1" by simp
  have "\<exists>s1 s2 s3 s4. patch_read pipeline_mem sample_px ''p1'' (ps_state_version (sample_pipeline 0)) (at_ms 2) (pipeline_rows 0) =
      (Inr (Some (sample_pipeline 0)), s1) \<and>
    try_claim_pipeline pipeline_mem sample_px ''p1'' (ps_state_version (sample_pipeline 0)) (at_ms 3) s1 = (Inr True, s2) \<and>
    patch_write pipeline_mem sample_px ''p1'' (JStr ''7'') (sample_pipeline 0) (at_ms 4) s2 = (Inr True, s3) \<and>
    load_pipeline pipeline_mem sample_px ''p1'' (at_ms 5) s3 = (Inr (Some ((sample_pipeline 0)\<lparr>ps_original_jsonrpc_id := JStr ''7''\<rparr>)), s4) \<and>
    fst (try_claim_pipeline pipeline_mem sample_px ''p1'' (ps_state_version (sample_pipeline 0)) (at_ms 5) s3) = Inr False \<and>
    fst (try_claim_pipeline pipeline_mem sample_px ''p1'' (ps_state_version (sample_pipeline 0) + 1) (at_ms 5) s3) = Inr False"
    by (rule patch_rewinds_claim [OF mem.kv_store_axioms])
      (simp_all add: at_ms_def from_millis_def pipeline_ttl_def from_secs_def)
  then show ?thesis unfolding v one_add_one by blast
qed

theorem skewed_clock_expires_pipeline_witness:
  "\<exists>ids s'. list_expired_pipelines pipeline_mem sample_px memory_list_all (at_ms 5) (pipeline_rows (from_millis 6)) = (Inr ids, s')
     \<and> ''p1'' \<in> set ids"
proof -
  have "\<exists>ids s'. list_expired_pipelines pipeline_mem sample_px memory_list_all (at_ms 5) (pipeline_rows (from_millis 6)) = (Inr ids, s')
     \<and> ps_pipeline_id (sample_pipeline (from_millis 6)) \<in> set ids"
    by (rule skewed_clock_expires_pipeline [OF mem_all.kv_listing_axioms, where pid = "''p1''"])
      (simp_all add: at_ms_def from_millis_def)
  then show ?thesis by simp
qed

definition sample_message :: "string \<Rightarrow> delivery_message" where
  "sample_message t = \<lparr>dm_kind = Notification, dm_jsonrpc_message = JStr t, dm_delivery_id = []\<rparr>"

theorem reconnect_replays_unacknowledged_witness:
  "\<exists>a b st1 s2 st3 st4.
    store_deliveries pipeline_mem sample_px ''s1''
      [(''u1'', sample_message ''one'', at_ms 2), (''u2'', sample_message ''two'', at_ms 3)]
      \<lparr>pst_kv = [], pst_sessions_with_pending = {}\<rparr> = ([Inr a, Inr b], st1) \<and>
    ack_prune_deliveries pipeline_mem ''s1'' a (at_ms 4) (pst_kv st1) = (Inr (), s2) \<and>
    take_pending_deliveries_scan pipeline_mem sample_px ''s1'' (at_ms 5) \<lparr>pst_kv = s2, pst_sessions_with_pending = {}\<rparr> =
      (Inr [(sample_message ''two'')\<lparr>dm_delivery_id := b\<rparr>], st3) \<and>
    take_pending_deliveries_scan pipeline_mem sample_px ''s1'' (at_ms 6) st3 = (Inr [], st4)"
proof -
  let ?sends = "[(''u1'', sample_message ''one'', at_ms 2), (''u2'', sample_message ''two'', at_ms 3)] :: send list"
  let ?st = "\<lparr>pst_kv = [], pst_sessions_with_pending = {}\<rparr> :: pipeline_payload memory pipeline_store"
  have "\<exists>ids st1 s2 st3 st4. store_deliveries pipeline_mem sample_px ''s1'' ?sends ?st = (map Inr ids, st1) \<and>
    length ids = length ?sends \<and>
    ack_prune_deliveries pipeline_mem ''s1'' (ids ! 0) (at_ms 4) (pst_kv st1) = (Inr (), s2) \<and>
    take_pending_deliveries_scan pipeline_mem sample_px ''s1'' (at_ms 5) \<lparr>pst_kv = s2, pst_sessions_with_pending = {}\<rparr> =
      (Inr (map2 (\<lambda>did msg. msg\<lparr>dm_delivery_id := did\<rparr>) (drop (Suc 0) ids) (drop (Suc 0) (map (fst \<circ> snd) ?sends))), st3) \<and>
    take_pending_deliveries_scan pipeline_mem sample_px ''s1'' (at_ms 6) st3 = (Inr [], st4)"
    by (rule reconnect_replays_unacknowledged [OF mem_counting.kv_counters_axioms, where now = 0 and stop = "from_millis 9" and n = 0])
      (simp_all add: backlog_def in_order_def row_count_def live_memory_view memory_ok_def at_ms_def from_millis_def
        delivery_ttl_def from_secs_def fits_i64_def)
  then obtain ids st1 s2 st3 st4 where run: "store_deliveries pipeline_mem sample_px ''s1'' ?sends ?st = (map Inr ids, st1)"
    "length ids = 2" "ack_prune_deliveries pipeline_mem ''s1'' (ids ! 0) (at_ms 4) (pst_kv st1) = (Inr (), s2)"
    "take_pending_deliveries_scan pipeline_mem sample_px ''s1'' (at_ms 5) \<lparr>pst_kv = s2, pst_sessions_with_pending = {}\<rparr> =
      (Inr (map2 (\<lambda>did msg. msg\<lparr>dm_delivery_id := did\<rparr>) (drop (Suc 0) ids) [sample_message ''two'']), st3)"
    "take_pending_deliveries_scan pipeline_mem sample_px ''s1'' (at_ms 6) st3 = (Inr [], st4)"
    by auto
  from run(2) obtain a b where "ids = [a, b]" by (auto simp: numeral_2_eq_2 length_Suc_conv)
  with run have ab: "store_deliveries pipeline_mem sample_px ''s1'' ?sends ?st = ([Inr a, Inr b], st1)"
    "ack_prune_deliveries pipeline_mem ''s1'' a (at_ms 4) (pst_kv st1) = (Inr (), s2)"
    "take_pending_deliveries_scan pipeline_mem sample_px ''s1'' (at_ms 5) \<lparr>pst_kv = s2, pst_sessions_with_pending = {}\<rparr> =
      (Inr [(sample_message ''two'')\<lparr>dm_delivery_id := b\<rparr>], st3)"
    by simp_all
  from ab run(5) show ?thesis by blast
qed

theorem pipeline_version_claimed_once_witness:
  "\<exists>s pcs. claim_race pipeline_mem memory_view memory_ok sample_px ''p1'' 1 s pcs [(0, from_millis 4)] (from_millis 5) \<and>
    pcs 1 = ClaimDone (Inr False) \<and> pcs 0 = ClaimBump (sample_pipeline 0) \<and>
    sorted_wrt (\<lambda>(_, t) (_, t'). t + pipeline_ttl \<le> t') [(0::nat, from_millis 4)]"
proof -
  let ?race = "claim_race pipeline_mem memory_view memory_ok sample_px ''p1'' 1"
  let ?read = "ClaimMark (sample_pipeline 0)"
  have rd: "claim_step pipeline_mem sample_px ''p1'' 1 ClaimRead (at_ms t) (pipeline_rows 0) = (?read, pipeline_rows 0)"
    if "t < 1000" for t
    using that by (simp add: memory_op_defs pipeline_rows_def pipeline_key_def sample_px_def is_expired_def at_ms_def from_millis_def)
  obtain s where mk: "claim_step pipeline_mem sample_px ''p1'' 1 ?read (at_ms 4) (pipeline_rows 0) = (ClaimBump (sample_pipeline 0), s)"
    "claim_step pipeline_mem sample_px ''p1'' 1 ?read (at_ms 5) s = (ClaimDone (Inr False), s)"
    by (simp add: memory_op_defs pipeline_rows_def pipeline_claim_key_def is_expired_def at_ms_def from_millis_def
        pipeline_ttl_def from_secs_def)
  have "?race (pipeline_rows 0) (\<lambda>_. ClaimRead) [] 0" by (rule claim_race.start) simp
  from claim_race.step [OF this, where c = "at_ms 2" and i = 0] rd [of 2]
  have "?race (pipeline_rows 0) ((\<lambda>_. ClaimRead)(0 := ?read)) [] (from_millis 2)" by (simp add: takes_marker_def at_ms_def)
  from claim_race.step [OF this, where c = "at_ms 3" and i = 1] rd [of 3]
  have "?race (pipeline_rows 0) ((\<lambda>_. ClaimRead)(0 := ?read, 1 := ?read)) [] (from_millis 3)"
    by (simp add: takes_marker_def at_ms_def from_millis_def)
  from claim_race.step [OF this, where c = "at_ms 4" and i = 0] mk(1)
  have "?race s ((\<lambda>_. ClaimRead)(1 := ?read, 0 := ClaimBump (sample_pipeline 0))) [(0, from_millis 4)] (from_millis 4)"
    by (simp add: takes_marker_def at_ms_def from_millis_def fun_upd_twist)
  from claim_race.step [OF this, where c = "at_ms 5" and i = 1] mk(2)
  have "?race s ((\<lambda>_. ClaimRead)(0 := ClaimBump (sample_pipeline 0), 1 := ClaimDone (Inr False))) [(0, from_millis 4)] (from_millis 5)"
    by (simp add: takes_marker_def at_ms_def from_millis_def fun_upd_twist)
  with pipeline_version_claimed_once [OF mem.kv_store_axioms this] show ?thesis
    by (intro exI conjI) (assumption, simp_all)
qed

end
