(* ===== verification/Engine_Properties.thy ===== *)
theory Engine_Properties
  imports Pipeline_Engine Pipeline_Properties
begin

text \<open>
  Correctness of the pipeline interpreter: what a suspended run leaves in the store, that the two paths through the
  interpreter agree on pipelines that never suspend, and what a resumption answers.
\<close>

section \<open>Stores the interpreter runs on\<close>

text \<open>
  The interpreter buffers notifications between steps, which counts in the store; whatever a counter's row holds,
  an increment leaves the store in order and touches no other row.
\<close>

locale kv_buffering = kv_store kv view ok for kv :: "('s, 'v) kv_ops" and view ok +
  assumes incr_keeps: "ok s \<Longrightarrow> ok (snd (kv_incr kv k d ttl c s)) \<and>
    (\<forall>t \<ge> clk_inst c. \<forall>k'. k' \<noteq> k \<longrightarrow> live_at (view (snd (kv_incr kv k d ttl c s))) t k' = live_at (view s) t k')"

interpretation mem_buffering: kv_buffering "memory_kv lib" memory_view memory_ok for lib
proof unfold_locales
  fix s k d ttl c assume "memory_ok (s :: 'a memory)"
  then show "memory_ok (snd (kv_incr (memory_kv lib) k d ttl c s)) \<and>
    (\<forall>t \<ge> clk_inst c. \<forall>k'. k' \<noteq> k \<longrightarrow>
       live_at (memory_view (snd (kv_incr (memory_kv lib) k d ttl c s))) t k' = live_at (memory_view s) t k')"
    by (auto simp: memory_kv_def memory_incr_def update_counter_def Let_def live_memory_view update_conv'
        split: option.splits sum.splits)
qed

definition request_codec :: "'v pipeline_ext \<Rightarrow> bool" where
  "request_codec x \<longleftrightarrow> (\<forall>rq. \<exists>b. pl_request_to_vec x rq = Inr b \<and> pl_request_from_slice x b = Inr rq)"

definition holds_request :: "'v pipeline_ext \<Rightarrow> 'v rows \<Rightarrow> nat \<Rightarrow> string \<Rightarrow> pending_server_request \<Rightarrow> bool" where
  "holds_request x m t rid rq \<longleftrightarrow> (\<exists>b d. live_at m t (pending_req_key rid) = Some (b, d) \<and> pl_request_from_slice x b = Inr rq)"

lemma request_key_apart [simp]:
  "pipeline_key pid \<noteq> pending_req_key rid" "pending_req_key rid \<noteq> pipeline_key pid"
  "pending_req_key rid \<noteq> suspended_rpc_key x session i" "pending_req_key rid \<noteq> pipeline_claim_key pid v"
  "pending_req_key rid = pending_req_key rid' \<longleftrightarrow> rid = rid'"
  by (simp_all add: pipeline_key_def pending_req_key_def suspended_rpc_key_def pipeline_claim_key_def)

context kv_store
begin

lemma put_rpc_pointer_law:
  assumes "ok s"
  obtains s' where "put_rpc_pointer kv x st c s = (Inr (), s')" "ok s'"
    "\<And>t k. clk_inst c \<le> t \<Longrightarrow> k \<noteq> suspended_rpc_key x (ps_session_id st) (pl_render x (ps_original_jsonrpc_id st)) \<Longrightarrow>
       live_at (view s') t k = live_at (view s) t k"
proof (cases "ps_suspended_at st = None")
  case True
  with assms that [of s] show thesis by (simp add: put_rpc_pointer_def)
next
  case False
  let ?k = "suspended_rpc_key x (ps_session_id st) (pl_render x (ps_original_jsonrpc_id st))"
  from put_law [OF assms, of ?k "pl_text x (ps_pipeline_id st)" "Some pipeline_ttl" c] obtain s' where
    "kv_put kv ?k (pl_text x (ps_pipeline_id st)) (Some pipeline_ttl) c s = (Inr (), s')" "ok s'"
    "same_from (clk_inst c) (view s') ((view s)(?k \<mapsto> (pl_text x (ps_pipeline_id st), deadline (Some pipeline_ttl) c)))" by blast
  with False that [of s'] show thesis by (simp add: put_rpc_pointer_def same_from_def)
qed

lemma save_pipeline_law:
  assumes "ok s" "pipeline_codec x" "list_all parsed_step (ps_steps st)"
  obtains s' where "save_pipeline kv x st c s = (Inr (), s')" "ok s'"
    "\<And>t. clk_inst c \<le> t \<Longrightarrow> t < clk_inst c + pipeline_ttl \<Longrightarrow> holds_pipeline x (view s') t (ps_pipeline_id st) (persisted st)"
    "\<And>t rid. clk_inst c \<le> t \<Longrightarrow> live_at (view s') t (pending_req_key rid) = live_at (view s) t (pending_req_key rid)"
proof -
  have same: "pl_to_vec x st = pl_to_vec x (persisted st)" using assms(2) unfolding pipeline_codec_def by blast
  from put_pipeline [OF assms(1,2) storable_persisted [OF assms(3)], of "ps_pipeline_id st" c] obtain b s1 where
    w: "pl_to_vec x (persisted st) = Inr b" "kv_put kv (pipeline_key (ps_pipeline_id st)) b (Some pipeline_ttl) c s = (Inr (), s1)" "ok s1"
    "\<And>t. clk_inst c \<le> t \<Longrightarrow> t < clk_inst c + pipeline_ttl \<Longrightarrow> holds_pipeline x (view s1) t (ps_pipeline_id st) (persisted st)"
    "\<And>t k. clk_inst c \<le> t \<Longrightarrow> k \<noteq> pipeline_key (ps_pipeline_id st) \<Longrightarrow> live_at (view s1) t k = live_at (view s) t k" by blast
  from put_rpc_pointer_law [OF w(3), of x st c] obtain s2 where p: "put_rpc_pointer kv x st c s1 = (Inr (), s2)" "ok s2"
    "\<And>t k. clk_inst c \<le> t \<Longrightarrow> k \<noteq> suspended_rpc_key x (ps_session_id st) (pl_render x (ps_original_jsonrpc_id st)) \<Longrightarrow>
       live_at (view s2) t k = live_at (view s1) t k" by blast
  show thesis
  proof (rule that [of s2])
    show "save_pipeline kv x st c s = (Inr (), s2)" using same w(1,2) p(1) by (simp add: save_pipeline_def)
    show "holds_pipeline x (view s2) t (ps_pipeline_id st) (persisted st)" if "clk_inst c \<le> t" "t < clk_inst c + pipeline_ttl" for t
      using w(4) [OF that] p(3) [OF that(1), of "pipeline_key (ps_pipeline_id st)"] by (simp add: holds_pipeline_def)
    show "live_at (view s2) t (pending_req_key rid) = live_at (view s) t (pending_req_key rid)" if "clk_inst c \<le> t" for t rid
      using w(5) [OF that, of "pending_req_key rid"] p(3) [OF that, of "pending_req_key rid"] by simp
  qed (rule p(2))
qed

lemma save_request_law:
  assumes "ok s" "request_codec x"
  obtains s' where "save_pending_server_request kv x rq c s = (Inr (), s')" "ok s'"
    "\<And>t. clk_inst c \<le> t \<Longrightarrow> t < clk_inst c + pending_request_ttl \<Longrightarrow> holds_request x (view s') t (psr_server_request_id rq) rq"
    "\<And>t k. clk_inst c \<le> t \<Longrightarrow> k \<noteq> pending_req_key (psr_server_request_id rq) \<Longrightarrow> live_at (view s') t k = live_at (view s) t k"
proof -
  from assms(2) obtain b where b: "pl_request_to_vec x rq = Inr b" "pl_request_from_slice x b = Inr rq"
    unfolding request_codec_def by blast
  let ?k = "pending_req_key (psr_server_request_id rq)"
  from put_law [OF assms(1), of ?k b "Some pending_request_ttl" c] obtain s' where
    put: "kv_put kv ?k b (Some pending_request_ttl) c s = (Inr (), s')" "ok s'"
    "same_from (clk_inst c) (view s') ((view s)(?k \<mapsto> (b, Some (clk_inst c + pending_request_ttl))))" by auto
  show thesis
    by (rule that [OF _ put(2)])
      (use same_from_live [OF put(3)] b put(1) in \<open>auto simp: holds_request_def live_at_upd_same save_pending_server_request_def\<close>)
qed

lemma load_pipeline_law:
  assumes "ok s" "holds_pipeline x (view s) (clk_inst c) pid st"
  obtains s' where "load_pipeline kv x pid c s = (Inr (Some st), s')" "ok s'" "same_from (clk_inst c) (view s') (view s)"
  using get_pipeline [OF assms] that by (fastforce simp: load_pipeline_def)

lemma load_request_law:
  assumes "ok s" "holds_request x (view s) (clk_inst c) rid rq"
  obtains s' where "load_pending_server_request kv x rid c s = (Inr (Some rq), s')" "ok s'" "same_from (clk_inst c) (view s') (view s)"
proof -
  from assms(2) obtain b d where row: "live_at (view s) (clk_inst c) (pending_req_key rid) = Some (b, d)" "pl_request_from_slice x b = Inr rq"
    by (auto simp: holds_request_def)
  show thesis
    using get_cases [OF assms(1), of "pending_req_key rid" c] row that by (fastforce simp: load_pending_server_request_def)
qed

end

section \<open>The interpreter on such a store\<close>

locale engine_on_store = kv_buffering "en_kv en" view ok
  for en :: "('w, 's, 'v) engine" and view :: "'s \<Rightarrow> 'v rows" and ok +
  assumes pipelines_read_back: "pipeline_codec (en_px en)" and requests_read_back: "request_codec (en_px en)"

text \<open>The fields of a pipeline that a run leaves alone.\<close>

definition same_pipeline :: "pipeline_state \<Rightarrow> pipeline_state \<Rightarrow> bool" where
  "same_pipeline st st' \<longleftrightarrow> st' = st\<lparr>ps_completed_steps := ps_completed_steps st', ps_current_step_index := ps_current_step_index st'\<rparr>"

text \<open>Exactly the steps before the current one have results, in their order.\<close>

definition on_track :: "pipeline_state \<Rightarrow> bool" where
  "on_track st \<longleftrightarrow> ps_current_step_index st \<le> length (ps_steps st) \<and>
     map fst (ps_completed_steps st) = map step_id (take (ps_current_step_index st) (ps_steps st))"

lemma same_pipeline_refl [simp]: "same_pipeline st st"
  by (simp add: same_pipeline_def)

lemma same_pipeline_trans: "same_pipeline st st' \<Longrightarrow> same_pipeline st' st'' \<Longrightarrow> same_pipeline st st''"
  unfolding same_pipeline_def by (cases st; cases st'; cases st'') auto

lemma same_pipeline_record [simp]: "same_pipeline st (record_step sid r st)"
  by (simp add: same_pipeline_def record_step_def)

lemma same_pipeline_fields:
  assumes "same_pipeline st st'"
  shows "ps_steps st' = ps_steps st" "ps_pipeline_id st' = ps_pipeline_id st" "ps_state_version st' = ps_state_version st"
    "ps_request_context st' = ps_request_context st" "ps_session_id st' = ps_session_id st"
    "ps_client_capabilities st' = ps_client_capabilities st" "ps_original_args st' = ps_original_args st"
    "ps_tool_name st' = ps_tool_name st"
  using assms unfolding same_pipeline_def by (cases st; cases st'; auto)+

lemma record_step_on_track:
  assumes "on_track st" "distinct (map step_id (ps_steps st))" "ps_current_step_index st < length (ps_steps st)"
  shows "on_track (record_step (step_id (ps_steps st ! ps_current_step_index st)) r st)"
proof -
  let ?i = "ps_current_step_index st" and ?ids = "map step_id (ps_steps st)"
  have "?ids ! ?i \<notin> set (take ?i ?ids)"
    using assms(2,3) distinct_take [of ?ids "Suc ?i"] by (simp add: take_Suc_conv_app_nth)
  then have "step_id (ps_steps st ! ?i) \<notin> fst ` set (ps_completed_steps st)"
    using assms(1,3) unfolding on_track_def by (metis image_set nth_map take_map)
  with assms(1,3) show ?thesis
    by (simp add: on_track_def record_step_def update_fresh take_Suc_conv_app_nth)
qed

lemma turn_on_track:
  assumes "pipeline_turn en profile rq st eg = (NextStep st' out, eg')"
  obtains r where "st' = record_step (step_id (ps_steps st ! ps_current_step_index st)) r st"
  using assms
  by (auto simp: pipeline_turn_def plain_turn_def suspend_gather_def Let_def
      split: if_splits option.splits pipeline_step.splits sum.splits prod.splits step_outcome.splits)

context engine_on_store
begin

abbreviation store_ok :: "('w, 's) engine_state \<Rightarrow> bool" where
  "store_ok eg \<equiv> ok (pst_kv (eg_store eg))"

lemma in_world_store [simp]: "eg_store (snd (in_world f eg)) = eg_store eg"
  by (simp add: in_world_def case_prod_unfold Let_def)

lemma store_pending_delivery_ok:
  assumes "ok (pst_kv st)"
  shows "ok (pst_kv (snd (store_pending_delivery (en_kv en) x u session_id message c st)))"
proof (cases "pl_delivery_to_vec x message")
  case (Inr bytes)
  let ?k = "delivery_seq_key session_id"
  obtain r s1 where i: "kv_incr (en_kv en) ?k 1 (Some delivery_ttl) c (pst_kv st) = (r, s1)" by fastforce
  with incr_keeps [OF assms, of ?k 1 "Some delivery_ttl" c] have "ok s1" by simp
  then have "ok (snd (kv_put (en_kv en) k v ttl c s1))" for k v ttl using put_law [of s1 k v ttl c] by auto
  with i Inr \<open>ok s1\<close> show ?thesis
    by (auto simp: store_pending_delivery_def Let_def split: sum.splits prod.splits) (metis snd_conv)+
qed (use assms in \<open>simp add: store_pending_delivery_def Let_def\<close>)

lemma buffer_and_publish_ok [simp]: "store_ok eg \<Longrightarrow> store_ok (buffer_and_publish en session_id message eg)"
  by (simp add: buffer_and_publish_def case_prod_unfold Let_def store_pending_delivery_ok)

lemma execute_step_ok: "store_ok eg \<Longrightarrow> store_ok (snd (execute_step en profile session_id rq ctx step step_input eg))"
  by (cases step)
    (auto simp: execute_step_def publish_log_notification_def publish_progress_notification_def Let_def split: option.splits)

lemma emit_progress_store [simp]: "eg_store (emit_pipeline_progress en rc token n k eg) = eg_store eg"
  by (auto simp: emit_pipeline_progress_def Let_def split: option.splits)

lemma plain_turn_ok:
  assumes "store_ok eg" "plain_turn en profile rq step st eg = (t, eg')"
  shows "store_ok eg'"
proof (cases "resolve_step_input (en_ext en) step (step_context rq (ps_completed_steps st) (ps_original_args st))")
  case (Inr step_input)
  obtain out eg1 where e: "execute_step en profile (ps_session_id st) rq
      (step_context rq (ps_completed_steps st) (ps_original_args st)) step step_input eg = (out, eg1)" by fastforce
  with execute_step_ok [OF assms(1)] have "store_ok eg1" by (metis snd_conv)
  with assms(2) e Inr show ?thesis
    by (cases out) (auto simp: plain_turn_def Let_def split: option.splits)
qed (use assms in \<open>simp add: plain_turn_def Let_def\<close>)

end

section \<open>What a suspension leaves behind\<close>

definition waits_for :: "'v pipeline_ext \<Rightarrow> 'v rows \<Rightarrow> nat \<Rightarrow> pipeline_state \<Rightarrow> string \<Rightarrow> string \<Rightarrow> bool" where
  "waits_for x m t st sid rid \<longleftrightarrow> (\<exists>rq. holds_request x m t rid rq \<and> psr_server_request_id rq = rid \<and>
     psr_pipeline_id rq = ps_pipeline_id st \<and> psr_session_id rq = ps_session_id st \<and> psr_step_id rq = sid)"

fun asked :: "pipeline_outcome \<Rightarrow> server_request list" where
  "asked (OutcomeComplete _) = []"
| "asked (OutcomeSuspended request) = [request]"
| "asked (OutcomeSuspendedMulti requests) = requests"

lemma ttls_agree: "pending_request_ttl = pipeline_ttl"
  by (simp add: pending_request_ttl_def pipeline_ttl_def)

context engine_on_store
begin

text \<open>While time stands at \<open>now\<close>: the row of the suspended pipeline and of every request it waits for.\<close>

abbreviation parked :: "nat \<Rightarrow> pipeline_state \<Rightarrow> string \<Rightarrow> string list \<Rightarrow> ('w, 's) engine_state \<Rightarrow> bool" where
  "parked now st sid rids eg \<equiv> store_ok eg \<and>
     (\<forall>t. now \<le> t \<and> t < now + pipeline_ttl \<longrightarrow>
        holds_pipeline (en_px en) (view (pst_kv (eg_store eg))) t (ps_pipeline_id st) (persisted st) \<and>
        (\<forall>rid \<in> set rids. waits_for (en_px en) (view (pst_kv (eg_store eg))) t st sid rid))"

lemma waits_for_kept:
  assumes "waits_for x m t st sid rid" "live_at m' t (pending_req_key rid) = live_at m t (pending_req_key rid)"
  shows "waits_for x m' t st sid rid"
  using assms by (simp add: waits_for_def holds_request_def)

lemma suspend_on_law:
  assumes "store_ok eg" "list_all parsed_step (ps_steps st)" "suspend_on en rid sid timeout_ms st eg = eg'"
  shows "eg_world eg' = eg_world eg"
    and "parked (clk_inst (eg_now en eg)) (suspended_state (clk_utc (eg_now en eg)) (Some rid) timeout_ms st) sid [rid] eg'"
proof -
  let ?c = "eg_now en eg" and ?st = "suspended_state (clk_utc (eg_now en eg)) (Some rid) timeout_ms st"
  let ?rq = "pending_request (clk_utc ?c) rid sid timeout_ms ?st"
  have "list_all parsed_step (ps_steps ?st)" using assms(2) by (simp add: suspended_state_def)
  then obtain s1 where
    p: "save_pipeline (en_kv en) (en_px en) ?st ?c (pst_kv (eg_store eg)) = (Inr (), s1)" "ok s1"
    "\<And>t. clk_inst ?c \<le> t \<Longrightarrow> t < clk_inst ?c + pipeline_ttl \<Longrightarrow> holds_pipeline (en_px en) (view s1) t (ps_pipeline_id ?st) (persisted ?st)"
    "\<And>t rid'. clk_inst ?c \<le> t \<Longrightarrow> live_at (view s1) t (pending_req_key rid') = live_at (view (pst_kv (eg_store eg))) t (pending_req_key rid')"
    using save_pipeline_law [OF assms(1) pipelines_read_back, of ?st ?c thesis] by metis
  have rid: "psr_server_request_id ?rq = rid" by (simp add: pending_request_def)
  obtain s2 where
    r: "save_pending_server_request (en_kv en) (en_px en) ?rq ?c s1 = (Inr (), s2)" "ok s2"
    "\<And>t. clk_inst ?c \<le> t \<Longrightarrow> t < clk_inst ?c + pending_request_ttl \<Longrightarrow> holds_request (en_px en) (view s2) t rid ?rq"
    "\<And>t k. clk_inst ?c \<le> t \<Longrightarrow> k \<noteq> pending_req_key rid \<Longrightarrow> live_at (view s2) t k = live_at (view s1) t k"
    using save_request_law [OF p(2) requests_read_back, of ?rq ?c thesis, unfolded rid] by metis
  have eg': "eg' = eg\<lparr>eg_store := (eg_store eg)\<lparr>pst_kv := s2\<rparr>\<rparr>"
    using p(1) r(1) assms(3) by (auto simp: suspend_on_def on_kv_def eg_now_def Let_def)
  have "holds_pipeline (en_px en) (view s2) t (ps_pipeline_id ?st) (persisted ?st) \<and> waits_for (en_px en) (view s2) t ?st sid rid"
    if "clk_inst ?c \<le> t" "t < clk_inst ?c + pipeline_ttl" for t
    using p(3) [OF that] r(3) [OF that(1)] r(4) [OF that(1), of "pipeline_key (ps_pipeline_id ?st)"] that(2)
    by (auto simp: waits_for_def holds_pipeline_def ttls_agree pending_request_def)
  with eg' r(2) show "eg_world eg' = eg_world eg"
    "parked (clk_inst ?c) ?st sid [rid] eg'" by simp_all
qed

lemma save_gather_request:
  assumes "store_ok eg" "rq = pending_request now rid sid timeout_ms st"
  obtains eg1 where "on_kv en (save_pending_server_request (en_kv en) (en_px en) rq) eg = (Inr (), eg1)"
    "eg_world eg1 = eg_world eg" "store_ok eg1"
    "\<And>t rid'. clk_inst (eg_now en eg) \<le> t \<Longrightarrow> t < clk_inst (eg_now en eg) + pipeline_ttl \<Longrightarrow>
       rid' = rid \<or> waits_for (en_px en) (view (pst_kv (eg_store eg))) t st sid rid' \<Longrightarrow>
       waits_for (en_px en) (view (pst_kv (eg_store eg1))) t st sid rid'"
proof -
  let ?c = "eg_now en eg"
  have rid: "psr_server_request_id rq = rid" by (simp add: assms(2) pending_request_def)
  obtain s1 where
    r: "save_pending_server_request (en_kv en) (en_px en) rq ?c (pst_kv (eg_store eg)) = (Inr (), s1)" "ok s1"
    "\<And>t. clk_inst ?c \<le> t \<Longrightarrow> t < clk_inst ?c + pending_request_ttl \<Longrightarrow> holds_request (en_px en) (view s1) t rid rq"
    "\<And>t k. clk_inst ?c \<le> t \<Longrightarrow> k \<noteq> pending_req_key rid \<Longrightarrow> live_at (view s1) t k = live_at (view (pst_kv (eg_store eg))) t k"
    using save_request_law [OF assms(1) requests_read_back, of rq ?c thesis, unfolded rid] by metis
  show thesis
  proof (rule that [of "eg\<lparr>eg_store := (eg_store eg)\<lparr>pst_kv := s1\<rparr>\<rparr>"])
    show "waits_for (en_px en) (view (pst_kv (eg_store (eg\<lparr>eg_store := (eg_store eg)\<lparr>pst_kv := s1\<rparr>\<rparr>)))) t st sid rid'"
      if t: "clk_inst ?c \<le> t" "t < clk_inst ?c + pipeline_ttl"
        and w: "rid' = rid \<or> waits_for (en_px en) (view (pst_kv (eg_store eg))) t st sid rid'" for t rid'
    proof (cases "rid' = rid")
      case True
      with r(3) [OF t(1)] t(2) assms(2) show ?thesis by (auto simp: waits_for_def ttls_agree pending_request_def)
    next
      case False
      with w r(4) [OF t(1), of "pending_req_key rid'"] show ?thesis by (auto intro: waits_for_kept)
    qed
  qed (use r in \<open>simp_all add: on_kv_def\<close>)
qed

lemma gather_request_id: "gather_request x caps rq w input = Some (request, timeout_ms) \<Longrightarrow> srq_id request = JStr (correlation_token input)"
  by (cases input) (auto simp: gather_request_def Let_def split: if_splits)

lemma gather_requests_law:
  assumes "store_ok eg" "gather_requests en rq sid st inputs eg = ((requests, longest), eg')"
  shows "eg_world eg' = eg_world eg \<and> store_ok eg' \<and>
    (\<forall>t rid. clk_inst (eg_now en eg) \<le> t \<and> t < clk_inst (eg_now en eg) + pipeline_ttl \<and>
       (JStr rid \<in> srq_id ` set requests \<or> waits_for (en_px en) (view (pst_kv (eg_store eg))) t st sid rid) \<longrightarrow>
       waits_for (en_px en) (view (pst_kv (eg_store eg'))) t st sid rid) \<and>
    (\<forall>request \<in> set requests. \<exists>rid. srq_id request = JStr rid)"
  using assms
proof (induction inputs arbitrary: eg eg' requests longest)
  case (Cons input inputs)
  show ?case
  proof (cases "gather_request (en_ext en) (ps_client_capabilities st) rq (eg_world eg) input")
    case None
    with Cons.prems Cons.IH [OF Cons.prems(1)] show ?thesis by simp
  next
    case (Some p)
    obtain request timeout_ms where p: "p = (request, timeout_ms)" by fastforce
    obtain eg1 where s: "on_kv en (save_pending_server_request (en_kv en) (en_px en)
        (pending_request (clk_utc (eg_now en eg)) (correlation_token input) sid timeout_ms st)) eg = (Inr (), eg1)"
      "eg_world eg1 = eg_world eg" "store_ok eg1"
      "\<And>t rid'. clk_inst (eg_now en eg) \<le> t \<Longrightarrow> t < clk_inst (eg_now en eg) + pipeline_ttl \<Longrightarrow>
         rid' = correlation_token input \<or> waits_for (en_px en) (view (pst_kv (eg_store eg))) t st sid rid' \<Longrightarrow>
         waits_for (en_px en) (view (pst_kv (eg_store eg1))) t st sid rid'"
      using save_gather_request [OF Cons.prems(1) refl, of "clk_utc (eg_now en eg)" "correlation_token input" sid timeout_ms st thesis] by metis
    obtain rest l eg2 where g: "gather_requests en rq sid st inputs eg1 = ((rest, l), eg2)" by (metis surj_pair)
    have out: "requests = request # rest" "eg' = eg2" using Cons.prems(2) Some p s(1) g by auto
    have now: "eg_now en eg1 = eg_now en eg" using s(2) by (simp add: eg_now_def)
    from Cons.IH [OF s(3) g, unfolded now] s(2,4) out gather_request_id [OF Some [unfolded p]] show ?thesis by auto
  qed
qed auto

end

context engine_on_store
begin

lemma request_id_for_store [simp]: "eg_store (snd (request_id_for en token eg)) = eg_store eg"
  by (auto simp: request_id_for_def mint_server_request_id_def in_world_def case_prod_unfold Let_def split: option.splits)

text \<open>The three steps with one request suspend on a request id of their own.\<close>

definition asks_once ::
  "pipeline_state \<Rightarrow> string \<Rightarrow> ('w, 's) engine_state \<Rightarrow> json list \<Rightarrow> ('w, 's) engine_state \<Rightarrow> bool" where
  "asks_once st sid eg ids eg' \<longleftrightarrow>
     (\<exists>rid eg1 timeout_ms. eg_store eg1 = eg_store eg \<and> suspend_on en rid sid timeout_ms st eg1 = eg' \<and> ids = [JStr rid])"

lemma asks_onceI:
  "request_id_for en token eg = (rid, eg1) \<Longrightarrow> suspend_on en rid sid timeout_ms st eg1 = eg' \<Longrightarrow> asks_once st sid eg [JStr rid] eg'"
  unfolding asks_once_def using request_id_for_store [of token eg] by fastforce

lemma single_suspensions:
  "suspend_elicitation en rq e st eg = (out, eg') \<Longrightarrow> asked out \<noteq> [] \<Longrightarrow> asks_once st (els_id e) eg (map srq_id (asked out)) eg'"
  "suspend_sampling en rq m st eg = (out, eg') \<Longrightarrow> asked out \<noteq> [] \<Longrightarrow> asks_once st (sms_id m) eg (map srq_id (asked out)) eg'"
  "suspend_roots en rq r st eg = (out, eg') \<Longrightarrow> asked out \<noteq> [] \<Longrightarrow> asks_once st (rls_id r) eg (map srq_id (asked out)) eg'"
  by (auto simp: suspend_elicitation_def suspend_sampling_def suspend_roots_def Let_def
      split: option.splits if_splits prod.splits intro: asks_onceI)

definition parked_at :: "pipeline_state \<Rightarrow> json list \<Rightarrow> ('w, 's) engine_state \<Rightarrow> bool" where
  "parked_at st ids eg \<longleftrightarrow> (\<exists>pending timeout_ms rids. ids = map JStr rids \<and>
     parked (clk_inst (eg_now en eg)) (suspended_state (clk_utc (eg_now en eg)) pending timeout_ms st)
       (step_id (ps_steps st ! ps_current_step_index st)) rids eg)"

lemma parked_single:
  assumes "store_ok eg" "list_all parsed_step (ps_steps st)" "step_id (ps_steps st ! ps_current_step_index st) = sid"
    and "asks_once st sid eg ids eg'"
  shows "parked_at st ids eg'"
proof -
  from assms(4) obtain rid eg1 timeout_ms where
    s: "eg_store eg1 = eg_store eg" "suspend_on en rid sid timeout_ms st eg1 = eg'" "ids = [JStr rid]" unfolding asks_once_def by blast
  have "store_ok eg1" using assms(1) s(1) by simp
  note law = suspend_on_law [OF this assms(2) s(2)]
  have "eg_now en eg' = eg_now en eg1" using law(1) by (simp add: eg_now_def)
  with law(2) s(3) assms(3) show ?thesis unfolding parked_at_def
    by (intro exI [of _ "Some rid"] exI [of _ timeout_ms] exI [of _ "[rid]"]) simp
qed

lemma parked_gather:
  assumes "store_ok eg" "list_all parsed_step (ps_steps st)" "step_id (ps_steps st ! ps_current_step_index st) = gst_id g"
    and "suspend_gather en rq g st eg = (EndPipeline out, eg')"
  shows "parked_at st (map srq_id (asked out)) eg'"
proof -
  obtain requests longest eg1 where g: "gather_requests en rq (gst_id g) st (gst_inputs g) eg = ((requests, longest), eg1)"
    by (metis surj_pair)
  let ?c = "eg_now en eg1" and ?st = "suspended_state (clk_utc (eg_now en eg1)) None longest st"
  note law = gather_requests_law [OF assms(1) g]
  have now: "?c = eg_now en eg" using law by (simp add: eg_now_def)
  have "list_all parsed_step (ps_steps ?st)" using assms(2) by (simp add: suspended_state_def)
  then obtain s2 where
    p: "save_pipeline (en_kv en) (en_px en) ?st ?c (pst_kv (eg_store eg1)) = (Inr (), s2)" "ok s2"
    "\<And>t. clk_inst ?c \<le> t \<Longrightarrow> t < clk_inst ?c + pipeline_ttl \<Longrightarrow> holds_pipeline (en_px en) (view s2) t (ps_pipeline_id ?st) (persisted ?st)"
    "\<And>t rid'. clk_inst ?c \<le> t \<Longrightarrow> live_at (view s2) t (pending_req_key rid') = live_at (view (pst_kv (eg_store eg1))) t (pending_req_key rid')"
    using save_pipeline_law [of "pst_kv (eg_store eg1)" "en_px en" ?st ?c thesis] law pipelines_read_back by metis
  have out: "asked out = requests" "eg' = eg1\<lparr>eg_store := (eg_store eg1)\<lparr>pst_kv := s2\<rparr>\<rparr>"
    using assms(4) g p(1) by (auto simp: suspend_gather_def on_kv_def Let_def split: if_splits)
  have now': "eg_now en eg' = ?c" using out(2) by (simp add: eg_now_def)
  from law obtain rids where rids: "map srq_id requests = map JStr rids"
    by (intro that [of "map (\<lambda>r. THE s. srq_id r = JStr s) requests"]) auto
  then have "rid \<in> set rids \<Longrightarrow> JStr rid \<in> srq_id ` set requests" for rid by (metis image_eqI image_set)
  then have "waits_for (en_px en) (view s2) t ?st (gst_id g) rid"
    if "rid \<in> set rids" "clk_inst ?c \<le> t" "t < clk_inst ?c + pipeline_ttl" for rid t
    using law that p(4) [OF that(2), of rid] unfolding now
    by (auto simp: waits_for_def holds_request_def suspended_state_def)
  with p(2,3) rids out assms(3) show ?thesis unfolding parked_at_def now'
    by (intro exI [of _ None] exI [of _ longest] exI [of _ rids]) simp
qed

lemma turn_ok:
  assumes "store_ok eg" "list_all parsed_step (ps_steps st)" "pipeline_turn en profile rq st eg = (NextStep st' out, eg')"
  shows "store_ok eg'"
proof (cases "\<exists>g. ps_steps st ! ps_current_step_index st = StepGather g")
  case True
  then obtain g where g: "ps_steps st ! ps_current_step_index st = StepGather g" by blast
  obtain requests longest eg1 where gr: "gather_requests en rq (gst_id g) st (gst_inputs g) eg = ((requests, longest), eg1)"
    by (metis surj_pair)
  with gather_requests_law [OF assms(1) gr] g assms(1,3) show ?thesis
    by (auto simp: pipeline_turn_def suspend_gather_def gating_error_def Let_def split: if_splits prod.splits)
next
  case False
  with assms plain_turn_ok [OF assms(1)] show ?thesis
    by (auto simp: pipeline_turn_def Let_def split: if_splits option.splits pipeline_step.splits prod.splits)
qed

lemma turn_suspends:
  assumes "store_ok eg" "list_all parsed_step (ps_steps st)" "pipeline_turn en profile rq st eg = (EndPipeline out, eg')" "asked out \<noteq> []"
  shows "is_suspending (ps_steps st ! ps_current_step_index st) \<and> parked_at st (map srq_id (asked out)) eg'"
proof -
  let ?step = "ps_steps st ! ps_current_step_index st"
  have plain: "asked out' = []" if "plain_turn en profile rq ?step st eg = (EndPipeline out', eg'')" for out' eg''
    using that by (auto simp: plain_turn_def Let_def split: sum.splits prod.splits step_outcome.splits)
  note single = parked_single [OF assms(1,2)] and p = assms(3,4)
  show ?thesis
  proof (cases ?step)
    case (StepElicitation e)
    with p single_suspensions(1) [of rq e st eg] show ?thesis
      by (auto simp: pipeline_turn_def Let_def split: if_splits option.splits prod.splits intro!: single)
  next
    case (StepSampling m)
    with p single_suspensions(2) [of rq m st eg] show ?thesis
      by (auto simp: pipeline_turn_def Let_def split: if_splits option.splits prod.splits intro!: single)
  next
    case (StepRootsList r)
    with p single_suspensions(3) [of rq r st eg] show ?thesis
      by (auto simp: pipeline_turn_def Let_def split: if_splits option.splits prod.splits intro!: single)
  next
    case (StepGather g)
    with p parked_gather [OF assms(1,2)] show ?thesis
      by (auto simp: pipeline_turn_def gating_error_def Let_def split: if_splits)
  qed (use p plain in \<open>auto simp: pipeline_turn_def gating_error_def Let_def split: if_splits\<close>)
qed

end

context engine_on_store
begin

text \<open>A run that ends in a question ended in the turn of some suspending step; up to there it kept the track.\<close>

lemma run_parks:
  assumes "execute_pipeline_steps en profile rq lst st eg = (out, eg')" "store_ok eg" "asked out \<noteq> []"
    and "on_track st" "distinct (map step_id (ps_steps st))" "list_all parsed_step (ps_steps st)"
  shows "\<exists>st'. same_pipeline st st' \<and> on_track st' \<and> ps_current_step_index st \<le> ps_current_step_index st' \<and>
    ps_current_step_index st' < length (ps_steps st) \<and> is_suspending (ps_steps st ! ps_current_step_index st') \<and>
    parked_at st' (map srq_id (asked out)) eg'"
  using assms
proof (induction "length (ps_steps st) - ps_current_step_index st" arbitrary: lst st eg rule: less_induct)
  case (less st lst eg)
  note run = execute_pipeline_steps.simps [of en profile rq lst st eg] and prems = less.prems
  show ?case
  proof (cases "ps_current_step_index st < length (ps_steps st)")
    case True
    obtain t eg1 where t: "pipeline_turn en profile rq st eg = (t, eg1)" by fastforce
    show ?thesis
    proof (cases t)
      case (EndPipeline o1)
      then have "o1 = out" "eg1 = eg'" using prems(1) run t True by auto
      with turn_suspends [OF prems(2,6), of profile rq out eg'] t EndPipeline prems(3,4) True show ?thesis
        by (intro exI [of _ st]) auto
    next
      case (NextStep st1 o1)
      obtain r where r: "st1 = record_step (step_id (ps_steps st ! ps_current_step_index st)) r st"
        using turn_on_track t NextStep by blast
      have ok1: "store_ok eg1" using turn_ok [OF prems(2,6)] t NextStep by blast
      have track: "on_track st1" "ps_steps st1 = ps_steps st" "same_pipeline st st1"
        "ps_current_step_index st1 = Suc (ps_current_step_index st)"
        using record_step_on_track [OF prems(4,5) True] r by simp_all
      have "execute_pipeline_steps en profile rq (case o1 of None \<Rightarrow> lst | Some out \<Rightarrow> out) st1 eg1 = (out, eg')"
        using prems(1) run t True NextStep by (cases o1) auto
      moreover have "length (ps_steps st1) - ps_current_step_index st1 < length (ps_steps st) - ps_current_step_index st"
        using True track by simp
      ultimately obtain st' where
        "same_pipeline st1 st'" "on_track st'" "ps_current_step_index st1 \<le> ps_current_step_index st'"
        "ps_current_step_index st' < length (ps_steps st)" "is_suspending (ps_steps st ! ps_current_step_index st')"
        "parked_at st' (map srq_id (asked out)) eg'"
        using less.hyps [of st1 _ eg1] ok1 prems(3,5,6) track by auto
      with track same_pipeline_trans show ?thesis by (intro exI [of _ st']) auto
    qed
  next
    case False
    with prems(1,3) run show ?thesis by auto
  qed
qed

text \<open>What later calls read from the store after such a run.\<close>

lemma parked_at_loads:
  assumes "parked_at st ids eg" "clk_inst (eg_now en eg) \<le> clk_inst c" "clk_inst c < clk_inst (eg_now en eg) + pipeline_ttl"
  obtains pending timeout_ms rids s1 where "ids = map JStr rids"
    "load_pipeline (en_kv en) (en_px en) (ps_pipeline_id st) c (pst_kv (eg_store eg)) =
       (Inr (Some (persisted (suspended_state (clk_utc (eg_now en eg)) pending timeout_ms st))), s1)"
    "\<forall>rid \<in> set rids. \<exists>pr s2. load_pending_server_request (en_kv en) (en_px en) rid c (pst_kv (eg_store eg)) = (Inr (Some pr), s2) \<and>
       psr_pipeline_id pr = ps_pipeline_id st \<and> psr_step_id pr = step_id (ps_steps st ! ps_current_step_index st)"
proof -
  from assms obtain pending timeout_ms rids where
    p: "ids = map JStr rids" "store_ok eg"
    "holds_pipeline (en_px en) (view (pst_kv (eg_store eg))) (clk_inst c) (ps_pipeline_id st)
       (persisted (suspended_state (clk_utc (eg_now en eg)) pending timeout_ms st))"
    "\<forall>rid \<in> set rids. waits_for (en_px en) (view (pst_kv (eg_store eg))) (clk_inst c) st
       (step_id (ps_steps st ! ps_current_step_index st)) rid"
    unfolding parked_at_def by (auto simp: suspended_state_def waits_for_def)
  from load_pipeline_law [OF p(2,3)] obtain s1 where l: "load_pipeline (en_kv en) (en_px en) (ps_pipeline_id st) c (pst_kv (eg_store eg)) =
       (Inr (Some (persisted (suspended_state (clk_utc (eg_now en eg)) pending timeout_ms st))), s1)" by metis
  have "\<exists>pr s2. load_pending_server_request (en_kv en) (en_px en) rid c (pst_kv (eg_store eg)) = (Inr (Some pr), s2) \<and>
       psr_pipeline_id pr = ps_pipeline_id st \<and> psr_step_id pr = step_id (ps_steps st ! ps_current_step_index st)"
    if "rid \<in> set rids" for rid
  proof -
    from p(4) that obtain pr where pr: "holds_request (en_px en) (view (pst_kv (eg_store eg))) (clk_inst c) rid pr"
      "psr_pipeline_id pr = ps_pipeline_id st" "psr_step_id pr = step_id (ps_steps st ! ps_current_step_index st)"
      unfolding waits_for_def by blast
    then show ?thesis using load_request_law [OF p(2) pr(1)] by metis
  qed
  with p(1) l that show thesis by blast
qed

end

section \<open>Suspended runs\<close>

lemma suspended_fields [simp]:
  "ps_pipeline_id (suspended_state now pending t st) = ps_pipeline_id st" "ps_steps (suspended_state now pending t st) = ps_steps st"
  "ps_current_step_index (suspended_state now pending t st) = ps_current_step_index st"
  "ps_state_version (suspended_state now pending t st) = ps_state_version st + 1"
  "ps_suspended_at (suspended_state now pending t st) = Some now"
  "on_track (suspended_state now pending t st) = on_track st"
  by (simp_all add: suspended_state_def on_track_def)

lemma persisted_fields [simp]:
  "ps_pipeline_id (persisted st) = ps_pipeline_id st" "ps_steps (persisted st) = ps_steps st"
  "ps_current_step_index (persisted st) = ps_current_step_index st" "ps_state_version (persisted st) = ps_state_version st"
  "ps_suspended_at (persisted st) = ps_suspended_at st" "on_track (persisted st) = on_track st"
  by (simp_all add: persisted_def on_track_def)

lemma initial_fields [simp]:
  "ps_pipeline_id (initial_state config rq surface now) = rc_request_id (bir_context rq)"
  "ps_steps (initial_state config rq surface now) = pbc_steps config" "ps_current_step_index (initial_state config rq surface now) = 0"
  "ps_state_version (initial_state config rq surface now) = 0" "on_track (initial_state config rq surface now)"
  by (simp_all add: initial_state_def on_track_def)

text \<open>A call that ends in a question parked its pipeline at a suspending step.\<close>

lemma asking_run_parks:
  assumes "engine_on_store en view ok" "ok (pst_kv (eg_store eg))" "en_pipeline_configs en profile = Some config"
    and "distinct (map step_id (pbc_steps config))" "list_all parsed_step (pbc_steps config)"
    and "execute_pipeline en profile rq surface eg = (outcome, eg')" "asked outcome \<noteq> []"
  shows "\<exists>st. same_pipeline (initial_state config rq surface (clk_utc (eg_now en eg))) st \<and> on_track st \<and>
    ps_current_step_index st < length (pbc_steps config) \<and> is_suspending (pbc_steps config ! ps_current_step_index st) \<and>
    engine_on_store.parked_at en view ok st (map srq_id (asked outcome)) eg'"
proof -
  let ?st0 = "initial_state config rq surface (clk_utc (eg_now en eg))"
  have susp: "list_ex is_suspending (pbc_steps config)"
    using assms(3,6,7) by (auto simp: execute_pipeline_def case_prod_unfold Let_def split: if_splits)
  then have run: "execute_pipeline_steps en profile rq JNull ?st0 eg = (outcome, eg')"
    using assms(3,6) by (simp add: execute_pipeline_def)
  have "distinct (map step_id (ps_steps ?st0))" "list_all parsed_step (ps_steps ?st0)" using assms(4,5) by simp_all
  from engine_on_store.run_parks [OF assms(1) run assms(2,7) initial_fields(5) this] show ?thesis by auto
qed

text \<open>
  C8.  A run that ends in a question to the client can be taken up where it stopped.  For as long as the row lives,
  loading the pipeline by the id of the request gives its steps, positioned at a step that suspends, with results
  for exactly the steps before it, at version 1; and each request the client was sent leads to this pipeline and
  this step.
\<close>

theorem suspended_run_can_be_taken_up:
  assumes "engine_on_store en view ok" "ok (pst_kv (eg_store eg))" "en_pipeline_configs en profile = Some config"
    and "distinct (map step_id (pbc_steps config))" "list_all parsed_step (pbc_steps config)"
    and "execute_pipeline en profile rq surface eg = (outcome, eg')" "asked outcome \<noteq> []"
    and "clk_inst (eg_now en eg') \<le> clk_inst c" "clk_inst c < clk_inst (eg_now en eg') + pipeline_ttl"
  shows "\<exists>st s1 rids. load_pipeline (en_kv en) (en_px en) (rc_request_id (bir_context rq)) c (pst_kv (eg_store eg')) = (Inr (Some st), s1) \<and>
    ps_steps st = pbc_steps config \<and> ps_current_step_index st < length (ps_steps st) \<and>
    is_suspending (ps_steps st ! ps_current_step_index st) \<and>
    map fst (ps_completed_steps st) = map step_id (take (ps_current_step_index st) (ps_steps st)) \<and>
    ps_suspended_at st \<noteq> None \<and> ps_state_version st = 1 \<and> map srq_id (asked outcome) = map JStr rids \<and>
    (\<forall>rid \<in> set rids. \<exists>pr s2. load_pending_server_request (en_kv en) (en_px en) rid c (pst_kv (eg_store eg')) = (Inr (Some pr), s2) \<and>
       psr_pipeline_id pr = rc_request_id (bir_context rq) \<and> psr_step_id pr = step_id (ps_steps st ! ps_current_step_index st))"
proof -
  obtain st where
    st: "same_pipeline (initial_state config rq surface (clk_utc (eg_now en eg))) st" "on_track st"
    "ps_current_step_index st < length (pbc_steps config)" "is_suspending (pbc_steps config ! ps_current_step_index st)"
    "engine_on_store.parked_at en view ok st (map srq_id (asked outcome)) eg'"
    using asking_run_parks [OF assms(1-7)] by blast
  have same: "ps_steps st = pbc_steps config" "ps_pipeline_id st = rc_request_id (bir_context rq)" "ps_state_version st = 0"
    using same_pipeline_fields [OF st(1)] by simp_all
  obtain pending timeout_ms rids s1 where l: "map srq_id (asked outcome) = map JStr rids"
    "load_pipeline (en_kv en) (en_px en) (ps_pipeline_id st) c (pst_kv (eg_store eg')) =
       (Inr (Some (persisted (suspended_state (clk_utc (eg_now en eg')) pending timeout_ms st))), s1)"
    "\<forall>rid \<in> set rids. \<exists>pr s2. load_pending_server_request (en_kv en) (en_px en) rid c (pst_kv (eg_store eg')) = (Inr (Some pr), s2) \<and>
       psr_pipeline_id pr = ps_pipeline_id st \<and> psr_step_id pr = step_id (ps_steps st ! ps_current_step_index st)"
    by (rule engine_on_store.parked_at_loads [OF assms(1) st(5) assms(8,9)])
  let ?row = "persisted (suspended_state (clk_utc (eg_now en eg')) pending timeout_ms st)"
  have "on_track ?row" using st(2) by simp
  then show ?thesis using l st(3,4) same
    by (intro exI [of _ ?row] exI [of _ s1] exI [of _ rids]) (simp add: on_track_def)
qed

section \<open>A sample engine\<close>

text \<open>
  The world is the time in milliseconds; a mock backend takes its delay, a client supports everything, and the
  pipeline asks the client between a mock step and a progress step.
\<close>

definition sample_lib :: "nat engine_lib" where
  "sample_lib = \<lparr>xe_now = at_ms, xe_uuid = (\<lambda>w. (''u1'', w)), xe_cancelled = (\<lambda>_ _. False), xe_sleep = (+),
     xe_publish = (\<lambda>_ _ w. w), xe_supports_elicitation = (\<lambda>_. True), xe_supports_elicitation_form = (\<lambda>_. True),
     xe_supports_elicitation_url = (\<lambda>_. True), xe_supports_sampling = (\<lambda>_. True), xe_supports_sampling_tools = (\<lambda>_. True),
     xe_supports_sampling_context = (\<lambda>_. True), xe_supports_roots = (\<lambda>_. True), xe_trace_object = (\<lambda>_ _. JNull),
     xe_elicitation_params = (\<lambda>p. JObj [(''message'', JStr (ecp_message p))]), xe_sampling_params = (\<lambda>_. JObj []),
     xe_default_sampling_max_tokens = 1024, xe_cel_compile = (\<lambda>_. None), xe_cel_context = (\<lambda>_. None),
     xe_cel_execute = (\<lambda>_ _. Inr (CelBool True)), xe_cel_to_json = (\<lambda>_. JBool True), xe_cel_debug = (\<lambda>_. ''true''),
     xe_client = (\<lambda>_. None), xe_to_string = (\<lambda>_. Inr ''null''), xe_from_str = (\<lambda>_. None), xe_display = (\<lambda>_. []),
     xe_debug_str = id, xe_debug_list = concat, xe_utf8_lossy = id, xe_result_from_value = (\<lambda>_. None),
     xe_mock_config = (\<lambda>_. Some \<lparr>mbc_response = JStr ''ready'', mbc_delay_ms = 7, mbc_error = False, mbc_error_message = None\<rparr>),
     xe_parse_log_level = (\<lambda>_. None), xe_log_permits = (\<lambda>_ _. True), xe_parse_logging_level = (\<lambda>_. None),
     xe_progress_notification = (\<lambda>_ _ _ _. None), xe_backend = (\<lambda>_ _ _ w. (error_result ''down'', w)), xe_sql_registered = False,
     xe_sql_transaction = (\<lambda>_ _ _ w. (Inl [], w)), xe_sql_execute = (\<lambda>_ _ _ _ w. (Inl [], w)),
     xe_transform_registered = (\<lambda>_. False), xe_transform = (\<lambda>_ _ _ _ w. (TransformUnchanged, w))\<rparr>"

abbreviation mock_step :: pipeline_step where
  "mock_step \<equiv> StepBackend \<lparr>bst_id = ''m'', bst_kind = ''mock'', bst_spec = [], bst_input_transform = None\<rparr>"

abbreviation ask_step :: pipeline_step where
  "ask_step \<equiv> StepElicitation \<lparr>els_id = ''e'', els_message = ''Go on?'', els_mode = FormMode, els_requested_schema = None, els_url = None,
     els_elicitation_id = None, els_presentation_hint = None, els_meta = None, els_timeout_ms = 60000,
     els_correlation_token = Some ''q1'', els_skip_if_unsupported = False\<rparr>"

abbreviation progress_done :: pipeline_step where
  "progress_done \<equiv> StepProgress \<lparr>pgs_id = ''p'', pgs_progress = JNum ''1'', pgs_total = None, pgs_message = None\<rparr>"

definition sample_config :: "pipeline_step list \<Rightarrow> pipeline_backend_config" where
  "sample_config steps = \<lparr>pbc_pipeline_timeout_ms = 60000, pbc_steps = steps\<rparr>"

definition sample_engine :: "pipeline_step list \<Rightarrow> (nat, pipeline_payload memory, pipeline_payload) engine" where
  "sample_engine steps = \<lparr>en_ext = sample_lib, en_kv = pipeline_mem, en_px = sample_px,
     en_pipeline_configs = (\<lambda>_. Some (sample_config steps)), en_has_bus = False, en_has_store = True\<rparr>"

lemma sample_engine_fields [simp]:
  "en_ext (sample_engine steps) = sample_lib" "en_kv (sample_engine steps) = pipeline_mem" "en_px (sample_engine steps) = sample_px"
  "en_pipeline_configs (sample_engine steps) profile = Some (sample_config steps)" "\<not> en_has_bus (sample_engine steps)"
  "en_has_store (sample_engine steps)"
  by (simp_all add: sample_engine_def)

lemma sample_request_codec [simp]: "request_codec sample_px"
  by (simp add: request_codec_def sample_px_def)

interpretation sample_run: engine_on_store "sample_engine steps" memory_view memory_ok for steps
  using mem_buffering.kv_buffering_axioms by (simp add: engine_on_store_def engine_on_store_axioms_def)

definition sample_call :: backend_request where
  "sample_call = \<lparr>bir_context = sample_context, bir_tool_name = ''deploy'', bir_arguments = Some (JObj []),
     bir_expr_ctx = to_expr_context sample_lib sample_context ''deploy'' (Some (JObj [])), bir_progress_token = None,
     bir_request_log_level = None, bir_legacy_session_log_level = None, bir_client_capabilities = JObj [],
     bir_cancellation_token = None, bir_idempotency_hint = None\<rparr>"

definition fresh_state :: "(nat, pipeline_payload memory) engine_state" where
  "fresh_state = \<lparr>eg_world = 0, eg_store = \<lparr>pst_kv = [], pst_sessions_with_pending = {}\<rparr>, eg_progress = (\<lambda>_ _. None)\<rparr>"

lemma sample_run_asks:
  "\<exists>request eg'. execute_pipeline (sample_engine [mock_step, ask_step, progress_done]) ''deploy'' sample_call ToolSurface fresh_state =
     (OutcomeSuspended request, eg') \<and> srq_id request = JStr ''q1'' \<and> eg_world eg' = 7 \<and>
     map fst (pst_kv (eg_store eg')) = [''pipeline:p1'', ''pipeline-rpc:s1:1'', ''pending_req:q1'']"
  by (simp add: execute_pipeline_def sample_config_def initial_state_def execute_pipeline_steps.simps pipeline_turn_def
      pipeline_timed_out_def request_cancelled_def sample_call_def gating_error_def plain_turn_def resolve_step_input_def execute_step_def
      in_world_def execute_backend_step_def execute_pipeline_mock_step_def record_step_def step_context_def to_expr_context_def
      suspend_elicitation_def request_id_for_def validate_elicitation_requested_schema_def suspend_on_def on_kv_def
      case_prod_unfold Let_def fresh_state_def sample_lib_def eg_now_def at_ms_def num_milliseconds_def from_millis_def
      save_pipeline_def put_rpc_pointer_def save_pending_server_request_def sample_px_def memory_op_defs pipeline_key_def
      suspended_state_def suspended_rpc_key_def pending_req_key_def pending_request_def sample_context_def)

theorem suspended_run_can_be_taken_up_witness:
  "\<exists>request eg' st s1. execute_pipeline (sample_engine [mock_step, ask_step, progress_done]) ''deploy'' sample_call ToolSurface fresh_state =
     (OutcomeSuspended request, eg') \<and>
     load_pipeline pipeline_mem sample_px ''p1'' (at_ms 9) (pst_kv (eg_store eg')) = (Inr (Some st), s1) \<and>
     is_suspending (ps_steps st ! ps_current_step_index st) \<and> ps_state_version st = 1"
proof -
  let ?en = "sample_engine [mock_step, ask_step, progress_done]"
  obtain request eg' where r: "execute_pipeline ?en ''deploy'' sample_call ToolSurface fresh_state = (OutcomeSuspended request, eg')"
    "eg_world eg' = 7" using sample_run_asks by blast
  have now: "eg_now ?en eg' = at_ms 7" using r(2) by (simp add: eg_now_def sample_lib_def)
  show ?thesis
    using suspended_run_can_be_taken_up [OF sample_run.engine_on_store_axioms _ _ _ _ r(1), of "sample_config [mock_step, ask_step, progress_done]" "at_ms 9"]
      r(1) unfolding now
    by (auto simp: fresh_state_def memory_ok_def sample_config_def CONTROL_STEP_KINDS_def at_ms_def from_millis_def pipeline_ttl_def
        from_secs_def sample_call_def sample_context_def)
qed

section \<open>The two paths agree\<close>

text \<open>The wall clock and the monotonic clock run together.\<close>

definition clocks_together :: "'w engine_lib \<Rightarrow> bool" where
  "clocks_together x \<longleftrightarrow> (\<forall>w w'. int (clk_utc (xe_now x w')) - int (clk_utc (xe_now x w)) = int (clk_inst (xe_now x w')) - int (clk_inst (xe_now x w)))"

lemma timeouts_agree:
  assumes "clocks_together (en_ext en)" "ps_created_at st = clk_utc (eg_now en eg0)"
  shows "pipeline_timed_out en st eg \<longleftrightarrow> from_millis (ps_pipeline_timeout_ms st) \<le> clk_inst (eg_now en eg) - clk_inst (eg_now en eg0)"
proof -
  have d: "int (clk_utc (eg_now en eg)) - int (clk_utc (eg_now en eg0)) = int (clk_inst (eg_now en eg)) - int (clk_inst (eg_now en eg0))"
    using assms(1) by (simp add: clocks_together_def eg_now_def)
  show ?thesis
  proof (cases "clk_utc (eg_now en eg0) \<le> clk_utc (eg_now en eg)")
    case True
    with d have "clk_utc (eg_now en eg) - clk_utc (eg_now en eg0) = clk_inst (eg_now en eg) - clk_inst (eg_now en eg0)" by linarith
    with True assms(2) show ?thesis
      by (simp add: pipeline_timed_out_def num_milliseconds_def from_millis_def less_eq_div_iff_mult_less_eq)
  next
    case False
    with d have "clk_inst (eg_now en eg) - clk_inst (eg_now en eg0) = 0" by linarith
    with False assms(2) show ?thesis by (simp add: pipeline_timed_out_def num_milliseconds_def from_millis_def)
  qed
qed

lemma plain_step_turn:
  "\<not> is_suspending (ps_steps st ! ps_current_step_index st) \<Longrightarrow> bir_cancellation_token rq = None \<Longrightarrow>
   pipeline_turn en profile rq st eg =
     (if pipeline_timed_out en st eg then (EndPipeline (OutcomeComplete (error_result ''pipeline execution timed out'')), eg)
      else plain_turn en profile rq (ps_steps st ! ps_current_step_index st) st eg)"
  by (cases "ps_steps st ! ps_current_step_index st") (simp_all add: pipeline_turn_def request_cancelled_def gating_error_def Let_def)

definition agree :: "pipeline_outcome \<times> 'e \<Rightarrow> tool_call_result \<times> 'e \<Rightarrow> bool" where
  "agree a b \<longleftrightarrow> (\<exists>r. a = (OutcomeComplete r, snd b) \<and> tcr_is_error r = tcr_is_error (fst b) \<and> (tcr_is_error r \<or> r = fst b))"

lemma agree_refl [simp]: "agree (OutcomeComplete r, eg) (r, eg)"
  by (simp add: agree_def)

lemma agree_errors [simp]: "agree (OutcomeComplete (error_result a), eg) (error_result b, eg)"
  by (simp add: agree_def error_result_def)

lemma binding_steps_agree:
  assumes "clocks_together (en_ext en)" "ps_created_at st = clk_utc (eg_now en eg0)" "bir_cancellation_token rq = None"
    and "bir_progress_token rq = None" "bir_arguments rq = Some (ps_original_args st)"
    and "ps_session_id st = (case rc_session_id (bir_context rq) of None \<Rightarrow> [] | Some i \<Rightarrow> i)"
    and "ps_pipeline_timeout_ms st = pbc_pipeline_timeout_ms config" "ps_steps st = pbc_steps config"
    and "drop (ps_current_step_index st) (ps_steps st) = steps" "list_all (\<lambda>step. \<not> is_suspending step) steps"
  shows "agree (execute_pipeline_steps en profile rq lst st eg)
    (binding_steps en profile rq config (clk_inst (eg_now en eg0)) (ps_current_step_index st) steps (ps_completed_steps st) lst eg)"
  using assms
proof (induction steps arbitrary: st lst eg)
  case Nil
  then show ?case by (simp add: execute_pipeline_steps.simps)
next
  case (Cons step steps)
  have i: "ps_current_step_index st < length (ps_steps st)" "ps_steps st ! ps_current_step_index st = step"
    "drop (Suc (ps_current_step_index st)) (ps_steps st) = steps"
    using Cons.prems(9) by (metis drop_eq_Nil2 list.distinct(1) not_le, metis nth_via_drop, metis drop_Suc tl_drop list.sel(3))
  have plain: "\<not> is_suspending step" using Cons.prems(10) by simp
  note turn = plain_step_turn [of st rq en profile eg, unfolded i(2), OF plain Cons.prems(3)]
  note run = execute_pipeline_steps.simps [of en profile rq lst st eg]
  let ?ctx = "step_context rq (ps_completed_steps st) (ps_original_args st)"
  show ?case
  proof (cases "pipeline_timed_out en st eg")
    case True
    with timeouts_agree [OF Cons.prems(1,2)] turn run i(1) Cons.prems(5,7) show ?thesis by simp
  next
    case False
    then have live: "\<not> from_millis (pbc_pipeline_timeout_ms config) \<le> clk_inst (eg_now en eg) - clk_inst (eg_now en eg0)"
      using timeouts_agree [OF Cons.prems(1,2)] Cons.prems(7) by simp
    show ?thesis
    proof (cases "resolve_step_input (en_ext en) step ?ctx")
      case (Inl e)
      with False live turn run i(1) Cons.prems(5) show ?thesis by (simp add: plain_turn_def Let_def)
    next
      case (Inr step_input)
      obtain out eg1 where e: "execute_step en profile (ps_session_id st) rq ?ctx step step_input eg = (out, eg1)" by fastforce
      show ?thesis
      proof (cases out)
        case (StepSuccess v)
        let ?st = "record_step (step_id step) \<lparr>sr_output = v, sr_is_error = False, sr_duration_ms = step_duration_ms en eg eg1\<rparr> st"
        have "agree (execute_pipeline_steps en profile rq v ?st eg1)
          (binding_steps en profile rq config (clk_inst (eg_now en eg0)) (ps_current_step_index ?st) steps (ps_completed_steps ?st) v eg1)"
          by (rule Cons.IH) (use Cons.prems i in \<open>simp_all add: record_step_def\<close>)
        with StepSuccess e Inr False live turn run i(1) Cons.prems(4-6) show ?thesis
          by (simp add: plain_turn_def Let_def record_step_def)
      qed (use e Inr False live turn run i(1) Cons.prems(5-8) in \<open>simp_all add: plain_turn_def Let_def\<close>)
    qed
  qed
qed



end
