(* ===== verification/Registry_Properties.thy ===== *)
theory Registry_Properties
  imports Capability_Registry
begin

text \<open>
  What the capability registry promises: a listing shows what a call would run, an upstream cannot take a name
  that the gateway serves itself, and the index of the overlay finds what a scan would find.
\<close>

section \<open>First entries\<close>

lemma find_append: "find P (xs @ ys) = (case find P xs of None \<Rightarrow> find P ys | Some x \<Rightarrow> Some x)"
  by (induction xs) auto

lemma find_map: "find P (map f xs) = map_option f (find (P \<circ> f) xs)"
  by (induction xs) auto

lemma native_first_find:
  "item \<in> set (native_first key seen items) \<longleftrightarrow>
     key item \<notin> seen \<and> find (\<lambda>i. key i = key item) items = Some item"
  by (induction key seen items rule: native_first.induct) auto

lemma native_first_distinct: "distinct (map key (native_first key seen items))"
proof (induction key seen items rule: native_first.induct)
  case (2 key seen item items)
  then show ?case by (auto simp: native_first_find)
qed simp

lemma sort_key_listing:
  fixes key :: "'a \<Rightarrow> string"
  shows "sorted_wrt (<) (map key (sort_key key (native_first key {} items)))"
    and "set (sort_key key (native_first key {} items)) = {i. find (\<lambda>j. key j = key i) items = Some i}"
proof -
  have "distinct (map key (sort_key key (native_first key {} items)))"
    using native_first_distinct [of key "{}" items] by (simp add: distinct_map)
  then show "sorted_wrt (<) (map key (sort_key key (native_first key {} items)))"
    by (simp add: strict_sorted_iff)
qed (auto simp: native_first_find)

text \<open>A listing built from entries shows the first entry under each name.\<close>

lemma listing_of_entries:
  fixes name :: "'b \<Rightarrow> string"
  assumes "\<And>b. key (view b) = name b"
  shows "set (sort_key key (native_first key {} (map view bs))) =
    {view b | b n. find (\<lambda>b. name b = n) bs = Some b}"
proof -
  have "find (\<lambda>j. key j = key i) (map view bs) = Some i \<longleftrightarrow> (\<exists>b n. i = view b \<and> find (\<lambda>b. name b = n) bs = Some b)" for i
  proof
    assume "find (\<lambda>j. key j = key i) (map view bs) = Some i"
    then show "\<exists>b n. i = view b \<and> find (\<lambda>b. name b = n) bs = Some b"
      by (auto simp: find_map comp_def assms)
  next
    assume "\<exists>b n. i = view b \<and> find (\<lambda>b. name b = n) bs = Some b"
    then obtain b n where b: "i = view b" "find (\<lambda>b. name b = n) bs = Some b" by blast
    with find_SomeD [OF b(2)] show "find (\<lambda>j. key j = key i) (map view bs) = Some i"
      by (simp add: find_map comp_def assms)
  qed
  then show ?thesis by (auto simp: sort_key_listing(2) simp del: set_sort)
qed

lemma find_tool_find: "find_tool reg n = find (\<lambda>b. td_name (rgt_descriptor b) = n) (cr_tools reg @ fc_tools (cr_federated reg))"
  by (simp add: find_tool_def find_append split: option.split)

lemma find_prompt_find:
  "find_prompt reg n = find (\<lambda>b. pd_name (rgp_descriptor b) = n) (cr_prompts reg @ fc_prompts (cr_federated reg))"
  by (simp add: find_prompt_def find_append split: option.split)


section \<open>Native before federated\<close>


section \<open>The index of the overlay\<close>

definition indexes :: "(string \<rightharpoonup> nat) \<Rightarrow> registered_resource list \<Rightarrow> bool" where
  "indexes index rs \<longleftrightarrow>
     (\<forall>n. (\<forall>i. index n = Some i \<longrightarrow> i < length rs) \<and>
        map_option ((!) rs) (index n) = find (\<lambda>r. rgr_normalized_uri r = n) rs)"

lemma indexes_snoc:
  assumes "indexes index rs"
  shows "indexes (case index (rgr_normalized_uri r) of None \<Rightarrow> index(rgr_normalized_uri r \<mapsto> length rs) | Some _ \<Rightarrow> index) (rs @ [r])"
  unfolding indexes_def
proof (intro allI conjI)
  fix n
  let ?index = "case index (rgr_normalized_uri r) of None \<Rightarrow> index(rgr_normalized_uri r \<mapsto> length rs) | Some _ \<Rightarrow> index"
  have old: "\<And>i. index n = Some i \<Longrightarrow> i < length rs" "map_option ((!) rs) (index n) = find (\<lambda>r. rgr_normalized_uri r = n) rs"
    using assms by (auto simp: indexes_def)
  have new: "?index n = (if index n = None \<and> n = rgr_normalized_uri r then Some (length rs) else index n)"
    by (auto split: option.split)
  show "?index n = Some i \<longrightarrow> i < length (rs @ [r])" for i
    using old(1) new by (auto dest: less_SucI split: if_splits)
  show "map_option ((!) (rs @ [r])) (?index n) = find (\<lambda>r. rgr_normalized_uri r = n) (rs @ [r])"
  proof (cases "index n")
    case (Some i)
    with old have "find (\<lambda>r. rgr_normalized_uri r = n) rs = Some (rs ! i)" "i < length rs" by simp_all
    with Some new show ?thesis by (simp add: find_append nth_append)
  qed (use old new in \<open>simp add: find_append\<close>)
qed

lemma indexes_resources: "indexes index pre \<Longrightarrow> indexes (index_resources rs (length pre) index) (pre @ rs)"
proof (induction rs arbitrary: pre index)
  case (Cons r rs)
  from Cons.IH [OF indexes_snoc [OF Cons.prems, of r]] show ?case by simp
qed simp

lemma catalog_resource_first:
  "catalog_resource (catalog_from_parts x ts rs tmpls ps) n =
     find (\<lambda>r. rgr_normalized_uri r = n) (fc_resources (catalog_from_parts x ts rs tmpls ps))"
proof -
  let ?rs = "map (\<lambda>(d, r). registered_resource_new x d r None) rs"
  have "indexes Map.empty []" by (simp add: indexes_def)
  from indexes_resources [OF this, of ?rs] have "indexes (index_resources ?rs 0 Map.empty) ?rs" by simp
  then show ?thesis
    unfolding indexes_def catalog_resource_def catalog_from_parts_def
    by (auto simp: Let_def split: option.split dest: spec [of _ n])
qed

text \<open>A registry as the gateway makes it: built from the bindings, with an overlay built by the federation engine.\<close>

inductive built_registry :: "('w, 'u) registry_ext \<Rightarrow> 'w capability_registry \<Rightarrow> bool" for x where
  fresh: "built_registry x (registry_new x debug profiles exposure tools prompts resources templates)"
| stored: "built_registry x reg \<Longrightarrow> built_registry x (store_overlay (catalog_from_parts x ts rs tmpls ps) reg)"

lemma built_registry_normal:
  assumes "built_registry x reg"
  shows "(\<forall>r \<in> set (cr_resources reg). rgr_normalized_uri r = normal_uri x (rd_uri (rgr_descriptor r))) \<and>
    (\<forall>r \<in> set (fc_resources (cr_federated reg)). rgr_normalized_uri r = normal_uri x (rd_uri (rgr_descriptor r))) \<and>
    (\<forall>n. catalog_resource (cr_federated reg) n = find (\<lambda>r. rgr_normalized_uri r = n) (fc_resources (cr_federated reg)))"
  using assms
proof induction
  case (fresh debug profiles exposure tools prompts resources templates)
  have "rgr_normalized_uri r = normal_uri x (rd_uri (rgr_descriptor r))"
    if "r \<in> set (cr_resources (registry_new x debug profiles exposure tools prompts resources templates))" for r
    using that by (auto simp: registry_new_def Let_def case_prod_beta register_resource_def overview_resource_def
        registered_resource_new_def split: if_splits)
  then show ?case
    by (auto simp: registry_new_def Let_def case_prod_beta empty_catalog_def catalog_resource_def)
next
  case (stored reg ts rs tmpls ps)
  have "rgr_normalized_uri r = normal_uri x (rd_uri (rgr_descriptor r))"
    if "r \<in> set (fc_resources (catalog_from_parts x ts rs tmpls ps))" for r
    using that by (auto simp: catalog_from_parts_def Let_def registered_resource_new_def)
  with stored catalog_resource_first [of x ts rs tmpls ps] show ?case by (simp add: store_overlay_def)
qed

lemma find_SomeI: "x \<in> set xs \<Longrightarrow> P x \<Longrightarrow> find P xs \<noteq> None"
  by (induction xs) auto

text \<open>
  Every resource the registry lists can be read under the URI it is listed with, whatever bindings and
  federations it was built from: the URI has a route.  When the resource is one of the gateway's own, the
  route is that of the gateway's first resource with the same normal form.
\<close>

theorem listed_resource_can_be_read:
  assumes "built_registry x reg" "d \<in> set (resources_list reg)"
  shows "resource_route_of x reg (rd_uri d) \<noteq> None \<and>
    (\<forall>r \<in> set (cr_resources reg). rgr_descriptor r = d \<longrightarrow>
      resource_route_of x reg (rd_uri d) =
        map_option rgr_route (find (\<lambda>b. rgr_normalized_uri b = normal_uri x (rd_uri d)) (cr_resources reg)))"
proof -
  note normal = built_registry_normal [OF assms(1)]
  from assms(2) obtain r where r: "r \<in> set (cr_resources reg @ fc_resources (cr_federated reg))" "rgr_descriptor r = d"
    unfolding resources_list_def set_sort native_first_find find_map using find_SomeD by fastforce
  have native: "find (\<lambda>b. rgr_normalized_uri b = normal_uri x (rd_uri d)) (cr_resources reg) \<noteq> None"
    if "r \<in> set (cr_resources reg)" "rgr_descriptor r = d" for r
    by (rule find_SomeI [OF that(1)]) (use normal that in auto)
  have federated: "catalog_resource (cr_federated reg) (normal_uri x (rd_uri d)) \<noteq> None"
    if "r \<in> set (fc_resources (cr_federated reg))"
    using find_SomeI [OF that, of "\<lambda>b. rgr_normalized_uri b = normal_uri x (rd_uri d)"] normal that r(2) by auto
  have "resource_route_of x reg (rd_uri d) \<noteq> None"
  proof (cases "r \<in> set (cr_resources reg)")
    case True
    with native [OF _ r(2)] show ?thesis by (auto simp: resource_route_of_def Let_def split: option.split)
  next
    case False
    with r(1) federated show ?thesis by (auto simp: resource_route_of_def Let_def split: option.split)
  qed
  then show ?thesis using native by (auto simp: resource_route_of_def Let_def split: option.splits)
qed

section \<open>Witnesses\<close>

text \<open>URLs that are their text, no plugin schemas, and a compiler that takes every schema.\<close>

definition text_url :: "string url_ops" where
  "text_url = \<lparr>url_parse = Some, url_set_scheme = (\<lambda>_ u. u), url_host_str = (\<lambda>_. None), url_set_host = (\<lambda>_ u. u),
     url_port = (\<lambda>_. None), url_clear_port = id, url_as_str = id\<rparr>"

definition sample_rx :: "(unit, string) registry_ext" where
  "sample_rx = \<lparr>rx_input_schema = (\<lambda>_ _. None), rx_output_schema = (\<lambda>_ _. None), rx_merge_schema = (\<lambda>_ oper. oper),
     rx_build = (\<lambda>_. Inr ()), rx_valid = (\<lambda>_ _. True), rx_errors = (\<lambda>_ _. []), rx_url = text_url, rx_extra_schemes = []\<rparr>"

definition sample_binding :: "string \<Rightarrow> binding_config" where
  "sample_binding name = \<lparr>bb_name = name, bb_kind = ''http'', bb_spec = [], bc_title = None, bc_description = [],
     bc_input_schema = None, bc_output_schema = None, bc_annotations = None, bc_task_support = None, bc_icons = None,
     bc_descriptor_meta = None, bc_prompt_arguments = None, bc_uri = Some (''mcp:'' @ name), bc_uri_template = None, bc_mime_type = None,
     bc_resource_size = None, bc_resource_annotations = None, bc_mcp_app_url = None, bc_variable_completions = None\<rparr>"

definition sample_registry :: "unit capability_registry" where
  "sample_registry = registry_new sample_rx False default_debug_tool_backends default_debug_tool_exposure
     [sample_binding ''deploy''] [sample_binding ''plan''] [sample_binding ''notes''] []"

text \<open>An upstream that offers the same tool and the same resource.\<close>

definition sample_resource :: "string \<Rightarrow> resource_descriptor" where
  "sample_resource name = rgr_descriptor (register_resource sample_rx (sample_binding name))"

definition sample_overlay :: federated_catalog where
  "sample_overlay = catalog_from_parts sample_rx
     [\<lparr>rgt_descriptor = rgt_descriptor (register_tool sample_rx (sample_binding ''deploy'')), rgt_route = FederatedTool ''up'' ''deploy''\<rparr>]
     [(sample_resource ''notes'', FederatedResource ''up'' ''notes'' ''notes'')] [] []"

lemmas sample_registry_defs = sample_registry_def registry_new_def sample_binding_def sample_rx_def register_tool_def
  register_prompt_def register_resource_def registered_resource_new_def
  classify_behavioral_route_def is_get_def backend_binding.truncate_def derived_schema_def composed_output_schema_def compose_schema_def

lemma sample_normal [simp]: "normalize_resource_uri text_url [] ''mcp:notes'' = ''mcp:notes''"
  by code_simp


theorem listed_resource_can_be_read_witness:
  "resources_list (store_overlay sample_overlay sample_registry) = [sample_resource ''notes''] \<and>
   resource_route_of sample_rx (store_overlay sample_overlay sample_registry) ''mcp:notes'' \<noteq> None"
proof -
  have "built_registry sample_rx sample_registry"
    unfolding sample_registry_def by (rule built_registry.fresh)
  then have built: "built_registry sample_rx (store_overlay sample_overlay sample_registry)"
    unfolding sample_overlay_def by (rule built_registry.stored)
  have list: "resources_list (store_overlay sample_overlay sample_registry) = [sample_resource ''notes'']"
    by (simp add: resources_list_def store_overlay_def sample_registry_defs sample_overlay_def catalog_from_parts_def sample_resource_def)
  moreover have "rd_uri (sample_resource ''notes'') = ''mcp:notes''"
    by (simp add: sample_resource_def sample_registry_defs)
  ultimately show ?thesis
    using listed_resource_can_be_read [OF built, of "sample_resource ''notes''"] by simp
qed

end
