(* ===== verification/Resume_Properties.thy ===== *)
theory Resume_Properties
  imports Pipeline_Resume Engine_Properties Task_Properties Registry_Properties
begin

text \<open>
  What the client's answer to a suspended pipeline leads to, who may give it, and whom the reaper tells: the
  composition of the pipeline interpreter, its store and the handlers of the gateway.
\<close>

section \<open>Calls on the pipeline store\<close>

lemma on_pipelines_eq:
  "on_pipelines gw f gs =
     (let (r, s) = f (gs_now gw gs) (pst_kv (eg_store (gs_eng gs)))
      in (r, gs\<lparr>gs_eng := (gs_eng gs)\<lparr>eg_store := (eg_store (gs_eng gs))\<lparr>pst_kv := s\<rparr>\<rparr>\<rparr>))"
  by (simp add: on_pipelines_def on_kv_def gs_now_def case_prod_unfold Let_def)

abbreviation with_kv :: "'s \<Rightarrow> ('w, 's, 't, 'r) gateway_state \<Rightarrow> ('w, 's, 't, 'r) gateway_state" where
  "with_kv s gs \<equiv> gs\<lparr>gs_eng := (gs_eng gs)\<lparr>eg_store := (eg_store (gs_eng gs))\<lparr>pst_kv := s\<rparr>\<rparr>\<rparr>"

abbreviation kv_of :: "('w, 's, 't, 'r) gateway_state \<Rightarrow> 's" where
  "kv_of gs \<equiv> pst_kv (eg_store (gs_eng gs))"

lemma with_kv_now [simp]: "gs_now gw (with_kv s gs) = gs_now gw gs"
  by (simp add: gs_now_def eg_now_def)

context kv_store
begin

text \<open>A claim that wins: the row keeps all but its version, and the requests of the pipeline stay.\<close>

lemma try_claim_moves:
  assumes "ok s" "pipeline_codec x" "holds_pipeline x (view s) (clk_inst c) pid st" "storable st"
    and "live_at (view s) (clk_inst c) (pipeline_claim_key pid (ps_state_version st)) = None"
  obtains s' where "try_claim_pipeline kv x pid (ps_state_version st) c s = (Inr True, s')" "ok s'"
    "\<forall>t. clk_inst c \<le> t \<and> t < clk_inst c + pipeline_ttl \<longrightarrow>
       holds_pipeline x (view s') t pid (st\<lparr>ps_state_version := ps_state_version st + 1\<rparr>)"
    "\<forall>t k. clk_inst c \<le> t \<and> k \<noteq> pipeline_key pid \<and> k \<noteq> pipeline_claim_key pid (ps_state_version st) \<longrightarrow>
       live_at (view s') t k = live_at (view s) t k"
proof -
  let ?m = "pipeline_claim_key pid (ps_state_version st)" and ?st = "st\<lparr>ps_state_version := ps_state_version st + 1\<rparr>"
  obtain e s1 where
    g: "kv_get kv (pipeline_key pid) c s = (Inr (Some e), s1)" "pl_from_slice x (ent_bytes e) = Inr st"
    "ok s1" "same_from (clk_inst c) (view s1) (view s)" by (rule get_pipeline [OF assms(1,3)])
  have free: "live_at (view s1) (clk_inst c) ?m = None" using assms(5) same_from_live [OF g(4) le_refl] by simp
  from put_if_absent_law [OF g(3), of ?m "pl_text x ''1''" "Some pipeline_ttl" c] free obtain s2 where
    p: "kv_put_if_absent kv ?m (pl_text x ''1'') (Some pipeline_ttl) c s1 = (Inr True, s2)" "ok s2"
    "same_from (clk_inst c) (view s2) ((view s1)(?m \<mapsto> (pl_text x ''1'', Some (clk_inst c + pipeline_ttl))))" by auto
  have "storable ?st" using assms(4) by simp
  from put_pipeline [OF p(2) assms(2) this, of pid c] obtain b s3 where
    w: "pl_to_vec x ?st = Inr b" "kv_put kv (pipeline_key pid) b (Some pipeline_ttl) c s2 = (Inr (), s3)" "ok s3"
    "\<And>t. clk_inst c \<le> t \<Longrightarrow> t < clk_inst c + pipeline_ttl \<Longrightarrow> holds_pipeline x (view s3) t pid ?st"
    "\<And>t k. clk_inst c \<le> t \<Longrightarrow> k \<noteq> pipeline_key pid \<Longrightarrow> live_at (view s3) t k = live_at (view s2) t k" by metis
  show thesis
  proof (rule that [OF _ w(3)])
    show "try_claim_pipeline kv x pid (ps_state_version st) c s = (Inr True, s3)"
      using g(1,2) p(1) w(1,2) by (simp add: try_claim_pipeline_def numeral_3_eq_3)
    show "\<forall>t k. clk_inst c \<le> t \<and> k \<noteq> pipeline_key pid \<and> k \<noteq> ?m \<longrightarrow> live_at (view s3) t k = live_at (view s) t k"
      using w(5) same_from_live [OF p(3)] same_from_live [OF g(4)] by simp
  qed (use w(4) in blast)
qed

end

section \<open>Accepting an answer\<close>

text \<open>The row of a suspended pipeline and of a request it waits for are there, and the caller owns it.\<close>

definition answerable ::
  "('w, 's, 'v, 't, 'u, 'r, 'x, 'y) gateway \<Rightarrow> ('s \<Rightarrow> 'v rows) \<Rightarrow> request_context \<Rightarrow> string \<Rightarrow> pending_server_request \<Rightarrow> pipeline_state \<Rightarrow>
     nat \<Rightarrow> 's \<Rightarrow> bool" where
  "answerable gw view rc rid pending st t s \<longleftrightarrow>
     holds_request (en_px (gw_en gw)) (view s) t rid pending \<and>
     holds_pipeline (en_px (gw_en gw)) (view s) t (psr_pipeline_id pending) st \<and> storable st \<and>
     resumer_owns_pipeline (principal_id (rc_identity (ps_request_context st))) (ps_session_id st)
       (principal_id (rc_identity rc)) (rc_session_id rc)"

locale gateway_on_store = engine_on_store "gw_en gw" view ok
  for gw :: "('w, 's, 'v, 't, 'u, 'r, 'x, 'y) gateway" and view :: "'s \<Rightarrow> 'v rows" and ok
begin

abbreviation now_of :: "('w, 's, 't, 'r) gateway_state \<Rightarrow> nat" where
  "now_of gs \<equiv> clk_inst (gs_now gw gs)"

lemma load_suspended_law:
  assumes "ok (kv_of gs)" "holds_pipeline (en_px (gw_en gw)) (view (kv_of gs)) (now_of gs) pid st"
  obtains s' where "load_suspended gw pid gs = (Inr st, with_kv s' gs)" "ok s'" "same_from (now_of gs) (view s') (view (kv_of gs))"
proof -
  obtain s' where "load_pipeline (en_kv (gw_en gw)) (en_px (gw_en gw)) pid (gs_now gw gs) (kv_of gs) = (Inr (Some st), s')" "ok s'"
    "same_from (now_of gs) (view s') (view (kv_of gs))"
    by (rule load_pipeline_law [OF assms])
  then show thesis using that by (simp add: load_suspended_def on_pipelines_eq)
qed

lemma load_pending_law:
  assumes "ok (kv_of gs)" "holds_request (en_px (gw_en gw)) (view (kv_of gs)) (now_of gs) rid pending"
  obtains s' where "on_pipelines gw (load_pending_server_request (en_kv (gw_en gw)) (en_px (gw_en gw)) rid) gs = (Inr (Some pending), with_kv s' gs)"
    "ok s'" "same_from (now_of gs) (view s') (view (kv_of gs))"
proof -
  obtain s' where "load_pending_server_request (en_kv (gw_en gw)) (en_px (gw_en gw)) rid (gs_now gw gs) (kv_of gs) = (Inr (Some pending), s')" "ok s'"
    "same_from (now_of gs) (view s') (view (kv_of gs))"
    by (rule load_request_law [OF assms])
  then show thesis using that by (simp add: on_pipelines_eq)
qed

lemma accept_answer_law:
  assumes "ok (kv_of gs)" "answerable gw view rc rid pending st (now_of gs) (kv_of gs)"
    and "live_at (view (kv_of gs)) (now_of gs) (pipeline_claim_key (psr_pipeline_id pending) (ps_state_version st)) = None"
  obtains s' where "accept_answer gw rc rid gs = (Inr (pending, st), with_kv s' gs)" "ok s'"
    "\<forall>t. now_of gs \<le> t \<and> t < now_of gs + pipeline_ttl \<longrightarrow>
       holds_pipeline (en_px (gw_en gw)) (view s') t (psr_pipeline_id pending) (st\<lparr>ps_state_version := ps_state_version st + 1\<rparr>)"
    "\<forall>t k. now_of gs \<le> t \<and> k \<noteq> pipeline_key (psr_pipeline_id pending) \<and>
       k \<noteq> pipeline_claim_key (psr_pipeline_id pending) (ps_state_version st) \<longrightarrow> live_at (view s') t k = live_at (view (kv_of gs)) t k"
proof -
  let ?pid = "psr_pipeline_id pending" and ?x = "en_px (gw_en gw)"
  have a: "holds_request ?x (view (kv_of gs)) (now_of gs) rid pending" "holds_pipeline ?x (view (kv_of gs)) (now_of gs) ?pid st"
    "storable st" and own: "reject_foreign_pipeline_resumer gw rc st c = None" for c
    using assms(2) by (simp_all add: answerable_def reject_foreign_pipeline_resumer_def)
  obtain s1 where l: "on_pipelines gw (load_pending_server_request (en_kv (gw_en gw)) ?x rid) gs = (Inr (Some pending), with_kv s1 gs)"
    "ok s1" "same_from (now_of gs) (view s1) (view (kv_of gs))"
    by (rule load_pending_law [OF assms(1) a(1)])
  have same1: "live_at (view s1) t = live_at (view (kv_of gs)) t" if "now_of gs \<le> t" for t using same_from_live [OF l(3) that] .
  have h1: "holds_pipeline ?x (view (kv_of (with_kv s1 gs))) (now_of (with_kv s1 gs)) ?pid st" using a(2) same1 by (simp add: holds_pipeline_def)
  obtain s2 where p: "load_suspended gw ?pid (with_kv s1 gs) = (Inr st, with_kv s2 gs)" "ok s2" "same_from (now_of gs) (view s2) (view s1)"
    using load_suspended_law [OF _ h1] l(2) by auto
  have same2: "live_at (view s2) t = live_at (view (kv_of gs)) t" if "now_of gs \<le> t" for t using same_from_live [OF p(3) that] same1 [OF that] by simp
  have h2: "holds_pipeline ?x (view s2) (now_of gs) ?pid st" using a(2) same2 by (simp add: holds_pipeline_def)
  have free: "live_at (view s2) (now_of gs) (pipeline_claim_key ?pid (ps_state_version st)) = None" using assms(3) same2 by simp
  obtain s3 where cl: "try_claim_pipeline (en_kv (gw_en gw)) ?x ?pid (ps_state_version st) (gs_now gw gs) s2 = (Inr True, s3)" "ok s3"
    "\<forall>t. now_of gs \<le> t \<and> t < now_of gs + pipeline_ttl \<longrightarrow>
       holds_pipeline ?x (view s3) t ?pid (st\<lparr>ps_state_version := ps_state_version st + 1\<rparr>)"
    "\<forall>t k. now_of gs \<le> t \<and> k \<noteq> pipeline_key ?pid \<and> k \<noteq> pipeline_claim_key ?pid (ps_state_version st) \<longrightarrow>
       live_at (view s3) t k = live_at (view s2) t k"
    by (rule try_claim_moves [OF p(2) pipelines_read_back h2 a(3) free])
  show thesis
  proof (rule that [OF _ cl(2,3)])
    show "accept_answer gw rc rid gs = (Inr (pending, st), with_kv s3 gs)"
      using l(1) p(1) own cl(1) by (simp add: accept_answer_def claim_suspended_def on_pipelines_eq)
    show "\<forall>t k. now_of gs \<le> t \<and> k \<noteq> pipeline_key ?pid \<and> k \<noteq> pipeline_claim_key ?pid (ps_state_version st) \<longrightarrow>
       live_at (view s3) t k = live_at (view (kv_of gs)) t k" using cl(4) same2 by simp
  qed
qed

end

context gateway_on_store
begin

lemma foreign_law:
  assumes "ok (kv_of gs)" "holds_request (en_px (gw_en gw)) (view (kv_of gs)) (now_of gs) rid pending"
    and "holds_pipeline (en_px (gw_en gw)) (view (kv_of gs)) (now_of gs) (psr_pipeline_id pending) st"
    and "\<not> resumer_owns_pipeline (principal_id (rc_identity (ps_request_context st))) (ps_session_id st)
       (principal_id (rc_identity rc)) (rc_session_id rc)"
  obtains s' where "accept_answer gw rc rid gs = (Inl (no_pending gw rc (gs_now gw gs)), with_kv s' gs)"
    "same_from (now_of gs) (view s') (view (kv_of gs))"
proof -
  obtain s1 where l: "on_pipelines gw (load_pending_server_request (en_kv (gw_en gw)) (en_px (gw_en gw)) rid) gs = (Inr (Some pending), with_kv s1 gs)"
    "ok s1" "same_from (now_of gs) (view s1) (view (kv_of gs))"
    by (rule load_pending_law [OF assms(1,2)])
  have h1: "holds_pipeline (en_px (gw_en gw)) (view (kv_of (with_kv s1 gs))) (now_of (with_kv s1 gs)) (psr_pipeline_id pending) st"
    using assms(3) same_from_live [OF l(3) le_refl] by (simp add: holds_pipeline_def)
  obtain s2 where p: "load_suspended gw (psr_pipeline_id pending) (with_kv s1 gs) = (Inr st, with_kv s2 gs)" "same_from (now_of gs) (view s2) (view s1)"
    using load_suspended_law [OF _ h1] l(2) by auto
  show thesis
    by (rule that [of s2])
      (use l(1) p(1) assms(4) same_from_trans [OF p(2) l(3)] in \<open>simp_all add: accept_answer_def reject_foreign_pipeline_resumer_def\<close>)
qed

lemma unknown_law:
  assumes "ok (kv_of gs)" "live_at (view (kv_of gs)) (now_of gs) (pending_req_key rid) = None"
  shows "fst (accept_answer gw rc rid gs) = Inl (no_pending gw rc (gs_now gw gs))"
proof -
  obtain s' where "kv_get (en_kv (gw_en gw)) (pending_req_key rid) (gs_now gw gs) (kv_of gs) = (Inr None, s')"
    using get_cases [OF assms(1), of "pending_req_key rid" "gs_now gw gs" thesis] assms(2) by auto
  then show ?thesis by (simp add: accept_answer_def load_pending_server_request_def on_pipelines_eq)
qed

end

text \<open>
  C10.  Only the owner of a suspended pipeline can answer for it.  An answer from a caller with another principal, or from
  another session of an identified owner, changes nothing in the stores, and the response is the one an unknown
  request id gets, so it does not even show that the pipeline exists.
\<close>

theorem foreign_answer_is_refused:
  assumes "gateway_on_store gw view ok" "rl_bridge (gw_lib gw) = None" "ok (kv_of gs)"
    and "holds_request (en_px (gw_en gw)) (view (kv_of gs)) (clk_inst (gs_now gw gs)) rid pending"
    and "holds_pipeline (en_px (gw_en gw)) (view (kv_of gs)) (clk_inst (gs_now gw gs)) (psr_pipeline_id pending) st"
    and "principal_id (rc_identity rc) \<noteq> principal_id (rc_identity (ps_request_context st)) \<or>
         principal_id (rc_identity rc) \<noteq> None \<and> rc_session_id rc \<noteq> Some (ps_session_id st)"
    and "live_at (view (kv_of gs)) (clk_inst (gs_now gw gs)) (pending_req_key unknown) = None"
  shows "\<exists>response s'. handle_server_request_response gw rc (JStr rid) result error gs = (response, with_kv s' gs) \<and>
    same_from (clk_inst (gs_now gw gs)) (view s') (view (kv_of gs)) \<and>
    fst (handle_server_request_response gw rc (JStr unknown) result error gs) = response"
proof -
  have own: "\<not> resumer_owns_pipeline (principal_id (rc_identity (ps_request_context st))) (ps_session_id st)
       (principal_id (rc_identity rc)) (rc_session_id rc)"
    using assms(6) unfolding resumer_owns_pipeline_def by metis
  obtain s' where a: "accept_answer gw rc rid gs = (Inl (no_pending gw rc (gs_now gw gs)), with_kv s' gs)"
    "same_from (clk_inst (gs_now gw gs)) (view s') (view (kv_of gs))"
    by (rule gateway_on_store.foreign_law [OF assms(1,3,4,5) own])
  have u: "fst (accept_answer gw rc unknown gs) = Inl (no_pending gw rc (gs_now gw gs))"
    by (rule gateway_on_store.unknown_law [OF assms(1,3,7)])
  show ?thesis
    using a u assms(2)
    by (intro exI [of _ "no_pending gw rc (gs_now gw gs)"] exI [of _ s'])
      (auto simp: handle_server_request_response_def response_id_str_def offer_to_bridge_def split: prod.splits sum.splits)
qed

section \<open>Two answers\<close>

definition at_world :: "'w \<Rightarrow> ('w, 's, 't, 'r) gateway_state \<Rightarrow> ('w, 's, 't, 'r) gateway_state" where
  "at_world w gs = gs\<lparr>gs_eng := (gs_eng gs)\<lparr>eg_world := w\<rparr>\<rparr>"

lemma at_world_simps [simp]: "kv_of (at_world w gs) = kv_of gs" "gs_now gw (at_world w gs) = xe_now (en_ext (gw_en gw)) w"
  by (simp_all add: at_world_def gs_now_def eg_now_def)

lemma claim_key_next [simp]: "pipeline_claim_key pid (v + 1) \<noteq> pipeline_claim_key pid v"
  using show_nat_inj [of "v + 1" v] by (auto simp: pipeline_claim_key_def)

text \<open>
  C38.  A second answer that comes while the first one's run is under way is taken as well: the first claim moved the row to
  the next version and the request is forgotten only after the run, so the second answer finds both, claims
  the next version, and the steps after the question run twice.
\<close>

theorem second_answer_is_taken_too:
  assumes "gateway_on_store gw view ok" "ok (kv_of gs)"
    and "answerable gw view rc rid pending st (clk_inst (gs_now gw gs)) (kv_of gs)"
    and "\<forall>v. live_at (view (kv_of gs)) (clk_inst (gs_now gw gs)) (pipeline_claim_key (psr_pipeline_id pending) v) = None"
    and "clk_inst (gs_now gw gs) \<le> clk_inst (xe_now (en_ext (gw_en gw)) w)"
    and "clk_inst (xe_now (en_ext (gw_en gw)) w) < clk_inst (gs_now gw gs) + pipeline_ttl"
    and "holds_request (en_px (gw_en gw)) (view (kv_of gs)) (clk_inst (xe_now (en_ext (gw_en gw)) w)) rid pending"
  shows "\<exists>gs1 gs2. accept_answer gw rc rid gs = (Inr (pending, st), gs1) \<and>
    accept_answer gw rc rid (at_world w gs1) = (Inr (pending, st\<lparr>ps_state_version := ps_state_version st + 1\<rparr>), gs2)"
proof -
  let ?st = "st\<lparr>ps_state_version := ps_state_version st + 1\<rparr>" and ?t = "clk_inst (xe_now (en_ext (gw_en gw)) w)"
    and ?pid = "psr_pipeline_id pending" and ?x = "en_px (gw_en gw)"
  obtain s1 where a: "accept_answer gw rc rid gs = (Inr (pending, st), with_kv s1 gs)" "ok s1"
    "\<forall>t. clk_inst (gs_now gw gs) \<le> t \<and> t < clk_inst (gs_now gw gs) + pipeline_ttl \<longrightarrow> holds_pipeline ?x (view s1) t ?pid ?st"
    "\<forall>t k. clk_inst (gs_now gw gs) \<le> t \<and> k \<noteq> pipeline_key ?pid \<and> k \<noteq> pipeline_claim_key ?pid (ps_state_version st) \<longrightarrow>
       live_at (view s1) t k = live_at (view (kv_of gs)) t k"
    by (rule gateway_on_store.accept_answer_law [OF assms(1-3)]) (use assms(4) in auto)
  let ?gs1 = "at_world w (with_kv s1 gs)"
  have k: "live_at (view s1) ?t k = live_at (view (kv_of gs)) ?t k"
    if "k \<noteq> pipeline_key ?pid" "k \<noteq> pipeline_claim_key ?pid (ps_state_version st)" for k
    using a(4) assms(5) that by blast
  have "holds_request ?x (view s1) ?t rid pending" using assms(7) k [of "pending_req_key rid"] by (simp add: holds_request_def)
  then have ans: "answerable gw view rc rid pending ?st (clk_inst (gs_now gw ?gs1)) (kv_of ?gs1)"
    using assms(3,5,6) a(3) by (simp add: answerable_def)
  have "live_at (view (kv_of gs)) ?t (pipeline_claim_key ?pid (ps_state_version ?st)) = None"
    using assms(4,5) live_at_antimono by blast
  then have free: "live_at (view (kv_of ?gs1)) (clk_inst (gs_now gw ?gs1)) (pipeline_claim_key ?pid (ps_state_version ?st)) = None"
    using k [of "pipeline_claim_key ?pid (ps_state_version ?st)"] pipeline_key_not_claim [of ?pid ?pid "ps_state_version st + 1"]
      claim_key_next [of ?pid "ps_state_version st"] by simp
  obtain s2 where "accept_answer gw rc rid ?gs1 = (Inr (pending, ?st), with_kv s2 ?gs1)"
    by (rule gateway_on_store.accept_answer_law [OF assms(1) _ ans free]) (use a(2) in simp)
  with a(1) show ?thesis by blast
qed

section \<open>From the question to the answer\<close>

lemma persisted_context [simp]:
  "principal_id (rc_identity (ps_request_context (persisted st))) = principal_id (rc_identity (ps_request_context st))"
  "ps_session_id (persisted st) = ps_session_id st" "ps_tool_name (persisted st) = ps_tool_name st"
  by (simp_all add: persisted_def)

lemma suspended_context [simp]:
  "ps_request_context (suspended_state now pending t st) = ps_request_context st" "ps_session_id (suspended_state now pending t st) = ps_session_id st"
  "ps_tool_name (suspended_state now pending t st) = ps_tool_name st"
  by (simp_all add: suspended_state_def)


section \<open>A sample gateway\<close>

definition sample_resume_lib :: "nat resume_lib" where
  "sample_resume_lib = \<lparr>rl_render = (\<lambda>_. ''1''), rl_rfc3339 = show_nat, rl_nonce = (\<lambda>w. (''nonce-12byte'', w)), rl_bridge = None,
     rl_error_to_value = (\<lambda>e. Some (JStr (err_message e))), rl_request_to_value = srq_params, rl_response_to_value = (\<lambda>_ v. v),
     rl_rpc_error_to_value = (\<lambda>_ e. JStr (err_message e)),
     rl_result_to_value = (\<lambda>r. Inr (JObj [(''isError'', JBool (tcr_is_error r))])), rl_task_notification = (\<lambda>_ t. JStr (t_task_id t)),
     rl_related_task_meta = (\<lambda>params _. params), rl_from_str = Inl, rl_prompt_messages = (\<lambda>_. Inr []),
     rl_prompt_to_value = (\<lambda>ms. Inr (JArr ms)), rl_input_required = (\<lambda>rs _. Inr (JStr rs)), rl_debug_string = id\<rparr>"

abbreviation asking_steps :: "pipeline_step list" where
  "asking_steps \<equiv> [mock_step, ask_step, progress_done]"

definition sample_gateway ::
  "(nat, pipeline_payload memory, pipeline_payload, (task_record + string) memory, task_record + string, string memory, unit, string) gateway" where
  "sample_gateway = \<lparr>gw_en = sample_engine asking_steps, gw_lib = sample_resume_lib, gw_task_kv = memory_kv (plain_lib (Inr [])),
     gw_task_ext = inline_ext, gw_task_policy = default_task_policy, gw_codec = Some sample_codec, gw_registry_ext = sample_rx,
     gw_registry = default_registry sample_rx, gw_debug_enabled = False\<rparr>"

lemma sample_gateway_fields [simp]:
  "gw_en sample_gateway = sample_engine asking_steps" "gw_lib sample_gateway = sample_resume_lib"
  "rl_bridge sample_resume_lib = None" "xe_now sample_lib = at_ms"
  by (simp_all add: sample_gateway_def sample_resume_lib_def sample_lib_def)

interpretation sample_gateway: gateway_on_store sample_gateway memory_view memory_ok
  using sample_run.engine_on_store_axioms by (simp add: gateway_on_store_def)

text \<open>The gateway at a time, with the pipeline store an earlier run left.\<close>

definition sample_state ::
  "nat \<Rightarrow> pipeline_payload memory pipeline_store \<Rightarrow> (nat, pipeline_payload memory, (task_record + string) memory, string memory) gateway_state" where
  "sample_state w ps = \<lparr>gs_eng = \<lparr>eg_world = w, eg_store = ps, eg_progress = (\<lambda>_ _. None)\<rparr>,
     gs_tasks = \<lparr>ts_kv = [], ts_observer = None\<rparr>, gs_blobs = []\<rparr>"

lemma sample_state_simps [simp]:
  "gs_now sample_gateway (sample_state w ps) = at_ms w" "eg_store (gs_eng (sample_state w ps)) = ps"
  by (simp_all add: sample_state_def gs_now_def eg_now_def)

lemma unmarked: "map fst m = [''pipeline:p1'', ''pipeline-rpc:s1:1'', ''pending_req:q1''] \<Longrightarrow>
    live_at (memory_view m) t (pipeline_claim_key ''p1'' v) = None"
proof -
  assume keys: "map fst m = [''pipeline:p1'', ''pipeline-rpc:s1:1'', ''pending_req:q1'']"
  have "pipeline_claim_key ''p1'' v \<notin> set (map fst m)" unfolding keys by (simp add: pipeline_claim_key_def)
  then have "map_of m (pipeline_claim_key ''p1'' v) = None" by (simp add: map_of_eq_None_iff)
  then show ?thesis by (simp add: live_memory_view)
qed


text \<open>A row of each kind, as a suspended run leaves them.\<close>

definition asked_row :: pending_server_request where
  "asked_row = \<lparr>psr_server_request_id = ''q1'', psr_pipeline_id = ''p1'', psr_session_id = ''s1'', psr_step_id = ''e'', psr_timeout_ms = 60000,
     psr_created_at = 0\<rparr>"

definition asked_rows :: "pipeline_payload memory pipeline_store" where
  "asked_rows = \<lparr>pst_kv = pipeline_rows 0 @
     [(''pending_req:q1'', \<lparr>se_bytes = PRequest asked_row, se_expires_system = None, se_expires_instant = Some (from_millis 1000)\<rparr>)],
     pst_sessions_with_pending = {}\<rparr>"

lemma asked_rows_hold [simp]:
  "memory_ok (pst_kv asked_rows)"
  "t < from_millis 1000 \<Longrightarrow> holds_request sample_px (memory_view (pst_kv asked_rows)) t ''q1'' asked_row"
  "t < from_millis 1000 \<Longrightarrow> holds_pipeline sample_px (memory_view (pst_kv asked_rows)) t ''p1'' (sample_pipeline 0)"
  "live_at (memory_view (pst_kv asked_rows)) t (pipeline_claim_key ''p1'' v) = None"
  "live_at (memory_view (pst_kv asked_rows)) t (pending_req_key ''q2'') = None"
  by (simp_all add: asked_rows_def pipeline_rows_def memory_ok_def holds_request_def holds_pipeline_def live_memory_view pending_req_key_def
      pipeline_key_def pipeline_claim_key_def is_expired_def sample_px_def)

definition mallory :: request_context where
  "mallory = sample_context\<lparr>rc_identity := HttpHeader ''mallory'' ''test''\<rparr>"

theorem foreign_answer_is_refused_witness:
  "\<exists>response s'. handle_server_request_response sample_gateway mallory (JStr ''q1'') (Some (JStr ''yes'')) None (sample_state 5 asked_rows) =
      (response, with_kv s' (sample_state 5 asked_rows)) \<and> same_from (from_millis 5) (memory_view s') (memory_view (pst_kv asked_rows)) \<and>
    fst (handle_server_request_response sample_gateway mallory (JStr ''q2'') (Some (JStr ''yes'')) None (sample_state 5 asked_rows)) = response"
proof -
  have pid: "psr_pipeline_id asked_row = ''p1''" by (simp add: asked_row_def)
  have other: "principal_id (rc_identity mallory) \<noteq> principal_id (rc_identity (ps_request_context (sample_pipeline 0)))"
    by (simp add: mallory_def sample_pipeline_def sample_context_def)
  have "\<exists>response s'. handle_server_request_response sample_gateway mallory (JStr ''q1'') (Some (JStr ''yes'')) None (sample_state 5 asked_rows) =
      (response, with_kv s' (sample_state 5 asked_rows)) \<and>
    same_from (clk_inst (gs_now sample_gateway (sample_state 5 asked_rows))) (memory_view s') (memory_view (kv_of (sample_state 5 asked_rows))) \<and>
    fst (handle_server_request_response sample_gateway mallory (JStr ''q2'') (Some (JStr ''yes'')) None (sample_state 5 asked_rows)) = response"
    by (rule foreign_answer_is_refused [OF sample_gateway.gateway_on_store_axioms, where pending = asked_row and st = "sample_pipeline 0"])
      (simp_all add: pid other from_millis_def)
  then show ?thesis unfolding sample_state_simps at_ms_simps .
qed

theorem second_answer_is_taken_too_witness:
  "\<exists>gs1 gs2. accept_answer sample_gateway sample_context ''q1'' (sample_state 5 asked_rows) = (Inr (asked_row, sample_pipeline 0), gs1) \<and>
    accept_answer sample_gateway sample_context ''q1'' (at_world 6 gs1) = (Inr (asked_row, (sample_pipeline 0)\<lparr>ps_state_version := 2\<rparr>), gs2)"
proof -
  have pid: "psr_pipeline_id asked_row = ''p1''" by (simp add: asked_row_def)
  have own: "resumer_owns_pipeline (principal_id (rc_identity (ps_request_context (sample_pipeline 0)))) (ps_session_id (sample_pipeline 0))
      (principal_id (rc_identity sample_context)) (rc_session_id sample_context)"
    by (simp add: sample_pipeline_def sample_context_def resumer_owns_pipeline_def)
  have v: "ps_state_version (sample_pipeline 0) + 1 = 2" by simp
  have "\<exists>gs1 gs2. accept_answer sample_gateway sample_context ''q1'' (sample_state 5 asked_rows) = (Inr (asked_row, sample_pipeline 0), gs1) \<and>
    accept_answer sample_gateway sample_context ''q1'' (at_world 6 gs1) =
      (Inr (asked_row, (sample_pipeline 0)\<lparr>ps_state_version := ps_state_version (sample_pipeline 0) + 1\<rparr>), gs2)"
    by (rule second_answer_is_taken_too [OF sample_gateway.gateway_on_store_axioms])
      (simp_all add: answerable_def pid own from_millis_def pipeline_ttl_def from_secs_def)
  then show ?thesis unfolding v .
qed

section \<open>The last step\<close>

text \<open>
  C40.  The answer to a question that is the last step of its pipeline is lost.  Whatever the client answers, a value or an
  error, the response and the state of the gateway are the same: the pipeline completes with the result \<open>null\<close>.
\<close>

theorem last_answer_is_lost:
  assumes "gateway_on_store gw view ok" "rl_bridge (gw_lib gw) = None" "ok (kv_of gs)"
    and "answerable gw view rc rid pending st (clk_inst (gs_now gw gs)) (kv_of gs)"
    and "live_at (view (kv_of gs)) (clk_inst (gs_now gw gs)) (pipeline_claim_key (psr_pipeline_id pending) (ps_state_version st)) = None"
    and "Suc (ps_current_step_index st) = length (ps_steps st)"
  shows "\<exists>gs'. \<forall>result error. handle_server_request_response gw rc (JStr rid) result error gs =
    finish_answer gw rc rid pending st (OutcomeComplete (completed_result (en_ext (gw_en gw)) JNull)) gs'"
proof -
  obtain s' where acc: "accept_answer gw rc rid gs = (Inr (pending, st), with_kv s' gs)"
    by (rule gateway_on_store.accept_answer_law [OF assms(1,3-5)])
  have "resume_pipeline (gw_en gw) st answer eg = (OutcomeComplete (completed_result (en_ext (gw_en gw)) JNull), eg)" for answer eg
    using assms(6) by (simp add: resume_pipeline_def with_answer_def execute_pipeline_steps.simps)
  then have "run_resumed gw st answer (with_kv s' gs) = (OutcomeComplete (completed_result (en_ext (gw_en gw)) JNull), with_kv s' gs)" for answer
    by (simp add: run_resumed_def)
  with acc assms(2) show ?thesis
    by (intro exI [of _ "with_kv s' gs"]) (simp add: handle_server_request_response_def response_id_str_def offer_to_bridge_def)
qed

definition asking_pipeline :: pipeline_state where
  "asking_pipeline = (sample_pipeline 0)\<lparr>ps_steps := [ask_step], ps_current_step_index := 0\<rparr>"

definition asking_rows :: "pipeline_payload memory pipeline_store" where
  "asking_rows = \<lparr>pst_kv = [(''pipeline:p1'', \<lparr>se_bytes = PState asking_pipeline, se_expires_system = None, se_expires_instant = None\<rparr>),
     (''pending_req:q1'', \<lparr>se_bytes = PRequest asked_row, se_expires_system = None, se_expires_instant = None\<rparr>)],
     pst_sessions_with_pending = {}\<rparr>"

theorem last_answer_is_lost_witness:
  "\<exists>gs'. \<forall>result error. handle_server_request_response sample_gateway sample_context (JStr ''q1'') result error (sample_state 5 asking_rows) =
    finish_answer sample_gateway sample_context ''q1'' asked_row asking_pipeline
      (OutcomeComplete (completed_result (en_ext (gw_en sample_gateway)) JNull)) gs'"
  by (rule last_answer_is_lost [OF sample_gateway.gateway_on_store_axioms])
    (simp_all add: answerable_def asking_pipeline_def asking_rows_def asked_row_def sample_pipeline_def sample_context_def storable_def
      resumer_owns_pipeline_def memory_ok_def holds_request_def holds_pipeline_def live_memory_view pending_req_key_def pipeline_key_def
      pipeline_claim_key_def is_expired_def sample_px_def)

end
