(* ===== verification/Reaper_Properties.thy ===== *)
theory Reaper_Properties
  imports Resume_Properties
begin

text \<open>
  The reaper of suspended pipelines: which pipelines a sweep removes, whom it tells, and a pipeline it should leave
  alone.
\<close>

section \<open>One sweep\<close>

text \<open>Every row under the prefix of the pipelines is kept under the id it holds.\<close>

definition well_keyed :: "'v pipeline_ext \<Rightarrow> 'v rows \<Rightarrow> nat \<Rightarrow> bool" where
  "well_keyed x m t \<longleftrightarrow> (\<forall>k b d st. live_at m t k = Some (b, d) \<and> prefix ''pipeline:'' k \<and> pl_from_slice x b = Inr st \<longrightarrow>
     k = pipeline_key (ps_pipeline_id st))"

definition elicitation_error :: "pipeline_state \<Rightarrow> terminal_error" where
  "elicitation_error st =
     (ps_session_id st, ps_original_jsonrpc_id st, TIMEOUT_ERROR_CODE, ''elicitation timed out waiting for client response'')"

definition timeout_error :: "pipeline_state \<Rightarrow> terminal_error" where
  "timeout_error st = (ps_session_id st, ps_original_jsonrpc_id st, TIMEOUT_ERROR_CODE, ''pipeline timed out before completion'')"

definition pipeline_over :: "clock \<Rightarrow> pipeline_state \<Rightarrow> bool" where
  "pipeline_over c st \<longleftrightarrow> ps_pipeline_timeout_ms st \<le> elapsed_u64 (clk_utc c) (ps_created_at st)"

lemma prefix_pipeline_key [simp]: "prefix ''pipeline:'' (pipeline_key pid)"
  by (simp add: pipeline_key_def)

lemma pipeline_key_inj [simp]: "pipeline_key a = pipeline_key b \<longleftrightarrow> a = b"
  by (simp add: pipeline_key_def)

text \<open>What is live after the pipelines of some ids were deleted.\<close>

definition without :: "string set \<Rightarrow> nat \<Rightarrow> 'v rows \<Rightarrow> 'v rows \<Rightarrow> bool" where
  "without pids now m' m \<longleftrightarrow> (\<forall>t \<ge> now. \<forall>k. live_at m' t k = (if k \<in> pipeline_key ` pids then None else live_at m t k))"

lemma without_same [simp]: "same_from now m' m \<Longrightarrow> without {} now m' m"
  by (simp add: without_def same_from_def)

lemma without_trans: "without A now m' m \<Longrightarrow> without B now m'' m' \<Longrightarrow> without (A \<union> B) now m'' m"
  by (auto simp: without_def)

lemma well_keyed_without: "well_keyed x m t \<Longrightarrow> without A t m' m \<Longrightarrow> well_keyed x m' t"
  by (auto simp: well_keyed_def without_def split: if_splits)

lemma holds_without:
  "without A now m' m \<Longrightarrow> now \<le> t \<Longrightarrow> holds_pipeline x m' t pid st \<longleftrightarrow> pid \<notin> A \<and> holds_pipeline x m t pid st"
  by (auto simp: without_def holds_pipeline_def)

context kv_store
begin

lemma delete_pipeline_law:
  assumes "ok s"
  obtains s' where "delete_pipeline kv pid c s = (Inr (), s')" "ok s'" "without {pid} (clk_inst c) (view s') (view s)"
proof -
  from delete_law [OF assms, of "pipeline_key pid" c] obtain b s' where
    "kv_delete kv (pipeline_key pid) c s = (Inr b, s')" "ok s'" "same_from (clk_inst c) (view s') ((view s)(pipeline_key pid := None))"
    by blast
  then show thesis by (intro that [of s']) (auto simp: delete_pipeline_def without_def same_from_def)
qed

lemma reap_elicitations_law:
  assumes "ok s"
  shows "\<exists>s'. reap_elicitations kv (map (\<lambda>st. (ps_pipeline_id st, ps_session_id st, ps_original_jsonrpc_id st)) sts) c s =
      ((map elicitation_error sts, length sts), s') \<and> ok s' \<and> without (ps_pipeline_id ` set sts) (clk_inst c) (view s') (view s)"
  using assms
proof (induction sts arbitrary: s)
  case (Cons st sts)
  obtain s1 where d: "delete_pipeline kv (ps_pipeline_id st) c s = (Inr (), s1)" "ok s1"
    "without {ps_pipeline_id st} (clk_inst c) (view s1) (view s)" by (rule delete_pipeline_law [OF Cons.prems])
  from Cons.IH [OF d(2)] without_trans [OF d(3)] d(1) show ?case by (auto simp: elicitation_error_def)
qed simp

text \<open>The state a sweep reads before it deletes an expired pipeline.\<close>

lemma suspended_owner_law:
  assumes "ok s" "holds_pipeline x (view s) (clk_inst c) pid st"
  obtains s' where "suspended_owner kv x pid c s =
      (if ps_suspended_at st \<noteq> None then Some (ps_session_id st, ps_original_jsonrpc_id st) else None, s')" "ok s'"
    "same_from (clk_inst c) (view s') (view s)"
proof -
  obtain s' where "load_pipeline kv x pid c s = (Inr (Some st), s')" "ok s'" "same_from (clk_inst c) (view s') (view s)"
    by (rule load_pipeline_law [OF assms])
  then show thesis by (intro that [of s']) (simp_all add: suspended_owner_def)
qed

lemma reap_expired_law:
  assumes "ok s" "\<forall>st \<in> set sts. holds_pipeline x (view s) (clk_inst c) (ps_pipeline_id st) st" "distinct (map ps_pipeline_id sts)"
  shows "\<exists>s'. reap_expired kv x (map ps_pipeline_id sts) c s =
      ((map timeout_error (filter (\<lambda>st. ps_suspended_at st \<noteq> None) sts), length sts), s') \<and> ok s' \<and>
    without (ps_pipeline_id ` set sts) (clk_inst c) (view s') (view s)"
  using assms
proof (induction sts arbitrary: s)
  case (Cons st sts)
  have "holds_pipeline x (view s) (clk_inst c) (ps_pipeline_id st) st" using Cons.prems(2) by simp
  then obtain s1 where o: "suspended_owner kv x (ps_pipeline_id st) c s =
      (if ps_suspended_at st \<noteq> None then Some (ps_session_id st, ps_original_jsonrpc_id st) else None, s1)" "ok s1"
    "same_from (clk_inst c) (view s1) (view s)" by (rule suspended_owner_law [OF Cons.prems(1)])
  obtain s2 where d: "delete_pipeline kv (ps_pipeline_id st) c s1 = (Inr (), s2)" "ok s2"
    "without {ps_pipeline_id st} (clk_inst c) (view s2) (view s1)" by (rule delete_pipeline_law [OF o(2)])
  have w: "without {ps_pipeline_id st} (clk_inst c) (view s2) (view s)" using without_trans [OF without_same [OF o(3)] d(3)] by simp
  have "\<forall>st' \<in> set sts. holds_pipeline x (view s2) (clk_inst c) (ps_pipeline_id st') st'"
  proof
    fix st' assume st': "st' \<in> set sts"
    then have "ps_pipeline_id st' \<in> ps_pipeline_id ` set sts" by (rule imageI)
    then have "ps_pipeline_id st' \<notin> {ps_pipeline_id st}" using Cons.prems(3) by auto
    with st' Cons.prems(2) show "holds_pipeline x (view s2) (clk_inst c) (ps_pipeline_id st') st'"
      unfolding holds_without [OF w le_refl] by simp
  qed
  from Cons.IH [OF d(2) this] Cons.prems(3) obtain s3 where
    "reap_expired kv x (map ps_pipeline_id sts) c s2 = ((map timeout_error (filter (\<lambda>st. ps_suspended_at st \<noteq> None) sts), length sts), s3)"
    "ok s3" "without (ps_pipeline_id ` set sts) (clk_inst c) (view s3) (view s2)" by auto
  with o(1) d(1) without_trans [OF w] show ?case by (auto simp: timeout_error_def)
qed simp

end

context kv_listing
begin

lemma all_pipelines_law:
  assumes "ok s" "well_keyed x (view s) (clk_inst c)"
  obtains sts s' where "all_pipelines kv x list_all_rows c s = (Inr sts, s')" "ok s'" "same_from (clk_inst c) (view s') (view s)"
    "distinct (map ps_pipeline_id sts)" "\<forall>st. st \<in> set sts \<longleftrightarrow> holds_pipeline x (view s) (clk_inst c) (ps_pipeline_id st) st"
proof -
  let ?dec = "\<lambda>(_, v). case pl_from_slice x (ent_bytes v) of Inl _ \<Rightarrow> None | Inr st \<Rightarrow> Some st"
  from list_all_law [OF assms(1), of "''pipeline:''" c] obtain rows s' where
    la: "list_all_rows kv ''pipeline:'' c s = (Inr rows, s')" "ok s'" "distinct (map fst rows)"
    and sound: "\<forall>(k, e) \<in> set rows. prefix ''pipeline:'' k \<and> (\<exists>d. live_at (view s) (clk_inst c) k = Some (ent_bytes e, d))"
    and all: "{k. prefix ''pipeline:'' k \<and> live_at (view s) (clk_inst c) k \<noteq> None} \<subseteq> fst ` set rows"
    and same: "same_from (clk_inst c) (view s') (view s)" by blast
  have key: "k = pipeline_key (ps_pipeline_id st)" if "(k, e) \<in> set rows" "pl_from_slice x (ent_bytes e) = Inr st" for k e st
    using sound assms(2) that unfolding well_keyed_def by fastforce
  have dist: "distinct (map ps_pipeline_id (List.map_filter ?dec rows'))" if "distinct (map fst rows')" "set rows' \<subseteq> set rows" for rows'
    using that
  proof (induction rows')
    case (Cons row rows')
    obtain k e where row: "row = (k, e)" by fastforce
    show ?case
    proof (cases "pl_from_slice x (ent_bytes e)")
      case (Inr st)
      have "ps_pipeline_id st \<notin> ps_pipeline_id ` set (List.map_filter ?dec rows')"
      proof
        assume "ps_pipeline_id st \<in> ps_pipeline_id ` set (List.map_filter ?dec rows')"
        then obtain k' e' st' where r: "(k', e') \<in> set rows'" "pl_from_slice x (ent_bytes e') = Inr st'" "ps_pipeline_id st' = ps_pipeline_id st"
          by (auto simp: map_filter_def split: sum.splits)
        then have "k' = k" using key [of k' e' st'] key [of k e st] Inr Cons.prems(2) row by auto
        with r(1) Cons.prems(1) row show False by force
      qed
      with Cons Inr row show ?thesis by (simp add: List.map_filter_simps)
    qed (use Cons row in \<open>simp add: List.map_filter_simps\<close>)
  qed simp
  have mem: "st \<in> set (List.map_filter ?dec rows) \<longleftrightarrow> holds_pipeline x (view s) (clk_inst c) (ps_pipeline_id st) st" for st
  proof
    assume "st \<in> set (List.map_filter ?dec rows)"
    then obtain k e where r: "(k, e) \<in> set rows" "pl_from_slice x (ent_bytes e) = Inr st"
      by (auto simp: map_filter_def split: sum.splits)
    with sound key [OF r] show "holds_pipeline x (view s) (clk_inst c) (ps_pipeline_id st) st" by (fastforce simp: holds_pipeline_def)
  next
    assume "holds_pipeline x (view s) (clk_inst c) (ps_pipeline_id st) st"
    then obtain b d where b: "live_at (view s) (clk_inst c) (pipeline_key (ps_pipeline_id st)) = Some (b, d)" "pl_from_slice x b = Inr st"
      by (auto simp: holds_pipeline_def)
    then have "pipeline_key (ps_pipeline_id st) \<in> fst ` set rows" using all by auto
    then obtain e where e: "(pipeline_key (ps_pipeline_id st), e) \<in> set rows" by force
    with sound b(1) have "ent_bytes e = b" by fastforce
    with e b(2) show "st \<in> set (List.map_filter ?dec rows)" by (force simp: map_filter_def image_iff)
  qed
  show thesis
    by (rule that [of "List.map_filter ?dec rows" s']) (use la same dist mem in \<open>simp_all add: all_pipelines_def\<close>)
qed

lemma sweep_law:
  assumes "ok s" "well_keyed x (view s) (clk_inst c)"
  shows "\<exists>timed_out expired s'. sweep_and_collect_deliveries kv x list_all_rows c s =
      ((map elicitation_error timed_out @ map timeout_error (filter (\<lambda>st. ps_suspended_at st \<noteq> None) expired),
        length timed_out + length expired), s') \<and>
    distinct (map ps_pipeline_id (timed_out @ expired)) \<and>
    (\<forall>st. st \<in> set timed_out \<longleftrightarrow> holds_pipeline x (view s) (clk_inst c) (ps_pipeline_id st) st \<and> elicitation_over c st) \<and>
    (\<forall>st. st \<in> set expired \<longleftrightarrow> holds_pipeline x (view s) (clk_inst c) (ps_pipeline_id st) st \<and> \<not> elicitation_over c st \<and> pipeline_over c st) \<and>
    without (ps_pipeline_id ` set (timed_out @ expired)) (clk_inst c) (view s') (view s)"
proof -
  obtain sts s0 where l: "all_pipelines kv x list_all_rows c s = (Inr sts, s0)" "ok s0" "same_from (clk_inst c) (view s0) (view s)"
    "distinct (map ps_pipeline_id sts)" "\<forall>st. st \<in> set sts \<longleftrightarrow> holds_pipeline x (view s) (clk_inst c) (ps_pipeline_id st) st"
    by (rule all_pipelines_law [OF assms])
  let ?a = "filter (elicitation_over c) sts"
  obtain s1 where r: "reap_elicitations kv (map (\<lambda>st. (ps_pipeline_id st, ps_session_id st, ps_original_jsonrpc_id st)) ?a) c s0 =
      ((map elicitation_error ?a, length ?a), s1)" "ok s1" "without (ps_pipeline_id ` set ?a) (clk_inst c) (view s1) (view s0)"
    using reap_elicitations_law [OF l(2)] by blast
  have w1: "without (ps_pipeline_id ` set ?a) (clk_inst c) (view s1) (view s)" using without_trans [OF without_same [OF l(3)] r(3)] by simp
  obtain sts' s2 where m: "all_pipelines kv x list_all_rows c s1 = (Inr sts', s2)" "ok s2" "same_from (clk_inst c) (view s2) (view s1)"
    "distinct (map ps_pipeline_id sts')" "\<forall>st. st \<in> set sts' \<longleftrightarrow> holds_pipeline x (view s1) (clk_inst c) (ps_pipeline_id st) st"
    by (rule all_pipelines_law [OF r(2) well_keyed_without [OF assms(2) w1]])
  let ?b = "filter (pipeline_over c) sts'"
  have same_id: "st = st'" if "st \<in> set sts" "st' \<in> set sts" "ps_pipeline_id st = ps_pipeline_id st'" for st st'
    using l(4) that by (metis distinct_map inj_onD)
  have over: "ps_pipeline_id st \<notin> ps_pipeline_id ` set ?a \<longleftrightarrow> \<not> elicitation_over c st" if "st \<in> set sts" for st
    using same_id [OF that] that by auto
  have b: "st \<in> set ?b \<longleftrightarrow> st \<in> set sts \<and> \<not> elicitation_over c st \<and> pipeline_over c st" for st
    using m(5) l(5) over [of st] unfolding holds_without [OF w1 le_refl] set_filter by blast
  have "\<forall>st \<in> set ?b. holds_pipeline x (view s2) (clk_inst c) (ps_pipeline_id st) st"
    using m(5) same_from_live [OF m(3) le_refl] by (simp add: holds_pipeline_def)
  from reap_expired_law [OF m(2) this] m(4) obtain s3 where
    e: "reap_expired kv x (map ps_pipeline_id ?b) c s2 =
      ((map timeout_error (filter (\<lambda>st. ps_suspended_at st \<noteq> None) ?b), length ?b), s3)"
    "without (ps_pipeline_id ` set ?b) (clk_inst c) (view s3) (view s2)" by (auto simp: distinct_map_filter)
  have "without (ps_pipeline_id ` set (?a @ ?b)) (clk_inst c) (view s3) (view s)"
    using without_trans [OF without_trans [OF w1 without_same [OF m(3)]] e(2)] by (simp add: image_Un)
  moreover have "distinct (map ps_pipeline_id (?a @ ?b))"
    using l(4) m(4) b same_id by (auto simp: distinct_map_filter)
  moreover have over_eq: "filter (\<lambda>st. ps_pipeline_timeout_ms st \<le> elapsed_u64 (clk_utc c) (ps_created_at st)) sts' = ?b"
    by (rule filter_cong) (simp_all add: pipeline_over_def)
  have "sweep_and_collect_deliveries kv x list_all_rows c s =
      ((map elicitation_error ?a @ map timeout_error (filter (\<lambda>st. ps_suspended_at st \<noteq> None) ?b), length ?a + length ?b), s3)"
    using l(1) r(1) m(1) e(1)
    by (simp add: sweep_and_collect_deliveries_def list_elicitation_timed_out_def list_expired_pipelines_def over_eq)
  ultimately show ?thesis using l(5) b by (intro exI [of _ ?a] exI [of _ ?b] exI [of _ s3]) auto
qed

end

text \<open>
  C17.  A sweep of the reaper removes exactly the pipelines that are over, and tells each suspended one's caller exactly once.  It
  removes those whose question went unanswered for the step's timeout, and of the others those older than the
  pipeline's timeout; every caller of the first kind gets the elicitation error, every suspended caller of the second
  kind the pipeline error, and nothing else is sent.  All other pipelines stay as they are.
\<close>

theorem reaper_tells_each_caller_once:
  assumes "kv_listing kv view ok la" "ok s" "well_keyed x (view s) (clk_inst c)"
  shows "\<exists>timed_out expired s'. sweep_and_collect_deliveries kv x la c s =
      ((map elicitation_error timed_out @ map timeout_error (filter (\<lambda>st. ps_suspended_at st \<noteq> None) expired),
        length timed_out + length expired), s') \<and>
    distinct (map ps_pipeline_id (timed_out @ expired)) \<and>
    set timed_out = {st. holds_pipeline x (view s) (clk_inst c) (ps_pipeline_id st) st \<and> elicitation_over c st} \<and>
    set expired = {st. holds_pipeline x (view s) (clk_inst c) (ps_pipeline_id st) st \<and> \<not> elicitation_over c st \<and> pipeline_over c st} \<and>
    (\<forall>t pid st. clk_inst c \<le> t \<longrightarrow> (holds_pipeline x (view s') t pid st \<longleftrightarrow>
       holds_pipeline x (view s) t pid st \<and> pid \<notin> ps_pipeline_id ` set (timed_out @ expired)))"
proof -
  from kv_listing.sweep_law [OF assms] obtain timed_out expired s' where
    sw: "sweep_and_collect_deliveries kv x la c s =
      ((map elicitation_error timed_out @ map timeout_error (filter (\<lambda>st. ps_suspended_at st \<noteq> None) expired),
        length timed_out + length expired), s')" "distinct (map ps_pipeline_id (timed_out @ expired))"
    and sets: "\<forall>st. st \<in> set timed_out \<longleftrightarrow> holds_pipeline x (view s) (clk_inst c) (ps_pipeline_id st) st \<and> elicitation_over c st"
      "\<forall>st. st \<in> set expired \<longleftrightarrow> holds_pipeline x (view s) (clk_inst c) (ps_pipeline_id st) st \<and> \<not> elicitation_over c st \<and> pipeline_over c st"
    and w: "without (ps_pipeline_id ` set (timed_out @ expired)) (clk_inst c) (view s') (view s)" by blast
  show ?thesis
  proof (intro exI conjI)
    show "sweep_and_collect_deliveries kv x la c s =
      ((map elicitation_error timed_out @ map timeout_error (filter (\<lambda>st. ps_suspended_at st \<noteq> None) expired),
        length timed_out + length expired), s')" by (rule sw(1))
    show "\<forall>t pid st. clk_inst c \<le> t \<longrightarrow> (holds_pipeline x (view s') t pid st \<longleftrightarrow>
       holds_pipeline x (view s) t pid st \<and> pid \<notin> ps_pipeline_id ` set (timed_out @ expired))"
      using holds_without [OF w] by blast
  qed (use sw(2) sets in auto)
qed

section \<open>A pipeline that runs is reaped\<close>

lemma well_keyed_claimed:
  assumes "well_keyed x m t" "pl_from_slice x b' = Inr st'" "ps_pipeline_id st' = pid" "live_at m' t (pipeline_key pid) = Some (b', d')"
    and "\<And>k. k \<noteq> pipeline_key pid \<Longrightarrow> k \<noteq> pipeline_claim_key pid v \<Longrightarrow> live_at m' t k = live_at m t k"
  shows "well_keyed x m' t"
  unfolding well_keyed_def
proof (intro allI impI, elim conjE)
  fix k b d st assume k: "live_at m' t k = Some (b, d)" "prefix ''pipeline:'' k" "pl_from_slice x b = Inr st"
  have "k \<noteq> pipeline_claim_key pid v" using k(2) by (auto simp: pipeline_claim_key_def)
  with k assms show "k = pipeline_key (ps_pipeline_id st)"
    by (cases "k = pipeline_key pid") (auto simp: well_keyed_def)
qed

text \<open>
  C39.  An answer does not stop the clock of its question.  The claim of an answered pipeline leaves the time of the suspension
  and its timeout in the row; while the steps after the question run past that timeout, a sweep removes the row and
  tells the caller that the question timed out, although it was answered in time.
\<close>

theorem answered_pipeline_is_reaped:
  assumes "gateway_on_store gw view ok" "kv_listing (en_kv (gw_en gw)) view ok la" "ok (kv_of gs)"
    and "answerable gw view rc rid pending st (clk_inst (gs_now gw gs)) (kv_of gs)" "ps_pipeline_id st = psr_pipeline_id pending"
    and "live_at (view (kv_of gs)) (clk_inst (gs_now gw gs)) (pipeline_claim_key (psr_pipeline_id pending) (ps_state_version st)) = None"
    and "clk_inst (gs_now gw gs) \<le> clk_inst c" "clk_inst c < clk_inst (gs_now gw gs) + pipeline_ttl"
    and "well_keyed (en_px (gw_en gw)) (view (kv_of gs)) (clk_inst c)" "elicitation_over c st"
  shows "\<exists>gs1 errors n s'. accept_answer gw rc rid gs = (Inr (pending, st), gs1) \<and>
    sweep_and_collect_deliveries (en_kv (gw_en gw)) (en_px (gw_en gw)) la c (kv_of gs1) = ((errors, n), s') \<and>
    elicitation_error st \<in> set errors \<and> live_at (view s') (clk_inst c) (pipeline_key (ps_pipeline_id st)) = None"
proof -
  let ?st = "st\<lparr>ps_state_version := ps_state_version st + 1\<rparr>" and ?pid = "psr_pipeline_id pending" and ?x = "en_px (gw_en gw)"
  obtain s1 where a: "accept_answer gw rc rid gs = (Inr (pending, st), with_kv s1 gs)" "ok s1"
    "\<forall>t. clk_inst (gs_now gw gs) \<le> t \<and> t < clk_inst (gs_now gw gs) + pipeline_ttl \<longrightarrow> holds_pipeline ?x (view s1) t ?pid ?st"
    "\<forall>t k. clk_inst (gs_now gw gs) \<le> t \<and> k \<noteq> pipeline_key ?pid \<and> k \<noteq> pipeline_claim_key ?pid (ps_state_version st) \<longrightarrow>
       live_at (view s1) t k = live_at (view (kv_of gs)) t k"
    by (rule gateway_on_store.accept_answer_law [OF assms(1,3,4,6)])
  have h: "holds_pipeline ?x (view s1) (clk_inst c) (ps_pipeline_id ?st) ?st" using a(3) assms(5,7,8) by simp
  then obtain b d where b: "live_at (view s1) (clk_inst c) (pipeline_key ?pid) = Some (b, d)" "pl_from_slice ?x b = Inr ?st"
    using assms(5) by (auto simp: holds_pipeline_def)
  have keyed: "well_keyed ?x (view s1) (clk_inst c)"
    by (rule well_keyed_claimed [OF assms(9) b(2) _ b(1), where v = "ps_state_version st"]) (use assms(5,7) a(4) in auto)
  from kv_listing.sweep_law [OF assms(2) a(2) keyed] obtain timed_out expired s' where
    sw: "sweep_and_collect_deliveries (en_kv (gw_en gw)) ?x la c s1 =
      ((map elicitation_error timed_out @ map timeout_error (filter (\<lambda>st. ps_suspended_at st \<noteq> None) expired),
        length timed_out + length expired), s')"
    "\<forall>st. st \<in> set timed_out \<longleftrightarrow> holds_pipeline ?x (view s1) (clk_inst c) (ps_pipeline_id st) st \<and> elicitation_over c st"
    "without (ps_pipeline_id ` set (timed_out @ expired)) (clk_inst c) (view s') (view s1)" by blast
  have "elicitation_over c ?st" using assms(10) by (simp add: elicitation_over_def)
  with sw(2) h have mem: "?st \<in> set timed_out" by blast
  then have "elicitation_error ?st \<in> set (map elicitation_error timed_out)" by simp
  moreover have "elicitation_error ?st = elicitation_error st" by (simp add: elicitation_error_def)
  moreover have "ps_pipeline_id st \<in> ps_pipeline_id ` set (timed_out @ expired)" using imageI [OF mem, of ps_pipeline_id] by (simp add: image_Un)
  then have "live_at (view s') (clk_inst c) (pipeline_key (ps_pipeline_id st)) = None" using sw(3) by (simp add: without_def)
  ultimately show ?thesis using a(1) sw(1) by (intro exI [of _ "with_kv s1 gs"]) auto
qed

section \<open>Witnesses\<close>

definition waiting_pipeline :: pipeline_state where
  "waiting_pipeline = (sample_pipeline 0)\<lparr>ps_elicitation_timeout_ms := Some 6, ps_suspended_at := Some 0\<rparr>"

definition waiting_rows :: "pipeline_payload memory pipeline_store" where
  "waiting_rows = \<lparr>pst_kv = [(''pipeline:p1'', \<lparr>se_bytes = PState waiting_pipeline, se_expires_system = None, se_expires_instant = Some (from_millis 1000)\<rparr>),
     (''pending_req:q1'', \<lparr>se_bytes = PRequest asked_row, se_expires_system = None, se_expires_instant = Some (from_millis 1000)\<rparr>)],
     pst_sessions_with_pending = {}\<rparr>"

lemma waiting_fields [simp]:
  "ps_pipeline_id waiting_pipeline = ''p1''" "ps_state_version waiting_pipeline = 1" "storable waiting_pipeline"
  "resumer_owns_pipeline (principal_id (rc_identity (ps_request_context waiting_pipeline))) (ps_session_id waiting_pipeline)
     (principal_id (rc_identity sample_context)) (rc_session_id sample_context)"
  by (simp_all add: waiting_pipeline_def sample_pipeline_def sample_context_def storable_def resumer_owns_pipeline_def)

lemma waiting_over [simp]: "elicitation_over (at_ms 7) waiting_pipeline"
  by (simp add: elicitation_over_def waiting_pipeline_def elapsed_u64_def num_milliseconds_def from_millis_def)

lemma waiting_rows_hold [simp]:
  "memory_ok (pst_kv waiting_rows)"
  "t < from_millis 1000 \<Longrightarrow> holds_request sample_px (memory_view (pst_kv waiting_rows)) t ''q1'' asked_row"
  "t < from_millis 1000 \<Longrightarrow> holds_pipeline sample_px (memory_view (pst_kv waiting_rows)) t ''p1'' waiting_pipeline"
  "live_at (memory_view (pst_kv waiting_rows)) t (pipeline_claim_key ''p1'' v) = None"
  by (simp_all add: waiting_rows_def memory_ok_def holds_request_def holds_pipeline_def live_memory_view pending_req_key_def
      pipeline_key_def pipeline_claim_key_def is_expired_def sample_px_def)

lemma waiting_rows_keyed [simp]: "well_keyed sample_px (memory_view (pst_kv waiting_rows)) t"
  by (auto simp: well_keyed_def waiting_rows_def live_memory_view sample_px_def pipeline_key_def split: if_splits)

theorem reaper_tells_each_caller_once_witness:
  "\<exists>timed_out expired s'. sweep_and_collect_deliveries pipeline_mem sample_px memory_list_all (at_ms 7) (pst_kv waiting_rows) =
      ((map elicitation_error timed_out @ map timeout_error (filter (\<lambda>st. ps_suspended_at st \<noteq> None) expired),
        length timed_out + length expired), s') \<and> waiting_pipeline \<in> set timed_out"
proof -
  from reaper_tells_each_caller_once [OF mem_all.kv_listing_axioms, of "pst_kv waiting_rows" sample_px "at_ms 7" pipeline_lib]
  obtain timed_out expired s' where sw: "sweep_and_collect_deliveries pipeline_mem sample_px memory_list_all (at_ms 7) (pst_kv waiting_rows) =
      ((map elicitation_error timed_out @ map timeout_error (filter (\<lambda>st. ps_suspended_at st \<noteq> None) expired),
        length timed_out + length expired), s')"
    "set timed_out = {st. holds_pipeline sample_px (memory_view (pst_kv waiting_rows)) (clk_inst (at_ms 7)) (ps_pipeline_id st) st \<and>
       elicitation_over (at_ms 7) st}" by (simp only: waiting_rows_hold waiting_rows_keyed simp_thms) blast
  have "waiting_pipeline \<in> set timed_out" unfolding sw(2) by (simp add: from_millis_def)
  with sw(1) show ?thesis by blast
qed

theorem answered_pipeline_is_reaped_witness:
  "\<exists>gs1 errors n s'. accept_answer sample_gateway sample_context ''q1'' (sample_state 5 waiting_rows) = (Inr (asked_row, waiting_pipeline), gs1) \<and>
    sweep_and_collect_deliveries pipeline_mem sample_px memory_list_all (at_ms 7) (kv_of gs1) = ((errors, n), s') \<and>
    elicitation_error waiting_pipeline \<in> set errors"
proof -
  have pid: "psr_pipeline_id asked_row = ''p1''" by (simp add: asked_row_def)
  have "\<exists>gs1 errors n s'. accept_answer sample_gateway sample_context ''q1'' (sample_state 5 waiting_rows) = (Inr (asked_row, waiting_pipeline), gs1) \<and>
    sweep_and_collect_deliveries (en_kv (gw_en sample_gateway)) (en_px (gw_en sample_gateway)) memory_list_all (at_ms 7) (kv_of gs1) = ((errors, n), s') \<and>
    elicitation_error waiting_pipeline \<in> set errors \<and> live_at (memory_view s') (clk_inst (at_ms 7)) (pipeline_key (ps_pipeline_id waiting_pipeline)) = None"
    by (rule answered_pipeline_is_reaped [OF sample_gateway.gateway_on_store_axioms])
      (simp_all add: mem_all.kv_listing_axioms answerable_def pid from_millis_def pipeline_ttl_def from_secs_def)
  then show ?thesis by simp blast
qed

end
