(* ===== verification/List_Cursor.thy ===== *)
theory List_Cursor
  imports Request_Identity
begin

text \<open>
  The cursors of list requests: \<open>src/runtime/cursor.rs\<close>.  A cursor is an offset, or for resources an offset and
  the cursors of the dynamic providers, in base64 with a MAC under a key derived from the session or principal.

  Bytes are 8-bit words and a text is its UTF-8 bytes as characters.  Base64, HMAC-SHA256, serde and the key
  derivation of the cluster state key are parameters.  \<open>String::from_utf8\<close> refuses no bytes that
  \<open>parse::<usize>\<close> accepts, so only the parser is left of the two.  A \<open>usize\<close> has 64 bits.
\<close>

type_synonym bytes = "8 word list"

definition bytes_of :: "string \<Rightarrow> bytes" where
  "bytes_of s = map of_char s"

definition text_of :: "bytes \<Rightarrow> string" where
  "text_of bs = map (\<lambda>b. char_of (unat b)) bs"

record dyn_cursor =
  dc_b :: string
  dc_c :: string

record composite_cursor =
  cc_s :: "nat option"
  cc_d :: "dyn_cursor list"

record cursor_ext =
  cx_b64 :: "bytes \<Rightarrow> string"
  cx_unb64 :: "string \<Rightarrow> bytes option"
  cx_unb64_error :: "string \<Rightarrow> string"
  cx_mac :: "bytes \<Rightarrow> bytes \<Rightarrow> bytes"
  cx_to_vec :: "composite_cursor \<Rightarrow> bytes"
  cx_from_slice :: "bytes \<Rightarrow> composite_cursor option"

section \<open>Offsets\<close>

text \<open>The loop of \<open>constant_time_eq\<close>: the difference so far.\<close>

fun diff_bits :: "bytes \<Rightarrow> bytes \<Rightarrow> 8 word \<Rightarrow> 8 word" where
  "diff_bits (a # as) (b # bs) diff = diff_bits as bs (or diff (xor a b))"
| "diff_bits _ _ diff = diff"

definition constant_time_eq :: "bytes \<Rightarrow> bytes \<Rightarrow> bool" where
  "constant_time_eq a b = (if length a \<noteq> length b then False else diff_bits a b 0 = 0)"

definition encode_cursor :: "cursor_ext \<Rightarrow> nat \<Rightarrow> bytes option \<Rightarrow> string" where
  "encode_cursor x offset bind_key =
     (let offset_b64 = cx_b64 x (bytes_of (show_nat offset)) in
      case bind_key of
        Some key \<Rightarrow> offset_b64 @ ''.'' @ cx_b64 x (cx_mac x (bytes_of offset_b64) key)
      | None \<Rightarrow> offset_b64)"

text \<open>The payload of a cursor whose MAC holds, or whose caller has no key and which has none.\<close>

definition verified_part :: "cursor_ext \<Rightarrow> string \<Rightarrow> bytes option \<Rightarrow> string option" where
  "verified_part x cursor bind_key =
     (case (split_once (CHR ''.'') cursor, bind_key) of
        (Some (part, mac_b64), Some key) \<Rightarrow>
          (case cx_unb64 x mac_b64 of
             None \<Rightarrow> None
           | Some actual \<Rightarrow> if constant_time_eq (cx_mac x (bytes_of part) key) actual then Some part else None)
      | (None, Some _) \<Rightarrow> None
      | (Some _, None) \<Rightarrow> None
      | (None, None) \<Rightarrow> Some cursor)"

definition decode_cursor :: "cursor_ext \<Rightarrow> string \<Rightarrow> bytes option \<Rightarrow> nat option" where
  "decode_cursor x cursor bind_key =
     (case verified_part x cursor bind_key of
        None \<Rightarrow> None
      | Some part \<Rightarrow> Option.bind (cx_unb64 x part) (\<lambda>bs. parse_u64 (text_of bs)))"

definition paginate_list_bound ::
  "cursor_ext \<Rightarrow> 'a list \<Rightarrow> string option \<Rightarrow> bytes option \<Rightarrow> nat \<Rightarrow> 'a list \<times> string option" where
  "paginate_list_bound x items cursor bind_key page_size =
     (let offset = (case Option.bind cursor (\<lambda>c. decode_cursor x c bind_key) of None \<Rightarrow> 0 | Some n \<Rightarrow> n) in
      if length items \<le> offset then ([], None)
      else (let stop = min (min (offset + max page_size 1) (2 ^ 64 - 1)) (length items) in
            (drop offset (take stop items),
             if stop < length items then Some (encode_cursor x stop bind_key) else None)))"

section \<open>Composite cursors\<close>

definition is_done :: "composite_cursor \<Rightarrow> bool" where
  "is_done cc \<longleftrightarrow> cc_s cc = None \<and> cc_d cc = []"

definition encode_composite_cursor :: "cursor_ext \<Rightarrow> composite_cursor \<Rightarrow> bytes option \<Rightarrow> string" where
  "encode_composite_cursor x cc bind_key =
     (let payload_b64 = cx_b64 x (cx_to_vec x cc) in
      case bind_key of
        Some key \<Rightarrow> ''c.'' @ payload_b64 @ ''.'' @ cx_b64 x (cx_mac x (bytes_of payload_b64) key)
      | None \<Rightarrow> ''c.'' @ payload_b64)"

definition decode_composite_cursor :: "cursor_ext \<Rightarrow> string \<Rightarrow> bytes option \<Rightarrow> composite_cursor option" where
  "decode_composite_cursor x cursor bind_key =
     (case strip_prefix cursor ''c.'' of
        None \<Rightarrow> None
      | Some body \<Rightarrow>
          (case verified_part x body bind_key of
             None \<Rightarrow> None
           | Some payload_b64 \<Rightarrow> Option.bind (cx_unb64 x payload_b64) (cx_from_slice x)))"

section \<open>Keys\<close>

definition LIST_CURSOR_KEY_DOMAIN :: string where
  "LIST_CURSOR_KEY_DOMAIN = ''mcpg:list-cursor:v1''"

text \<open>
  \<open>cluster_state_key_bytes\<close> (\<open>src/app/cluster_state.rs\<close>): the key in the environment variable the
  configuration names.  \<open>env\<close> is the environment, the error is its text.
\<close>

definition trim_end_matches :: "char \<Rightarrow> string \<Rightarrow> string" where
  "trim_end_matches ch s = rev (dropWhile (\<lambda>d. d = ch) (rev s))"

definition cluster_state_key_bytes ::
  "cursor_ext \<Rightarrow> (string \<Rightarrow> string option) \<Rightarrow> string option \<Rightarrow> string + bytes option" where
  "cluster_state_key_bytes x env key_env =
     (case key_env of
        None \<Rightarrow> Inr None
      | Some env_name \<Rightarrow>
          (case env env_name of
             None \<Rightarrow> Inl (''cluster.state_encryption_key_env names env var `'' @ env_name @ ''` but it is unset/empty'')
           | Some key_b64 \<Rightarrow>
               (case cx_unb64 x (trim_end_matches (CHR ''='') (trim key_b64)) of
                  None \<Rightarrow> Inl (''cluster.state_encryption key in `'' @ env_name @ ''` is not URL-safe base64: '' @
                              cx_unb64_error x (trim_end_matches (CHR ''='') (trim key_b64)))
                | Some raw \<Rightarrow>
                    if length raw = 32 then Inr (Some raw)
                    else Inl (''cluster.state_encryption key in `'' @ env_name @ ''` decoded to '' @ show_nat (length raw) @
                              '' bytes, expected 32''))))"

definition derive_cluster_subkey :: "cursor_ext \<Rightarrow> bytes \<Rightarrow> string \<Rightarrow> bytes" where
  "derive_cluster_subkey x base domain = cx_mac x (bytes_of domain) base"

definition cursor_signing_key ::
  "cursor_ext \<Rightarrow> (string \<Rightarrow> string option) \<Rightarrow> bytes \<Rightarrow> string option \<Rightarrow> bytes" where
  "cursor_signing_key x env fallback key_env =
     (case cluster_state_key_bytes x env key_env of
        Inr (Some base) \<Rightarrow> derive_cluster_subkey x base LIST_CURSOR_KEY_DOMAIN
      | _ \<Rightarrow> fallback)"

definition generate_cursor_hmac_key :: "bytes \<Rightarrow> bytes \<Rightarrow> bytes" where
  "generate_cursor_hmac_key uuid_a uuid_b = uuid_a @ uuid_b"

record cursor_request =
  crq_session_ephemeral :: bool
  crq_session_id :: "string option"
  crq_identity :: request_identity

definition cursor_sid :: "cursor_request \<Rightarrow> string" where
  "cursor_sid rq =
     (let who = (if crq_session_ephemeral rq then synthetic_principal_key (crq_identity rq) else crq_session_id rq)
      in case who of None \<Rightarrow> ''anonymous'' | Some sid \<Rightarrow> sid)"

text \<open>\<open>key_env\<close> is the configured variable of the running services, or none of them run yet.\<close>

definition cursor_binding_key ::
  "cursor_ext \<Rightarrow> (string \<Rightarrow> string option) \<Rightarrow> bytes \<Rightarrow> string option option \<Rightarrow> cursor_request \<Rightarrow> bytes" where
  "cursor_binding_key x env process_key key_env rq =
     cx_mac x (bytes_of (cursor_sid rq))
       (case key_env of None \<Rightarrow> process_key | Some ke \<Rightarrow> cursor_signing_key x env process_key ke)"

section \<open>Cursors read back\<close>

definition cursor_codec :: "cursor_ext \<Rightarrow> bool" where
  "cursor_codec x \<longleftrightarrow> (\<forall>bs. cx_unb64 x (cx_b64 x bs) = Some bs \<and> CHR ''.'' \<notin> set (cx_b64 x bs)) \<and>
     (\<forall>cc. cx_from_slice x (cx_to_vec x cc) = Some cc)"

lemma cursor_codecD [ext_law]:
  "cursor_codec x \<Longrightarrow> cx_unb64 x (cx_b64 x bs) = Some bs" "cursor_codec x \<Longrightarrow> CHR ''.'' \<notin> set (cx_b64 x bs)"
  "cursor_codec x \<Longrightarrow> cx_from_slice x (cx_to_vec x cc) = Some cc"
  by (simp_all add: cursor_codec_def)

lemma byte_of_char [simp]: "char_of (unat (of_char ch :: 8 word)) = ch"
proof -
  have "(of_char ch :: 8 word) = of_nat (of_char ch)" by (simp only: of_nat_of_char)
  then have "unat (of_char ch :: 8 word) = of_char ch" by (simp only: unat_of_nat) simp
  then show ?thesis by simp
qed

lemma text_of_bytes_of [simp]: "text_of (bytes_of s) = s"
  by (simp add: text_of_def bytes_of_def comp_def)

lemma xor_eq_zero: "xor a b = 0 \<longleftrightarrow> a = (b :: 'a::len word)"
  by (metis xor.assoc xor.left_neutral xor.right_neutral xor_self_eq)

lemma diff_bits_zero: "length a = length b \<Longrightarrow> diff_bits a b diff = 0 \<longleftrightarrow> diff = 0 \<and> a = b"
proof (induction a b diff rule: diff_bits.induct)
  case (1 a as b bs diff)
  have "or diff (xor a b) = 0 \<longleftrightarrow> diff = 0 \<and> a = b" by (simp add: or_eq_0_iff xor_eq_zero)
  with 1 show ?case by auto
qed auto

lemma constant_time_eq_iff [simp]: "constant_time_eq a b \<longleftrightarrow> a = b"
  by (auto simp: constant_time_eq_def diff_bits_zero)

lemma verified_part_signed:
  assumes "CHR ''.'' \<notin> set part" "cx_unb64 x (cx_b64 x (cx_mac x (bytes_of part) key)) = Some (cx_mac x (bytes_of part) key)"
  shows "verified_part x (part @ ''.'' @ cx_b64 x (cx_mac x (bytes_of part) key)) (Some key') =
    (if cx_mac x (bytes_of part) key' = cx_mac x (bytes_of part) key then Some part else None)"
  using split_once_append [OF assms(1), of "cx_b64 x (cx_mac x (bytes_of part) key)"] assms(2)
  by (simp add: verified_part_def)

lemma decode_encode:
  assumes "cursor_codec x" "n < 2 ^ 64"
  shows "decode_cursor x (encode_cursor x n key) key = Some n"
proof (cases key)
  case None
  have "split_once (CHR ''.'') (cx_b64 x (bytes_of (show_nat n))) = None"
    using cursor_codecD(2) [OF assms(1)] by (simp add: split_once_None)
  with None assms show ?thesis
    by (simp add: decode_cursor_def encode_cursor_def verified_part_def cursor_codecD)
next
  case (Some k)
  with assms show ?thesis
    by (simp add: decode_cursor_def encode_cursor_def Let_def verified_part_signed [simplified] cursor_codecD)
qed

lemma decode_foreign:
  assumes "cursor_codec x"
    and "cx_mac x (bytes_of (cx_b64 x (bytes_of (show_nat n)))) k' \<noteq> cx_mac x (bytes_of (cx_b64 x (bytes_of (show_nat n)))) k"
  shows "decode_cursor x (encode_cursor x n (Some k)) (Some k') = None"
  using assms
  by (simp add: decode_cursor_def encode_cursor_def Let_def verified_part_signed [simplified] cursor_codecD)

lemma decode_encode_composite:
  assumes "cursor_codec x"
  shows "decode_composite_cursor x (encode_composite_cursor x cc (Some key)) (Some key) = Some cc"
  using assms
  by (simp add: decode_composite_cursor_def encode_composite_cursor_def Let_def verified_part_signed [simplified] cursor_codecD
      strip_prefix_def)

section \<open>Walking a list\<close>

text \<open>A client that asks for page after page, at most \<open>n\<close> times.\<close>

fun page_walk :: "nat \<Rightarrow> cursor_ext \<Rightarrow> 'a list \<Rightarrow> bytes option \<Rightarrow> nat \<Rightarrow> string option \<Rightarrow> 'a list list option" where
  "page_walk 0 x items key per cursor = None"
| "page_walk (Suc n) x items key per cursor =
     (case paginate_list_bound x items cursor key per of
        (page, None) \<Rightarrow> Some [page]
      | (page, Some next) \<Rightarrow> map_option ((#) page) (page_walk n x items key per (Some next)))"

lemma paginate_at:
  assumes "cursor_codec x" "length items < 2 ^ 64" "n < length items" "Option.bind cursor (\<lambda>c. decode_cursor x c key) = Some n \<or> cursor = None \<and> n = 0"
  shows "paginate_list_bound x items cursor key per =
    (take (max per 1) (drop n items),
     if n + max per 1 < length items then Some (encode_cursor x (n + max per 1) key) else None)"
proof -
  have off: "(case Option.bind cursor (\<lambda>c. decode_cursor x c key) of None \<Rightarrow> 0 | Some n \<Rightarrow> n) = n"
    using assms(4) by auto
  have "min (min (n + max per 1) (2 ^ 64 - 1)) (length items) = min (n + max per 1) (length items)"
    using assms(2) by simp
  moreover have "drop n (take (min (n + max per 1) (length items)) items) = take (max per 1) (drop n items)"
    by (simp add: take_drop min_def add.commute)
  ultimately show ?thesis using assms(3) unfolding paginate_list_bound_def off by (simp add: Let_def min_less_iff_conj)
qed

lemma page_walk_from:
  assumes "cursor_codec x" "length items < 2 ^ 64" "n < length items" "length items - n \<le> fuel"
    and "Option.bind cursor (\<lambda>c. decode_cursor x c key) = Some n \<or> cursor = None \<and> n = 0"
  shows "\<exists>pages. page_walk fuel x items key per cursor = Some pages \<and> concat pages = drop n items \<and>
    (\<forall>page \<in> set pages. length page \<le> max per 1)"
  using assms(3-5)
proof (induction fuel arbitrary: n cursor)
  case (Suc fuel)
  let ?m = "n + max per 1"
  note page = paginate_at [OF assms(1,2) Suc.prems(1,3), of per]
  show ?case
  proof (cases "?m < length items")
    case True
    have "\<exists>pages. page_walk fuel x items key per (Some (encode_cursor x ?m key)) = Some pages \<and> concat pages = drop ?m items \<and>
      (\<forall>page \<in> set pages. length page \<le> max per 1)"
      by (rule Suc.IH) (use True Suc.prems(2) decode_encode [OF assms(1)] assms(2) in auto)
    then obtain pages where p: "page_walk fuel x items key per (Some (encode_cursor x ?m key)) = Some pages"
      "concat pages = drop ?m items" "\<forall>page \<in> set pages. length page \<le> max per 1" by blast
    have "take (max per 1) (drop n items) @ drop ?m items = drop n items"
      by (metis add.commute append_take_drop_id drop_drop)
    with p page True show ?thesis by simp
  next
    case False
    then have "take (max per 1) (drop n items) = drop n items" by simp
    with page False show ?thesis by (simp add: min_def)
  qed
qed simp

text \<open>
  A client that follows the cursors of a list from the first page gets every item once and in order, in
  pages of at most the page size, and comes to an end after at most one request more than there are items.  A
  cursor made for one session or principal is no use to another: it gets the first page.
\<close>

theorem list_pages_cover:
  assumes "cursor_codec x" "length items < 2 ^ 64"
    and "\<forall>n. cx_mac x (bytes_of (cx_b64 x (bytes_of (show_nat n)))) k' \<noteq> cx_mac x (bytes_of (cx_b64 x (bytes_of (show_nat n)))) k"
  shows "(\<exists>pages. page_walk (Suc (length items)) x items (Some k) per None = Some pages \<and> concat pages = items \<and>
      (\<forall>page \<in> set pages. length page \<le> max per 1)) \<and>
    paginate_list_bound x items (Some (encode_cursor x n (Some k))) (Some k') per =
      paginate_list_bound x items None (Some k') per"
proof
  show "\<exists>pages. page_walk (Suc (length items)) x items (Some k) per None = Some pages \<and> concat pages = items \<and>
      (\<forall>page \<in> set pages. length page \<le> max per 1)"
  proof (cases "items = []")
    case True
    then show ?thesis by (simp add: paginate_list_bound_def Let_def)
  next
    case False
    with page_walk_from [OF assms(1,2), of 0 "Suc (length items)" None "Some k" per] show ?thesis by simp
  qed
  show "paginate_list_bound x items (Some (encode_cursor x n (Some k))) (Some k') per = paginate_list_bound x items None (Some k') per"
    using decode_foreign [OF assms(1), of n k' k] assms(3) by (simp add: paginate_list_bound_def)
qed

section \<open>A concrete codec\<close>

text \<open>A byte as two letters, a number in unary, and a text after its length.\<close>

definition letters :: "8 word \<Rightarrow> string" where
  "letters b = [char_of (97 + unat b div 16), char_of (97 + unat b mod 16)]"

fun unletters :: "string \<Rightarrow> bytes option" where
  "unletters [] = Some []"
| "unletters (a # b # rest) =
     map_option ((#) (of_nat ((of_char a - 97) * 16 + (of_char b - 97)))) (unletters rest)"
| "unletters [_] = None"

lemma letters_range: "unat (b :: 8 word) div 16 < 16" "unat b mod 16 < 16"
proof -
  have "unat b < 256" using unsigned_less [of b, where 'a = nat] by simp
  then show "unat b div 16 < 16" by (simp add: less_mult_imp_div_less)
qed simp

lemma unletters_letters [simp]: "unletters (concat (map letters bs)) = Some bs"
proof (induction bs)
  case (Cons b bs)
  have "of_char (char_of (97 + unat b div 16)) = 97 + unat b div 16" "of_char (char_of (97 + unat b mod 16)) = 97 + unat b mod 16"
    using letters_range [of b] by simp_all
  then show ?case using Cons by (simp add: letters_def div_mult_mod_eq)
qed simp

lemma letters_no_dot: "CHR ''.'' \<notin> set (letters b)"
proof -
  have "char_of n \<noteq> CHR ''.''" if "97 \<le> n" "n < 113" for n :: nat
  proof
    assume "char_of n = CHR ''.''"
    then have "of_char (char_of n) = (46 :: nat)" by simp
    with that show False by simp
  qed
  from this [of "97 + unat b div 16"] this [of "97 + unat b mod 16"] letters_range [of b] show ?thesis
    by (simp add: letters_def eq_commute [of "CHR ''.''"])
qed

definition unary :: "nat \<Rightarrow> bytes" where
  "unary n = replicate n 1 @ [0]"

fun ununary :: "bytes \<Rightarrow> nat \<times> bytes" where
  "ununary [] = (0, [])"
| "ununary (b # bs) = (if b = 0 then (0, bs) else (case ununary bs of (n, rest) \<Rightarrow> (Suc n, rest)))"

lemma ununary_unary [simp]: "ununary (unary n @ rest) = (n, rest)"
  by (induction n) (simp_all add: unary_def)

definition text_bytes :: "string \<Rightarrow> bytes" where
  "text_bytes s = unary (length s) @ bytes_of s"

definition untext_bytes :: "bytes \<Rightarrow> string \<times> bytes" where
  "untext_bytes bs = (case ununary bs of (n, rest) \<Rightarrow> (text_of (take n rest), drop n rest))"

lemma untext_text [simp]: "untext_bytes (text_bytes s @ rest) = (s, rest)"
proof -
  have "length (bytes_of s) = length s" by (simp add: bytes_of_def)
  then show ?thesis by (simp add: untext_bytes_def text_bytes_def)
qed

definition dyn_bytes :: "dyn_cursor \<Rightarrow> bytes" where
  "dyn_bytes d = text_bytes (dc_b d) @ text_bytes (dc_c d)"

fun undyn_bytes :: "nat \<Rightarrow> bytes \<Rightarrow> dyn_cursor list" where
  "undyn_bytes 0 bs = []"
| "undyn_bytes (Suc n) bs =
     (case untext_bytes bs of (b, bs1) \<Rightarrow> case untext_bytes bs1 of (c, bs2) \<Rightarrow> \<lparr>dc_b = b, dc_c = c\<rparr> # undyn_bytes n bs2)"

lemma undyn_dyn [simp]: "undyn_bytes (length ds) (concat (map dyn_bytes ds)) = ds"
proof (induction ds)
  case (Cons d ds)
  have "untext_bytes (concat (map dyn_bytes (d # ds))) = (dc_b d, text_bytes (dc_c d) @ concat (map dyn_bytes ds))"
    by (simp add: dyn_bytes_def)
  with Cons show ?case by simp
qed simp

definition composite_bytes :: "composite_cursor \<Rightarrow> bytes" where
  "composite_bytes cc =
     unary (case cc_s cc of None \<Rightarrow> 0 | Some n \<Rightarrow> Suc n) @ unary (length (cc_d cc)) @ concat (map dyn_bytes (cc_d cc))"

definition uncomposite_bytes :: "bytes \<Rightarrow> composite_cursor option" where
  "uncomposite_bytes bs =
     (case ununary bs of (n, bs1) \<Rightarrow> case ununary bs1 of (m, bs2) \<Rightarrow>
        Some \<lparr>cc_s = (if n = 0 then None else Some (n - 1)), cc_d = undyn_bytes m bs2\<rparr>)"

definition letter_cx :: cursor_ext where
  "letter_cx = \<lparr>cx_b64 = (\<lambda>bs. concat (map letters bs)), cx_unb64 = unletters, cx_unb64_error = (\<lambda>_. ''bad''),
     cx_mac = (\<lambda>bs key. key @ bs), cx_to_vec = composite_bytes, cx_from_slice = uncomposite_bytes\<rparr>"

lemma letter_codec [simp]: "cursor_codec letter_cx"
proof -
  have "uncomposite_bytes (composite_bytes cc) = Some cc" for cc
    by (cases cc) (simp add: uncomposite_bytes_def composite_bytes_def split: option.split)
  then show ?thesis using letters_no_dot by (simp add: cursor_codec_def letter_cx_def)
qed

theorem list_pages_cover_witness:
  "(\<exists>pages. page_walk 6 letter_cx [10, 11, 12, 13, 14 :: nat] (Some [1]) 2 None = Some pages \<and> concat pages = [10, 11, 12, 13, 14]) \<and>
   paginate_list_bound letter_cx [10, 11, 12, 13, 14 :: nat] (Some (encode_cursor letter_cx 2 (Some [1]))) (Some [2]) 2 =
     paginate_list_bound letter_cx [10, 11, 12, 13, 14] None (Some [2]) 2"
proof -
  have "\<forall>n. cx_mac letter_cx (bytes_of (cx_b64 letter_cx (bytes_of (show_nat n)))) [2] \<noteq>
      cx_mac letter_cx (bytes_of (cx_b64 letter_cx (bytes_of (show_nat n)))) [1]"
    by (simp add: letter_cx_def)
  note cover = list_pages_cover [OF letter_codec _ this, of "[10, 11, 12, 13, 14 :: nat]" 2 2]
  have "Suc (length [10, 11, 12, 13, 14 :: nat]) = 6" "length [10, 11, 12, 13, 14 :: nat] < 2 ^ 64" by simp_all
  with cover show ?thesis by (simp only:) blast
qed

end
