(* ===== verification/Catalog_Listing.thy ===== *)
theory Catalog_Listing
  imports Capability_Registry List_Cursor
begin

text \<open>
  The list requests of a client: \<open>src/runtime/enumeration.rs\<close>, with the route of a resource and the fan-out to
  dynamic providers of \<open>src/runtime/apps.rs\<close> and \<open>extract_dynamic_list_bindings\<close> of \<open>src/runtime/util.rs\<close>.
  A listing takes the registry's entries, keeps those the policy gate would allow, and cuts a page.

  The decision cache of the gate is threaded through; \<open>tick n\<close> gives the times at which the n-th decision of
  the request looks the cache up and stores.  Plugins are outside the repository: \<open>providers\<close> gives for a
  backend kind its \<open>list_resources\<close>, where an error or a timeout is no answer.
\<close>

section \<open>State\<close>

record compiled_app =
  app_id :: string
  app_uri :: string
  app_title :: string
  app_description :: "string option"
  app_descriptor_meta :: json

definition to_descriptor :: "compiled_app \<Rightarrow> resource_descriptor" where
  "to_descriptor app =
     \<lparr>rd_uri = app_uri app, rd_name = app_id app, rd_title = Some (app_title app), rd_description = app_description app,
      rd_mime_type = Some ''text/html;profile=mcp-app'', rd_size = None, rd_icons = None, rd_annotations = None,
      rd_meta = Some (app_descriptor_meta app)\<rparr>"

record listed_resource =
  lr_uri :: string
  lr_name :: "string option"
  lr_description :: "string option"
  lr_mime_type :: "string option"

record provider_page =
  pp_resources :: "listed_resource list"
  pp_next_cursor :: "string option"

type_synonym providers = "string \<rightharpoonup> (string \<Rightarrow> string option \<Rightarrow> provider_page option)"

record ('p, 'w, 'u) catalog =
  cat_px :: "'p policy_ext"
  cat_gate :: "'p policy_gate"
  cat_rx :: "('w, 'u) registry_ext"
  cat_cx :: cursor_ext
  cat_registry :: "'w capability_registry"
  cat_gateway_apps :: "(string \<times> compiled_app) list"
  cat_list_page_size :: nat
  cat_dynamic_list_bindings :: "(string \<times> string) list"

record 'p list_request =
  lq_identity :: request_identity
  lq_bind_key :: bytes
  lq_federations :: "'p federated_tool_policies"
  lq_tick :: "nat \<Rightarrow> nat \<times> nat"

definition set_list_page_size :: "nat \<Rightarrow> ('p, 'w, 'u) catalog \<Rightarrow> ('p, 'w, 'u) catalog" where
  "set_list_page_size n cat = cat\<lparr>cat_list_page_size := max n 1\<rparr>"

definition extract_dynamic_list_bindings ::
  "binding_config list \<Rightarrow> binding_config list \<Rightarrow> (string \<Rightarrow> bool) \<Rightarrow> (string \<times> string) list" where
  "extract_dynamic_list_bindings resources templates is_dynamic_list =
     List.map_filter (\<lambda>b. case registry_lookup_kind (as_binding b) of
         None \<Rightarrow> None
       | Some kind \<Rightarrow> if is_dynamic_list kind then Some (bb_name b, kind) else None) (resources @ templates)"

section \<open>Visibility\<close>

definition surface_is_visible ::
  "('p, 'w, 'u) catalog \<Rightarrow> 'p list_request \<Rightarrow> string \<Rightarrow> policy_route \<Rightarrow> nat \<Rightarrow> cache_entries \<Rightarrow> bool \<times> cache_entries" where
  "surface_is_visible cat rq name r n entries =
     is_visible (cat_px cat) (cat_gate cat) (lq_federations rq) (from_request_context (lq_identity rq) name) r
       (fst (lq_tick rq n)) (snd (lq_tick rq n)) entries"

definition resolve_resource_route :: "('p, 'w, 'u) catalog \<Rightarrow> string \<Rightarrow> resource_route option" where
  "resolve_resource_route cat uri =
     (case map_of (cat_gateway_apps cat) (normal_uri (cat_rx cat) uri) of
        Some app \<Rightarrow> Some (GatewayApp (app_id app))
      | None \<Rightarrow> resource_route_of (cat_rx cat) (cat_registry cat) uri)"

definition resource_policy_route :: "('p, 'w, 'u) catalog \<Rightarrow> string \<Rightarrow> policy_route" where
  "resource_policy_route cat uri =
     (case resolve_resource_route cat uri of
        Some r \<Rightarrow> for_resource r
      | None \<Rightarrow> on_surface gateway Resource)"

definition resource_is_visible ::
  "('p, 'w, 'u) catalog \<Rightarrow> 'p list_request \<Rightarrow> string \<Rightarrow> nat \<Rightarrow> cache_entries \<Rightarrow> bool \<times> cache_entries" where
  "resource_is_visible cat rq uri n entries = surface_is_visible cat rq uri (resource_policy_route cat uri) n entries"

text \<open>\<open>filter\<close> and \<open>retain\<close> with a decision that reads and writes the cache; \<open>n\<close> counts the decisions.\<close>

fun retain_visible ::
  "('a \<Rightarrow> nat \<Rightarrow> cache_entries \<Rightarrow> bool \<times> cache_entries) \<Rightarrow> 'a list \<Rightarrow> nat \<Rightarrow> cache_entries \<Rightarrow> 'a list \<times> cache_entries" where
  "retain_visible decide [] n entries = ([], entries)"
| "retain_visible decide (item # items) n entries =
     (let (shown, entries1) = decide item n entries;
          (kept, entries2) = retain_visible decide items (Suc n) entries1
      in (if shown then item # kept else kept, entries2))"

section \<open>Prompts and templates\<close>

definition enumerate_prompts_page ::
  "('p, 'w, 'u) catalog \<Rightarrow> 'p list_request \<Rightarrow> string option \<Rightarrow> cache_entries \<Rightarrow>
     (prompt_descriptor list \<times> string option) \<times> cache_entries" where
  "enumerate_prompts_page cat rq cursor entries =
     (let (visible, entries') = retain_visible
            (\<lambda>(prompt, federation). surface_is_visible cat rq (pd_name prompt) (on_surface (served_by federation) Prompt))
            (prompts_with_source (cat_registry cat)) 0 entries
      in (paginate_list_bound (cat_cx cat) (map fst visible) cursor (Some (lq_bind_key rq)) (cat_list_page_size cat), entries'))"

definition enumerate_resource_templates_page ::
  "('p, 'w, 'u) catalog \<Rightarrow> 'p list_request \<Rightarrow> string option \<Rightarrow> cache_entries \<Rightarrow>
     (resource_template list \<times> string option) \<times> cache_entries" where
  "enumerate_resource_templates_page cat rq cursor entries =
     (let (visible, entries') = retain_visible
            (\<lambda>(t, federation). surface_is_visible cat rq (rt_uri_template t) (on_surface (served_by federation) Resource))
            (resource_templates_with_source (cat_registry cat)) 0 entries
      in (paginate_list_bound (cat_cx cat) (map fst visible) cursor (Some (lq_bind_key rq)) (cat_list_page_size cat), entries'))"

section \<open>Resources\<close>

text \<open>The gateway's own apps after the registered resources, unless a registered one has the URI.\<close>

fun add_apps :: "(string \<times> compiled_app) list \<Rightarrow> resource_descriptor list \<Rightarrow> resource_descriptor list" where
  "add_apps [] all_resources = all_resources"
| "add_apps ((_, app) # apps) all_resources =
     add_apps apps (if app_uri app \<in> rd_uri ` set all_resources then all_resources else all_resources @ [to_descriptor app])"

definition listed_descriptor :: "string \<Rightarrow> listed_resource \<Rightarrow> resource_descriptor" where
  "listed_descriptor backend_name listed =
     \<lparr>rd_uri = lr_uri listed, rd_name = (case lr_name listed of None \<Rightarrow> backend_name | Some name \<Rightarrow> name), rd_title = None,
      rd_description = lr_description listed, rd_mime_type = lr_mime_type listed, rd_size = None, rd_icons = None,
      rd_annotations = None, rd_meta = None\<rparr>"

type_synonym dyn_target = "string \<times> string \<times> string option"

fun merge_dynamic_resources ::
  "providers \<Rightarrow> dyn_target list \<Rightarrow> resource_descriptor list \<times> dyn_cursor list" where
  "merge_dynamic_resources providers [] = ([], [])"
| "merge_dynamic_resources providers ((backend_name, kind, cursor) # targets) =
     (let (items, remaining) = merge_dynamic_resources providers targets in
      case Option.bind (providers kind) (\<lambda>list_resources. list_resources backend_name cursor) of
        None \<Rightarrow> (items, remaining)
      | Some page \<Rightarrow>
          (map (listed_descriptor backend_name) (pp_resources page) @ items,
           (case pp_next_cursor page of None \<Rightarrow> remaining
            | Some next \<Rightarrow> \<lparr>dc_b = backend_name, dc_c = next\<rparr> # remaining)))"

text \<open>The providers a cursor names, with their kinds.\<close>

definition cursor_targets :: "('p, 'w, 'u) catalog \<Rightarrow> dyn_cursor list \<Rightarrow> dyn_target list" where
  "cursor_targets cat ds =
     List.map_filter (\<lambda>dc. map_option (\<lambda>(b, k). (b, k, Some (dc_c dc)))
       (find (\<lambda>(b, _). b = dc_b dc) (cat_dynamic_list_bindings cat))) ds"

definition static_resources ::
  "('p, 'w, 'u) catalog \<Rightarrow> 'p list_request \<Rightarrow> cache_entries \<Rightarrow> resource_descriptor list \<times> cache_entries" where
  "static_resources cat rq entries =
     retain_visible (\<lambda>r. resource_is_visible cat rq (rd_uri r))
       (add_apps (cat_gateway_apps cat) (resources_list (cat_registry cat))) 0 entries"

definition finish_page ::
  "('p, 'w, 'u) catalog \<Rightarrow> 'p list_request \<Rightarrow> resource_descriptor list \<Rightarrow> nat option \<Rightarrow> dyn_cursor list \<Rightarrow>
     resource_descriptor list \<times> string option" where
  "finish_page cat rq page outgoing_static outgoing_dyn =
     (let outgoing = \<lparr>cc_s = outgoing_static, cc_d = outgoing_dyn\<rparr> in
      (page, if is_done outgoing then None
             else Some (encode_composite_cursor (cat_cx cat) outgoing (Some (lq_bind_key rq)))))"

definition enumerate_resources_page ::
  "('p, 'w, 'u) catalog \<Rightarrow> providers \<Rightarrow> 'p list_request \<Rightarrow> string option \<Rightarrow> cache_entries \<Rightarrow>
     (resource_descriptor list \<times> string option) \<times> cache_entries" where
  "enumerate_resources_page cat providers rq cursor entries =
     (let x = cat_cx cat; key = Some (lq_bind_key rq); per_page = cat_list_page_size cat;
          (all_resources, entries1) = static_resources cat rq entries;
          later = length (add_apps (cat_gateway_apps cat) (resources_list (cat_registry cat)));
          next_offset = (\<lambda>next. Option.bind next (\<lambda>c. decode_cursor x c key));
          merge = (\<lambda>page targets.
            let (items, remaining) = merge_dynamic_resources providers targets;
                (kept, entries2) = retain_visible (\<lambda>r. resource_is_visible cat rq (rd_uri r)) (page @ items) later entries1
            in (kept, remaining, entries2)) in
      case Option.bind cursor (\<lambda>c. decode_composite_cursor x c key) of
        None \<Rightarrow>
          (let (page, next_static) = paginate_list_bound x all_resources cursor key per_page in
           if cursor = None then
             (let (kept, remaining, entries2) = merge page (map (\<lambda>(b, k). (b, k, None)) (cat_dynamic_list_bindings cat))
              in (finish_page cat rq kept (next_offset next_static) remaining, entries2))
           else (finish_page cat rq page (next_offset next_static) [], entries1))
      | Some cc \<Rightarrow>
          (case cc_s cc of
             Some offset \<Rightarrow>
               (let (page, next_static) = paginate_list_bound x all_resources (Some (encode_cursor x offset key)) key per_page
                in (finish_page cat rq page (next_offset next_static) (cc_d cc), entries1))
           | None \<Rightarrow>
               (let (kept, remaining, entries2) = merge [] (cursor_targets cat (cc_d cc))
                in (finish_page cat rq kept None remaining, entries2))))"

end
