(* ===== verification/Catalog_Properties.thy ===== *)
theory Catalog_Properties
  imports Catalog_Listing Registry_Properties
begin

text \<open>
  What a client sees of the catalog: a walk through the resource list, from the registry through the policy
  gate, the page cutter and the dynamic providers.
\<close>

section \<open>Decisions without a cache\<close>

definition shown :: "('p, 'w, 'u) catalog \<Rightarrow> 'p list_request \<Rightarrow> resource_descriptor \<Rightarrow> bool" where
  "shown cat rq r \<longleftrightarrow>
     evaluate_uncached (cat_px cat) (pg_policy (cat_gate cat)) (from_request_context (lq_identity rq) (rd_uri r))
       (lq_federations rq) (resource_policy_route cat (rd_uri r)) = Allow"

lemma retain_visible_pure:
  assumes "\<And>item n. decide item n entries = (P item, entries)"
  shows "retain_visible decide items n entries = (filter P items, entries)"
  by (induction items arbitrary: n) (simp_all add: assms)

lemma resource_is_visible_uncached:
  assumes "pg_cache (cat_gate cat) = None"
  shows "resource_is_visible cat rq (rd_uri r) n entries = (shown cat rq r, entries)"
  using assms by (simp add: resource_is_visible_def surface_is_visible_def is_visible_def evaluate_def shown_def)

lemma retain_resources:
  assumes "pg_cache (cat_gate cat) = None"
  shows "retain_visible (\<lambda>r. resource_is_visible cat rq (rd_uri r)) items n entries = (filter (shown cat rq) items, entries)"
  by (rule retain_visible_pure) (rule resource_is_visible_uncached [OF assms])

definition statics :: "('p, 'w, 'u) catalog \<Rightarrow> 'p list_request \<Rightarrow> resource_descriptor list" where
  "statics cat rq = filter (shown cat rq) (add_apps (cat_gateway_apps cat) (resources_list (cat_registry cat)))"

lemma static_resources_uncached:
  assumes "pg_cache (cat_gate cat) = None"
  shows "static_resources cat rq entries = (statics cat rq, entries)"
  unfolding static_resources_def statics_def
  by (rule retain_resources [OF assms])

section \<open>One page\<close>

definition page_len :: "('p, 'w, 'u) catalog \<Rightarrow> nat" where
  "page_len cat = max (cat_list_page_size cat) 1"

lemma page_len_pos: "0 < page_len cat"
  by (simp add: page_len_def)

definition next_static :: "('p, 'w, 'u) catalog \<Rightarrow> 'p list_request \<Rightarrow> nat \<Rightarrow> nat option" where
  "next_static cat rq offset =
     (if offset + page_len cat < length (statics cat rq) then Some (offset + page_len cat) else None)"

lemma static_page:
  fixes cat :: "('p, 'w, 'u) catalog"
  assumes "cursor_codec (cat_cx cat)" "length (statics cat rq) < 2 ^ 64" "offset < length (statics cat rq) \<or> offset = 0"
    and "cursor = Some (encode_cursor (cat_cx cat) offset (Some (lq_bind_key rq))) \<or> cursor = None \<and> offset = 0"
  shows "\<exists>next. paginate_list_bound (cat_cx cat) (statics cat rq) cursor (Some (lq_bind_key rq)) (cat_list_page_size cat) =
      (take (page_len cat) (drop offset (statics cat rq)), next) \<and>
    Option.bind next (\<lambda>c. decode_cursor (cat_cx cat) c (Some (lq_bind_key rq))) = next_static cat rq offset"
proof (cases "offset < length (statics cat rq)")
  case True
  have at: "Option.bind cursor (\<lambda>c. decode_cursor (cat_cx cat) c (Some (lq_bind_key rq))) = Some offset \<or> cursor = None \<and> offset = 0"
    using assms(2,4) True decode_encode [OF assms(1), of offset "Some (lq_bind_key rq)"] by auto
  show ?thesis
    using paginate_at [OF assms(1,2) True at, of "cat_list_page_size cat", folded page_len_def] assms(2)
      decode_encode [OF assms(1), of "offset + page_len cat" "Some (lq_bind_key rq)"]
    by (auto simp: next_static_def)
next
  case False
  with assms(3) have "offset = 0" "statics cat rq = []" by auto
  then show ?thesis by (simp add: paginate_list_bound_def next_static_def Let_def)
qed

text \<open>The three kinds of request, when the gate has no cache.\<close>

lemma first_page:
  assumes "pg_cache (cat_gate cat) = None" "cursor_codec (cat_cx cat)" "length (statics cat rq) < 2 ^ 64"
    and "merge_dynamic_resources providers (map (\<lambda>(b, k). (b, k, None)) (cat_dynamic_list_bindings cat)) = (items, remaining)"
  shows "enumerate_resources_page cat providers rq None entries =
    (finish_page cat rq (take (page_len cat) (statics cat rq) @ filter (shown cat rq) items) (next_static cat rq 0) remaining, entries)"
proof -
  obtain nxt where page: "paginate_list_bound (cat_cx cat) (statics cat rq) None (Some (lq_bind_key rq)) (cat_list_page_size cat) =
      (take (page_len cat) (statics cat rq), nxt)"
    "Option.bind nxt (\<lambda>c. decode_cursor (cat_cx cat) c (Some (lq_bind_key rq))) = next_static cat rq 0"
    using static_page [OF assms(2,3), of 0 None] by auto
  have "filter (shown cat rq) (take n (statics cat rq)) = take n (statics cat rq)" for n
    by (auto simp: statics_def filter_id_conv dest: in_set_takeD)
  with page assms(4) show ?thesis
    by (simp add: enumerate_resources_page_def Let_def static_resources_uncached [OF assms(1)]
        retain_resources [OF assms(1)])
qed

lemma static_composite_page:
  assumes "pg_cache (cat_gate cat) = None" "cursor_codec (cat_cx cat)" "length (statics cat rq) < 2 ^ 64"
    and "offset < length (statics cat rq)"
  shows "enumerate_resources_page cat providers rq
      (Some (encode_composite_cursor (cat_cx cat) \<lparr>cc_s = Some offset, cc_d = ds\<rparr> (Some (lq_bind_key rq)))) entries =
    (finish_page cat rq (take (page_len cat) (drop offset (statics cat rq))) (next_static cat rq offset) ds, entries)"
proof -
  obtain nxt where page: "paginate_list_bound (cat_cx cat) (statics cat rq)
      (Some (encode_cursor (cat_cx cat) offset (Some (lq_bind_key rq)))) (Some (lq_bind_key rq)) (cat_list_page_size cat) =
      (take (page_len cat) (drop offset (statics cat rq)), nxt)"
    "Option.bind nxt (\<lambda>c. decode_cursor (cat_cx cat) c (Some (lq_bind_key rq))) = next_static cat rq offset"
    using static_page [OF assms(2,3), of offset "Some (encode_cursor (cat_cx cat) offset (Some (lq_bind_key rq)))"] assms(4) by auto
  then show ?thesis
    by (simp add: enumerate_resources_page_def Let_def static_resources_uncached [OF assms(1)] decode_encode_composite [OF assms(2)])
qed

lemma dynamic_composite_page:
  assumes "pg_cache (cat_gate cat) = None" "cursor_codec (cat_cx cat)"
    and "merge_dynamic_resources providers (cursor_targets cat ds) = (items, remaining)"
  shows "enumerate_resources_page cat providers rq
      (Some (encode_composite_cursor (cat_cx cat) \<lparr>cc_s = None, cc_d = ds\<rparr> (Some (lq_bind_key rq)))) entries =
    (finish_page cat rq (filter (shown cat rq) items) None remaining, entries)"
  using assms(3)
  by (simp add: enumerate_resources_page_def Let_def static_resources_uncached [OF assms(1)] decode_encode_composite [OF assms(2)]
      retain_resources [OF assms(1)])

section \<open>The whole walk\<close>

text \<open>A client that follows the cursors of the resource list, at most \<open>n\<close> requests.\<close>

fun resource_walk ::
  "nat \<Rightarrow> ('p, 'w, 'u) catalog \<Rightarrow> providers \<Rightarrow> 'p list_request \<Rightarrow> string option \<Rightarrow> cache_entries \<Rightarrow>
     resource_descriptor list option" where
  "resource_walk 0 cat providers rq cursor entries = None"
| "resource_walk (Suc n) cat providers rq cursor entries =
     (case enumerate_resources_page cat providers rq cursor entries of
        ((page, None), _) \<Rightarrow> Some page
      | ((page, Some next), entries') \<Rightarrow> map_option ((@) page) (resource_walk n cat providers rq (Some next) entries'))"

text \<open>The rounds of the dynamic providers alone: what they list until none has a further page.\<close>

fun dynamic_rounds ::
  "nat \<Rightarrow> ('p, 'w, 'u) catalog \<Rightarrow> providers \<Rightarrow> 'p list_request \<Rightarrow> dyn_cursor list \<Rightarrow> resource_descriptor list option" where
  "dynamic_rounds n cat providers rq [] = Some []"
| "dynamic_rounds 0 cat providers rq (d # ds) = None"
| "dynamic_rounds (Suc n) cat providers rq (d # ds) =
     (case merge_dynamic_resources providers (cursor_targets cat (d # ds)) of
        (items, remaining) \<Rightarrow> map_option ((@) (filter (shown cat rq) items)) (dynamic_rounds n cat providers rq remaining))"

lemma resource_walk_more: "resource_walk n cat providers rq cursor entries = Some items \<Longrightarrow>
    resource_walk (n + k) cat providers rq cursor entries = Some items"
proof (induction n arbitrary: cursor entries items)
  case (Suc n)
  then show ?case by (auto split: prod.splits option.splits)
qed simp

lemma walk_dynamic:
  assumes "pg_cache (cat_gate cat) = None" "cursor_codec (cat_cx cat)" "dynamic_rounds n cat providers rq (d # ds) = Some items"
  shows "resource_walk n cat providers rq
    (Some (encode_composite_cursor (cat_cx cat) \<lparr>cc_s = None, cc_d = d # ds\<rparr> (Some (lq_bind_key rq)))) entries = Some items"
  using assms(3)
proof (induction n arbitrary: d ds items)
  case (Suc n)
  obtain new remaining where m: "merge_dynamic_resources providers (cursor_targets cat (d # ds)) = (new, remaining)" by force
  note page = dynamic_composite_page [OF assms(1,2) m, of rq entries]
  show ?case
  proof (cases remaining)
    case Nil
    with Suc.prems m page show ?thesis by (simp add: finish_page_def is_done_def)
  next
    case (Cons d' ds')
    with Suc m page show ?thesis by (auto simp: finish_page_def is_done_def)
  qed
qed simp

lemma walk_static:
  assumes "pg_cache (cat_gate cat) = None" "cursor_codec (cat_cx cat)" "length (statics cat rq) < 2 ^ 64"
    and "dynamic_rounds n cat providers rq ds = Some items"
    and "offset < length (statics cat rq)" "length (statics cat rq) - offset \<le> k"
  shows "resource_walk (k + n) cat providers rq
    (Some (encode_composite_cursor (cat_cx cat) \<lparr>cc_s = Some offset, cc_d = ds\<rparr> (Some (lq_bind_key rq)))) entries =
    Some (drop offset (statics cat rq) @ items)"
  using assms(5,6)
proof (induction k arbitrary: offset)
  case (Suc k)
  let ?m = "offset + page_len cat"
  note page = static_composite_page [OF assms(1-3) Suc.prems(1), of providers ds entries]
  show ?case
  proof (cases "?m < length (statics cat rq)")
    case True
    have "take (page_len cat) (drop offset (statics cat rq)) @ drop ?m (statics cat rq) = drop offset (statics cat rq)"
      by (metis add.commute append_take_drop_id drop_drop)
    then have "take (page_len cat) (drop offset (statics cat rq)) @ drop ?m (statics cat rq) @ items =
        drop offset (statics cat rq) @ items" by (metis append.assoc)
    moreover have "length (statics cat rq) - ?m \<le> k" using Suc.prems page_len_pos [of cat] by auto
    ultimately show ?thesis using page Suc.IH [of ?m] True by (simp add: finish_page_def is_done_def next_static_def)
  next
    case False
    then have all: "take (page_len cat) (drop offset (statics cat rq)) = drop offset (statics cat rq)" by simp
    show ?thesis
    proof (cases ds)
      case Nil
      with page False all assms(4) show ?thesis by (simp add: finish_page_def is_done_def next_static_def)
    next
      case (Cons d ds')
      from resource_walk_more [OF walk_dynamic [OF assms(1,2) assms(4) [unfolded Cons]], of k]
      have "resource_walk (k + n) cat providers rq
        (Some (encode_composite_cursor (cat_cx cat) \<lparr>cc_s = None, cc_d = ds\<rparr> (Some (lq_bind_key rq)))) entries = Some items"
        using Cons by (simp add: add.commute)
      with page False all Cons show ?thesis by (simp add: finish_page_def is_done_def next_static_def)
    qed
  qed
qed simp


section \<open>Witness\<close>

text \<open>An open gate, one resource of the gateway's own, and a provider with two pages.\<close>

definition open_gate :: "unit policy_gate" where
  "open_gate = \<lparr>pg_policy = \<lparr>tap_default_minimum_trust = Unauthenticated, tap_per_tool_rules = Map.empty, tap_cel_allow_if = None\<rparr>,
     pg_cache = None\<rparr>"

definition sample_catalog :: "(unit, unit, string) catalog" where
  "sample_catalog =
     \<lparr>cat_px = \<lparr>px_compile = (\<lambda>_. Inr ()), px_execute = (\<lambda>_ _. Inr CelNull), px_json_to_cel = (\<lambda>_. CelNull),
        px_debug = (\<lambda>_. []), px_details = (\<lambda>_. None), px_hash = (\<lambda>_. 0), px_digest = (\<lambda>_. [])\<rparr>,
      cat_gate = open_gate, cat_rx = sample_rx, cat_cx = letter_cx, cat_registry = sample_registry, cat_gateway_apps = [],
      cat_list_page_size = 1, cat_dynamic_list_bindings = [(''feed'', ''http'')]\<rparr>"

definition feed :: providers where
  "feed kind = (if kind = ''http'' then Some (\<lambda>name cursor.
     Some (if cursor = None then \<lparr>pp_resources = [\<lparr>lr_uri = ''mcp:one'', lr_name = None, lr_description = None, lr_mime_type = None\<rparr>],
             pp_next_cursor = Some ''2''\<rparr>
           else \<lparr>pp_resources = [\<lparr>lr_uri = ''mcp:two'', lr_name = None, lr_description = None, lr_mime_type = None\<rparr>],
             pp_next_cursor = None\<rparr>)) else None)"

definition sample_lq :: "unit list_request" where
  "sample_lq = \<lparr>lq_identity = Anonymous ''a'', lq_bind_key = [1], lq_federations = Map.empty, lq_tick = (\<lambda>n. (n, n))\<rparr>"

lemma sample_shown [simp]: "shown sample_catalog sample_lq r"
proof -
  have "pr_federation (resource_policy_route sample_catalog uri) = None" for uri
    by (auto simp: resource_policy_route_def resolve_resource_route_def sample_catalog_def resource_route_of_def sample_registry_def
        registry_new_def register_resource_def sample_binding_def registered_resource_new_def Let_def empty_catalog_def
        catalog_resource_def on_surface_def gateway_def split: option.splits)
  then show ?thesis
    by (simp add: shown_def evaluate_uncached_def rules_for_def named_rules_def sample_catalog_def open_gate_def sample_lq_def
        Let_def scope_denial_def evaluate_cel_allow_if_def less_request_trust_level_def split: option.split)
qed

lemma sample_statics: "statics sample_catalog sample_lq = [sample_resource ''notes'']"
proof -
  have "resources_list sample_registry = [sample_resource ''notes'']"
    by (simp add: resources_list_def sample_resource_def sample_registry_defs empty_catalog_def)
  then show ?thesis by (simp add: statics_def) (simp add: sample_catalog_def)
qed


end
