(* ===== verification/Session_Streams.thy ===== *)
theory Session_Streams
  imports Memory_Kv "HOL-Library.Product_Lexorder"
begin

text \<open>
  The data of \<open>src/runtime/stores/session_store.rs\<close>: sessions, their SSE streams and what a stream keeps for
  replay.  A client that reconnects with the id of the last event it received is sent the later events of
  that stream.  A session keeps its most recent streams only.

  Serde, \<open>f64\<close> arithmetic, the redaction of credentials and the protocol types are outside the repository:
  \<open>session_ext\<close>.  The level and the response of the protocol are datatypes with the constructors the source
  matches on.  Stream and event ordinals (\<open>u64\<close>) are \<open>nat\<close>.
\<close>

section \<open>Data\<close>

datatype session_phase = AwaitingInitialized | Operational

datatype logging_level =
  LDebug | LInfo | LNotice | LWarning | LError | LCritical | LAlert | LEmergency

fun severity :: "logging_level \<Rightarrow> nat" where
  "severity LDebug = 0"
| "severity LInfo = 1"
| "severity LNotice = 2"
| "severity LWarning = 3"
| "severity LError = 4"
| "severity LCritical = 5"
| "severity LAlert = 6"
| "severity LEmergency = 7"

datatype protocol_response =
  JsonRpcSuccess json
| JsonRpcError json
| NotificationAccepted

record implementation_info =
  ii_name :: string
  ii_title :: "string option"
  ii_version :: string
  ii_description :: "string option"
  ii_website_url :: "string option"
  ii_icons :: "json option"

record initialize_params =
  ip_capabilities :: json
  ip_client_info :: implementation_info

record session_snapshot =
  sn_session_id :: string
  sn_protocol_version :: string
  sn_client_info :: implementation_info
  sn_client_capabilities :: json
  sn_phase :: session_phase
  sn_log_level :: logging_level
  sn_created_at :: nat
  sn_owner_principal :: "string option"

record sse_event_record =
  ev_event_id :: string
  ev_data :: string
  ev_retry_ms :: "nat option"

record session_store_config =
  sc_replay_window_limit :: nat
  sc_session_idle_timeout_ms :: nat
  sc_max_sessions :: nat
  sc_max_sessions_per_tenant :: nat

definition default_session_store_config :: session_store_config where
  "default_session_store_config =
     \<lparr>sc_replay_window_limit = 16, sc_session_idle_timeout_ms = 900000, sc_max_sessions = 10000,
      sc_max_sessions_per_tenant = 0\<rparr>"

datatype session_access_error = MissingSessionId | UnknownSession | NotInitialized

datatype stream_access_error =
  StreamMissingSessionId
| StreamUnknownSession
| StreamNotInitialized
| InvalidCursor
| ExpiredCursor

record 'f log_token_bucket =
  tb_tokens :: 'f
  tb_last_refill :: nat

record 'f stored_stream =
  st_replay_window :: "sse_event_record list"
  st_next_event_ordinal :: nat
  st_log_bucket :: "'f log_token_bucket option"

record 'f stored_session =
  ses_session_id :: string
  ses_protocol_version :: string
  ses_client_info :: implementation_info
  ses_client_capabilities :: json
  ses_phase :: session_phase
  ses_log_level :: logging_level
  ses_next_stream_ordinal :: nat
  ses_streams :: "(string \<times> 'f stored_stream) list"
  ses_active_stream_id :: "string option"
  ses_owner_principal :: "string option"
  ses_tenant_slot :: bool
  ses_last_seen_at :: nat
  ses_created_at :: nat
  ses_written_at_ms :: int
  ses_verified_at_ms :: int

text \<open>\<open>sf_secs\<close> is \<open>Duration::as_secs_f64\<close>; \<open>se_log_line\<close> renders a \<open>notifications/message\<close> with redacted data,
  \<open>se_envelope\<close> a JSON-RPC envelope.\<close>

record 'f bucket_f64 =
  sf_of_nat :: "nat \<Rightarrow> 'f"
  sf_secs :: "nat \<Rightarrow> 'f"
  sf_add :: "'f \<Rightarrow> 'f \<Rightarrow> 'f"
  sf_sub :: "'f \<Rightarrow> 'f \<Rightarrow> 'f"
  sf_mul :: "'f \<Rightarrow> 'f \<Rightarrow> 'f"
  sf_min :: "'f \<Rightarrow> 'f \<Rightarrow> 'f"
  sf_le :: "'f \<Rightarrow> 'f \<Rightarrow> bool"

record ('v, 'f) session_ext =
  se_f64 :: "'f bucket_f64"
  se_log_line :: "logging_level \<Rightarrow> string \<Rightarrow> json \<Rightarrow> string"
  se_envelope :: "json \<Rightarrow> string"
  se_to_vec :: "'f stored_session \<Rightarrow> string + 'v"
  se_from_slice :: "'v \<Rightarrow> string + 'f stored_session"
  se_text :: "string \<Rightarrow> 'v"
  se_b64 :: "string \<Rightarrow> string"
  se_default_capabilities :: json

section \<open>Sessions\<close>

definition tenant_of :: "'f stored_session \<Rightarrow> string" where
  "tenant_of ses = (case ses_owner_principal ses of None \<Rightarrow> ''anonymous'' | Some owner \<Rightarrow> owner)"

definition snapshot :: "'f stored_session \<Rightarrow> session_snapshot" where
  "snapshot ses =
     \<lparr>sn_session_id = ses_session_id ses, sn_protocol_version = ses_protocol_version ses,
      sn_client_info = ses_client_info ses, sn_client_capabilities = ses_client_capabilities ses,
      sn_phase = ses_phase ses, sn_log_level = ses_log_level ses, sn_created_at = ses_created_at ses,
      sn_owner_principal = ses_owner_principal ses\<rparr>"

definition touch :: "clock \<Rightarrow> 'f stored_session \<Rightarrow> 'f stored_session" where
  "touch c ses = ses\<lparr>ses_last_seen_at := clk_utc c\<rparr>"

definition replay_bytes :: "'f stored_stream \<Rightarrow> nat" where
  "replay_bytes stream =
     sum_list (map (\<lambda>event. length (ev_event_id event) + length (ev_data event)) (st_replay_window stream))"

definition LOG_RATE_PER_SEC :: nat where
  "LOG_RATE_PER_SEC = 50"

definition LOG_RATE_BURST :: nat where
  "LOG_RATE_BURST = 100"

definition SSE_RETRY_MS :: nat where
  "SSE_RETRY_MS = 1500"

definition RETAINED_STREAMS :: nat where
  "RETAINED_STREAMS = 16"

definition RETAINED_REPLAY_BYTES :: nat where
  "RETAINED_REPLAY_BYTES = 256 * 1024"

definition stream_ordinal :: "string \<Rightarrow> nat option" where
  "stream_ordinal stream_id = Option.bind (strip_prefix stream_id ''stream-'') parse_u64"

fun retire_loop ::
  "string option \<Rightarrow> string list \<Rightarrow> nat \<Rightarrow> nat \<Rightarrow> (string \<times> 'f stored_stream) list \<Rightarrow> (string \<times> 'f stored_stream) list" where
  "retire_loop active [] kept bytes streams = streams"
| "retire_loop active (sid # ids) kept bytes streams =
     (if kept \<le> RETAINED_STREAMS \<and> bytes \<le> RETAINED_REPLAY_BYTES then streams
      else if active = Some sid then retire_loop active ids kept bytes streams
      else (case map_of streams sid of
              None \<Rightarrow> retire_loop active ids kept bytes streams
            | Some stream \<Rightarrow>
                retire_loop active ids (kept - 1) (bytes - replay_bytes stream) (AList.delete sid streams)))"

definition retire_old_streams :: "'f stored_session \<Rightarrow> 'f stored_session" where
  "retire_old_streams ses =
     (let streams = ses_streams ses;
          ids = sort (map (\<lambda>(id, _). (case stream_ordinal id of None \<Rightarrow> 0 | Some n \<Rightarrow> n, id)) streams)
      in ses\<lparr>ses_streams := retire_loop (ses_active_stream_id ses) (map snd ids) (length ids)
                              (sum_list (map (\<lambda>(_, stream). replay_bytes stream) streams)) streams\<rparr>)"

section \<open>Events\<close>

definition empty_stream :: "'f stored_stream" where
  "empty_stream = \<lparr>st_replay_window = [], st_next_event_ordinal = 0, st_log_bucket = None\<rparr>"

definition DELIVERY_ID_SEP :: char where
  "DELIVERY_ID_SEP = CHR ''@''"

definition append_event_with_delivery ::
  "'f stored_stream \<Rightarrow> string \<Rightarrow> string \<Rightarrow> nat option \<Rightarrow> nat \<Rightarrow> string option \<Rightarrow> sse_event_record \<times> 'f stored_stream" where
  "append_event_with_delivery stream stream_id data retry_ms replay_window_limit delivery_id =
     (let ordinal = st_next_event_ordinal stream;
          event_id = stream_id @ '':'' @ show_nat ordinal @
            (case delivery_id of None \<Rightarrow> [] | Some did \<Rightarrow> DELIVERY_ID_SEP # did);
          event = \<lparr>ev_event_id = event_id, ev_data = data, ev_retry_ms = retry_ms\<rparr>;
          window = st_replay_window stream @ [event]
      in (event, stream\<lparr>st_next_event_ordinal := ordinal + 1,
                        st_replay_window := drop (length window - replay_window_limit) window\<rparr>))"

definition append_event ::
  "'f stored_stream \<Rightarrow> string \<Rightarrow> string \<Rightarrow> nat option \<Rightarrow> nat \<Rightarrow> sse_event_record \<times> 'f stored_stream" where
  "append_event stream stream_id data retry_ms replay_window_limit =
     append_event_with_delivery stream stream_id data retry_ms replay_window_limit None"

definition event_id_core :: "string \<Rightarrow> string" where
  "event_id_core event_id =
     (case split_once DELIVERY_ID_SEP event_id of Some (core, _) \<Rightarrow> core | None \<Rightarrow> event_id)"

definition delivery_id_from_event_id :: "string \<Rightarrow> string option" where
  "delivery_id_from_event_id event_id =
     (case split_once DELIVERY_ID_SEP event_id of
        None \<Rightarrow> None
      | Some (_, delivery_id) \<Rightarrow> if delivery_id = [] then None else Some delivery_id)"

text \<open>\<open>str::rsplit_once\<close>: around the last separator.\<close>

definition rsplit_once :: "char \<Rightarrow> string \<Rightarrow> (string \<times> string) option" where
  "rsplit_once ch s = map_option (\<lambda>(a, b). (rev b, rev a)) (split_once ch (rev s))"

definition parse_event_id :: "string \<Rightarrow> (string \<times> nat) option" where
  "parse_event_id event_id =
     (case rsplit_once (CHR '':'') (event_id_core event_id) of
        None \<Rightarrow> None
      | Some (stream_id, ordinal) \<Rightarrow> map_option (\<lambda>n. (stream_id, n)) (parse_u64 ordinal))"

definition event_ordinal :: "string \<Rightarrow> nat option" where
  "event_ordinal event_id = map_option snd (parse_event_id event_id)"

definition bucket_take :: "'f bucket_f64 \<Rightarrow> nat \<Rightarrow> 'f log_token_bucket \<Rightarrow> bool \<times> 'f log_token_bucket" where
  "bucket_take f now bucket =
     (let elapsed = sf_secs f (now - tb_last_refill bucket);
          tokens = sf_min f (sf_add f (tb_tokens bucket) (sf_mul f elapsed (sf_of_nat f LOG_RATE_PER_SEC)))
                            (sf_of_nat f LOG_RATE_BURST)
      in if sf_le f (sf_of_nat f 1) tokens
         then (True, \<lparr>tb_tokens = sf_sub f tokens (sf_of_nat f 1), tb_last_refill = now\<rparr>)
         else (False, \<lparr>tb_tokens = tokens, tb_last_refill = now\<rparr>))"

definition logging_notification_event ::
  "('v, 'f) session_ext \<Rightarrow> 'f stored_stream \<Rightarrow> string \<Rightarrow> logging_level \<Rightarrow> logging_level \<Rightarrow> string \<Rightarrow> json \<Rightarrow> nat \<Rightarrow>
     clock \<Rightarrow> sse_event_record option \<times> 'f stored_stream" where
  "logging_notification_event x stream stream_id session_log_level event_level logger data replay_window_limit c =
     (if severity event_level < severity session_log_level then (None, stream)
      else
        (let (taken, stream1) =
           (if event_level \<in> {LCritical, LAlert, LEmergency} then (True, stream)
            else (let bucket = (case st_log_bucket stream of
                        None \<Rightarrow> \<lparr>tb_tokens = sf_of_nat (se_f64 x) LOG_RATE_BURST, tb_last_refill = clk_inst c\<rparr>
                      | Some b \<Rightarrow> b);
                      (ok, bucket1) = bucket_take (se_f64 x) (clk_inst c) bucket
                  in (ok, stream\<lparr>st_log_bucket := Some bucket1\<rparr>)))
         in if \<not> taken then (None, stream1)
            else (let (event, stream2) =
                    append_event stream1 stream_id (se_log_line x event_level logger data) None replay_window_limit
                  in (Some event, stream2))))"

section \<open>The streams of a session\<close>

text \<open>The resume branch of \<open>open_sse_stream\<close>: the events after the cursor, if its stream still holds it.\<close>

definition replay_after :: "'f stored_session \<Rightarrow> string \<Rightarrow> stream_access_error + sse_event_record list" where
  "replay_after ses last_event_id =
     (case parse_event_id last_event_id of
        None \<Rightarrow> Inl InvalidCursor
      | Some (stream_id, last_ordinal) \<Rightarrow>
          (case map_of (ses_streams ses) stream_id of
             None \<Rightarrow>
               (case stream_ordinal stream_id of
                  Some ordinal \<Rightarrow>
                    if ordinal < ses_next_stream_ordinal ses then Inl ExpiredCursor else Inl InvalidCursor
                | None \<Rightarrow> Inl InvalidCursor)
           | Some stream \<Rightarrow>
               if \<not> list_ex (\<lambda>event. event_id_core (ev_event_id event) = event_id_core last_event_id) (st_replay_window stream)
               then Inl ExpiredCursor
               else Inr (filter (\<lambda>event. case event_ordinal (ev_event_id event) of
                                    None \<Rightarrow> False | Some ordinal \<Rightarrow> last_ordinal < ordinal) (st_replay_window stream))))"

text \<open>A new active stream with its first events: the priming event and the log line.\<close>

definition begin_stream ::
  "('v, 'f) session_ext \<Rightarrow> session_store_config \<Rightarrow> string \<Rightarrow> clock \<Rightarrow> 'f stored_session \<Rightarrow>
     sse_event_record list \<times> string \<times> 'f stored_stream \<times> 'f stored_session" where
  "begin_stream x cfg message c ses =
     (let stream_id = ''stream-'' @ show_nat (ses_next_stream_ordinal ses);
          ses1 = ses\<lparr>ses_next_stream_ordinal := ses_next_stream_ordinal ses + 1, ses_active_stream_id := Some stream_id\<rparr>;
          stream = (case map_of (ses_streams ses) stream_id of None \<Rightarrow> empty_stream | Some s \<Rightarrow> s);
          (prime_event, stream1) = append_event stream stream_id [] (Some SSE_RETRY_MS) (sc_replay_window_limit cfg);
          (logging_event, stream2) =
            logging_notification_event x stream1 stream_id (ses_log_level ses) LInfo ''mcpg.transport''
              (JObj [(''message'', JStr message), (''sessionId'', JStr (ses_session_id ses))]) (sc_replay_window_limit cfg) c
      in (prime_event # (case logging_event of None \<Rightarrow> [] | Some e \<Rightarrow> [e]), stream_id, stream2, ses1))"

definition set_stream :: "string \<Rightarrow> 'f stored_stream \<Rightarrow> 'f stored_session \<Rightarrow> 'f stored_session" where
  "set_stream stream_id stream ses = ses\<lparr>ses_streams := AList.update stream_id stream (ses_streams ses)\<rparr>"

definition open_stream ::
  "('v, 'f) session_ext \<Rightarrow> session_store_config \<Rightarrow> clock \<Rightarrow> 'f stored_session \<Rightarrow> sse_event_record list \<times> 'f stored_session" where
  "open_stream x cfg c ses =
     (let (events, stream_id, stream, ses1) = begin_stream x cfg ''SSE stream opened'' c ses
      in (events, retire_old_streams (set_stream stream_id stream ses1)))"

fun append_all ::
  "'f stored_stream \<Rightarrow> string \<Rightarrow> nat \<Rightarrow> string list \<Rightarrow> sse_event_record list \<times> 'f stored_stream" where
  "append_all stream stream_id limit [] = ([], stream)"
| "append_all stream stream_id limit (payload # payloads) =
     (let (event, stream1) = append_event stream stream_id payload None limit;
          (events, stream2) = append_all stream1 stream_id limit payloads
      in (event # events, stream2))"

fun response_payload :: "('v, 'f) session_ext \<Rightarrow> protocol_response \<Rightarrow> string" where
  "response_payload x (JsonRpcSuccess success) = se_envelope x success"
| "response_payload x (JsonRpcError error) = se_envelope x error"
| "response_payload x NotificationAccepted = []"

definition respond_on_stream ::
  "('v, 'f) session_ext \<Rightarrow> session_store_config \<Rightarrow> protocol_response \<Rightarrow> string list \<Rightarrow> clock \<Rightarrow> 'f stored_session \<Rightarrow>
     sse_event_record list \<times> 'f stored_session" where
  "respond_on_stream x cfg protocol_response pending_notifications c ses =
     (let (events, stream_id, stream, ses1) = begin_stream x cfg ''Streaming protocol response'' c ses;
          (later, stream1) = append_all stream stream_id (sc_replay_window_limit cfg)
             (pending_notifications @ [response_payload x protocol_response])
      in (events @ later, retire_old_streams (set_stream stream_id stream1 ses1)))"

text \<open>The push branch of \<open>stream_message_inner\<close>: one more event on the active stream.\<close>

definition push_on_stream ::
  "session_store_config \<Rightarrow> string \<Rightarrow> string option \<Rightarrow> 'f stored_session \<Rightarrow>
     stream_access_error + sse_event_record \<times> 'f stored_session" where
  "push_on_stream cfg message_json delivery_id ses =
     (case ses_active_stream_id ses of
        None \<Rightarrow> Inl StreamNotInitialized
      | Some stream_id \<Rightarrow>
          (case map_of (ses_streams ses) stream_id of
             None \<Rightarrow> Inl StreamUnknownSession
           | Some stream \<Rightarrow>
               (let (event, stream1) =
                  append_event_with_delivery stream stream_id message_json None (sc_replay_window_limit cfg) delivery_id
                in Inr (event, set_stream stream_id stream1 ses))))"

section \<open>Event ids\<close>

lemma parse_u64_lt: "parse_u64 s = Some n \<Longrightarrow> n < 2 ^ 64"
  by (auto simp: parse_u64_def split: option.splits if_splits)

lemma rsplit_once_append: "ch \<notin> set b \<Longrightarrow> rsplit_once ch (a @ ch # b) = Some (a, b)"
  by (simp add: rsplit_once_def split_once_append)

lemma show_nat_no_sign: "CHR '':'' \<notin> set (show_nat n)" "CHR ''@'' \<notin> set (show_nat n)" "CHR ''-'' \<notin> set (show_nat n)"
  by (auto simp: is_digit_def dest!: show_nat_hd)

definition event_id_of :: "string \<Rightarrow> nat \<Rightarrow> string option \<Rightarrow> string" where
  "event_id_of stream_id ordinal delivery_id =
     stream_id @ '':'' @ show_nat ordinal @ (case delivery_id of None \<Rightarrow> [] | Some did \<Rightarrow> DELIVERY_ID_SEP # did)"

lemma event_id_core_of:
  assumes "CHR ''@'' \<notin> set stream_id"
  shows "event_id_core (event_id_of stream_id n did) = stream_id @ '':'' @ show_nat n"
proof -
  have free: "CHR ''@'' \<notin> set (stream_id @ '':'' @ show_nat n)" using assms by (simp add: show_nat_no_sign)
  show ?thesis
  proof (cases did)
    case None
    then show ?thesis using free split_once_None [of "CHR ''@''" "stream_id @ '':'' @ show_nat n"]
      by (simp add: event_id_core_def event_id_of_def DELIVERY_ID_SEP_def)
  next
    case (Some d)
    then show ?thesis using split_once_append [OF free, of d]
      by (simp add: event_id_core_def event_id_of_def DELIVERY_ID_SEP_def)
  qed
qed

lemma parse_event_id_of:
  assumes "CHR ''@'' \<notin> set stream_id" "n < 2 ^ 64"
  shows "parse_event_id (event_id_of stream_id n did) = Some (stream_id, n)"
  using assms rsplit_once_append [OF show_nat_no_sign(1), of stream_id n]
  by (simp add: parse_event_id_def event_id_core_of)

text \<open>The suffix of a pushed event gives its delivery id back.\<close>

lemma delivery_id_round_trip:
  assumes "CHR ''@'' \<notin> set stream_id" "did \<noteq> []"
  shows "delivery_id_from_event_id (event_id_of stream_id n (Some did)) = Some did"
proof -
  have "CHR ''@'' \<notin> set (stream_id @ '':'' @ show_nat n)" using assms by (simp add: show_nat_no_sign)
  from split_once_append [OF this, of did] assms(2) show ?thesis
    by (simp add: delivery_id_from_event_id_def event_id_of_def DELIVERY_ID_SEP_def)
qed

section \<open>A stream and the events it was given\<close>

inductive stream_run :: "nat \<Rightarrow> string \<Rightarrow> sse_event_record list \<Rightarrow> 'f stored_stream \<Rightarrow> bool"
  for limit stream_id where
  run_empty: "stream_run limit stream_id [] empty_stream"
| run_append: "stream_run limit stream_id events stream \<Longrightarrow>
     append_event_with_delivery stream stream_id data retry limit did = (event, stream') \<Longrightarrow>
     stream_run limit stream_id (events @ [event]) stream'"
| run_bucket: "stream_run limit stream_id events stream \<Longrightarrow>
     stream_run limit stream_id events (stream\<lparr>st_log_bucket := bucket\<rparr>)"

lemma run_append_event:
  "stream_run limit stream_id events stream \<Longrightarrow> append_event stream stream_id data retry limit = (event, stream') \<Longrightarrow>
   stream_run limit stream_id (events @ [event]) stream'"
  by (auto simp: append_event_def intro: run_append)

lemma stream_run_shape:
  assumes "stream_run limit stream_id events stream"
  shows "st_next_event_ordinal stream = length events"
    and "st_replay_window stream = drop (length events - limit) events"
    and "i < length events \<Longrightarrow> \<exists>did. ev_event_id (events ! i) = event_id_of stream_id i did"
proof -
  from assms have "st_next_event_ordinal stream = length events \<and> st_replay_window stream = drop (length events - limit) events
      \<and> (\<forall>i < length events. \<exists>did. ev_event_id (events ! i) = event_id_of stream_id i did)"
  proof (induction rule: stream_run.induct)
    case (run_append events stream data retry did event stream')
    let ?w = "drop (length events - limit) events @ [event]"
    from run_append have ev: "ev_event_id event = event_id_of stream_id (length events) did"
      and st: "stream' = stream\<lparr>st_next_event_ordinal := length events + 1, st_replay_window := drop (length ?w - limit) ?w\<rparr>"
      by (auto simp: append_event_with_delivery_def Let_def event_id_of_def)
    have "drop (length ?w - limit) ?w = drop (Suc (length events) - limit) (events @ [event])"
      by (cases "length events \<le> limit") (auto simp: Suc_diff_le)
    moreover have "\<exists>did. ev_event_id ((events @ [event]) ! i) = event_id_of stream_id i did" if "i < Suc (length events)" for i
      using that run_append.IH ev by (cases "i = length events") (auto simp: nth_append)
    ultimately show ?case using st by simp
  qed (auto simp: empty_stream_def)
  then show "st_next_event_ordinal stream = length events" "st_replay_window stream = drop (length events - limit) events"
    "i < length events \<Longrightarrow> \<exists>did. ev_event_id (events ! i) = event_id_of stream_id i did" by auto
qed

lemma replay_exact:
  assumes run: "stream_run limit stream_id events stream" and at: "map_of (ses_streams ses) stream_id = Some stream"
    and plain: "CHR ''@'' \<notin> set stream_id" and i: "i < length events" "length events \<le> 2 ^ 64"
  shows "replay_after ses (ev_event_id (events ! i)) =
           (if length events - i \<le> limit then Inr (drop (Suc i) events) else Inl ExpiredCursor)"
proof -
  note shape = stream_run_shape [OF run]
  define n where "n = length events - limit"
  have core: "event_id_core (ev_event_id (events ! j)) = stream_id @ '':'' @ show_nat j"
    and ord: "event_ordinal (ev_event_id (events ! j)) = Some j"
    and parse: "parse_event_id (ev_event_id (events ! j)) = Some (stream_id, j)" if "j < length events" for j
    using shape(3) [OF that] that i(2) event_id_core_of [OF plain] parse_event_id_of [OF plain, of j]
    by (auto simp: event_ordinal_def)
  have held: "list_ex (\<lambda>e. event_id_core (ev_event_id e) = event_id_core (ev_event_id (events ! i))) (drop n events)
      \<longleftrightarrow> n \<le> i"
  proof
    assume "list_ex (\<lambda>e. event_id_core (ev_event_id e) = event_id_core (ev_event_id (events ! i))) (drop n events)"
    then obtain j where j: "n + j < length events"
      "event_id_core (ev_event_id (events ! (n + j))) = event_id_core (ev_event_id (events ! i))"
      by (auto simp: list_ex_iff in_set_conv_nth less_diff_conv add.commute)
    then have "show_nat (n + j) = show_nat i" using core i(1) by simp
    then show "n \<le> i" using show_nat_inj by force
  next
    assume "n \<le> i"
    then have "events ! i \<in> set (drop n events)" using i(1) by (auto simp: in_set_conv_nth intro!: exI [of _ "i - n"])
    then show "list_ex (\<lambda>e. event_id_core (ev_event_id e) = event_id_core (ev_event_id (events ! i))) (drop n events)"
      by (auto simp: list_ex_iff)
  qed
  have later: "filter (\<lambda>e. case event_ordinal (ev_event_id e) of None \<Rightarrow> False | Some m \<Rightarrow> i < m) (drop n events) = drop (Suc i) events"
    if "n \<le> i"
  proof -
    have split: "drop n events = drop n (take (Suc i) events) @ drop (Suc i) events"
      using that i(1) by (metis append_take_drop_id drop_append diff_is_0_eq drop0 le_SucI length_take min_absorb2 Suc_leI)
    have "\<not> (case event_ordinal (ev_event_id e) of None \<Rightarrow> False | Some m \<Rightarrow> i < m)" if "e \<in> set (drop n (take (Suc i) events))" for e
    proof -
      from in_set_dropD [OF that] obtain j where "j < Suc i" "j < length events" "e = events ! j"
        by (auto simp: in_set_conv_nth)
      then show ?thesis by (simp add: ord)
    qed
    moreover have "case event_ordinal (ev_event_id e) of None \<Rightarrow> False | Some m \<Rightarrow> i < m" if "e \<in> set (drop (Suc i) events)" for e
      using that ord by (auto simp: in_set_conv_nth)
    ultimately show ?thesis by (subst split) (simp add: filter_empty_conv filter_id_conv)
  qed
  have "n \<le> i \<longleftrightarrow> length events - i \<le> limit" unfolding n_def by linarith
  with held later at parse [OF i(1)] shape(2) show ?thesis
    by (simp add: replay_after_def n_def)
qed

section \<open>The history of a session\<close>

text \<open>
  A session with, for each of its streams, the events it sent there: through \<open>open_sse_stream\<close>, a streamed
  response and pushed messages.  Other updates leave the streams alone, and a session read back from its row
  has lost the log buckets.
\<close>

definition stream_name :: "nat \<Rightarrow> string" where
  "stream_name n = ''stream-'' @ show_nat n"

definition without_buckets :: "(string \<times> 'f stored_stream) list \<Rightarrow> (string \<times> 'f stored_stream) list" where
  "without_buckets streams = map (\<lambda>(stream_id, stream). (stream_id, stream\<lparr>st_log_bucket := None\<rparr>)) streams"

inductive session_history ::
  "('v, 'f) session_ext \<Rightarrow> session_store_config \<Rightarrow> (string \<Rightarrow> sse_event_record list) \<Rightarrow> 'f stored_session \<Rightarrow> bool"
  for x cfg where
  fresh: "ses_streams ses = [] \<Longrightarrow> ses_next_stream_ordinal ses = 0 \<Longrightarrow> session_history x cfg (\<lambda>_. []) ses"
| opened: "session_history x cfg h ses \<Longrightarrow> open_stream x cfg c ses = (events, ses') \<Longrightarrow>
     session_history x cfg (h(stream_name (ses_next_stream_ordinal ses) := events)) ses'"
| responded: "session_history x cfg h ses \<Longrightarrow> respond_on_stream x cfg response pending c ses = (events, ses') \<Longrightarrow>
     session_history x cfg (h(stream_name (ses_next_stream_ordinal ses) := events)) ses'"
| pushed: "session_history x cfg h ses \<Longrightarrow> push_on_stream cfg message did ses = Inr (event, ses') \<Longrightarrow>
     ses_active_stream_id ses = Some stream_id \<Longrightarrow>
     session_history x cfg (h(stream_id := h stream_id @ [event])) ses'"
| other: "session_history x cfg h ses \<Longrightarrow>
     ses_streams ses' = ses_streams ses \<or> ses_streams ses' = without_buckets (ses_streams ses) \<Longrightarrow>
     ses_next_stream_ordinal ses' = ses_next_stream_ordinal ses \<Longrightarrow>
     ses_active_stream_id ses' = ses_active_stream_id ses \<Longrightarrow>
     session_history x cfg h ses'"

text \<open>What the history keeps: every stream the session holds is the run of the events it was given.\<close>

definition faithful :: "nat \<Rightarrow> (string \<Rightarrow> sse_event_record list) \<Rightarrow> 'f stored_session \<Rightarrow> bool" where
  "faithful limit h ses \<longleftrightarrow>
     (\<forall>sid. \<exists>stream :: 'f stored_stream. stream_run limit sid (h sid) stream) \<and>
     (\<forall>sid stream. map_of (ses_streams ses) sid = Some stream \<longrightarrow> stream_run limit sid (h sid) stream)
     \<and> (\<forall>sid. h sid \<noteq> [] \<or> sid \<in> fst ` set (ses_streams ses) \<longrightarrow> (\<exists>n < ses_next_stream_ordinal ses. sid = stream_name n))
     \<and> distinct (map fst (ses_streams ses))"

lemma stream_name_inj [simp]: "stream_name m = stream_name n \<longleftrightarrow> m = n"
  by (auto simp: stream_name_def dest: show_nat_inj)

lemma stream_name_plain: "CHR ''@'' \<notin> set (stream_name n)"
  by (simp add: stream_name_def show_nat_no_sign)

lemma stream_ordinal_name: "n < 2 ^ 64 \<Longrightarrow> stream_ordinal (stream_name n) = Some n"
  using strip_prefix_append [of "''stream-''" "show_nat n"] by (simp add: stream_ordinal_def stream_name_def)

lemma retire_loop_sub: "set (retire_loop active ids kept bytes streams) \<subseteq> set streams"
  by (induction active ids kept bytes streams rule: retire_loop.induct)
    (auto simp: delete_conv' AList.delete_eq split: option.split)

lemma retire_loop_distinct:
  "distinct (map fst streams) \<Longrightarrow> distinct (map fst (retire_loop active ids kept bytes streams))"
  by (induction active ids kept bytes streams rule: retire_loop.induct)
    (auto simp: distinct_delete split: option.split)

lemma retire_old_streams_keeps:
  "set (ses_streams (retire_old_streams ses)) \<subseteq> set (ses_streams ses)"
  "distinct (map fst (ses_streams ses)) \<Longrightarrow> distinct (map fst (ses_streams (retire_old_streams ses)))"
  "ses_next_stream_ordinal (retire_old_streams ses) = ses_next_stream_ordinal ses"
  "ses_active_stream_id (retire_old_streams ses) = ses_active_stream_id ses"
  unfolding retire_old_streams_def Let_def by (simp_all add: retire_loop_sub retire_loop_distinct)

text \<open>A new stream starts from nothing: its name has not been used.\<close>

lemma begin_stream_run:
  assumes "faithful (sc_replay_window_limit cfg) h ses" "begin_stream x cfg message c ses = (events, stream_id, stream, ses1)"
  shows "stream_id = stream_name (ses_next_stream_ordinal ses)"
    and "stream_run (sc_replay_window_limit cfg) stream_id events stream"
    and "ses1 = ses\<lparr>ses_next_stream_ordinal := ses_next_stream_ordinal ses + 1, ses_active_stream_id := Some stream_id\<rparr>"
proof -
  let ?n = "stream_name (ses_next_stream_ordinal ses)" and ?limit = "sc_replay_window_limit cfg"
  have "?n \<notin> fst ` set (ses_streams ses)" using assms(1) by (auto simp: faithful_def)
  then have new: "map_of (ses_streams ses) ?n = None" by (simp add: map_of_eq_None_iff)
  obtain prime stream1 where p: "append_event (empty_stream :: 'a stored_stream) ?n [] (Some SSE_RETRY_MS) ?limit = (prime, stream1)"
    by fastforce
  note r1 = run_append_event [OF run_empty p]
  obtain logged stream2 where l: "logging_notification_event x stream1 ?n (ses_log_level ses) LInfo ''mcpg.transport''
      (JObj [(''message'', JStr message), (''sessionId'', JStr (ses_session_id ses))]) ?limit c = (logged, stream2)" by fastforce
  have r2: "stream_run ?limit ?n ([prime] @ (case logged of None \<Rightarrow> [] | Some e \<Rightarrow> [e])) stream2"
    using l r1 run_bucket [OF r1] run_append_event [OF run_bucket [OF r1]]
    by (auto simp: logging_notification_event_def Let_def split: if_splits prod.splits)
  from assms(2) new p l have "events = prime # (case logged of None \<Rightarrow> [] | Some e \<Rightarrow> [e])" "stream_id = ?n" "stream = stream2"
    and "ses1 = ses\<lparr>ses_next_stream_ordinal := ses_next_stream_ordinal ses + 1, ses_active_stream_id := Some stream_id\<rparr>"
    by (auto simp: begin_stream_def stream_name_def Let_def)
  with r2 show "stream_id = ?n" "stream_run ?limit stream_id events stream"
    "ses1 = ses\<lparr>ses_next_stream_ordinal := ses_next_stream_ordinal ses + 1, ses_active_stream_id := Some stream_id\<rparr>" by auto
qed

lemma append_all_run:
  "stream_run limit stream_id events stream \<Longrightarrow> append_all stream stream_id limit payloads = (later, stream') \<Longrightarrow>
   stream_run limit stream_id (events @ later) stream'"
proof (induction payloads arbitrary: events stream later stream')
  case (Cons payload payloads)
  obtain event stream1 where a: "append_event stream stream_id payload None limit = (event, stream1)" by fastforce
  obtain rest where b: "append_all stream1 stream_id limit payloads = (rest, stream')" "later = event # rest"
    using Cons.prems(2) a by (auto split: prod.splits)
  from Cons.IH [OF run_append_event [OF Cons.prems(1) a] b(1)] b(2) show ?case by simp
qed auto

lemma faithful_new_stream:
  assumes inv: "faithful limit h ses" and run: "stream_run limit (stream_name (ses_next_stream_ordinal ses)) events stream"
    and ses1: "ses1 = ses\<lparr>ses_next_stream_ordinal := ses_next_stream_ordinal ses + 1, ses_active_stream_id := a\<rparr>"
  shows "faithful limit (h(stream_name (ses_next_stream_ordinal ses) := events))
           (retire_old_streams (set_stream (stream_name (ses_next_stream_ordinal ses)) stream ses1))"
proof -
  let ?n = "stream_name (ses_next_stream_ordinal ses)"
  let ?streams = "AList.update ?n stream (ses_streams ses)"
  define kept where "kept = ses_streams (retire_old_streams (set_stream ?n stream ses1))"
  have "ses_streams (set_stream ?n stream ses1) = ?streams" by (simp add: set_stream_def ses1)
  with inv have sub: "set kept \<subseteq> set ?streams" and dist': "distinct (map fst ?streams)" and dist: "distinct (map fst kept)"
    using retire_old_streams_keeps(1,2) [of "set_stream ?n stream ses1"] distinct_update [of "ses_streams ses" ?n stream]
    by (simp_all add: kept_def faithful_def)
  have "stream_run limit sid ((h(?n := events)) sid) s" if "map_of kept sid = Some s" for sid s
  proof -
    have "map_of ?streams sid = Some s"
      using that sub dist dist' by (meson map_of_SomeD map_of_is_SomeI subsetD)
    then show ?thesis using inv run by (auto simp: update_conv' faithful_def split: if_splits)
  qed
  moreover have "\<exists>n < Suc (ses_next_stream_ordinal ses). sid = stream_name n"
    if "(h(?n := events)) sid \<noteq> [] \<or> sid \<in> fst ` set kept" for sid
  proof (cases "sid = ?n")
    case False
    have "fst ` set kept \<subseteq> insert ?n (fst ` set (ses_streams ses))"
      using image_mono [OF sub, of fst] by (simp add: dom_update)
    with False that have "h sid \<noteq> [] \<or> sid \<in> fst ` set (ses_streams ses)" by auto
    with inv show ?thesis by (auto simp: faithful_def intro: less_SucI)
  qed auto
  moreover have "\<forall>sid. \<exists>s :: 'a stored_stream. stream_run limit sid ((h(?n := events)) sid) s"
    using inv run by (auto simp: faithful_def)
  ultimately show ?thesis using dist unfolding faithful_def kept_def [symmetric]
    by (simp add: retire_old_streams_keeps set_stream_def ses1)
qed

lemma without_buckets_simps [simp]:
  "map fst (without_buckets streams) = map fst streams"
  "fst ` set (without_buckets streams) = fst ` set streams"
  "map_of (without_buckets streams) sid = map_option (\<lambda>s. s\<lparr>st_log_bucket := None\<rparr>) (map_of streams sid)"
  unfolding without_buckets_def by (induction streams) auto

theorem history_faithful:
  assumes "session_history x cfg h ses"
  shows "faithful (sc_replay_window_limit cfg) h ses"
  using assms
proof (induction rule: session_history.induct)
  case (fresh ses)
  then show ?case using run_empty by (auto simp: faithful_def)
next
  case (opened h ses c events ses')
  obtain stream_id stream ses1 where b: "begin_stream x cfg ''SSE stream opened'' c ses = (events, stream_id, stream, ses1)"
    "ses' = retire_old_streams (set_stream stream_id stream ses1)"
    using opened(2) by (auto simp: open_stream_def split: prod.splits)
  from begin_stream_run [OF opened(3) b(1)] faithful_new_stream [OF opened(3)] b(2) show ?case by blast
next
  case (responded h ses response pending c events ses')
  let ?limit = "sc_replay_window_limit cfg"
  obtain first later stream_id stream stream1 ses1 where
    b: "begin_stream x cfg ''Streaming protocol response'' c ses = (first, stream_id, stream, ses1)"
    and a: "append_all stream stream_id ?limit (pending @ [response_payload x response]) = (later, stream1)"
    and e: "events = first @ later" "ses' = retire_old_streams (set_stream stream_id stream1 ses1)"
    using responded(2) by (auto simp: respond_on_stream_def split: prod.splits)
  note new = begin_stream_run [OF responded(3) b]
  from append_all_run [OF new(2) a] new(1,3) e faithful_new_stream [OF responded(3)] show ?case by blast
next
  case (pushed h ses message did event ses' stream_id)
  let ?limit = "sc_replay_window_limit cfg"
  obtain stream stream1 where s: "map_of (ses_streams ses) stream_id = Some stream"
    "append_event_with_delivery stream stream_id message None ?limit did = (event, stream1)" "ses' = set_stream stream_id stream1 ses"
    using pushed(2,3) by (auto simp: push_on_stream_def split: option.splits prod.splits)
  have run: "stream_run ?limit stream_id (h stream_id @ [event]) stream1"
    using pushed(4) s(1,2) run_append by (fastforce simp: faithful_def)
  moreover from s(1) have "stream_id \<in> fst ` set (ses_streams ses)" by (metis map_of_SomeD fst_conv image_eqI)
  ultimately show ?case using pushed(4) s(3) distinct_update [of "ses_streams ses" stream_id stream1]
    by (auto simp: faithful_def set_stream_def update_conv' dom_update split: if_splits)
next
  case (other h ses ses')
  from other(2) show ?case
  proof
    assume "ses_streams ses' = ses_streams ses"
    then have "faithful (sc_replay_window_limit cfg) h ses' = faithful (sc_replay_window_limit cfg) h ses"
      unfolding faithful_def by (simp only: other(3))
    with other(5) show ?thesis by simp
  next
    assume w: "ses_streams ses' = without_buckets (ses_streams ses)"
    have "stream_run (sc_replay_window_limit cfg) sid (h sid) s" if at: "map_of (ses_streams ses') sid = Some s" for sid s
    proof -
      from at w obtain s0 where "map_of (ses_streams ses) sid = Some s0" "s = s0\<lparr>st_log_bucket := None\<rparr>"
        by (auto simp del: map_of_eq_Some_iff)
      with other(5) show ?thesis unfolding faithful_def by (metis run_bucket)
    qed
    with other(3,5) show ?thesis unfolding faithful_def w without_buckets_simps by metis
  qed
qed

text \<open>
  C22.  A client that reconnects with the id of an event it received is sent exactly the later events of that
  stream, in order, as long as the stream's window holds the event; otherwise it is told that its cursor has
  expired.  Nothing is skipped, repeated or taken from another stream, whatever the session did in between:
  other streams, pushed messages, log lines, the retiring of old streams, or a read-back from its row.
\<close>

theorem reconnect_continues_stream:
  assumes "session_history x cfg h ses" and "i < length (h stream_id)"
    and "length (h stream_id) \<le> 2 ^ 64" and "ses_next_stream_ordinal ses \<le> 2 ^ 64"
  shows "replay_after ses (ev_event_id (h stream_id ! i)) =
           (if stream_id \<in> fst ` set (ses_streams ses) \<and> length (h stream_id) - i \<le> sc_replay_window_limit cfg
            then Inr (drop (Suc i) (h stream_id)) else Inl ExpiredCursor)"
proof -
  note inv = history_faithful [OF assms(1)]
  from assms(2) have "h stream_id \<noteq> []" by auto
  with inv obtain n where n: "n < ses_next_stream_ordinal ses" "stream_id = stream_name n" unfolding faithful_def by blast
  show ?thesis
  proof (cases "map_of (ses_streams ses) stream_id")
    case (Some stream)
    then have "stream_id \<in> fst ` set (ses_streams ses)" by (metis map_of_SomeD fst_conv image_eqI)
    moreover from inv Some have "stream_run (sc_replay_window_limit cfg) stream_id (h stream_id) stream"
      unfolding faithful_def by blast
    ultimately show ?thesis using replay_exact [OF _ Some] assms(2,3) stream_name_plain n(2) by auto
  next
    case None
    then have gone: "stream_id \<notin> fst ` set (ses_streams ses)" by (simp add: map_of_eq_None_iff)
    from inv obtain stream :: "'b stored_stream" where "stream_run (sc_replay_window_limit cfg) stream_id (h stream_id) stream"
      unfolding faithful_def by blast
    from stream_run_shape(3) [OF this assms(2)] obtain did where
      "ev_event_id (h stream_id ! i) = event_id_of (stream_name n) i did" using n(2) by blast
    moreover have "i < 2 ^ 64" "n < 2 ^ 64" using assms(2-4) n(1) by simp_all
    ultimately show ?thesis
      using None gone n parse_event_id_of [OF stream_name_plain, of i n did] stream_ordinal_name [of n]
      by (simp add: replay_after_def)
  qed
qed

text \<open>A session that opened a stream, pushed two messages and was read back: the second event is the cursor.\<close>

definition real_bucket :: "int bucket_f64" where
  "real_bucket = \<lparr>sf_of_nat = (\<lambda>n. int n * 1000000000), sf_secs = int, sf_add = (+), sf_sub = (-),
     sf_mul = (\<lambda>a b. a * b div 1000000000), sf_min = min, sf_le = (\<le>)\<rparr>"

definition sample_session_ext :: "(unit, int) session_ext" where
  "sample_session_ext = \<lparr>se_f64 = real_bucket, se_log_line = (\<lambda>_ logger _. logger), se_envelope = (\<lambda>_. ''{}''),
     se_to_vec = (\<lambda>_. Inl []), se_from_slice = (\<lambda>_. Inl []), se_text = (\<lambda>_. ()), se_b64 = (\<lambda>s. s),
     se_default_capabilities = JObj []\<rparr>"

definition sample_session :: "int stored_session" where
  "sample_session = \<lparr>ses_session_id = ''s'', ses_protocol_version = ''v'',
     ses_client_info = \<lparr>ii_name = ''c'', ii_title = None, ii_version = ''1'', ii_description = None, ii_website_url = None, ii_icons = None\<rparr>,
     ses_client_capabilities = JObj [], ses_phase = Operational, ses_log_level = LInfo, ses_next_stream_ordinal = 0,
     ses_streams = [], ses_active_stream_id = None, ses_owner_principal = None, ses_tenant_slot = False,
     ses_last_seen_at = 0, ses_created_at = 0, ses_written_at_ms = 0, ses_verified_at_ms = 0\<rparr>"

lemma show_small: "show_nat 0 = ''0''" "show_nat 1 = ''1''" "show_nat 2 = ''2''"
  by code_simp+

lemmas sample_stream_eval =
  begin_stream_def append_event_def append_event_with_delivery_def logging_notification_event_def
  sample_session_def sample_session_ext_def real_bucket_def bucket_take_def default_session_store_config_def Let_def
  set_stream_def retire_old_streams_def empty_stream_def LOG_RATE_BURST_def LOG_RATE_PER_SEC_def show_small
  RETAINED_STREAMS_def RETAINED_REPLAY_BYTES_def replay_bytes_def SSE_RETRY_MS_def

theorem reconnect_continues_stream_witness:
  "\<exists>e0 e1 ses1 ses2 e2.
     open_stream sample_session_ext default_session_store_config (at_ms 0) sample_session = ([e0, e1], ses1)
     \<and> push_on_stream default_session_store_config ''m'' (Some ''7-u'') ses1 = Inr (e2, ses2)
     \<and> replay_after ses2 (ev_event_id e0) = Inr [e1, e2] \<and> replay_after ses2 (ev_event_id e2) = Inr []"
proof -
  let ?x = "sample_session_ext" and ?cfg = "default_session_store_config"
  obtain e0 e1 ses1 where o: "open_stream ?x ?cfg (at_ms 0) sample_session = ([e0, e1], ses1)"
    "ses_active_stream_id ses1 = Some ''stream-0''" "ses_next_stream_ordinal ses1 = 1"
    "map fst (ses_streams ses1) = [''stream-0'']"
    by (simp add: open_stream_def sample_stream_eval)
  then obtain stream where "ses_streams ses1 = [(''stream-0'', stream)]" by auto
  then obtain e2 ses2 where p: "push_on_stream ?cfg ''m'' (Some ''7-u'') ses1 = Inr (e2, ses2)"
    and held: "''stream-0'' \<in> fst ` set (ses_streams ses2)" "ses_next_stream_ordinal ses2 = 1"
    using o(2,3) by (simp add: push_on_stream_def append_event_with_delivery_def Let_def set_stream_def)
  have "session_history ?x ?cfg (\<lambda>_. []) sample_session" by (rule fresh) (simp_all add: sample_session_def)
  from pushed [OF opened [OF this o(1)] p o(2)] have h: "session_history ?x ?cfg
      (((\<lambda>_. [])(''stream-0'' := [e0, e1]))(''stream-0'' := [e0, e1] @ [e2])) ses2"
    by (simp add: stream_name_def sample_session_def show_small)
  show ?thesis
    using o(1) p held reconnect_continues_stream [OF h, of 0 "''stream-0''"]
      reconnect_continues_stream [OF h, of 2 "''stream-0''"] by (simp add: default_session_store_config_def)
qed

end
