(* ===== verification/Session_Store.thy ===== *)
theory Session_Store
  imports Session_Streams
begin

text \<open>
  \<open>KvBackedSessionStore\<close> of \<open>src/runtime/stores/session_store.rs\<close>: every replica keeps copies of the sessions it
  serves and writes them to rows of a key-value store that the replicas may share.

  The immutable fields of the struct are \<open>session_store\<close>; what a replica changes is \<open>session_local\<close>, its
  working set, the streams registered with a session and the sessions it reported as ended.  An operation
  takes and returns the store's state and the local state as a pair, and reads the clocks once.  A token
  for the end of a session is a number; \<open>sl_cancelled\<close> holds the cancelled ones.  Random UUIDs are arguments.
\<close>

section \<open>State\<close>

datatype session_end_reason = Terminated | IdleExpired

fun end_reason_str :: "session_end_reason \<Rightarrow> string" where
  "end_reason_str Terminated = ''terminated''"
| "end_reason_str IdleExpired = ''idle_expired''"

record ended_session =
  es_session_id :: string
  es_reason :: session_end_reason
  es_recorded :: bool
  es_snapshot :: "session_snapshot option"

record stream_lifetime =
  lt_created_at :: nat
  lt_token :: nat
  lt_streams :: nat

record ('s, 'v, 'f) session_store =
  sb_kv :: "('s, 'v) kv_ops"
  sb_ext :: "('v, 'f) session_ext"
  sb_config :: session_store_config
  sb_shared :: bool
  sb_fleet_visible :: bool

record 'f session_local =
  sl_sessions :: "(string \<times> 'f stored_session) list"
  sl_lifetimes :: "(string \<times> stream_lifetime) list"
  sl_last_pruned :: int
  sl_end_notifier :: bool
  sl_ended :: "ended_session list"
  sl_cancelled :: "nat set"
  sl_next_token :: nat

definition new_session_local :: "'f session_local" where
  "new_session_local = \<lparr>sl_sessions = [], sl_lifetimes = [], sl_last_pruned = 0, sl_end_notifier = False, sl_ended = [],
     sl_cancelled = {}, sl_next_token = 0\<rparr>"

definition shared_across_replicas :: "bool \<Rightarrow> ('s, 'v, 'f) session_store \<Rightarrow> ('s, 'v, 'f) session_store" where
  "shared_across_replicas shared b = b\<lparr>sb_shared := shared\<rparr>"

definition set_fleet_visible :: "bool \<Rightarrow> ('s, 'v, 'f) session_store \<Rightarrow> ('s, 'v, 'f) session_store" where
  "set_fleet_visible visible b = b\<lparr>sb_fleet_visible := visible\<rparr>"

definition set_end_notifier :: "'f session_local \<Rightarrow> 'f session_local" where
  "set_end_notifier l = l\<lparr>sl_end_notifier := True\<rparr>"

definition put_copy :: "string \<Rightarrow> 'f stored_session \<Rightarrow> 'f session_local \<Rightarrow> 'f session_local" where
  "put_copy sid ses l = l\<lparr>sl_sessions := AList.update sid ses (sl_sessions l)\<rparr>"

definition drop_copy :: "string \<Rightarrow> 'f session_local \<Rightarrow> 'f session_local" where
  "drop_copy sid l = l\<lparr>sl_sessions := AList.delete sid (sl_sessions l)\<rparr>"

definition copy_of :: "'f session_local \<Rightarrow> string \<Rightarrow> 'f stored_session option" where
  "copy_of l sid = map_of (sl_sessions l) sid"

section \<open>Times\<close>

definition timestamp_millis :: "clock \<Rightarrow> int" where
  "timestamp_millis c = int (as_millis (clk_utc c))"

definition refresh_interval :: "nat \<Rightarrow> duration" where
  "refresh_interval session_idle_timeout_ms = from_millis (max (session_idle_timeout_ms div 4) 1000)"

definition row_ttl_of :: "nat \<Rightarrow> duration" where
  "row_ttl_of session_idle_timeout_ms = from_millis session_idle_timeout_ms + refresh_interval session_idle_timeout_ms * 2"

definition verify_interval :: "nat \<Rightarrow> duration" where
  "verify_interval session_idle_timeout_ms = min (refresh_interval session_idle_timeout_ms) (from_secs 30)"

definition idle_timeout :: "('s, 'v, 'f) session_store \<Rightarrow> nat" where
  "idle_timeout b = sc_session_idle_timeout_ms (sb_config b)"

definition row_ttl :: "('s, 'v, 'f) session_store \<Rightarrow> duration" where
  "row_ttl b = row_ttl_of (idle_timeout b)"

definition refresh_interval_ms :: "('s, 'v, 'f) session_store \<Rightarrow> int" where
  "refresh_interval_ms b = int (as_millis (refresh_interval (idle_timeout b)))"

definition fleet_shared :: "('s, 'v, 'f) session_store \<Rightarrow> bool" where
  "fleet_shared b \<longleftrightarrow> sb_shared b \<and> sb_fleet_visible b"

definition age_ms :: "clock \<Rightarrow> 'f stored_session \<Rightarrow> nat" where
  "age_ms c ses = nat (max 0 (num_milliseconds (clk_utc c) (ses_last_seen_at ses)))"

definition is_idle :: "('s, 'v, 'f) session_store \<Rightarrow> clock \<Rightarrow> 'f stored_session \<Rightarrow> bool" where
  "is_idle b c ses \<longleftrightarrow> idle_timeout b \<le> age_ms c ses"

definition idle_everywhere :: "('s, 'v, 'f) session_store \<Rightarrow> clock \<Rightarrow> 'f stored_session \<Rightarrow> bool" where
  "idle_everywhere b c row \<longleftrightarrow>
     idle_timeout b + (if fleet_shared b then nat (refresh_interval_ms b) else 0) \<le> age_ms c row"

section \<open>Keys and rows\<close>

definition session_key :: "string \<Rightarrow> string" where
  "session_key sid = ''session:'' @ sid"

definition end_key :: "string \<Rightarrow> nat \<Rightarrow> string" where
  "end_key sid created_at = ''session-end:'' @ sid @ '':'' @ show_nat (created_at div 1000)"

definition tenant_slot_prefix :: "('s, 'v, 'f) session_store \<Rightarrow> string \<Rightarrow> string" where
  "tenant_slot_prefix b tenant = ''session-t:'' @ se_b64 (sb_ext b) tenant @ '':''"

definition tenant_slot_key :: "('s, 'v, 'f) session_store \<Rightarrow> 'f stored_session \<Rightarrow> string option" where
  "tenant_slot_key b ses =
     (if ses_tenant_slot ses then Some (tenant_slot_prefix b (tenant_of ses) @ ses_session_id ses) else None)"

definition parse_end_reason :: "('s, 'v, 'f) session_store \<Rightarrow> 'v \<Rightarrow> session_end_reason" where
  "parse_end_reason b value =
     (if value = se_text (sb_ext b) (end_reason_str IdleExpired) then IdleExpired else Terminated)"

definition recorded_end ::
  "('s, 'v, 'f) session_store \<Rightarrow> string \<Rightarrow> nat \<Rightarrow> clock \<Rightarrow> 's \<Rightarrow> ('s, session_end_reason option) kv_result" where
  "recorded_end b sid created_at c s =
     (case kv_get (sb_kv b) (end_key sid created_at) c s of
        (Inl e, s1) \<Rightarrow> (Inl e, s1)
      | (Inr r, s1) \<Rightarrow> (Inr (map_option (\<lambda>entry. parse_end_reason b (ent_bytes entry)) r), s1))"

datatype 'f shared_row = RowLive "'f stored_session" | RowEnded | RowUnknown

definition shared_row ::
  "('s, 'v, 'f) session_store \<Rightarrow> string \<Rightarrow> clock \<Rightarrow> 's \<Rightarrow> 'f shared_row \<times> 's" where
  "shared_row b sid c s =
     (if \<not> fleet_shared b then (RowEnded, s)
      else (case kv_get (sb_kv b) (session_key sid) c s of
              (Inl _, s1) \<Rightarrow> (RowUnknown, s1)
            | (Inr None, s1) \<Rightarrow> (RowEnded, s1)
            | (Inr (Some value), s1) \<Rightarrow>
                (case se_from_slice (sb_ext b) (ent_bytes value) of
                   Inl _ \<Rightarrow> (RowEnded, s1)
                 | Inr row \<Rightarrow>
                     if idle_everywhere b c row then (RowEnded, s1)
                     else (case recorded_end b sid (ses_created_at row) c s1 of
                             (Inr (Some _), s2) \<Rightarrow> (RowEnded, s2)
                           | (_, s2) \<Rightarrow> (RowLive (row\<lparr>ses_verified_at_ms := timestamp_millis c\<rparr>), s2)))))"

definition remove_session :: "('s, 'v, 'f) session_store \<Rightarrow> 'f stored_session \<Rightarrow> clock \<Rightarrow> 's \<Rightarrow> 's" where
  "remove_session b ses c s =
     (let s1 = (case tenant_slot_key b ses of None \<Rightarrow> s | Some slot \<Rightarrow> snd (kv_delete (sb_kv b) slot c s))
      in snd (kv_delete (sb_kv b) (session_key (ses_session_id ses)) c s1))"

definition remove_ended_rows :: "('s, 'v, 'f) session_store \<Rightarrow> 'f stored_session \<Rightarrow> clock \<Rightarrow> 's \<Rightarrow> 's" where
  "remove_ended_rows b ses c s =
     (case kv_get (sb_kv b) (session_key (ses_session_id ses)) c s of
        (Inr (Some value), s1) \<Rightarrow>
          (case se_from_slice (sb_ext b) (ent_bytes value) of
             Inr row \<Rightarrow> if ses_created_at row \<noteq> ses_created_at ses then s1 else remove_session b ses c s1
           | Inl _ \<Rightarrow> remove_session b ses c s1)
      | (_, s1) \<Rightarrow> remove_session b ses c s1)"

definition holds_copy :: "'f session_local \<Rightarrow> string \<Rightarrow> nat \<Rightarrow> bool" where
  "holds_copy l sid created_at =
     (case copy_of l sid of None \<Rightarrow> False | Some ses \<Rightarrow> ses_created_at ses = created_at)"

definition mark_written :: "string \<Rightarrow> int \<Rightarrow> 'f session_local \<Rightarrow> 'f session_local" where
  "mark_written sid written_ms l =
     (case copy_of l sid of None \<Rightarrow> l
      | Some live \<Rightarrow> put_copy sid (live\<lparr>ses_written_at_ms := max (ses_written_at_ms live) written_ms\<rparr>) l)"

definition persist_session ::
  "('s, 'v, 'f) session_store \<Rightarrow> 'f stored_session \<Rightarrow> clock \<Rightarrow> 's \<times> 'f session_local \<Rightarrow> bool \<times> 's \<times> 'f session_local" where
  "persist_session b ses c = (\<lambda>(s, l).
     (case se_to_vec (sb_ext b) ses of
        Inl _ \<Rightarrow> (False, s, l)
      | Inr payload \<Rightarrow>
          (case kv_put (sb_kv b) (session_key (ses_session_id ses)) payload (Some (row_ttl b)) c s of
             (Inl _, s1) \<Rightarrow> (False, s1, l)
           | (Inr _, s1) \<Rightarrow>
               (let s2 = (case tenant_slot_key b ses of None \<Rightarrow> s1
                          | Some slot \<Rightarrow> snd (kv_put (sb_kv b) slot (se_text (sb_ext b) ''1'') (Some (row_ttl b)) c s1));
                    l1 = mark_written (ses_session_id ses) (timestamp_millis c) l;
                    s3 = (if holds_copy l1 (ses_session_id ses) (ses_created_at ses) then s2
                          else remove_ended_rows b ses c s2)
                in (True, s3, l1)))))"

definition persist_session_create_once ::
  "('s, 'v, 'f) session_store \<Rightarrow> 'f stored_session \<Rightarrow> clock \<Rightarrow> 's \<Rightarrow> bool \<times> 's" where
  "persist_session_create_once b ses c s =
     (case se_to_vec (sb_ext b) ses of
        Inl _ \<Rightarrow> (False, s)
      | Inr payload \<Rightarrow>
          (case kv_put_if_absent (sb_kv b) (session_key (ses_session_id ses)) payload (Some (row_ttl b)) c s of
             (Inl _, s1) \<Rightarrow> (False, s1)
           | (Inr won, s1) \<Rightarrow> (won, s1)))"

section \<open>Ends\<close>

definition notify_ended :: "ended_session \<Rightarrow> 'f session_local \<Rightarrow> 'f session_local" where
  "notify_ended ended l = (if sl_end_notifier l then l\<lparr>sl_ended := sl_ended l @ [ended]\<rparr> else l)"

definition end_streams :: "string \<Rightarrow> nat \<Rightarrow> 'f session_local \<Rightarrow> 'f session_local" where
  "end_streams sid created_at l =
     (case map_of (sl_lifetimes l) sid of
        None \<Rightarrow> l
      | Some lifetime \<Rightarrow>
          if lt_created_at lifetime = created_at
          then l\<lparr>sl_lifetimes := AList.delete sid (sl_lifetimes l), sl_cancelled := insert (lt_token lifetime) (sl_cancelled l)\<rparr>
          else l)"

definition end_session ::
  "('s, 'v, 'f) session_store \<Rightarrow> 'f stored_session \<Rightarrow> session_end_reason \<Rightarrow> bool \<Rightarrow> clock \<Rightarrow> 's \<times> 'f session_local \<Rightarrow>
     bool \<times> 's \<times> 'f session_local" where
  "end_session b ses reason keep_rows c = (\<lambda>(s, l).
     (let (recorded, s1) =
            (if \<not> fleet_shared b then (True, s)
             else (case kv_put_if_absent (sb_kv b) (end_key (ses_session_id ses) (ses_created_at ses))
                          (se_text (sb_ext b) (end_reason_str reason)) (Some (row_ttl b)) c s of
                     (Inl _, s1) \<Rightarrow> (True, s1)
                   | (Inr won, s1) \<Rightarrow> (won, s1)));
          s2 = (if keep_rows then s1 else remove_session b ses c s1)
      in (recorded, s2, end_streams (ses_session_id ses) (ses_created_at ses) l)))"

definition expire_session ::
  "('s, 'v, 'f) session_store \<Rightarrow> 'f stored_session \<Rightarrow> bool \<Rightarrow> clock \<Rightarrow> 's \<times> 'f session_local \<Rightarrow> 's \<times> 'f session_local" where
  "expire_session b ses keep_rows c st =
     (let (recorded, s1, l1) = end_session b ses IdleExpired keep_rows c st
      in (s1, notify_ended \<lparr>es_session_id = ses_session_id ses, es_reason = IdleExpired, es_recorded = recorded,
                            es_snapshot = Some (snapshot ses)\<rparr> l1))"

text \<open>\<open>remove_if\<close> with the test that the copy is still idle and the same session, then the expiry.\<close>

definition expire_if_idle ::
  "('s, 'v, 'f) session_store \<Rightarrow> string \<Rightarrow> nat \<Rightarrow> bool \<Rightarrow> clock \<Rightarrow> 's \<times> 'f session_local \<Rightarrow> 's \<times> 'f session_local" where
  "expire_if_idle b sid created_at keep_rows c = (\<lambda>(s, l).
     (case copy_of l sid of
        None \<Rightarrow> (s, l)
      | Some ses \<Rightarrow>
          if is_idle b c ses \<and> ses_created_at ses = created_at
          then expire_session b ses keep_rows c (s, drop_copy sid l) else (s, l)))"

definition evict_if_expired ::
  "('s, 'v, 'f) session_store \<Rightarrow> string \<Rightarrow> clock \<Rightarrow> 's \<times> 'f session_local \<Rightarrow> 's \<times> 'f session_local" where
  "evict_if_expired b sid c = (\<lambda>(s, l).
     (case copy_of l sid of
        None \<Rightarrow> (s, l)
      | Some ses \<Rightarrow>
          if \<not> is_idle b c ses then (s, l)
          else (case shared_row b sid c s of
                  (RowUnknown, s1) \<Rightarrow> (s1, l)
                | (RowEnded, s1) \<Rightarrow> expire_if_idle b sid (ses_created_at ses) False c (s1, l)
                | (RowLive row, s1) \<Rightarrow>
                    if ses_created_at row = ses_created_at ses then (s1, put_copy sid (touch c row) l)
                    else expire_if_idle b sid (ses_created_at ses) True c (s1, l))))"

fun sweep_loop ::
  "('s, 'v, 'f) session_store \<Rightarrow> (string \<times> nat) list \<Rightarrow> clock \<Rightarrow> 's \<times> 'f session_local \<Rightarrow> 's \<times> 'f session_local" where
  "sweep_loop b [] c st = st"
| "sweep_loop b ((sid, created_at) # idle) c (s, l) =
     sweep_loop b idle c
       (case shared_row b sid c s of
          (RowUnknown, s1) \<Rightarrow> (s1, l)
        | (RowEnded, s1) \<Rightarrow> expire_if_idle b sid created_at False c (s1, l)
        | (RowLive row, s1) \<Rightarrow>
            if ses_created_at row = created_at
            then (case copy_of l sid of
                    Some ses \<Rightarrow> (s1, if is_idle b c ses \<and> ses_created_at ses = created_at then drop_copy sid l else l)
                  | None \<Rightarrow> (s1, l))
            else expire_if_idle b sid created_at True c (s1, l))"

definition maybe_sweep ::
  "('s, 'v, 'f) session_store \<Rightarrow> clock \<Rightarrow> 's \<times> 'f session_local \<Rightarrow> 's \<times> 'f session_local" where
  "maybe_sweep b c = (\<lambda>(s, l).
     (let now = timestamp_millis c; interval = max 1 (min 60000 (wrap_i64 (int (idle_timeout b)))) in
      if now - sl_last_pruned l < interval then (s, l)
      else sweep_loop b
             (map (\<lambda>(sid, ses). (sid, ses_created_at ses)) (filter (\<lambda>(_, ses). is_idle b c ses) (sl_sessions l)))
             c (s, l\<lparr>sl_last_pruned := now\<rparr>)))"

definition drop_ended_copy ::
  "('s, 'v, 'f) session_store \<Rightarrow> string \<Rightarrow> nat \<Rightarrow> clock \<Rightarrow> 's \<times> 'f session_local \<Rightarrow>
     'f stored_session option \<times> 's \<times> 'f session_local" where
  "drop_ended_copy b sid created_at c = (\<lambda>(s, l).
     (case copy_of l sid of
        Some ses \<Rightarrow>
          if ses_created_at ses = created_at
          then (Some ses, remove_ended_rows b ses c s, end_streams sid created_at (drop_copy sid l))
          else (None, s, end_streams sid created_at l)
      | None \<Rightarrow> (None, s, end_streams sid created_at l)))"

definition verify_copy ::
  "('s, 'v, 'f) session_store \<Rightarrow> string \<Rightarrow> clock \<Rightarrow> 's \<times> 'f session_local \<Rightarrow> 's \<times> 'f session_local" where
  "verify_copy b sid c = (\<lambda>(s, l).
     (case copy_of l sid of
        None \<Rightarrow> (s, l)
      | Some copy \<Rightarrow>
          if \<not> fleet_shared b \<or> timestamp_millis c - ses_verified_at_ms copy < int (as_millis (verify_interval (idle_timeout b)))
          then (s, l)
          else
            (let l1 = put_copy sid (copy\<lparr>ses_verified_at_ms := timestamp_millis c\<rparr>) l in
             case recorded_end b sid (ses_created_at copy) c s of
               (Inr (Some reason), s1) \<Rightarrow>
                 (case drop_ended_copy b sid (ses_created_at copy) c (s1, l1) of
                    (Some ses, s2, l2) \<Rightarrow>
                      (s2, notify_ended \<lparr>es_session_id = sid, es_reason = reason, es_recorded = False,
                                         es_snapshot = Some (snapshot ses)\<rparr> l2)
                  | (None, s2, l2) \<Rightarrow> (s2, l2))
             | (_, s1) \<Rightarrow> (s1, l1))))"

definition adopt_shared_phase ::
  "('s, 'v, 'f) session_store \<Rightarrow> string \<Rightarrow> clock \<Rightarrow> 's \<times> 'f session_local \<Rightarrow> 's \<times> 'f session_local" where
  "adopt_shared_phase b sid c = (\<lambda>(s, l).
     (case copy_of l sid of
        None \<Rightarrow> (s, l)
      | Some ses \<Rightarrow>
          if \<not> sb_shared b \<or> ses_phase ses \<noteq> AwaitingInitialized then (s, l)
          else (case kv_get (sb_kv b) (session_key sid) c s of
                  (Inr (Some value), s1) \<Rightarrow>
                    (case se_from_slice (sb_ext b) (ent_bytes value) of
                       Inr row \<Rightarrow>
                         (s1, if ses_phase row = Operational then put_copy sid (ses\<lparr>ses_phase := Operational\<rparr>) l else l)
                     | Inl _ \<Rightarrow> (s1, l))
                | (_, s1) \<Rightarrow> (s1, l))))"

definition ensure_hydrated ::
  "('s, 'v, 'f) session_store \<Rightarrow> string \<Rightarrow> clock \<Rightarrow> 's \<times> 'f session_local \<Rightarrow> 's \<times> 'f session_local" where
  "ensure_hydrated b sid c = (\<lambda>(s, l).
     (if copy_of l sid \<noteq> None then verify_copy b sid c (adopt_shared_phase b sid c (s, l))
      else (case kv_get (sb_kv b) (session_key sid) c s of
              (Inr (Some value), s1) \<Rightarrow>
                (case se_from_slice (sb_ext b) (ent_bytes value) of
                   Inl _ \<Rightarrow> (s1, l)
                 | Inr ses \<Rightarrow>
                     if idle_everywhere b c ses then (s1, l)
                     else
                       (let adopted = (\<lambda>s2. (s2, if copy_of l (ses_session_id ses) = None
                              then put_copy (ses_session_id ses) (ses\<lparr>ses_verified_at_ms := timestamp_millis c\<rparr>) l else l)) in
                        if \<not> fleet_shared b then adopted s1
                        else (case recorded_end b sid (ses_created_at ses) c s1 of
                                (Inr (Some _), s2) \<Rightarrow> (s2, l)
                              | (_, s2) \<Rightarrow> adopted s2)))
            | (_, s1) \<Rightarrow> (s1, l))))"

section \<open>Operations\<close>

definition rejection_snapshot :: "('s, 'v, 'f) session_store \<Rightarrow> string \<Rightarrow> clock \<Rightarrow> session_snapshot" where
  "rejection_snapshot b protocol_version c =
     \<lparr>sn_session_id = [], sn_protocol_version = protocol_version,
      sn_client_info = \<lparr>ii_name = [], ii_title = None, ii_version = [], ii_description = None, ii_website_url = None, ii_icons = None\<rparr>,
      sn_client_capabilities = se_default_capabilities (sb_ext b), sn_phase = AwaitingInitialized, sn_log_level = LInfo,
      sn_created_at = clk_utc c, sn_owner_principal = None\<rparr>"

definition check_session_limit ::
  "('s, 'v, 'f) session_store \<Rightarrow> 'f session_local \<Rightarrow> string \<Rightarrow> clock \<Rightarrow> session_snapshot option" where
  "check_session_limit b l protocol_version c =
     (if 0 < sc_max_sessions (sb_config b) \<and> sc_max_sessions (sb_config b) \<le> length (sl_sessions l)
      then Some (rejection_snapshot b protocol_version c) else None)"

definition new_session :: "string \<Rightarrow> string \<Rightarrow> initialize_params \<Rightarrow> clock \<Rightarrow> 'f stored_session" where
  "new_session sid negotiated_protocol_version params c =
     \<lparr>ses_session_id = sid, ses_protocol_version = negotiated_protocol_version, ses_client_info = ip_client_info params,
      ses_client_capabilities = ip_capabilities params, ses_phase = AwaitingInitialized, ses_log_level = LInfo,
      ses_next_stream_ordinal = 0, ses_streams = [], ses_active_stream_id = None, ses_owner_principal = None,
      ses_tenant_slot = False, ses_last_seen_at = clk_utc c, ses_created_at = clk_utc c, ses_written_at_ms = 0,
      ses_verified_at_ms = timestamp_millis c\<rparr>"

definition create_session ::
  "('s, 'v, 'f) session_store \<Rightarrow> string \<Rightarrow> string \<Rightarrow> initialize_params \<Rightarrow> clock \<Rightarrow> 's \<times> 'f session_local \<Rightarrow>
     session_snapshot \<times> 's \<times> 'f session_local" where
  "create_session b uuid negotiated_protocol_version params c st =
     (let ses = new_session uuid negotiated_protocol_version params c; (s1, l1) = maybe_sweep b c st in
      case check_session_limit b l1 negotiated_protocol_version c of
        Some rejection \<Rightarrow> (rejection, s1, l1)
      | None \<Rightarrow>
          (let (won, s2) = persist_session_create_once b ses c s1
           in (snapshot ses, s2, put_copy uuid (if won then ses\<lparr>ses_written_at_ms := timestamp_millis c\<rparr> else ses) l1)))"

text \<open>What every operation on an existing session does first.\<close>

definition refreshed :: "('s, 'v, 'f) session_store \<Rightarrow> string \<Rightarrow> clock \<Rightarrow> 's \<times> 'f session_local \<Rightarrow> 's \<times> 'f session_local" where
  "refreshed b sid c st = evict_if_expired b sid c (ensure_hydrated b sid c st)"

text \<open>The copy goes into the working set, and its row is written.\<close>

definition save_copy ::
  "('s, 'v, 'f) session_store \<Rightarrow> string \<Rightarrow> 'f stored_session \<Rightarrow> clock \<Rightarrow> 's \<times> 'f session_local \<Rightarrow> 's \<times> 'f session_local" where
  "save_copy b sid ses c = (\<lambda>(s, l). snd (persist_session b ses c (s, put_copy sid ses l)))"

definition create_session_with_id ::
  "('s, 'v, 'f) session_store \<Rightarrow> string \<Rightarrow> string \<Rightarrow> initialize_params \<Rightarrow> clock \<Rightarrow> 's \<times> 'f session_local \<Rightarrow>
     session_snapshot \<times> 's \<times> 'f session_local" where
  "create_session_with_id b sid negotiated_protocol_version params c st =
     (let (s1, l1) = refreshed b sid c st in
      case copy_of l1 sid of
        Some existing \<Rightarrow> (snapshot (touch c existing), save_copy b sid (touch c existing) c (s1, l1))
      | None \<Rightarrow>
          (let (s2, l2) = maybe_sweep b c (s1, l1) in
           case check_session_limit b l2 negotiated_protocol_version c of
             Some rejection \<Rightarrow> (rejection, s2, l2)
           | None \<Rightarrow>
               (let copy = (case copy_of l2 sid of Some ses \<Rightarrow> ses
                            | None \<Rightarrow> new_session sid negotiated_protocol_version params c)
                in (snapshot copy, save_copy b sid copy c (s2, l2)))))"

definition bind_session_owner ::
  "('s, 'v, 'f) session_store \<Rightarrow> string \<Rightarrow> string option \<Rightarrow> clock \<Rightarrow> 's \<times> 'f session_local \<Rightarrow> 's \<times> 'f session_local" where
  "bind_session_owner b sid owner_principal c st =
     (let (s1, l1) = ensure_hydrated b sid c st in
      case copy_of l1 sid of
        None \<Rightarrow> (s1, l1)
      | Some ses \<Rightarrow> save_copy b sid (ses\<lparr>ses_owner_principal := owner_principal\<rparr>) c (s1, l1))"

definition session_protocol_version ::
  "('s, 'v, 'f) session_store \<Rightarrow> string \<Rightarrow> clock \<Rightarrow> 's \<times> 'f session_local \<Rightarrow> string option \<times> 's \<times> 'f session_local" where
  "session_protocol_version b sid c st =
     (let (s1, l1) = refreshed b sid c st in
      case copy_of l1 sid of
        None \<Rightarrow> (None, s1, l1)
      | Some ses \<Rightarrow> (Some (ses_protocol_version ses), save_copy b sid (touch c ses) c (s1, l1)))"

definition load_session ::
  "('s, 'v, 'f) session_store \<Rightarrow> string option \<Rightarrow> bool \<Rightarrow> clock \<Rightarrow> 's \<times> 'f session_local \<Rightarrow>
     (session_access_error + session_snapshot) \<times> 's \<times> 'f session_local" where
  "load_session b session_id require_operational c st =
     (case session_id of
        None \<Rightarrow> (Inl MissingSessionId, st)
      | Some sid \<Rightarrow>
          (let (s1, l1) = maybe_sweep b c (refreshed b sid c st) in
           case copy_of l1 sid of
             None \<Rightarrow> (Inl UnknownSession, s1, l1)
           | Some ses0 \<Rightarrow>
               (let ses = touch c ses0 in
                if require_operational \<and> ses_phase ses \<noteq> Operational
                then (Inl NotInitialized, s1, put_copy sid ses l1)
                else if refresh_interval_ms b \<le> timestamp_millis c - ses_written_at_ms ses
                then (Inr (snapshot ses), save_copy b sid (ses\<lparr>ses_written_at_ms := timestamp_millis c\<rparr>) c (s1, l1))
                else (Inr (snapshot ses), s1, put_copy sid ses l1))))"

definition transition_session_to_operational ::
  "('s, 'v, 'f) session_store \<Rightarrow> string \<Rightarrow> clock \<Rightarrow> 's \<times> 'f session_local \<Rightarrow>
     (session_access_error + unit) \<times> 's \<times> 'f session_local" where
  "transition_session_to_operational b sid c st =
     (let (s1, l1) = maybe_sweep b c (refreshed b sid c st) in
      case copy_of l1 sid of
        None \<Rightarrow> (Inl UnknownSession, s1, l1)
      | Some ses \<Rightarrow> (Inr (), save_copy b sid (touch c (ses\<lparr>ses_phase := Operational\<rparr>)) c (s1, l1)))"

definition set_session_log_level ::
  "('s, 'v, 'f) session_store \<Rightarrow> string option \<Rightarrow> logging_level \<Rightarrow> clock \<Rightarrow> 's \<times> 'f session_local \<Rightarrow>
     (session_access_error + unit) \<times> 's \<times> 'f session_local" where
  "set_session_log_level b session_id level c st =
     (case session_id of
        None \<Rightarrow> (Inl MissingSessionId, st)
      | Some sid \<Rightarrow>
          (let (s1, l1) = maybe_sweep b c (refreshed b sid c st) in
           case copy_of l1 sid of
             None \<Rightarrow> (Inl UnknownSession, s1, l1)
           | Some ses \<Rightarrow>
               if ses_phase ses \<noteq> Operational then (Inl NotInitialized, s1, l1)
               else (Inr (), save_copy b sid (touch c (ses\<lparr>ses_log_level := level\<rparr>)) c (s1, l1))))"

definition terminate_session ::
  "('s, 'v, 'f) session_store \<Rightarrow> string \<Rightarrow> clock \<Rightarrow> 's \<times> 'f session_local \<Rightarrow>
     ended_session option \<times> 's \<times> 'f session_local" where
  "terminate_session b sid c st =
     (let (s1, l1) = ensure_hydrated b sid c st in
      case copy_of l1 sid of
        None \<Rightarrow> (None, s1, l1)
      | Some ses \<Rightarrow>
          (let (recorded, st2) = end_session b ses Terminated False c (s1, drop_copy sid l1)
           in (Some \<lparr>es_session_id = ses_session_id ses, es_reason = Terminated, es_recorded = recorded,
                     es_snapshot = Some (snapshot ses)\<rparr>, st2)))"

definition drop_ended_session ::
  "('s, 'v, 'f) session_store \<Rightarrow> string \<Rightarrow> nat \<Rightarrow> clock \<Rightarrow> 's \<times> 'f session_local \<Rightarrow>
     session_snapshot option \<times> 's \<times> 'f session_local" where
  "drop_ended_session b sid created_at c st =
     (let (dropped, st1) = drop_ended_copy b sid created_at c st in (map_option snapshot dropped, st1))"

definition contains_active_session :: "'f session_local \<Rightarrow> string \<Rightarrow> bool" where
  "contains_active_session l sid \<longleftrightarrow> copy_of l sid \<noteq> None"

definition list_sessions :: "'f session_local \<Rightarrow> session_snapshot list" where
  "list_sessions l = map (\<lambda>(_, ses). snapshot ses) (sl_sessions l)"

definition active_session_count :: "'f session_local \<Rightarrow> nat" where
  "active_session_count l = length (sl_sessions l)"

definition session_alive ::
  "('s, 'v, 'f) session_store \<Rightarrow> string \<Rightarrow> clock \<Rightarrow> 's \<times> 'f session_local \<Rightarrow> bool option \<times> 's \<times> 'f session_local" where
  "session_alive b sid c = (\<lambda>(s, l).
     (if \<not> sb_fleet_visible b then (None, s, l)
      else if (case copy_of l sid of None \<Rightarrow> False | Some ses \<Rightarrow> \<not> is_idle b c ses) then (Some True, s, l)
      else (case kv_get (sb_kv b) (session_key sid) c s of
              (Inl _, s1) \<Rightarrow> (None, s1, l)
            | (Inr None, s1) \<Rightarrow> (Some False, s1, l)
            | (Inr (Some value), s1) \<Rightarrow>
                (case se_from_slice (sb_ext b) (ent_bytes value) of
                   Inl _ \<Rightarrow> (None, s1, l)
                 | Inr row \<Rightarrow>
                     if idle_everywhere b c row then (Some False, s1, l)
                     else if \<not> fleet_shared b then (Some True, s1, l)
                     else (case recorded_end b sid (ses_created_at row) c s1 of
                             (Inl _, s2) \<Rightarrow> (None, s2, l)
                           | (Inr ended, s2) \<Rightarrow> (Some (ended = None), s2, l))))))"

section \<open>Tenant slots\<close>

text \<open>The two halves of \<open>claim_tenant_slot\<close>: the slot is written, then the tenant's slots are counted.\<close>

definition write_slot ::
  "('s, 'v, 'f) session_store \<Rightarrow> string \<Rightarrow> string \<Rightarrow> clock \<Rightarrow> 's \<Rightarrow> ('s, unit) kv_result" where
  "write_slot b tenant sid c s =
     kv_put (sb_kv b) (tenant_slot_prefix b tenant @ sid) (se_text (sb_ext b) ''1'') (Some (row_ttl b)) c s"

definition count_slots ::
  "('s, 'v, 'f) session_store \<Rightarrow> string \<Rightarrow> string \<Rightarrow> nat \<Rightarrow> clock \<Rightarrow> 's \<Rightarrow> ('s, bool) kv_result" where
  "count_slots b tenant sid cap c s =
     (case kv_list_prefix (sb_kv b) (tenant_slot_prefix b tenant) (min (cap + 1) (2 ^ 64 - 1)) c s of
        (Inl e, s1) \<Rightarrow> (Inl e, s1)
      | (Inr live, s1) \<Rightarrow>
          if cap < length live
          then (case kv_delete (sb_kv b) (tenant_slot_prefix b tenant @ sid) c s1 of
                  (Inl e, s2) \<Rightarrow> (Inl e, s2) | (Inr _, s2) \<Rightarrow> (Inr False, s2))
          else (Inr True, s1))"

definition claim_tenant_slot ::
  "('s, 'v, 'f) session_store \<Rightarrow> string \<Rightarrow> nat \<Rightarrow> clock \<Rightarrow> 's \<times> 'f session_local \<Rightarrow> bool option \<times> 's \<times> 'f session_local" where
  "claim_tenant_slot b sid cap c st =
     (if \<not> fleet_shared b then (None, st)
      else
        (let (s1, l1) = ensure_hydrated b sid c st in
         case copy_of l1 sid of
           None \<Rightarrow> (None, s1, l1)
         | Some ses \<Rightarrow>
             (case write_slot b (tenant_of ses) sid c s1 of
                (Inl _, s2) \<Rightarrow> (None, s2, l1)
              | (Inr _, s2) \<Rightarrow>
                  (case count_slots b (tenant_of ses) sid cap c s2 of
                     (Inl _, s3) \<Rightarrow> (None, s3, l1)
                   | (Inr False, s3) \<Rightarrow> (Some False, s3, l1)
                   | (Inr True, s3) \<Rightarrow> (Some True, save_copy b sid (ses\<lparr>ses_tenant_slot := True\<rparr>) c (s3, l1))))))"

section \<open>Streams\<close>

definition session_lifetime ::
  "string \<Rightarrow> 'f session_local \<Rightarrow> (nat \<times> nat) option \<times> 'f session_local" where
  "session_lifetime sid l =
     (case copy_of l sid of
        None \<Rightarrow> (None, l)
      | Some copy \<Rightarrow>
          (let created_at = ses_created_at copy;
               fresh = \<lparr>lt_created_at = created_at, lt_token = sl_next_token l, lt_streams = 0\<rparr>;
               (lifetime, l1) =
                 (case map_of (sl_lifetimes l) sid of
                    None \<Rightarrow> (fresh, l\<lparr>sl_next_token := sl_next_token l + 1\<rparr>)
                  | Some old \<Rightarrow>
                      if lt_created_at old \<noteq> created_at
                      then (fresh, l\<lparr>sl_next_token := sl_next_token l + 1, sl_cancelled := insert (lt_token old) (sl_cancelled l)\<rparr>)
                      else (old, l))
           in (Some (lt_token lifetime, created_at),
               l1\<lparr>sl_lifetimes := AList.update sid (lifetime\<lparr>lt_streams := lt_streams lifetime + 1\<rparr>) (sl_lifetimes l1)\<rparr>)))"

definition drop_registration :: "string \<Rightarrow> nat \<Rightarrow> 'f session_local \<Rightarrow> 'f session_local" where
  "drop_registration sid created_at l =
     (case map_of (sl_lifetimes l) sid of
        None \<Rightarrow> l
      | Some lifetime \<Rightarrow>
          if lt_created_at lifetime \<noteq> created_at then l
          else if lt_streams lifetime - 1 = 0 then l\<lparr>sl_lifetimes := AList.delete sid (sl_lifetimes l)\<rparr>
          else l\<lparr>sl_lifetimes := AList.update sid (lifetime\<lparr>lt_streams := lt_streams lifetime - 1\<rparr>) (sl_lifetimes l)\<rparr>)"

text \<open>The copy an operation on the streams of a session works with.\<close>

definition operational_copy :: "'f session_local \<Rightarrow> string \<Rightarrow> stream_access_error + 'f stored_session" where
  "operational_copy l sid =
     (case copy_of l sid of
        None \<Rightarrow> Inl StreamUnknownSession
      | Some ses \<Rightarrow> if ses_phase ses \<noteq> Operational then Inl StreamNotInitialized else Inr ses)"

definition open_sse_stream ::
  "('s, 'v, 'f) session_store \<Rightarrow> string option \<Rightarrow> string option \<Rightarrow> clock \<Rightarrow> 's \<times> 'f session_local \<Rightarrow>
     (stream_access_error + sse_event_record list) \<times> 's \<times> 'f session_local" where
  "open_sse_stream b session_id resume_cursor c st =
     (case session_id of
        None \<Rightarrow> (Inl StreamMissingSessionId, st)
      | Some sid \<Rightarrow>
          (let (s1, l1) = refreshed b sid c st in
           case operational_copy l1 sid of
             Inl e \<Rightarrow> (Inl e, s1, l1)
           | Inr ses0 \<Rightarrow>
               (let ses = touch c ses0 in
                case resume_cursor of
                  Some last_event_id \<Rightarrow>
                    (case replay_after ses last_event_id of
                       Inl e \<Rightarrow> (Inl e, s1, put_copy sid ses l1)
                     | Inr events \<Rightarrow> (Inr events, save_copy b sid ses c (s1, l1)))
                | None \<Rightarrow>
                    (let (events, ses1) = open_stream (sb_ext b) (sb_config b) c ses
                     in (Inr events, save_copy b sid ses1 c (s1, l1))))))"

definition stream_protocol_response_with_pending ::
  "('s, 'v, 'f) session_store \<Rightarrow> string \<Rightarrow> protocol_response \<Rightarrow> string list \<Rightarrow> clock \<Rightarrow> 's \<times> 'f session_local \<Rightarrow>
     (stream_access_error + sse_event_record list) \<times> 's \<times> 'f session_local" where
  "stream_protocol_response_with_pending b sid protocol_response pending_notifications c st =
     (let (s1, l1) = refreshed b sid c st in
      case operational_copy l1 sid of
        Inl e \<Rightarrow> (Inl e, s1, l1)
      | Inr ses0 \<Rightarrow>
          (let (events, ses1) =
             respond_on_stream (sb_ext b) (sb_config b) protocol_response pending_notifications c (touch c ses0)
           in (Inr events, save_copy b sid ses1 c (s1, l1))))"

definition stream_protocol_response ::
  "('s, 'v, 'f) session_store \<Rightarrow> string \<Rightarrow> protocol_response \<Rightarrow> clock \<Rightarrow> 's \<times> 'f session_local \<Rightarrow>
     (stream_access_error + sse_event_record list) \<times> 's \<times> 'f session_local" where
  "stream_protocol_response b sid protocol_response = stream_protocol_response_with_pending b sid protocol_response []"

definition stream_message_inner ::
  "('s, 'v, 'f) session_store \<Rightarrow> string \<Rightarrow> string \<Rightarrow> string option \<Rightarrow> clock \<Rightarrow> 's \<times> 'f session_local \<Rightarrow>
     (stream_access_error + sse_event_record list) \<times> 's \<times> 'f session_local" where
  "stream_message_inner b sid message_json delivery_id c st =
     (let (s1, l1) = refreshed b sid c st in
      case operational_copy l1 sid of
        Inl e \<Rightarrow> (Inl e, s1, l1)
      | Inr ses0 \<Rightarrow>
          (let ses = touch c ses0 in
           case push_on_stream (sb_config b) message_json delivery_id ses of
             Inl e \<Rightarrow> (Inl e, s1, put_copy sid ses l1)
           | Inr (event, ses1) \<Rightarrow> (Inr [event], save_copy b sid ses1 c (s1, l1))))"

definition stream_message ::
  "('s, 'v, 'f) session_store \<Rightarrow> string \<Rightarrow> string \<Rightarrow> string \<Rightarrow> clock \<Rightarrow> 's \<times> 'f session_local \<Rightarrow>
     (stream_access_error + sse_event_record list) \<times> 's \<times> 'f session_local" where
  "stream_message b sid message_json delivery_id =
     (if delivery_id = [] then stream_message_inner b sid message_json None
      else stream_message_inner b sid message_json (Some delivery_id))"

end
