(* ===== verification/Session_Properties.thy ===== *)
theory Session_Properties
  imports Session_Store
begin

text \<open>
  What the session stores of a fleet promise together.  The replicas share one key-value store that keeps the
  contract \<open>kv_store\<close>; each has copies of its own.  \<open>session_call\<close> lists the operations of the store, and
  \<open>fleet_run\<close> a run of calls by any replicas at times that do not decrease.  The two clocks of a call differ
  by a fixed offset.

  The main invariant bounds what copies and rows say of a session.  Its parameter \<open>mk\<close> is None, or a session
  whose end was recorded and the time of that: copies and rows of that session were last used at most a
  verification interval after its end.
\<close>

section \<open>Calls\<close>

datatype session_call =
  CallCreate string string initialize_params
| CallCreateWithId string string initialize_params
| CallBindOwner string "string option"
| CallProtocolVersion string
| CallLoad "string option" bool
| CallTransition string
| CallSetLevel "string option" logging_level
| CallTerminate string
| CallDropEnded string nat
| CallAlive string
| CallClaimSlot string nat
| CallOpenStream "string option" "string option"
| CallRespond string protocol_response "string list"
| CallMessage string string string
| CallLifetime string
| CallDropRegistration string nat

fun run_call ::
  "('s, 'v, 'f) session_store \<Rightarrow> session_call \<Rightarrow> clock \<Rightarrow> 's \<times> 'f session_local \<Rightarrow> 's \<times> 'f session_local" where
  "run_call b (CallCreate uuid version params) c st = snd (create_session b uuid version params c st)"
| "run_call b (CallCreateWithId sid version params) c st = snd (create_session_with_id b sid version params c st)"
| "run_call b (CallBindOwner sid owner) c st = bind_session_owner b sid owner c st"
| "run_call b (CallProtocolVersion sid) c st = snd (session_protocol_version b sid c st)"
| "run_call b (CallLoad sid op) c st = snd (load_session b sid op c st)"
| "run_call b (CallTransition sid) c st = snd (transition_session_to_operational b sid c st)"
| "run_call b (CallSetLevel sid level) c st = snd (set_session_log_level b sid level c st)"
| "run_call b (CallTerminate sid) c st = snd (terminate_session b sid c st)"
| "run_call b (CallDropEnded sid created_at) c st = snd (drop_ended_session b sid created_at c st)"
| "run_call b (CallAlive sid) c st = snd (session_alive b sid c st)"
| "run_call b (CallClaimSlot sid cap) c st = snd (claim_tenant_slot b sid cap c st)"
| "run_call b (CallOpenStream sid cursor) c st = snd (open_sse_stream b sid cursor c st)"
| "run_call b (CallRespond sid response pending) c st = snd (stream_protocol_response_with_pending b sid response pending c st)"
| "run_call b (CallMessage sid message did) c st = snd (stream_message b sid message did c st)"
| "run_call b (CallLifetime sid) c (s, l) = (s, snd (session_lifetime sid l))"
| "run_call b (CallDropRegistration sid created_at) c (s, l) = (s, drop_registration sid created_at l)"

type_synonym ('s, 'f) session_fleet_state = "'s \<times> (nat \<Rightarrow> 'f session_local)"

text \<open>Clocks of one fleet, and their order.\<close>

definition synced :: "nat \<Rightarrow> clock \<Rightarrow> bool" where
  "synced off c \<longleftrightarrow> clk_utc c = clk_inst c + off"

definition not_before :: "clock \<Rightarrow> clock \<Rightarrow> bool" where
  "not_before c c' \<longleftrightarrow> clk_inst c \<le> clk_inst c' \<and> clk_utc c \<le> clk_utc c'"

inductive fleet_run ::
  "nat \<Rightarrow> ('s, 'v, 'f) session_store \<Rightarrow> clock \<Rightarrow> ('s, 'f) session_fleet_state \<Rightarrow> clock \<Rightarrow> ('s, 'f) session_fleet_state \<Rightarrow> bool"
  for off b c0 st0 where
  run_none: "fleet_run off b c0 st0 c0 st0"
| run_call: "fleet_run off b c0 st0 c (s, ls) \<Longrightarrow> not_before c c' \<Longrightarrow> synced off c' \<Longrightarrow>
     run_call b call c' (s, ls i) = (s', l') \<Longrightarrow> fleet_run off b c0 st0 c' (s', ls(i := l'))"

section \<open>The invariant\<close>

text \<open>A session as its row gives it back.\<close>

definition stripped :: "'f stored_session \<Rightarrow> 'f stored_session" where
  "stripped ses = ses\<lparr>ses_streams := without_buckets (ses_streams ses), ses_written_at_ms := 0, ses_verified_at_ms := 0\<rparr>"

type_synonym recorded = "(string \<times> nat \<times> clock) option"

definition is_ended :: "recorded \<Rightarrow> 'f stored_session \<Rightarrow> bool" where
  "is_ended mk ses \<longleftrightarrow> (\<exists>e. mk = Some (ses_session_id ses, ses_created_at ses, e))"

definition end_clock :: "recorded \<Rightarrow> clock" where
  "end_clock mk = (case mk of None \<Rightarrow> at_ms 0 | Some (_, _, e) \<Rightarrow> e)"

definition last_use :: "('s, 'v, 'f) session_store \<Rightarrow> recorded \<Rightarrow> nat" where
  "last_use b mk = clk_utc (end_clock mk) + verify_interval (idle_timeout b)"

definition marker_end :: "('s, 'v, 'f) session_store \<Rightarrow> recorded \<Rightarrow> nat" where
  "marker_end b mk = clk_inst (end_clock mk) + row_ttl b"

definition row_fine :: "('s, 'v, 'f) session_store \<Rightarrow> recorded \<Rightarrow> clock \<Rightarrow> 'f stored_session \<Rightarrow> bool" where
  "row_fine b mk c ses \<longleftrightarrow> ses_created_at ses \<le> clk_utc c \<and> ses_last_seen_at ses \<le> (if is_ended mk ses then last_use b mk else clk_utc c)"

definition copy_fine :: "('s, 'v, 'f) session_store \<Rightarrow> recorded \<Rightarrow> clock \<Rightarrow> 'f stored_session \<Rightarrow> bool" where
  "copy_fine b mk c ses \<longleftrightarrow> row_fine b mk c ses
     \<and> (if is_ended mk ses then ses_verified_at_ms ses \<le> timestamp_millis (end_clock mk) \<or> marker_end b mk \<le> clk_inst c
        else ses_verified_at_ms ses \<le> timestamp_millis c)"

definition marker_kept :: "('s, 'v, 'f) session_store \<Rightarrow> recorded \<Rightarrow> clock \<Rightarrow> 'v rows \<Rightarrow> bool" where
  "marker_kept b mk c m \<longleftrightarrow>
     (\<forall>sid created_at e t. mk = Some (sid, created_at, e) \<longrightarrow> clk_inst c \<le> t \<longrightarrow> t < marker_end b mk \<longrightarrow>
        live_at m t (end_key sid created_at) \<noteq> None)"

definition contents_fine :: "('s, 'v, 'f) session_store \<Rightarrow> recorded \<Rightarrow> clock \<Rightarrow> 'v rows \<Rightarrow> bool" where
  "contents_fine b mk c m \<longleftrightarrow>
     (\<forall>k v d ses. live_at m (clk_inst c) (session_key k) = Some (v, d) \<longrightarrow> se_from_slice (sb_ext b) v = Inr ses \<longrightarrow>
        ses_session_id ses = k \<and> row_fine b mk c ses)"

definition rows_fine :: "('s, 'v, 'f) session_store \<Rightarrow> recorded \<Rightarrow> clock \<Rightarrow> 'v rows \<Rightarrow> bool" where
  "rows_fine b mk c m \<longleftrightarrow> marker_kept b mk c m \<and> contents_fine b mk c m"

definition copies_fine :: "('s, 'v, 'f) session_store \<Rightarrow> recorded \<Rightarrow> clock \<Rightarrow> 'f session_local \<Rightarrow> bool" where
  "copies_fine b mk c l \<longleftrightarrow>
     (\<forall>k ses. copy_of l k = Some ses \<longrightarrow> ses_session_id ses = k \<and> copy_fine b mk c ses)"

text \<open>The time of a call lies after the recorded end.\<close>

definition after_end :: "recorded \<Rightarrow> nat \<Rightarrow> clock \<Rightarrow> bool" where
  "after_end mk off c \<longleftrightarrow> synced off c
     \<and> (\<forall>sid u e. mk = Some (sid, u, e) \<longrightarrow> synced off e \<and> not_before e c \<and> u \<le> clk_utc e)"

lemma session_keys_apart [simp]:
  "session_key k \<noteq> end_key sid t" "end_key sid t \<noteq> session_key k"
  "session_key k \<noteq> tenant_slot_prefix b tenant @ s" "tenant_slot_prefix b tenant @ s \<noteq> session_key k"
  "end_key sid t \<noteq> tenant_slot_prefix b tenant @ s" "tenant_slot_prefix b tenant @ s \<noteq> end_key sid t"
  by (simp_all add: session_key_def end_key_def tenant_slot_prefix_def)

lemma session_key_inj [simp]: "session_key k = session_key k' \<longleftrightarrow> k = k'"
  by (simp add: session_key_def)

lemma copy_of_put [simp]: "copy_of (put_copy sid ses l) k = (if k = sid then Some ses else copy_of l k)"
  by (simp add: copy_of_def put_copy_def update_conv')

lemma copy_of_drop [simp]: "copy_of (drop_copy sid l) k = (if k = sid then None else copy_of l k)"
  by (simp add: copy_of_def drop_copy_def delete_conv')

lemma copy_of_others [simp]:
  "copy_of (notify_ended ended l) = copy_of l" "copy_of (end_streams sid t l) = copy_of l"
  "copy_of (snd (session_lifetime sid l)) = copy_of l" "copy_of (drop_registration sid t l) = copy_of l"
  "copy_of (l\<lparr>sl_last_pruned := n\<rparr>) = copy_of l"
  by (auto simp: copy_of_def fun_eq_iff notify_ended_def end_streams_def session_lifetime_def drop_registration_def Let_def
      split: option.split prod.split if_split)

section \<open>How the rows change\<close>

lemma rows_fine_by:
  assumes "rows_fine b mk c m"
    and "\<And>t sid u. clk_inst c \<le> t \<Longrightarrow> live_at m' t (end_key sid u) = live_at m t (end_key sid u)"
    and "\<And>k v d. live_at m' (clk_inst c) (session_key k) = Some (v, d) \<Longrightarrow>
        live_at m (clk_inst c) (session_key k) = Some (v, d) \<or>
        (\<forall>ses. se_from_slice (sb_ext b) v = Inr ses \<longrightarrow> ses_session_id ses = k \<and> row_fine b mk c ses)"
  shows "rows_fine b mk c m'"
proof -
  have "marker_kept b mk c m'" using assms(1,2) by (simp add: rows_fine_def marker_kept_def)
  moreover have "contents_fine b mk c m'" using assms(1,3) unfolding rows_fine_def contents_fine_def by metis
  ultimately show ?thesis by (simp add: rows_fine_def)
qed

lemma rows_fine_same: "same_from (clk_inst c) m' m \<Longrightarrow> rows_fine b mk c m \<Longrightarrow> rows_fine b mk c m'"
  by (erule rows_fine_by) (simp_all add: same_from_live)

lemma rows_fine_delete:
  assumes "rows_fine b mk c m" and "\<And>sid t. k \<noteq> end_key sid t"
  shows "rows_fine b mk c (m(k := None))"
proof (rule rows_fine_by [OF assms(1)])
  fix t sid u
  show "live_at (m(k := None)) t (end_key sid u) = live_at m t (end_key sid u)"
    using assms(2) [of sid u] by (intro live_at_upd_other) auto
next
  fix k' v d assume "live_at (m(k := None)) (clk_inst c) (session_key k') = Some (v, d)"
  then show "live_at m (clk_inst c) (session_key k') = Some (v, d) \<or>
      (\<forall>ses. se_from_slice (sb_ext b) v = Inr ses \<longrightarrow> ses_session_id ses = k' \<and> row_fine b mk c ses)"
    by (cases "session_key k' = k") auto
qed

lemma rows_fine_slot:
  "rows_fine b mk c m \<Longrightarrow> rows_fine b mk c (m(tenant_slot_prefix b tenant @ sid \<mapsto> w))"
  by (erule rows_fine_by) simp_all

lemma row_fine_stripped [simp]: "row_fine b mk c (stripped ses) = row_fine b mk c ses" "ses_session_id (stripped ses) = ses_session_id ses"
  by (simp_all add: row_fine_def is_ended_def stripped_def)

lemma rows_fine_write:
  assumes "rows_fine b mk c m" "se_from_slice (sb_ext b) v = Inr (stripped ses)" "row_fine b mk c ses"
  shows "rows_fine b mk c (m(session_key (ses_session_id ses) \<mapsto> (v, d)))"
proof (rule rows_fine_by [OF assms(1)])
  fix k v' d' assume "live_at (m(session_key (ses_session_id ses) \<mapsto> (v, d))) (clk_inst c) (session_key k) = Some (v', d')"
  then show "live_at m (clk_inst c) (session_key k) = Some (v', d') \<or>
      (\<forall>ses'. se_from_slice (sb_ext b) v' = Inr ses' \<longrightarrow> ses_session_id ses' = k \<and> row_fine b mk c ses')"
    using assms(2,3) by (cases "k = ses_session_id ses") (auto simp: live_at_upd_same split: if_splits)
qed simp

lemma rows_fine_claim_end:
  assumes fine: "rows_fine b mk c m" and free: "live_at m (clk_inst c) (end_key sid u) = None"
  shows "rows_fine b mk c (m(end_key sid u \<mapsto> w))"
proof -
  have kept: "marker_kept b mk c m" using fine by (simp add: rows_fine_def)
  have "live_at (m(end_key sid u \<mapsto> w)) t (end_key sid' u') \<noteq> None"
    if t: "mk = Some (sid', u', e)" "clk_inst c \<le> t" "t < marker_end b mk" for sid' u' e t
  proof -
    have "live_at m (clk_inst c) (end_key sid' u') \<noteq> None"
      using kept t(1) le_less_trans [OF t(2,3)] unfolding marker_kept_def by blast
    with free have "end_key sid' u' \<noteq> end_key sid u" by metis
    then have "live_at (m(end_key sid u \<mapsto> w)) t (end_key sid' u') = live_at m t (end_key sid' u')" by (rule live_at_upd_other)
    with kept t show ?thesis unfolding marker_kept_def by metis
  qed
  then have "marker_kept b mk c (m(end_key sid u \<mapsto> w))" unfolding marker_kept_def by blast
  moreover have "contents_fine b mk c (m(end_key sid u \<mapsto> w))" using fine by (simp add: rows_fine_def contents_fine_def)
  ultimately show ?thesis by (simp add: rows_fine_def)
qed

lemma row_fine_later: "row_fine b mk c ses \<Longrightarrow> not_before c c' \<Longrightarrow> row_fine b mk c' ses"
  by (auto simp: row_fine_def not_before_def split: if_splits)

lemma copy_fine_later: "copy_fine b mk c ses \<Longrightarrow> not_before c c' \<Longrightarrow> copy_fine b mk c' ses"
  using div_le_mono [of "clk_utc c" "clk_utc c'" 1000000] row_fine_later [of b mk c ses c']
  by (auto simp: copy_fine_def not_before_def timestamp_millis_def as_millis_def split: if_splits)

lemma rows_fine_later:
  assumes fine: "rows_fine b mk c m" and later: "not_before c c'"
  shows "rows_fine b mk c' m"
proof -
  have "live_at m (clk_inst c) k = Some (v, d)" if "live_at m (clk_inst c') k = Some (v, d)" for k v d
    using that later expired_by_mono [of d "clk_inst c" "clk_inst c'"] by (auto simp: live_at_Some_iff not_before_def)
  then have "contents_fine b mk c' m"
    using fine row_fine_later [OF _ later] unfolding rows_fine_def contents_fine_def by metis
  moreover have "marker_kept b mk c' m"
    using fine later unfolding rows_fine_def marker_kept_def not_before_def by (metis le_trans)
  ultimately show ?thesis by (simp add: rows_fine_def)
qed

lemma copies_fine_later: "copies_fine b mk c l \<Longrightarrow> not_before c c' \<Longrightarrow> copies_fine b mk c' l"
  using copy_fine_later unfolding copies_fine_def by metis

section \<open>The helpers of the store\<close>

locale session_fleet = kv_store kv view ok for kv :: "('s, 'v) kv_ops" and view ok +
  fixes b :: "('s, 'v, 'f) session_store"
  assumes kv_b [simp]: "sb_kv b = kv"
    and codec: "se_to_vec (sb_ext b) ses = Inr v \<Longrightarrow> se_from_slice (sb_ext b) v = Inr (stripped ses)"
    and shared [simp]: "fleet_shared b"
begin

definition store_fine :: "recorded \<Rightarrow> clock \<Rightarrow> 's \<Rightarrow> bool" where
  "store_fine mk c s \<longleftrightarrow> ok s \<and> rows_fine b mk c (view s)"

lemma get_fine:
  assumes "store_fine mk c s" "kv_get kv k c s = (r, s1)"
  shows "store_fine mk c s1" "same_from (clk_inst c) (view s1) (view s)"
    "\<exists>o'. r = Inr o' \<and> map_option ent_bytes o' = map_option fst (live_at (view s) (clk_inst c) k)"
  using assms get_law [of s k c] rows_fine_same unfolding store_fine_def by fastforce+

lemma delete_fine:
  assumes "store_fine mk c s" "\<And>sid t. k \<noteq> end_key sid t"
  shows "store_fine mk c (snd (kv_delete kv k c s))"
  using assms delete_law [of s k c] rows_fine_same [OF _ rows_fine_delete] unfolding store_fine_def by fastforce

lemma put_session_fine:
  assumes "store_fine mk c s" "se_to_vec (sb_ext b) ses = Inr v" "row_fine b mk c ses"
    "kv_put kv (session_key (ses_session_id ses)) v ttl c s = (r, s1)"
  shows "store_fine mk c s1"
  using assms put_law [of s "session_key (ses_session_id ses)" v ttl c]
    rows_fine_same [OF _ rows_fine_write [OF _ codec [OF assms(2)] assms(3)]]
  unfolding store_fine_def by fastforce

lemma put_slot_fine:
  assumes "store_fine mk c s"
  shows "store_fine mk c (snd (kv_put kv (tenant_slot_prefix b tenant @ sid) v ttl c s))"
  using assms put_law [of s "tenant_slot_prefix b tenant @ sid" v ttl c] rows_fine_same [OF _ rows_fine_slot]
  unfolding store_fine_def by fastforce

lemma claim_row_fine:
  assumes "store_fine mk c s" "se_to_vec (sb_ext b) ses = Inr v" "row_fine b mk c ses"
    "kv_put_if_absent kv (session_key (ses_session_id ses)) v ttl c s = (r, s1)"
  shows "store_fine mk c s1"
  using assms put_if_absent_law [of s "session_key (ses_session_id ses)" v ttl c] rows_fine_same
    rows_fine_same [OF _ rows_fine_write [OF _ codec [OF assms(2)] assms(3)]]
  unfolding store_fine_def by (fastforce split: if_splits)

lemma claim_end_fine:
  assumes "store_fine mk c s" "kv_put_if_absent kv (end_key sid u) v ttl c s = (r, s1)"
  shows "store_fine mk c s1"
  using assms put_if_absent_law [of s "end_key sid u" v ttl c] rows_fine_same
    rows_fine_same [OF _ rows_fine_claim_end]
  unfolding store_fine_def by (fastforce split: if_splits)

end

text \<open>Once the record of an end is gone, every trace of the session is idle.\<close>

lemma ended_trace_idle:
  assumes "after_end mk off c" "marker_end b mk \<le> clk_inst c" "mk \<noteq> None" "ses_last_seen_at ses \<le> last_use b mk"
  shows "idle_everywhere b c ses" "is_idle b c ses"
proof -
  let ?r = "max (idle_timeout b div 4) 1000"
  have utc: "clk_utc (end_clock mk) + row_ttl b \<le> clk_utc c"
    using assms(1-3) by (auto simp: after_end_def synced_def marker_end_def end_clock_def)
  have R: "refresh_interval (idle_timeout b) = from_millis ?r" by (simp add: refresh_interval_def)
  have "verify_interval (idle_timeout b) \<le> from_millis ?r" by (simp add: verify_interval_def R)
  with utc assms(4) have gap: "ses_last_seen_at ses + from_millis (idle_timeout b) + from_millis ?r \<le> clk_utc c"
    by (simp add: last_use_def row_ttl_def row_ttl_of_def R)
  then have "from_millis (idle_timeout b + ?r) \<le> clk_utc c - ses_last_seen_at ses" by (simp add: from_millis_def algebra_simps)
  from div_le_mono [OF this, of 1000000] gap have "idle_timeout b + ?r \<le> age_ms c ses"
    by (simp add: age_ms_def num_milliseconds_def from_millis_def)
  then show "idle_everywhere b c ses" "is_idle b c ses"
    by (auto simp: idle_everywhere_def is_idle_def refresh_interval_ms_def R)
qed

context session_fleet
begin

definition state_fine :: "recorded \<Rightarrow> clock \<Rightarrow> 's \<times> 'f session_local \<Rightarrow> bool" where
  "state_fine mk c st \<longleftrightarrow> store_fine mk c (fst st) \<and> copies_fine b mk c (snd st)"

lemma state_fine_pair [simp]: "state_fine mk c (s, l) \<longleftrightarrow> store_fine mk c s \<and> copies_fine b mk c l"
  by (simp add: state_fine_def)

lemma recorded_end_fine:
  assumes "store_fine mk c s" "recorded_end b sid u c s = (r, s1)"
  shows "store_fine mk c s1" "same_from (clk_inst c) (view s1) (view s)"
    "\<exists>o'. r = Inr o' \<and> (o' = None \<longleftrightarrow> live_at (view s) (clk_inst c) (end_key sid u) = None)"
proof -
  obtain r0 where g: "kv_get kv (end_key sid u) c s = (r0, s1)"
    using assms(2) by (auto simp: recorded_end_def split: prod.splits sum.splits)
  note get_fine [OF assms(1) g]
  with g assms(2) show "store_fine mk c s1" "same_from (clk_inst c) (view s1) (view s)"
    "\<exists>o'. r = Inr o' \<and> (o' = None \<longleftrightarrow> live_at (view s) (clk_inst c) (end_key sid u) = None)"
    by (auto simp: recorded_end_def)
qed

text \<open>A live row that is not idle and has no recorded end is not one of the ended session.\<close>

lemma row_not_ended:
  assumes "after_end mk off c" "store_fine mk c s" "live_at (view s) (clk_inst c) (session_key sid) = Some (v, d)"
    "se_from_slice (sb_ext b) v = Inr row" "\<not> idle_everywhere b c row"
    "live_at (view s) (clk_inst c) (end_key sid (ses_created_at row)) = None"
  shows "\<not> is_ended mk row" "ses_session_id row = sid" "row_fine b mk c row"
proof -
  have fine: "ses_session_id row = sid \<and> row_fine b mk c row"
    using assms(2-4) unfolding store_fine_def rows_fine_def contents_fine_def by blast
  show "\<not> is_ended mk row"
  proof
    assume ended: "is_ended mk row"
    then obtain e where mk: "mk = Some (sid, ses_created_at row, e)" using fine by (auto simp: is_ended_def split: option.splits)
    have "\<not> clk_inst c < marker_end b mk"
      using assms(2,6) mk unfolding store_fine_def rows_fine_def marker_kept_def by blast
    with ended_trace_idle(1) [OF assms(1), of b row] fine ended assms(5) mk show False by (simp add: row_fine_def)
  qed
  with fine show "ses_session_id row = sid" "row_fine b mk c row" by simp_all
qed

lemma adopted_fine:
  "\<not> is_ended mk row \<Longrightarrow> row_fine b mk c row \<Longrightarrow> copy_fine b mk c (row\<lparr>ses_verified_at_ms := timestamp_millis c\<rparr>)"
  by (auto simp: copy_fine_def row_fine_def is_ended_def split: option.splits)

lemma shared_row_fine:
  assumes "after_end mk off c" "store_fine mk c s" "shared_row b sid c s = (r, s1)"
  shows "store_fine mk c s1" "r \<noteq> RowUnknown"
    "r = RowLive row \<Longrightarrow> copy_fine b mk c row \<and> ses_session_id row = sid \<and> \<not> is_ended mk row"
proof -
  obtain r0 s0 where g: "kv_get kv (session_key sid) c s = (r0, s0)" by fastforce
  note gf = get_fine [OF assms(2) g]
  have "store_fine mk c s1 \<and> r \<noteq> RowUnknown \<and>
      (\<forall>row. r = RowLive row \<longrightarrow> copy_fine b mk c row \<and> ses_session_id row = sid \<and> \<not> is_ended mk row)"
  proof (cases "\<exists>entry row0. r0 = Inr (Some entry) \<and> se_from_slice (sb_ext b) (ent_bytes entry) = Inr row0 \<and> \<not> idle_everywhere b c row0")
    case False
    with g gf assms(3) show ?thesis by (auto simp: shared_row_def split: sum.splits option.splits if_splits)
  next
    case True
    then obtain entry row0 where v: "r0 = Inr (Some entry)" "se_from_slice (sb_ext b) (ent_bytes entry) = Inr row0"
      "\<not> idle_everywhere b c row0" by blast
    with gf(3) obtain d where at: "live_at (view s) (clk_inst c) (session_key sid) = Some (ent_bytes entry, d)"
      by (cases "live_at (view s) (clk_inst c) (session_key sid)") auto
    obtain q s2 where e: "recorded_end b sid (ses_created_at row0) c s0 = (q, s2)" by fastforce
    note ef = recorded_end_fine [OF gf(1) e]
    from ef(3) obtain o' where
      "q = Inr o' \<and> (o' = None \<longleftrightarrow> live_at (view s0) (clk_inst c) (end_key sid (ses_created_at row0)) = None)" by (rule exE)
    then have o': "q = Inr o'" "o' = None \<longleftrightarrow> live_at (view s0) (clk_inst c) (end_key sid (ses_created_at row0)) = None"
      by simp_all
    have same: "live_at (view s0) (clk_inst c) = live_at (view s) (clk_inst c)" using gf(2) by (simp add: same_from_live)
    show ?thesis
    proof (cases o')
      case None
      with o'(2) same row_not_ended [OF assms(1,2) at v(2,3)]
      have row: "\<not> is_ended mk row0" "ses_session_id row0 = sid" "row_fine b mk c row0" by simp_all
      moreover have "r = RowLive (row0\<lparr>ses_verified_at_ms := timestamp_millis c\<rparr>)" "s1 = s2"
        using assms(3) g v e o'(1) None by (simp_all add: shared_row_def)
      moreover have "is_ended mk (row0\<lparr>ses_verified_at_ms := timestamp_millis c\<rparr>) = is_ended mk row0"
        by (simp add: is_ended_def split: option.splits)
      ultimately show ?thesis using ef(1) adopted_fine [of mk row0 c] by simp
    next
      case (Some end_reason)
      with assms(3) g v e o'(1) ef(1) show ?thesis by (simp add: shared_row_def)
    qed
  qed
  then show "store_fine mk c s1" "r \<noteq> RowUnknown"
    "r = RowLive row \<Longrightarrow> copy_fine b mk c row \<and> ses_session_id row = sid \<and> \<not> is_ended mk row" by blast+
qed

lemma remove_session_fine: "store_fine mk c s \<Longrightarrow> store_fine mk c (remove_session b ses c s)"
  by (auto simp: remove_session_def tenant_slot_key_def Let_def intro!: delete_fine split: option.split if_splits)

lemma remove_ended_rows_fine: "store_fine mk c s \<Longrightarrow> store_fine mk c (remove_ended_rows b ses c s)"
proof -
  assume s: "store_fine mk c s"
  obtain r s1 where g: "kv_get kv (session_key (ses_session_id ses)) c s = (r, s1)" by fastforce
  with get_fine(1) [OF s g] remove_session_fine [of mk c s1 ses] show ?thesis
    by (auto simp: remove_ended_rows_def split: sum.split option.split)
qed

lemma copies_fine_put: "copies_fine b mk c l \<Longrightarrow> copy_fine b mk c ses \<Longrightarrow> ses_session_id ses = sid \<Longrightarrow> copies_fine b mk c (put_copy sid ses l)"
  by (simp add: copies_fine_def)

lemma copies_fine_drop: "copies_fine b mk c l \<Longrightarrow> copies_fine b mk c (drop_copy sid l)"
  by (simp add: copies_fine_def)

lemma copies_fine_others [simp]:
  "copies_fine b mk c (notify_ended ended l) = copies_fine b mk c l"
  "copies_fine b mk c (end_streams sid u l) = copies_fine b mk c l"
  "copies_fine b mk c (snd (session_lifetime sid l)) = copies_fine b mk c l"
  "copies_fine b mk c (drop_registration sid u l) = copies_fine b mk c l"
  "copies_fine b mk c (l\<lparr>sl_last_pruned := n\<rparr>) = copies_fine b mk c l"
  by (simp_all add: copies_fine_def)

lemma is_ended_fields [simp]:
  "is_ended mk (ses\<lparr>ses_verified_at_ms := n\<rparr>) = is_ended mk ses" "is_ended mk (ses\<lparr>ses_phase := ph\<rparr>) = is_ended mk ses"
  "is_ended mk (ses\<lparr>ses_log_level := lv\<rparr>) = is_ended mk ses" "is_ended mk (touch c ses) = is_ended mk ses"
  "is_ended mk (ses\<lparr>ses_written_at_ms := w\<rparr>) = is_ended mk ses" "is_ended mk (ses\<lparr>ses_owner_principal := ow\<rparr>) = is_ended mk ses"
  "is_ended mk (ses\<lparr>ses_tenant_slot := ts\<rparr>) = is_ended mk ses" "is_ended mk (ses\<lparr>ses_last_seen_at := u\<rparr>) = is_ended mk ses"
  by (simp_all add: is_ended_def touch_def)

text \<open>Fields the invariant does not look at.\<close>

lemma copy_fine_fields [simp]:
  "copy_fine b mk c (ses\<lparr>ses_written_at_ms := w\<rparr>) = copy_fine b mk c ses"
  "copy_fine b mk c (ses\<lparr>ses_phase := ph\<rparr>) = copy_fine b mk c ses"
  "copy_fine b mk c (ses\<lparr>ses_owner_principal := ow\<rparr>) = copy_fine b mk c ses"
  "copy_fine b mk c (ses\<lparr>ses_log_level := lv\<rparr>) = copy_fine b mk c ses"
  "copy_fine b mk c (ses\<lparr>ses_tenant_slot := ts\<rparr>) = copy_fine b mk c ses"
  by (simp_all add: copy_fine_def row_fine_def)

lemma copy_fine_row: "copy_fine b mk c ses \<Longrightarrow> row_fine b mk c ses"
  by (simp add: copy_fine_def)

lemma mark_written_fine: "copies_fine b mk c l \<Longrightarrow> copies_fine b mk c (mark_written sid n l)"
  by (auto simp: mark_written_def copies_fine_def split: option.split)

lemma persist_fine:
  assumes "state_fine mk c (s, l)" "row_fine b mk c ses"
  shows "state_fine mk c (snd (persist_session b ses c (s, l)))"
proof (cases "se_to_vec (sb_ext b) ses")
  case (Inr v)
  obtain r s1 where p: "kv_put kv (session_key (ses_session_id ses)) v (Some (row_ttl b)) c s = (r, s1)" by fastforce
  with put_session_fine [OF _ Inr assms(2) p] assms(1) have s1: "store_fine mk c s1" by simp
  show ?thesis
  proof (cases r)
    case (Inr unit')
    define s2 where "s2 = (case tenant_slot_key b ses of None \<Rightarrow> s1
        | Some slot \<Rightarrow> snd (kv_put (sb_kv b) slot (se_text (sb_ext b) ''1'') (Some (row_ttl b)) c s1))"
    have "store_fine mk c s2" using s1 put_slot_fine by (auto simp: s2_def tenant_slot_key_def)
    moreover note remove_ended_rows_fine [OF this, of ses] mark_written_fine
    ultimately show ?thesis using assms(1) p Inr \<open>se_to_vec (sb_ext b) ses = Inr v\<close>
      by (simp add: persist_session_def s2_def [symmetric] Let_def)
  qed (use assms(1) p s1 \<open>se_to_vec (sb_ext b) ses = Inr v\<close> in \<open>simp add: persist_session_def\<close>)
qed (use assms in \<open>simp add: persist_session_def\<close>)

lemma save_copy_fine:
  assumes "state_fine mk c st" "copy_fine b mk c ses" "ses_session_id ses = sid"
  shows "state_fine mk c (save_copy b sid ses c st)"
  using assms persist_fine [of mk c "fst st" "put_copy sid ses (snd st)" ses] copies_fine_put
  by (cases st) (simp add: save_copy_def copy_fine_row)

lemma end_session_fine:
  assumes "state_fine mk c (s, l)"
  shows "state_fine mk c (snd (end_session b ses reason keep c (s, l)))"
proof -
  obtain r s1 where p: "kv_put_if_absent kv (end_key (ses_session_id ses) (ses_created_at ses))
      (se_text (sb_ext b) (end_reason_str reason)) (Some (row_ttl b)) c s = (r, s1)" by fastforce
  with claim_end_fine [OF _ p] assms have "store_fine mk c s1" by simp
  with remove_session_fine [OF this, of ses] assms p show ?thesis
    by (auto simp: end_session_def Let_def split: sum.split)
qed

lemma expire_session_fine:
  "state_fine mk c st \<Longrightarrow> state_fine mk c (expire_session b ses keep c st)"
  using end_session_fine [of mk c "fst st" "snd st" ses IdleExpired keep]
  by (cases st) (auto simp: expire_session_def split: prod.split)

lemma expire_if_idle_fine:
  "state_fine mk c (s, l) \<Longrightarrow> state_fine mk c (expire_if_idle b sid u keep c (s, l))"
  using expire_session_fine [of mk c "(s, drop_copy sid l)"] copies_fine_drop [of mk c l sid]
  by (auto simp: expire_if_idle_def split: option.split)

lemma expire_session_copies [simp]: "copy_of (snd (expire_session b ses keep c (s, l))) = copy_of l"
  by (auto simp: expire_session_def end_session_def Let_def split: prod.split)

lemma expire_if_idle_copies:
  "copy_of (snd (expire_if_idle b sid u keep c (s, l))) k = Some ses \<Longrightarrow>
     copy_of l k = Some ses \<and> \<not> (k = sid \<and> is_idle b c ses \<and> ses_created_at ses = u)"
  by (auto simp: expire_if_idle_def split: option.splits if_splits)

lemma touch_fine:
  assumes "copy_fine b mk c ses" "is_ended mk ses \<Longrightarrow> clk_utc c \<le> last_use b mk"
  shows "copy_fine b mk c (touch c ses)"
  using assms by (auto simp: copy_fine_def row_fine_def touch_def is_ended_def split: if_splits)

text \<open>After an eviction a copy of the ended session is not idle.\<close>

lemma evict_fine:
  assumes after: "after_end mk off c" and fine: "state_fine mk c (s, l)"
  shows "state_fine mk c (evict_if_expired b sid c (s, l))"
    and "copy_of (snd (evict_if_expired b sid c (s, l))) sid = Some ses \<Longrightarrow> is_ended mk ses \<Longrightarrow>
      copy_of l sid = Some ses \<and> \<not> is_idle b c ses"
proof -
  obtain r s1 where r: "shared_row b sid c s = (r, s1)" by fastforce
  from shared_row_fine [OF after _ r] fine have s1: "store_fine mk c s1" "r \<noteq> RowUnknown"
    "\<And>row. r = RowLive row \<Longrightarrow> copy_fine b mk c row \<and> ses_session_id row = sid \<and> \<not> is_ended mk row" by simp_all
  note ef = expire_if_idle_fine [of mk c s1 l sid]
  have live: "copies_fine b mk c (put_copy sid (touch c row) l)" if "r = RowLive row" for row
    using s1(3) [OF that] fine by (intro copies_fine_put touch_fine) (auto simp: touch_def)
  show "state_fine mk c (evict_if_expired b sid c (s, l))"
    using fine r s1 ef live by (auto simp: evict_if_expired_def split: option.split shared_row.split)
  show "copy_of l sid = Some ses \<and> \<not> is_idle b c ses"
    if "copy_of (snd (evict_if_expired b sid c (s, l))) sid = Some ses" "is_ended mk ses"
  proof (cases "copy_of l sid")
    case (Some ses0)
    show ?thesis
    proof (cases "is_idle b c ses0")
      case True
      have "is_ended mk (touch c row) \<Longrightarrow> False" if "r = RowLive row" for row using s1(3) [OF that] by simp
      with True Some that r s1(2) show ?thesis
        by (auto simp: evict_if_expired_def dest!: expire_if_idle_copies split: shared_row.splits if_splits)
    next
      case False
      with Some that show ?thesis by (simp add: evict_if_expired_def)
    qed
  qed (use that in \<open>simp add: evict_if_expired_def\<close>)
qed

lemma sweep_loop_fine:
  assumes "after_end mk off c"
  shows "state_fine mk c st \<Longrightarrow> state_fine mk c (sweep_loop b idle c st)
    \<and> (\<forall>k ses. copy_of (snd (sweep_loop b idle c st)) k = Some ses \<longrightarrow> copy_of (snd st) k = Some ses)"
proof (induction idle arbitrary: st)
  case (Cons x idle)
  obtain sid u s l where x: "x = (sid, u)" and st: "st = (s, l)" by fastforce
  obtain r s1 where r: "shared_row b sid c s = (r, s1)" by fastforce
  from shared_row_fine(1) [OF assms _ r] Cons.prems st have s1: "store_fine mk c s1" by simp
  define st1 where "st1 = (case r of RowUnknown \<Rightarrow> (s1, l) | RowEnded \<Rightarrow> expire_if_idle b sid u False c (s1, l)
      | RowLive row \<Rightarrow> if ses_created_at row = u
          then (case copy_of l sid of
                  Some ses \<Rightarrow> (s1, if is_idle b c ses \<and> ses_created_at ses = u then drop_copy sid l else l)
                | None \<Rightarrow> (s1, l))
          else expire_if_idle b sid u True c (s1, l))"
  have "state_fine mk c st1"
    using Cons.prems st s1 expire_if_idle_fine [of mk c s1 l sid u] copies_fine_drop [of mk c l sid]
    by (auto simp: st1_def split: shared_row.split option.split)
  moreover have "copy_of l k = Some ses" if "copy_of (snd st1) k = Some ses" for k ses
    using that by (auto simp: st1_def dest: expire_if_idle_copies split: shared_row.splits option.splits if_splits)
  moreover have "sweep_loop b (x # idle) c st = sweep_loop b idle c st1"
    using r by (simp add: x st st1_def split: shared_row.split)
  ultimately show ?case using Cons.IH [of st1] st by auto
qed simp

lemma sweep_fine:
  assumes "after_end mk off c" "state_fine mk c st"
  shows "state_fine mk c (maybe_sweep b c st)"
    and "copy_of (snd (maybe_sweep b c st)) k = Some ses \<Longrightarrow> copy_of (snd st) k = Some ses"
  using sweep_loop_fine [OF assms(1), of "(fst st, (snd st)\<lparr>sl_last_pruned := timestamp_millis c\<rparr>)"] assms(2)
  by (cases st; auto simp: maybe_sweep_def Let_def split: if_splits)+

lemma drop_ended_copy_fine:
  "state_fine mk c (s, l) \<Longrightarrow> state_fine mk c (snd (drop_ended_copy b sid u c (s, l)))"
  "copy_of (snd (snd (drop_ended_copy b sid u c (s, l)))) k = Some ses \<Longrightarrow> copy_of l k = Some ses \<and> \<not> (k = sid \<and> ses_created_at ses = u)"
  using remove_ended_rows_fine copies_fine_drop
  by (auto simp: drop_ended_copy_def split: option.splits if_splits)

lemma adopt_phase_fine:
  assumes "state_fine mk c (s, l)"
  shows "state_fine mk c (adopt_shared_phase b sid c (s, l))"
    and "copy_of (snd (adopt_shared_phase b sid c (s, l))) k = Some ses \<Longrightarrow>
      \<exists>ses0. copy_of l k = Some ses0 \<and> (ses = ses0 \<or> ses = ses0\<lparr>ses_phase := Operational\<rparr>)"
proof -
  obtain r s1 where g: "kv_get kv (session_key sid) c s = (r, s1)" by fastforce
  with get_fine(1) [OF _ g] assms have s1: "store_fine mk c s1" by simp
  have "copies_fine b mk c (put_copy sid (ses\<lparr>ses_phase := Operational\<rparr>) l)" if "copy_of l sid = Some ses" for ses
    using assms that by (intro copies_fine_put) (auto simp: copies_fine_def)
  with assms g s1 show "state_fine mk c (adopt_shared_phase b sid c (s, l))"
    by (auto simp: adopt_shared_phase_def split: option.split sum.split)
  show "\<exists>ses0. copy_of l k = Some ses0 \<and> (ses = ses0 \<or> ses = ses0\<lparr>ses_phase := Operational\<rparr>)"
    if "copy_of (snd (adopt_shared_phase b sid c (s, l))) k = Some ses"
    using that g by (auto simp: adopt_shared_phase_def split: option.splits sum.splits if_splits)
qed

text \<open>A copy of the ended session that survives a check was not due for one, or the record is gone.\<close>

lemma verify_fine:
  assumes after: "after_end mk off c" and fine: "state_fine mk c (s, l)"
  shows "state_fine mk c (verify_copy b sid c (s, l))"
    and "copy_of (snd (verify_copy b sid c (s, l))) sid = Some ses \<Longrightarrow> is_ended mk ses \<Longrightarrow>
      clk_utc c < last_use b mk \<or> marker_end b mk \<le> clk_inst c"
proof -
  have both: "state_fine mk c (verify_copy b sid c (s, l)) \<and> (\<forall>ses. copy_of (snd (verify_copy b sid c (s, l))) sid = Some ses \<longrightarrow>
      is_ended mk ses \<longrightarrow> clk_utc c < last_use b mk \<or> marker_end b mk \<le> clk_inst c)"
  proof (cases "copy_of l sid")
    case (Some copy)
    with fine have copy: "ses_session_id copy = sid" "copy_fine b mk c copy" by (simp_all add: copies_fine_def)
    let ?v = "verify_interval (idle_timeout b)"
    show ?thesis
    proof (cases "timestamp_millis c - ses_verified_at_ms copy < int (as_millis ?v)")
      case True
      have "clk_utc c < last_use b mk" if "ses_verified_at_ms copy \<le> timestamp_millis (end_clock mk)"
      proof -
        have "clk_utc c div 1000000 < clk_utc (end_clock mk) div 1000000 + ?v div 1000000"
          using that True by (simp add: timestamp_millis_def as_millis_def)
        then have "clk_utc c < clk_utc (end_clock mk) + ?v" by linarith
        then show ?thesis by (simp add: last_use_def)
      qed
      with copy True Some fine show ?thesis by (auto simp: verify_copy_def copy_fine_def)
    next
      case False
      define l1 where "l1 = put_copy sid (copy\<lparr>ses_verified_at_ms := timestamp_millis c\<rparr>) l"
      obtain q s1 where e: "recorded_end b sid (ses_created_at copy) c s = (q, s1)" by fastforce
      have s: "store_fine mk c s" using fine by simp
      note ef = recorded_end_fine [OF s e]
      from ef(3) obtain o' where
        "q = Inr o' \<and> (o' = None \<longleftrightarrow> live_at (view s) (clk_inst c) (end_key sid (ses_created_at copy)) = None)" by (rule exE)
      then have q: "q = Inr o'" "o' = None \<longleftrightarrow> live_at (view s) (clk_inst c) (end_key sid (ses_created_at copy)) = None"
        by simp_all
      show ?thesis
      proof (cases o')
        case None
        have gone: "marker_end b mk \<le> clk_inst c" if "is_ended mk copy"
        proof -
          from that copy(1) obtain en where "mk = Some (sid, ses_created_at copy, en)" by (auto simp: is_ended_def)
          with s q(2) None show ?thesis unfolding store_fine_def rows_fine_def marker_kept_def by (metis leI order_refl)
        qed
        have "copies_fine b mk c l1"
          unfolding l1_def using fine copy gone
          by (intro copies_fine_put) (auto simp: copy_fine_def row_fine_def)
        with False Some e q None ef(1) gone show ?thesis by (auto simp: verify_copy_def l1_def [symmetric]) (auto simp: l1_def)
      next
        case (Some reason)
        have d: "drop_ended_copy b sid (ses_created_at copy) c (s1, l1) =
            (Some (copy\<lparr>ses_verified_at_ms := timestamp_millis c\<rparr>),
             remove_ended_rows b (copy\<lparr>ses_verified_at_ms := timestamp_millis c\<rparr>) c s1,
             end_streams sid (ses_created_at copy) (drop_copy sid l1))"
          by (simp add: drop_ended_copy_def l1_def)
        have "copies_fine b mk c (drop_copy sid l1)" using fine by (simp add: copies_fine_def l1_def)
        with False \<open>copy_of l sid = Some copy\<close> e q Some d remove_ended_rows_fine [OF ef(1)] show ?thesis
          by (simp add: verify_copy_def l1_def [symmetric])
      qed
    qed
  qed (use fine in \<open>simp add: verify_copy_def\<close>)
  then show "state_fine mk c (verify_copy b sid c (s, l))" by blast
  show "clk_utc c < last_use b mk \<or> marker_end b mk \<le> clk_inst c"
    if "copy_of (snd (verify_copy b sid c (s, l))) sid = Some ses" "is_ended mk ses" using both that by blast
qed

lemma new_session_fine:
  assumes "after_end mk off c"
  shows "copy_fine b mk c (new_session sid version params c)"
proof (cases "is_ended mk (new_session sid version params c :: 'f stored_session)")
  case True
  then obtain e where mk: "mk = Some (sid, clk_utc c, e)" by (auto simp: is_ended_def new_session_def)
  with assms have "clk_utc c = clk_utc e" by (auto simp: after_end_def not_before_def)
  with mk True show ?thesis
    by (auto simp: copy_fine_def row_fine_def last_use_def end_clock_def timestamp_millis_def new_session_def)
qed (simp add: copy_fine_def row_fine_def new_session_def)

lemma hydrate_fine:
  assumes after: "after_end mk off c" and fine: "state_fine mk c (s, l)"
  shows "state_fine mk c (ensure_hydrated b sid c (s, l))"
    and "copy_of (snd (ensure_hydrated b sid c (s, l))) sid = Some ses \<Longrightarrow> is_ended mk ses \<Longrightarrow>
      clk_utc c < last_use b mk \<or> marker_end b mk \<le> clk_inst c"
proof -
  have both: "state_fine mk c (ensure_hydrated b sid c (s, l)) \<and> (\<forall>ses. copy_of (snd (ensure_hydrated b sid c (s, l))) sid = Some ses \<longrightarrow>
      is_ended mk ses \<longrightarrow> clk_utc c < last_use b mk \<or> marker_end b mk \<le> clk_inst c)"
  proof (cases "copy_of l sid")
    case (Some copy)
    obtain s1 l1 where a: "adopt_shared_phase b sid c (s, l) = (s1, l1)" by fastforce
    with adopt_phase_fine(1) [OF fine, of sid] have "state_fine mk c (s1, l1)" by simp
    from verify_fine [OF after this, of sid] Some a show ?thesis by (auto simp: ensure_hydrated_def)
  next
    case None
    obtain r s1 where g: "kv_get kv (session_key sid) c s = (r, s1)" by fastforce
    have s: "store_fine mk c s" using fine by simp
    note gf = get_fine [OF s g]
    show ?thesis
    proof (cases "\<exists>entry row. r = Inr (Some entry) \<and> se_from_slice (sb_ext b) (ent_bytes entry) = Inr row \<and> \<not> idle_everywhere b c row")
      case False
      with g gf(1) None fine show ?thesis by (auto simp: ensure_hydrated_def split: sum.splits option.splits if_splits)
    next
      case True
      then obtain entry row where v: "r = Inr (Some entry)" "se_from_slice (sb_ext b) (ent_bytes entry) = Inr row"
        "\<not> idle_everywhere b c row" by blast
      with gf(3) obtain d where at: "live_at (view s) (clk_inst c) (session_key sid) = Some (ent_bytes entry, d)"
        by (cases "live_at (view s) (clk_inst c) (session_key sid)") auto
      obtain q s2 where e: "recorded_end b sid (ses_created_at row) c s1 = (q, s2)" by fastforce
      note ef = recorded_end_fine [OF gf(1) e]
      from ef(3) obtain o' where
        "q = Inr o' \<and> (o' = None \<longleftrightarrow> live_at (view s1) (clk_inst c) (end_key sid (ses_created_at row)) = None)" by (rule exE)
      then have q: "q = Inr o'" "o' = None \<longleftrightarrow> live_at (view s) (clk_inst c) (end_key sid (ses_created_at row)) = None"
        using same_from_live [OF gf(2) order_refl] by simp_all
      show ?thesis
      proof (cases o')
        case (Some reason)
        with g v e q(1) ef(1) None fine show ?thesis by (simp add: ensure_hydrated_def)
      next
        case none: None
        with q(2) have row: "\<not> is_ended mk row" "ses_session_id row = sid" "row_fine b mk c row"
          using row_not_ended [OF after s at v(2,3)] by simp_all
        have "copies_fine b mk c (put_copy sid (row\<lparr>ses_verified_at_ms := timestamp_millis c\<rparr>) l)"
          using fine row adopted_fine [OF row(1,3)] by (intro copies_fine_put) simp_all
        moreover have "ensure_hydrated b sid c (s, l) = (s2, put_copy sid (row\<lparr>ses_verified_at_ms := timestamp_millis c\<rparr>) l)"
          using g v e q(1) none None row(2) by (simp add: ensure_hydrated_def)
        ultimately show ?thesis using ef(1) row(1) by simp
      qed
    qed
  qed
  then show "state_fine mk c (ensure_hydrated b sid c (s, l))" by blast
  show "clk_utc c < last_use b mk \<or> marker_end b mk \<le> clk_inst c"
    if "copy_of (snd (ensure_hydrated b sid c (s, l))) sid = Some ses" "is_ended mk ses" using both that by blast
qed

text \<open>What every operation relies on: after the refresh, a copy of the ended session is within its last use.\<close>

lemma refreshed_fine:
  assumes after: "after_end mk off c" and fine: "state_fine mk c st"
  shows "state_fine mk c (refreshed b sid c st)"
    and "copy_of (snd (refreshed b sid c st)) sid = Some ses \<Longrightarrow> is_ended mk ses \<Longrightarrow> clk_utc c < last_use b mk"
proof -
  obtain s l where st: "st = (s, l)" by fastforce
  obtain s1 l1 where h: "ensure_hydrated b sid c (s, l) = (s1, l1)" by fastforce
  from hydrate_fine [OF after, of s l sid] fine st h have hf: "state_fine mk c (s1, l1)"
    "\<And>ses. copy_of l1 sid = Some ses \<Longrightarrow> is_ended mk ses \<Longrightarrow> clk_utc c < last_use b mk \<or> marker_end b mk \<le> clk_inst c" by auto
  show "state_fine mk c (refreshed b sid c st)" using evict_fine(1) [OF after hf(1)] st h by (simp add: refreshed_def)
  assume "copy_of (snd (refreshed b sid c st)) sid = Some ses" "is_ended mk ses"
  with evict_fine(2) [OF after hf(1), of sid ses] st h have held: "copy_of l1 sid = Some ses" "\<not> is_idle b c ses"
    by (simp_all add: refreshed_def)
  from hf(1) held(1) have "copy_fine b mk c ses" by (simp add: copies_fine_def)
  with \<open>is_ended mk ses\<close> have "ses_last_seen_at ses \<le> last_use b mk" by (simp add: copy_fine_def row_fine_def)
  with held have "\<not> marker_end b mk \<le> clk_inst c"
    using ended_trace_idle(2) [OF after, of b ses] \<open>is_ended mk ses\<close> by (auto simp: is_ended_def)
  with hf(2) [OF held(1)] \<open>is_ended mk ses\<close> show "clk_utc c < last_use b mk" by simp
qed

end

section \<open>The operations of the store\<close>

text \<open>Changes to the streams leave what the invariant reads alone.\<close>

definition same_trace :: "'f stored_session \<Rightarrow> 'f stored_session \<Rightarrow> bool" where
  "same_trace ses ses' \<longleftrightarrow> ses_session_id ses' = ses_session_id ses \<and> ses_created_at ses' = ses_created_at ses
     \<and> ses_last_seen_at ses' = ses_last_seen_at ses \<and> ses_verified_at_ms ses' = ses_verified_at_ms ses"

lemma same_trace_streams:
  "open_stream x cfg c ses = (events, ses') \<Longrightarrow> same_trace ses ses'"
  "respond_on_stream x cfg response pending c ses = (events, ses') \<Longrightarrow> same_trace ses ses'"
  "push_on_stream cfg message did ses = Inr (event, ses') \<Longrightarrow> same_trace ses ses'"
  by (auto simp: same_trace_def open_stream_def respond_on_stream_def push_on_stream_def begin_stream_def set_stream_def
      retire_old_streams_def Let_def split: prod.splits option.splits)

lemma same_trace_fine: "same_trace ses ses' \<Longrightarrow> copy_fine b mk c ses' = copy_fine b mk c ses"
  by (simp add: same_trace_def copy_fine_def row_fine_def is_ended_def)

context session_fleet
begin

text \<open>A touched copy of a refreshed session, also after a sweep.\<close>

lemma refreshed_copy:
  assumes after: "after_end mk off c" and fine: "state_fine mk c st"
    and at: "copy_of (snd (refreshed b sid c st)) sid = Some ses"
  shows "copy_fine b mk c (touch c ses)" "ses_session_id ses = sid"
proof -
  note rf = refreshed_fine [OF after fine, of sid]
  from rf(1) at have "copy_fine b mk c ses" "ses_session_id ses = sid"
    by (cases "refreshed b sid c st", simp add: copies_fine_def)+
  with touch_fine [of mk c ses] rf(2) [OF at] show "copy_fine b mk c (touch c ses)" "ses_session_id ses = sid"
    by (auto simp: less_imp_le)
qed

lemma swept_copy:
  assumes after: "after_end mk off c" and fine: "state_fine mk c st"
    and at: "copy_of (snd (maybe_sweep b c (refreshed b sid c st))) sid = Some ses"
  shows "copy_fine b mk c (touch c ses)" "ses_session_id ses = sid"
    "is_ended mk ses \<Longrightarrow> clk_utc c < last_use b mk"
proof -
  note held = sweep_fine(2) [OF after refreshed_fine(1) [OF after fine] at]
  show "copy_fine b mk c (touch c ses)" "ses_session_id ses = sid" using refreshed_copy [OF after fine held] by simp_all
  show "is_ended mk ses \<Longrightarrow> clk_utc c < last_use b mk" using refreshed_fine(2) [OF after fine held] .
qed

lemma swept_fine: "after_end mk off c \<Longrightarrow> state_fine mk c st \<Longrightarrow> state_fine mk c (maybe_sweep b c (refreshed b sid c st))"
  by (intro sweep_fine(1) refreshed_fine(1))

lemma touched_with [simp]: "touch c (ses\<lparr>ses_phase := ph\<rparr>) = (touch c ses)\<lparr>ses_phase := ph\<rparr>"
  "touch c (ses\<lparr>ses_log_level := lv\<rparr>) = (touch c ses)\<lparr>ses_log_level := lv\<rparr>" "ses_session_id (touch c ses) = ses_session_id ses"
  by (simp_all add: touch_def)

lemma state_fine_fst_snd: "state_fine mk c st \<longleftrightarrow> store_fine mk c (fst st) \<and> copies_fine b mk c (snd st)"
  by (simp add: state_fine_def)

lemma create_fine:
  assumes after: "after_end mk off c" and fine: "state_fine mk c st"
  shows "state_fine mk c (snd (create_session b uuid version params c st))"
proof -
  obtain s1 l1 where w: "maybe_sweep b c st = (s1, l1)" by fastforce
  with sweep_fine(1) [OF after fine] have f1: "state_fine mk c (s1, l1)" by simp
  let ?ses = "new_session uuid version params c :: 'f stored_session"
  have ses: "copy_fine b mk c ?ses" "ses_session_id ?ses = uuid" using new_session_fine [OF after] by (simp_all add: new_session_def)
  obtain won s2 where p: "persist_session_create_once b ?ses c s1 = (won, s2)" by fastforce
  have "store_fine mk c s2"
    using p f1 claim_row_fine [of mk c s1 ?ses _ "Some (row_ttl b)"] copy_fine_row [OF ses(1)]
    by (auto simp: persist_session_create_once_def split: sum.splits prod.splits)
  moreover have "copies_fine b mk c (put_copy uuid (if won then ?ses\<lparr>ses_written_at_ms := timestamp_millis c\<rparr> else ?ses) l1)"
    using f1 ses by (intro copies_fine_put) auto
  ultimately show ?thesis using w p f1 by (simp add: create_session_def Let_def split: option.split)
qed

lemma create_with_id_fine:
  assumes after: "after_end mk off c" and fine: "state_fine mk c st"
  shows "state_fine mk c (snd (create_session_with_id b sid version params c st))"
proof -
  obtain s1 l1 where r: "refreshed b sid c st = (s1, l1)" by fastforce
  note rf = refreshed_fine(1) [OF after fine, of sid] refreshed_copy [OF after fine, of sid]
  obtain s2 l2 where w: "maybe_sweep b c (s1, l1) = (s2, l2)" by fastforce
  with sweep_fine(1) [OF after rf(1)] r have f2: "state_fine mk c (s2, l2)" by simp
  have "copy_fine b mk c ses \<and> ses_session_id ses = sid" if "copy_of l2 sid = Some ses" for ses
    using that f2 by (simp add: copies_fine_def)
  moreover have "copy_fine b mk c (new_session sid version params c)" "ses_session_id (new_session sid version params c :: 'f stored_session) = sid"
    using new_session_fine [OF after] by (simp_all add: new_session_def)
  ultimately show ?thesis using rf r w f2
    by (auto simp: create_session_with_id_def Let_def intro!: save_copy_fine split: option.split)
qed

lemma same_trace_copy:
  "same_trace (touch c ses) ses' \<Longrightarrow> copy_fine b mk c (touch c ses) \<and> ses_session_id ses = sid \<Longrightarrow>
   copy_fine b mk c ses' \<and> ses_session_id ses' = sid"
  using same_trace_fine [of "touch c ses" ses' b mk c] by (simp add: same_trace_def)

lemma hydrated_ops_fine:
  assumes after: "after_end mk off c" and fine: "state_fine mk c st"
  shows "state_fine mk c (bind_session_owner b sid owner c st)"
    and "state_fine mk c (snd (terminate_session b sid c st))"
    and "state_fine mk c (snd (claim_tenant_slot b sid cap c st))"
proof -
  obtain s1 l1 where h: "ensure_hydrated b sid c st = (s1, l1)" by fastforce
  have f1: "state_fine mk c (s1, l1)" using hydrate_fine(1) [OF after, of "fst st" "snd st" sid] fine h by simp
  have copy: "copy_fine b mk c ses \<and> ses_session_id ses = sid" if "copy_of l1 sid = Some ses" for ses
    using that f1 by (simp add: copies_fine_def)
  show "state_fine mk c (bind_session_owner b sid owner c st)"
    using h f1 copy by (auto simp: bind_session_owner_def intro!: save_copy_fine split: option.split)
  show "state_fine mk c (snd (terminate_session b sid c st))"
    using h f1 end_session_fine [of mk c s1 "drop_copy sid l1"] copies_fine_drop [of mk c l1 sid]
    by (auto simp: terminate_session_def case_prod_unfold Let_def split: option.split)
  show "state_fine mk c (snd (claim_tenant_slot b sid cap c st))"
  proof (cases "copy_of l1 sid")
    case (Some ses)
    obtain r s2 where w: "write_slot b (tenant_of ses) sid c s1 = (r, s2)" by fastforce
    with put_slot_fine [of mk c s1] f1 have s2: "store_fine mk c s2"
      by (metis kv_b snd_conv state_fine_pair write_slot_def)
    obtain q s3 where n: "count_slots b (tenant_of ses) sid cap c s2 = (q, s3)" by fastforce
    obtain ls s4 where li: "kv_list_prefix kv (tenant_slot_prefix b (tenant_of ses)) (min (cap + 1) (2 ^ 64 - 1)) c s2 = (ls, s4)" by fastforce
    with s2 list_prefix_law [of s2 "tenant_slot_prefix b (tenant_of ses)" "min (cap + 1) (2 ^ 64 - 1)" c]
    have s4: "store_fine mk c s4" using rows_fine_same unfolding store_fine_def by fastforce
    with delete_fine [OF s4, of "tenant_slot_prefix b (tenant_of ses) @ sid"] n li have "store_fine mk c s3"
      by (auto simp: count_slots_def split: sum.splits if_splits prod.splits)
    with h Some w n s2 f1 copy [OF Some] show ?thesis
      by (auto simp: claim_tenant_slot_def intro!: save_copy_fine split: sum.split bool.split)
  qed (use h f1 in \<open>simp add: claim_tenant_slot_def\<close>)
qed

lemma swept_ops_fine:
  assumes after: "after_end mk off c" and fine: "state_fine mk c st"
  shows "state_fine mk c (snd (load_session b session_id op c st))"
    and "state_fine mk c (snd (transition_session_to_operational b sid c st))"
    and "state_fine mk c (snd (set_session_log_level b session_id level c st))"
proof -
  have step: "state_fine mk c (maybe_sweep b c (refreshed b k c st))"
    "\<And>ses. copy_of (snd (maybe_sweep b c (refreshed b k c st))) k = Some ses \<Longrightarrow> copy_fine b mk c (touch c ses) \<and> ses_session_id ses = k" for k
    using swept_fine [OF after fine] swept_copy(1,2) [OF after fine] by blast+
  show "state_fine mk c (snd (load_session b session_id op c st))"
  proof (cases session_id)
    case (Some k)
    obtain s1 l1 where w: "maybe_sweep b c (refreshed b k c st) = (s1, l1)" by fastforce
    with step [of k] Some show ?thesis
      by (auto simp: load_session_def Let_def intro!: save_copy_fine copies_fine_put split: option.split)
  qed (use fine in \<open>simp add: load_session_def\<close>)
  obtain s1 l1 where w: "maybe_sweep b c (refreshed b sid c st) = (s1, l1)" by fastforce
  with step [of sid] show "state_fine mk c (snd (transition_session_to_operational b sid c st))"
    by (auto simp: transition_session_to_operational_def intro!: save_copy_fine split: option.split)
  show "state_fine mk c (snd (set_session_log_level b session_id level c st))"
  proof (cases session_id)
    case (Some k)
    obtain s1 l1 where w: "maybe_sweep b c (refreshed b k c st) = (s1, l1)" by fastforce
    with step [of k] Some show ?thesis
      by (auto simp: set_session_log_level_def intro!: save_copy_fine split: option.split)
  qed (use fine in \<open>simp add: set_session_log_level_def\<close>)
qed

lemma refreshed_ops_fine:
  assumes after: "after_end mk off c" and fine: "state_fine mk c st"
  shows "state_fine mk c (snd (session_protocol_version b sid c st))"
    and "state_fine mk c (snd (open_sse_stream b session_id cursor c st))"
    and "state_fine mk c (snd (stream_protocol_response_with_pending b sid response pending c st))"
    and "state_fine mk c (snd (stream_message b sid message did c st))"
proof -
  note step = refreshed_fine(1) [OF after fine] refreshed_copy [OF after fine]
  have op: "copy_fine b mk c (touch c ses) \<and> ses_session_id ses = k" if "operational_copy (snd (refreshed b k c st)) k = Inr ses" for k ses
    using that step(2,3) [of k ses] by (auto simp: operational_copy_def split: option.splits if_splits)
  obtain s1 l1 where r: "refreshed b sid c st = (s1, l1)" by fastforce
  have f1: "state_fine mk c (s1, l1)" and op1: "\<And>ses. operational_copy l1 sid = Inr ses \<Longrightarrow> copy_fine b mk c (touch c ses) \<and> ses_session_id ses = sid"
    using step(1) [of sid] op [of sid] r by simp_all
  show "state_fine mk c (snd (session_protocol_version b sid c st))"
    using step [of sid] r by (auto simp: session_protocol_version_def intro!: save_copy_fine split: option.split)
  show "state_fine mk c (snd (open_sse_stream b session_id cursor c st))"
  proof (cases session_id)
    case (Some k)
    obtain s2 l2 where r2: "refreshed b k c st = (s2, l2)" by fastforce
    have f2: "state_fine mk c (s2, l2)"
      and op2: "\<And>ses. operational_copy l2 k = Inr ses \<Longrightarrow> copy_fine b mk c (touch c ses) \<and> ses_session_id ses = k"
      using step(1) [of k] op [of k] r2 by simp_all
    have opened: "copy_fine b mk c ses' \<and> ses_session_id ses' = k"
      if "operational_copy l2 k = Inr ses" "open_stream (sb_ext b) (sb_config b) c (touch c ses) = (events, ses')" for ses events ses'
      using same_trace_copy [OF same_trace_streams(1) [OF that(2)] op2 [OF that(1)]] .
    show ?thesis
    proof (cases "operational_copy l2 k")
      case (Inr ses)
      note o = op2 [OF Inr]
      have "state_fine mk c (save_copy b k (touch c ses) c (s2, l2))" using o f2 by (intro save_copy_fine) auto
      moreover have "copies_fine b mk c (put_copy k (touch c ses) l2)" using o f2 by (intro copies_fine_put) auto
      moreover obtain events ses' where os: "open_stream (sb_ext b) (sb_config b) c (touch c ses) = (events, ses')" by fastforce
      moreover have "state_fine mk c (save_copy b k ses' c (s2, l2))" using opened [OF Inr os] f2 by (intro save_copy_fine) auto
      ultimately show ?thesis using Some r2 Inr f2 by (auto simp: open_sse_stream_def Let_def split: sum.split option.split)
    qed (use Some r2 f2 in \<open>simp add: open_sse_stream_def\<close>)
  qed (use fine in \<open>simp add: open_sse_stream_def\<close>)
  show "state_fine mk c (snd (stream_protocol_response_with_pending b sid response pending c st))"
  proof (cases "operational_copy l1 sid")
    case (Inr ses)
    obtain events ses' where rs: "respond_on_stream (sb_ext b) (sb_config b) response pending c (touch c ses) = (events, ses')" by fastforce
    from same_trace_copy [OF same_trace_streams(2) [OF rs] op1 [OF Inr]] f1
    have "state_fine mk c (save_copy b sid ses' c (s1, l1))" by (intro save_copy_fine) auto
    with r Inr rs show ?thesis by (simp add: stream_protocol_response_with_pending_def)
  qed (use r f1 in \<open>simp add: stream_protocol_response_with_pending_def\<close>)
  have "state_fine mk c (snd (stream_message_inner b sid message d c st))" for d
  proof (cases "operational_copy l1 sid")
    case (Inr ses)
    have "copies_fine b mk c (put_copy sid (touch c ses) l1)" using op1 [OF Inr] f1 by (intro copies_fine_put) auto
    moreover have "state_fine mk c (save_copy b sid ses' c (s1, l1))"
      if "push_on_stream (sb_config b) message d (touch c ses) = Inr (event, ses')" for event ses'
      using same_trace_copy [OF same_trace_streams(3) [OF that] op1 [OF Inr]] f1 by (intro save_copy_fine) auto
    ultimately show ?thesis using r Inr f1
      by (auto simp: stream_message_inner_def Let_def split: sum.split)
  qed (use r f1 in \<open>simp add: stream_message_inner_def\<close>)
  then show "state_fine mk c (snd (stream_message b sid message did c st))" by (simp add: stream_message_def)
qed

lemma alive_fine:
  assumes "state_fine mk c (s, l)"
  shows "state_fine mk c (snd (session_alive b sid c (s, l)))"
proof -
  obtain r s1 where g: "kv_get kv (session_key sid) c s = (r, s1)" by fastforce
  have s1: "store_fine mk c s1" using get_fine(1) [OF _ g] assms by simp
  have "store_fine mk c s2" if "recorded_end b sid u c s1 = (q, s2)" for u q s2 using recorded_end_fine(1) [OF s1 that] .
  with assms g s1 show ?thesis
    by (auto simp: session_alive_def split: sum.split option.split prod.split)
qed

lemma run_call_fine:
  assumes "after_end mk off c" "state_fine mk c st"
  shows "state_fine mk c (run_call b call c st)"
proof (cases call)
  case (CallAlive sid)
  then show ?thesis using alive_fine [of mk c "fst st" "snd st"] assms(2) by simp
next
  case (CallDropEnded sid u)
  then show ?thesis using drop_ended_copy_fine(1) [of mk c "fst st" "snd st" sid u] assms(2)
    by (auto simp: drop_ended_session_def split: prod.split)
next
  case (CallLifetime sid)
  then show ?thesis using assms(2) by (cases st) simp
next
  case (CallDropRegistration sid u)
  then show ?thesis using assms(2) by (cases st) simp
qed (use create_fine [OF assms] create_with_id_fine [OF assms] hydrated_ops_fine [OF assms] swept_ops_fine [OF assms]
       refreshed_ops_fine [OF assms] in simp_all)

section \<open>The fleet\<close>

definition fleet_fine :: "recorded \<Rightarrow> clock \<Rightarrow> ('s, 'f) session_fleet_state \<Rightarrow> bool" where
  "fleet_fine mk c st \<longleftrightarrow> store_fine mk c (fst st) \<and> (\<forall>i. copies_fine b mk c (snd st i))"

lemma store_fine_later: "store_fine mk c s \<Longrightarrow> not_before c c' \<Longrightarrow> store_fine mk c' s"
  using rows_fine_later unfolding store_fine_def by blast

lemma after_end_later: "after_end mk off c \<Longrightarrow> not_before c c' \<Longrightarrow> synced off c' \<Longrightarrow> after_end mk off c'"
  by (auto simp: after_end_def not_before_def)

lemma fleet_run_fine:
  assumes "fleet_run off b c0 st0 c st" "after_end mk off c0" "fleet_fine mk c0 st0"
  shows "fleet_fine mk c st \<and> after_end mk off c"
  using assms
proof (induction rule: fleet_run.induct)
  case (run_call c s ls c' call i s' l')
  from run_call have fine: "fleet_fine mk c (s, ls)" and after: "after_end mk off c'"
    using after_end_later by blast+
  have f': "state_fine mk c' (s, ls i)" "\<And>j. copies_fine b mk c' (ls j)"
    using fine store_fine_later [OF _ run_call(2)] copies_fine_later [of b mk c, OF _ run_call(2)] by (simp_all add: fleet_fine_def)
  with run_call_fine [OF after f'(1), of call] run_call(4) after show ?case by (simp add: fleet_fine_def)
qed simp

lemma fresh_fleet_fine:
  assumes "ok s" "\<And>k. live_at (view s) (clk_inst c) k = None"
  shows "fleet_fine None c (s, \<lambda>_. new_session_local)"
  using assms
  by (simp add: fleet_fine_def store_fine_def rows_fine_def marker_kept_def contents_fine_def copies_fine_def copy_of_def
      new_session_local_def)

text \<open>Recording the end of a session makes the invariant hold for it.\<close>

lemma row_fine_ended:
  assumes "row_fine b None c ses" "mk = Some (sid, u, c)"
  shows "row_fine b mk c ses"
  using assms by (auto simp: row_fine_def is_ended_def last_use_def end_clock_def)

lemma terminate_records:
  assumes fine: "fleet_fine None e (s, ls)" and after: "after_end None off e"
    and t: "terminate_session b sid e (s, ls i) = (Some ended, s', l')" "es_recorded ended" "es_snapshot ended = Some snap"
  shows "fleet_fine (Some (sid, sn_created_at snap, e)) e (s', ls(i := l'))"
    and "after_end (Some (sid, sn_created_at snap, e)) off e"
proof -
  let ?mk = "Some (sid, sn_created_at snap, e)"
  obtain s1 l1 where h: "ensure_hydrated b sid e (s, ls i) = (s1, l1)" by fastforce
  have f1: "state_fine None e (s1, l1)"
    using hydrate_fine(1) [OF after, of s "ls i" sid] fine h by (simp add: fleet_fine_def)
  obtain ses where ses: "copy_of l1 sid = Some ses" and es: "sn_created_at snap = ses_created_at ses"
    and en: "end_session b ses Terminated False e (s1, drop_copy sid l1) = (es_recorded ended, s', l')"
    using t(1,3) h by (auto simp: terminate_session_def snapshot_def split: option.splits prod.splits)
  have c: "ses_session_id ses = sid" "copy_fine b None e ses" using f1 ses by (simp_all add: copies_fine_def)
  show after': "after_end ?mk off e"
    using after c(2) es by (auto simp: after_end_def copy_fine_def row_fine_def not_before_def)
  define w where "w = se_text (sb_ext b) (end_reason_str Terminated)"
  obtain r s2 where p: "kv_put_if_absent kv (end_key sid (ses_created_at ses)) w (Some (row_ttl b)) e s1 = (r, s2)" by fastforce
  have s1: "store_fine None e s1" using f1 by simp
  then have "ok s1" by (simp add: store_fine_def)
  from put_if_absent_law [OF this, of "end_key sid (ses_created_at ses)" w "Some (row_ttl b)" e] p
  have law: "r = Inr (live_at (view s1) (clk_inst e) (end_key sid (ses_created_at ses)) = None)"
    "same_from (clk_inst e) (view s2) (if live_at (view s1) (clk_inst e) (end_key sid (ses_created_at ses)) = None
       then (view s1)(end_key sid (ses_created_at ses) \<mapsto> (w, deadline (Some (row_ttl b)) e)) else view s1)" by (simp_all split del: if_split)
  have en': "es_recorded ended = (live_at (view s1) (clk_inst e) (end_key sid (ses_created_at ses)) = None)"
    and s': "s' = remove_session b ses e s2" and l': "l' = end_streams sid (ses_created_at ses) (drop_copy sid l1)"
    using en c(1) p law(1) by (simp_all add: end_session_def Let_def w_def)
  have same: "same_from (clk_inst e) (view s2) ((view s1)(end_key sid (ses_created_at ses) \<mapsto> (w, Some (clk_inst e + row_ttl b))))"
    using law(2) en' t(2) by simp
  have "store_fine None e s2" using claim_end_fine [OF s1 p] .
  then have ok2: "ok s2" and cf: "contents_fine b None e (view s2)" by (simp_all add: store_fine_def rows_fine_def)
  have "marker_kept b ?mk e (view s2)"
    using same_from_live [OF same] es by (auto simp: marker_kept_def marker_end_def end_clock_def live_at_upd_same)
  moreover have "contents_fine b ?mk e (view s2)"
    using cf row_fine_ended [OF _ refl] unfolding contents_fine_def by blast
  ultimately have "store_fine ?mk e s2" using ok2 by (simp add: store_fine_def rows_fine_def)
  from remove_session_fine [OF this] have "store_fine ?mk e s'" by (simp add: s')
  moreover have ended_copies: "copies_fine b ?mk e l" if "copies_fine b None e l" for l
    using that row_fine_ended [OF _ refl, of e _ sid "sn_created_at snap"] unfolding copies_fine_def copy_fine_def
    by (auto simp: is_ended_def end_clock_def split: if_splits)
  moreover have "copies_fine b None e l'" using f1 copies_fine_drop by (simp add: l')
  ultimately show "fleet_fine ?mk e (s', ls(i := l'))" using fine by (auto simp: fleet_fine_def)
qed

text \<open>A read that comes a verification interval after the end does not find the session.\<close>

lemma late_read:
  assumes fine: "fleet_fine mk c (s, ls)" and after: "after_end mk off c" and mk: "mk = Some (sid, u, e)"
    and late: "clk_utc e + verify_interval (idle_timeout b) \<le> clk_utc c"
    and r: "fst (load_session b (Some sid) op c (s, ls i)) = Inr snap"
  shows "sn_created_at snap \<noteq> u"
proof -
  have st: "state_fine mk c (s, ls i)" using fine by (simp add: fleet_fine_def)
  obtain s1 l1 where w: "maybe_sweep b c (refreshed b sid c (s, ls i)) = (s1, l1)" by fastforce
  with r obtain ses where ses: "copy_of l1 sid = Some ses" "sn_created_at snap = ses_created_at ses"
    by (auto simp: load_session_def Let_def snapshot_def touch_def split: option.splits if_splits)
  have "ses_session_id ses = sid" "is_ended mk ses \<Longrightarrow> clk_utc c < last_use b mk"
    using swept_copy(2,3) [OF after st, of sid ses] w ses(1) by simp_all
  with late mk ses(2) show ?thesis by (auto simp: is_ended_def last_use_def end_clock_def)
qed

end

context session_fleet
begin

lemma ended_stays_ended:
  assumes fresh: "ok s0" "\<And>k. live_at (view s0) (clk_inst c0) k = None" "synced off c0"
    and before: "fleet_run off b c0 (s0, \<lambda>_. new_session_local) c1 (s1, ls1)"
    and ends: "not_before c1 e" "synced off e" "terminate_session b sid e (s1, ls1 i) = (Some ended, s2, l2)"
      "es_recorded ended" "es_snapshot ended = Some snap"
    and after: "fleet_run off b e (s2, ls1(i := l2)) c3 (s3, ls3)"
    and late: "not_before c3 c" "synced off c" "clk_utc e + verify_interval (idle_timeout b) \<le> clk_utc c"
    and reads: "fst (load_session b (Some sid) op c (s3, ls3 j)) = Inr found"
  shows "sn_created_at found \<noteq> sn_created_at snap"
proof -
  have none: "after_end None off c0" using fresh(3) by (simp add: after_end_def)
  from fleet_run_fine [OF before none fresh_fleet_fine [OF fresh(1,2)]]
  have f1: "fleet_fine None c1 (s1, ls1)" "after_end None off c1" by simp_all
  have fe: "fleet_fine None e (s1, ls1)" "after_end None off e"
    using f1(1) store_fine_later [OF _ ends(1)] copies_fine_later [of b None c1, OF _ ends(1)] ends(2)
    by (simp_all add: fleet_fine_def after_end_def)
  note recorded = terminate_records [OF fe ends(3-5)]
  from fleet_run_fine [OF after recorded(2,1)]
  have f3: "fleet_fine (Some (sid, sn_created_at snap, e)) c3 (s3, ls3)" "after_end (Some (sid, sn_created_at snap, e)) off c3"
    by simp_all
  have fc: "fleet_fine (Some (sid, sn_created_at snap, e)) c (s3, ls3)"
    using f3(1) store_fine_later [OF _ late(1)] copies_fine_later [of b "Some (sid, sn_created_at snap, e)" c3, OF _ late(1)]
    by (simp add: fleet_fine_def)
  show ?thesis using late_read [OF fc after_end_later [OF f3(2) late(1,2)] refl late(3) reads] .
qed

end

section \<open>A fleet on the in-process store\<close>

datatype session_payload = SessionRow "int stored_session" | TextRow string

definition demo_session_ext :: "(session_payload, int) session_ext" where
  "demo_session_ext = \<lparr>se_f64 = real_bucket, se_log_line = (\<lambda>_ logger _. logger), se_envelope = (\<lambda>_. ''{}''),
     se_to_vec = (\<lambda>ses. Inr (SessionRow (stripped ses))),
     se_from_slice = (\<lambda>v. case v of SessionRow ses \<Rightarrow> Inr ses | TextRow _ \<Rightarrow> Inl ''not a session''),
     se_text = TextRow, se_b64 = (\<lambda>s. s), se_default_capabilities = JObj []\<rparr>"

definition demo_store :: "(session_payload memory, session_payload, int) session_store" where
  "demo_store = \<lparr>sb_kv = memory_kv (plain_lib (TextRow [])), sb_ext = demo_session_ext,
     sb_config = \<lparr>sc_replay_window_limit = 16, sc_session_idle_timeout_ms = 4000, sc_max_sessions = 0, sc_max_sessions_per_tenant = 0\<rparr>,
     sb_shared = True, sb_fleet_visible = True\<rparr>"

interpretation demo_fleet: session_fleet "memory_kv (plain_lib (TextRow []))" memory_view memory_ok demo_store
  by unfold_locales (auto simp: demo_store_def demo_session_ext_def fleet_shared_def)

section \<open>Results\<close>


text \<open>
  Two replicas: the first creates a session and ends it, the second has a copy and creates a session under the
  same id after the interval; a read of the first replica finds the new one.
\<close>

definition demo_params :: initialize_params where
  "demo_params = \<lparr>ip_capabilities = JObj [], ip_client_info =
     \<lparr>ii_name = ''c'', ii_title = None, ii_version = ''1'', ii_description = None, ii_website_url = None, ii_icons = None\<rparr>\<rparr>"

definition demo_first :: "session_payload memory \<times> int session_local" where
  "demo_first = run_call demo_store (CallCreateWithId ''s'' ''v'' demo_params) (at_ms 0) ([], new_session_local)"

definition demo_second :: "session_payload memory \<times> int session_local" where
  "demo_second = run_call demo_store (CallLoad (Some ''s'') False) (at_ms 10) (fst demo_first, new_session_local)"

definition demo_end :: "ended_session option \<times> session_payload memory \<times> int session_local" where
  "demo_end = terminate_session demo_store ''s'' (at_ms 100) (fst demo_second, snd demo_first)"

definition demo_again :: "session_payload memory \<times> int session_local" where
  "demo_again = run_call demo_store (CallCreateWithId ''s'' ''v'' demo_params) (at_ms 1100) (fst (snd demo_end), snd demo_second)"

definition demo_found :: "session_access_error + session_snapshot" where
  "demo_found = fst (load_session demo_store (Some ''s'') False (at_ms 1200) (fst demo_again, snd (snd demo_end)))"

lemmas demo_session_eval =
  demo_store_def demo_session_ext_def create_session_with_id_def refreshed_def ensure_hydrated_def evict_if_expired_def
  maybe_sweep_def check_session_limit_def new_session_def save_copy_def persist_session_def mark_written_def holds_copy_def
  tenant_slot_key_def session_key_def end_key_def recorded_end_def shared_row_def verify_copy_def adopt_shared_phase_def
  drop_ended_copy_def remove_ended_rows_def remove_session_def end_session_def end_streams_def notify_ended_def
  load_session_def terminate_session_def snapshot_def touch_def stripped_def without_buckets_def fleet_shared_def
  is_idle_def idle_everywhere_def age_ms_def num_milliseconds_def timestamp_millis_def refresh_interval_ms_def
  refresh_interval_def row_ttl_def row_ttl_of_def verify_interval_def idle_timeout_def new_session_local_def copy_of_def
  put_copy_def drop_copy_def memory_op_defs is_expired_def Let_def from_millis_def from_secs_def as_millis_def wrap_i64_def
  show_nat.simps digit_char_def

definition demo_copy :: "nat \<Rightarrow> nat \<Rightarrow> nat \<Rightarrow> nat \<Rightarrow> int stored_session" where
  "demo_copy created seen written verified = \<lparr>ses_session_id = ''s'', ses_protocol_version = ''v'',
     ses_client_info = ip_client_info demo_params, ses_client_capabilities = JObj [], ses_phase = AwaitingInitialized,
     ses_log_level = LInfo, ses_next_stream_ordinal = 0, ses_streams = [], ses_active_stream_id = None,
     ses_owner_principal = None, ses_tenant_slot = False, ses_last_seen_at = clk_utc (at_ms seen),
     ses_created_at = clk_utc (at_ms created), ses_written_at_ms = int written, ses_verified_at_ms = int verified\<rparr>"

definition demo_local :: "(string \<times> int stored_session) list \<Rightarrow> int session_local" where
  "demo_local copies = \<lparr>sl_sessions = copies, sl_lifetimes = [], sl_last_pruned = 0, sl_end_notifier = False, sl_ended = [],
     sl_cancelled = {}, sl_next_token = 0\<rparr>"

lemmas demo_copy_eval = demo_session_eval demo_params_def demo_copy_def demo_local_def

lemma demo_first_value:
  "demo_first = ([(session_key ''s'', stored (SessionRow (demo_copy 0 0 0 0)) (compute_deadline (Some (from_secs 6)) (at_ms 0)))],
     demo_local [(''s'', demo_copy 0 0 0 0)])"
  by (simp add: demo_first_def demo_copy_eval)

lemma demo_second_value:
  "demo_second = (fst demo_first, demo_local [(''s'', demo_copy 0 10 0 10)])"
  by (simp add: demo_second_def demo_first_value demo_copy_eval)

lemma demo_end_value:
  "demo_end = (Some \<lparr>es_session_id = ''s'', es_reason = Terminated, es_recorded = True, es_snapshot = Some (snapshot (demo_copy 0 0 0 0))\<rparr>,
     [(end_key ''s'' 0, stored (TextRow ''terminated'') (compute_deadline (Some (from_secs 6)) (at_ms 100)))], demo_local [])"
  by (simp add: demo_end_def demo_first_value demo_second_value demo_copy_eval)

lemma demo_again_value:
  "demo_again = (fst (snd demo_end) @
       [(session_key ''s'', stored (SessionRow (demo_copy 1100 1100 0 0)) (compute_deadline (Some (from_secs 6)) (at_ms 1100)))],
     demo_local [(''s'', demo_copy 1100 1100 1100 1100)])"
  by (simp add: demo_again_def demo_second_value demo_end_value demo_copy_eval)

lemma demo_found_value: "demo_found = Inr (snapshot (demo_copy 1100 1200 0 1200))"
  by (simp add: demo_found_def demo_again_value demo_end_value demo_copy_eval)

lemma synced_at_ms [simp]: "synced 0 (at_ms n)" "not_before (at_ms m) (at_ms n) \<longleftrightarrow> m \<le> n"
  by (simp_all add: synced_def not_before_def)


end
