(* ===== verification/Session_Slots.thy ===== *)
theory Session_Slots
  imports Session_Properties
begin

text \<open>
  The cap on the sessions of a tenant, under concurrency.  \<open>claim_tenant_slot\<close> writes the session's slot and then
  counts the tenant's slots; sessions of the tenant claim on any replicas at once, and the two store calls of
  a claim interleave with those of the others, with the renewal of slots by \<open>persist_session\<close> and with their
  removal.  \<open>slot_run\<close> has one step per store call; the tenant never holds more slots than its cap.
\<close>

section \<open>Claims as steps\<close>

datatype slot_pc = NoSlot | SlotWritten | SlotGranted

inductive slot_run ::
  "('s \<Rightarrow> 'v rows) \<Rightarrow> ('s, 'v, 'f) session_store \<Rightarrow> string \<Rightarrow> nat \<Rightarrow> 's \<Rightarrow> clock \<Rightarrow> 's \<Rightarrow> (string \<Rightarrow> slot_pc) \<Rightarrow> bool"
  for view b tenant cap s0 where
  slot_start: "slot_run view b tenant cap s0 c s0 (\<lambda>_. NoSlot)"
| slot_write: "slot_run view b tenant cap s0 c s pc \<Longrightarrow> clk_inst c \<le> clk_inst c' \<Longrightarrow>
     write_slot b tenant sid c' s = (Inr (), s') \<Longrightarrow> slot_run view b tenant cap s0 c' s' (pc(sid := SlotWritten))"
| slot_count: "slot_run view b tenant cap s0 c s pc \<Longrightarrow> clk_inst c \<le> clk_inst c' \<Longrightarrow> pc sid = SlotWritten \<Longrightarrow>
     count_slots b tenant sid cap c' s = (Inr granted, s') \<Longrightarrow>
     slot_run view b tenant cap s0 c' s' (pc(sid := (if granted then SlotGranted else NoSlot)))"
| slot_renew: "slot_run view b tenant cap s0 c s pc \<Longrightarrow> clk_inst c \<le> clk_inst c' \<Longrightarrow> pc sid = SlotGranted \<Longrightarrow>
     live_at (view s) (clk_inst c') (tenant_slot_prefix b tenant @ sid) \<noteq> None \<Longrightarrow>
     write_slot b tenant sid c' s = (Inr (), s') \<Longrightarrow> slot_run view b tenant cap s0 c' s' pc"
| slot_free: "slot_run view b tenant cap s0 c s pc \<Longrightarrow> clk_inst c \<le> clk_inst c' \<Longrightarrow>
     kv_delete (sb_kv b) (tenant_slot_prefix b tenant @ sid) c' s = (r, s') \<Longrightarrow>
     slot_run view b tenant cap s0 c' s' (pc(sid := NoSlot))"

text \<open>The sessions that were granted a slot which is still live.\<close>

definition slot_holders :: "'v rows \<Rightarrow> ('s, 'v, 'f) session_store \<Rightarrow> string \<Rightarrow> clock \<Rightarrow> (string \<Rightarrow> slot_pc) \<Rightarrow> string set" where
  "slot_holders m b tenant c pc =
     {sid. pc sid = SlotGranted \<and> live_at m (clk_inst c) (tenant_slot_prefix b tenant @ sid) \<noteq> None}"

definition slots_bounded :: "nat \<Rightarrow> string set \<Rightarrow> bool" where
  "slots_bounded cap H \<longleftrightarrow> finite H \<and> card H \<le> cap"

lemma slots_bounded_subset: "slots_bounded cap H \<Longrightarrow> H' \<subseteq> H \<Longrightarrow> slots_bounded cap H'"
  by (meson card_mono finite_subset le_trans slots_bounded_def)

lemma slot_holders_later:
  "clk_inst c \<le> clk_inst c' \<Longrightarrow> slot_holders m b tenant c' pc \<subseteq> slot_holders m b tenant c pc"
  using live_at_antimono [of m "clk_inst c"] by (fastforce simp: slot_holders_def)

lemma slot_holders_change:
  assumes "same_from (clk_inst c) m' (m(tenant_slot_prefix b tenant @ sid := x))" "clk_inst c0 \<le> clk_inst c"
    and "p \<noteq> SlotGranted \<or> sid \<in> slot_holders m b tenant c pc" "slots_bounded cap (slot_holders m b tenant c0 pc)"
  shows "slots_bounded cap (slot_holders m' b tenant c (pc(sid := p)))"
proof -
  have "slot_holders m' b tenant c (pc(sid := p)) \<subseteq> slot_holders m b tenant c pc"
  proof
    fix k assume k: "k \<in> slot_holders m' b tenant c (pc(sid := p))"
    show "k \<in> slot_holders m b tenant c pc"
    proof (cases "k = sid")
      case False
      with k show ?thesis using same_from_live [OF assms(1) le_refl] by (simp add: slot_holders_def)
    qed (use k assms(3) in \<open>auto simp: slot_holders_def\<close>)
  qed
  with slot_holders_later [OF assms(2)] assms(4) show ?thesis by (meson slots_bounded_subset)
qed

lemma slot_holders_same: "same_from (clk_inst c) m m' \<Longrightarrow> slot_holders m b tenant c pc = slot_holders m' b tenant c pc"
  using same_from_live [of "clk_inst c" m m'] by (simp add: slot_holders_def)

context session_fleet
begin

lemma write_slot_view:
  assumes "ok s" "write_slot b tenant sid c s = (r, s')"
  shows "ok s'"
    "same_from (clk_inst c) (view s')
       ((view s)(tenant_slot_prefix b tenant @ sid \<mapsto> (se_text (sb_ext b) ''1'', Some (clk_inst c + row_ttl b))))"
  using put_law [OF assms(1), of "tenant_slot_prefix b tenant @ sid" "se_text (sb_ext b) ''1''" "Some (row_ttl b)" c] assms(2)
  by (auto simp: write_slot_def)

lemma delete_slot_view:
  assumes "ok s" "kv_delete kv k c s = (r, s')"
  shows "ok s'" "same_from (clk_inst c) (view s') ((view s)(k := None))"
  using delete_law [OF assms(1), of k c] assms(2) by auto

text \<open>A count that grants the claim saw every live slot of the tenant, at most \<open>cap\<close> of them.\<close>

lemma count_slots_granted:
  assumes "ok s" "count_slots b tenant sid cap c s = (Inr True, s')" "cap < 2 ^ 64 - 1"
  shows "ok s'" "same_from (clk_inst c) (view s') (view s)"
    "slots_bounded cap {k. live_at (view s) (clk_inst c) (tenant_slot_prefix b tenant @ k) \<noteq> None}"
proof -
  let ?p = "tenant_slot_prefix b tenant" and ?n = "min (cap + 1) (2 ^ 64 - 1)"
  obtain xs s1 where l: "kv_list_prefix kv ?p ?n c s = (Inr xs, s1)" "ok s1"
      "same_from (clk_inst c) (view s1) (view s)" "distinct (map fst xs)"
    and all: "length xs < ?n \<Longrightarrow> {k. prefix ?p k \<and> live_at (view s) (clk_inst c) k \<noteq> None} \<subseteq> fst ` set xs"
    using list_prefix_law [OF assms(1), of ?p ?n c] by blast
  have few: "length xs \<le> cap" and s': "s' = s1"
    using assms(2) l(1) by (auto simp: count_slots_def split: if_splits prod.splits sum.splits)
  with l show "ok s'" "same_from (clk_inst c) (view s') (view s)" by simp_all
  have "length xs < ?n" using few assms(3) by simp
  from all [OF this] have sub: "(@) ?p ` {k. live_at (view s) (clk_inst c) (?p @ k) \<noteq> None} \<subseteq> fst ` set xs" by auto
  have fin: "finite (fst ` set xs)" and card: "card (fst ` set xs) \<le> cap"
    using few card_image_le [of "set xs" fst] card_length [of xs] by (simp_all add: le_trans)
  have inj: "inj_on ((@) ?p) A" for A by (simp add: inj_on_def)
  from finite_subset [OF sub fin] card_mono [OF fin sub] card card_image [OF inj]
  show "slots_bounded cap {k. live_at (view s) (clk_inst c) (?p @ k) \<noteq> None}"
    by (simp add: slots_bounded_def finite_image_iff [OF inj])
qed

lemma count_slots_refused:
  assumes "ok s" "count_slots b tenant sid cap c s = (Inr False, s')"
  shows "ok s'" "same_from (clk_inst c) (view s') ((view s)(tenant_slot_prefix b tenant @ sid := None))"
proof -
  let ?p = "tenant_slot_prefix b tenant" and ?n = "min (cap + 1) (2 ^ 64 - 1)"
  obtain xs s1 where l: "kv_list_prefix kv ?p ?n c s = (Inr xs, s1)" "ok s1" "same_from (clk_inst c) (view s1) (view s)"
    using list_prefix_law [OF assms(1), of ?p ?n c] by blast
  obtain r where d: "kv_delete kv (?p @ sid) c s1 = (r, s')"
    using assms(2) l(1) by (auto simp: count_slots_def split: if_splits prod.splits sum.splits)
  from delete_slot_view [OF l(2) d] same_from_upd [OF l(3)]
  show "ok s'" "same_from (clk_inst c) (view s') ((view s)(?p @ sid := None))"
    using same_from_trans by blast+
qed

lemma tenant_slots_bounded:
  assumes "slot_run view b tenant cap s0 c s pc" "ok s0" "cap < 2 ^ 64 - 1"
  shows "ok s \<and> slots_bounded cap (slot_holders (view s) b tenant c pc)"
  using assms
proof (induction rule: slot_run.induct)
  case (slot_start c)
  then show ?case by (simp add: slot_holders_def slots_bounded_def)
next
  case (slot_write c s pc c' sid s')
  then have "ok s" "slots_bounded cap (slot_holders (view s) b tenant c pc)" by simp_all
  with write_slot_view [OF _ slot_write(3)] slot_holders_change [OF _ slot_write(2)] show ?case by blast
next
  case (slot_count c s pc c' sid granted s')
  then have old: "ok s" "slots_bounded cap (slot_holders (view s) b tenant c pc)" by simp_all
  show ?case
  proof (cases granted)
    case True
    from slot_count(4) True have "count_slots b tenant sid cap c' s = (Inr True, s')" by simp
    note g = count_slots_granted [OF old(1) this slot_count.prems(2)]
    have "slot_holders (view s) b tenant c' (pc(sid := SlotGranted))
        \<subseteq> {k. live_at (view s) (clk_inst c') (tenant_slot_prefix b tenant @ k) \<noteq> None}"
      by (auto simp: slot_holders_def)
    from slots_bounded_subset [OF g(3) this] g(1) slot_holders_same [OF g(2), of b] True show ?thesis by (simp add: fun_upd_def)
  next
    case False
    note g = count_slots_refused [OF old(1)]
    from slot_count(4) False have "count_slots b tenant sid cap c' s = (Inr False, s')" by simp
    from g [OF this] slot_holders_change [OF _ slot_count(2) _ old(2), where p = NoSlot] False show ?thesis
      by (simp add: fun_upd_def)
  qed
next
  case (slot_renew c s pc c' sid s')
  then have old: "ok s" "slots_bounded cap (slot_holders (view s) b tenant c pc)" by simp_all
  have "sid \<in> slot_holders (view s) b tenant c' pc" using slot_renew(3,4) by (simp add: slot_holders_def)
  from write_slot_view [OF old(1) slot_renew(5)] slot_holders_change [OF _ slot_renew(2) disjI2 [OF this] old(2), where p = SlotGranted]
    slot_renew(3)
  show ?case by (metis fun_upd_triv)
next
  case (slot_free c s pc c' sid r s')
  then have "ok s" "slots_bounded cap (slot_holders (view s) b tenant c pc)" by simp_all
  with delete_slot_view [OF _ slot_free(3) [unfolded kv_b]] slot_holders_change [OF _ slot_free(2)] show ?case by blast
qed

end

section \<open>Result\<close>


text \<open>Two sessions race for one slot: both write, the one that counts first gives up, then the other is granted.\<close>

definition race_written :: "session_payload memory" where
  "race_written = snd (write_slot demo_store ''t'' ''b'' (at_ms 1) (snd (write_slot demo_store ''t'' ''a'' (at_ms 0) [])))"

definition race_refused :: "session_payload memory" where
  "race_refused = snd (count_slots demo_store ''t'' ''a'' 1 (at_ms 2) race_written)"

lemmas race_eval = write_slot_def count_slots_def demo_store_def demo_session_ext_def tenant_slot_prefix_def memory_op_defs
  row_ttl_def row_ttl_of_def refresh_interval_def idle_timeout_def live_entries_def is_expired_def from_millis_def from_secs_def

lemma race_evaluates:
  "fst (count_slots demo_store ''t'' ''a'' 1 (at_ms 2) race_written) = Inr False"
  "fst (count_slots demo_store ''t'' ''b'' 1 (at_ms 3) race_refused) = Inr True"
  by (simp_all add: race_written_def race_refused_def race_eval)


end
