(* ===== verification/Spec2Isabelle.thy ===== *)
theory Spec2Isabelle
  imports Memory_Properties Task_Properties Idempotency_Properties Quota_Properties
    Policy_Cache_Properties
    Reaper_Properties Catalog_Properties Session_Slots
begin

text \<open>
  A verification development for mcpg, a gateway for the Model Context Protocol written in Rust.

  \<^bold>\<open>The program.\<close>  A gateway replica takes MCP requests from a transport (HTTP or stdio), finds out who
  calls, asks its gates whether the call may run, runs it on a backend or as a pipeline of steps, and keeps
  what has to outlive the request in \<^emph>\<open>capability stores\<close>: tasks, idempotency records, quota counters,
  concurrency slots, sessions, suspended pipelines, resumption blobs.  No capability store holds state of
  its own.  Each is a thin layer over one key-value store interface (\<open>KeyValueStore\<close> of the cluster API
  crate: \<open>get\<close>, \<open>put\<close>, \<open>put_if_absent\<close>, \<open>delete\<close>, \<open>list_page\<close>, \<open>list_prefix\<close>, \<open>expire\<close>, \<open>incr\<close>,
  \<open>incr_floor\<close>), so that the replicas of a fleet that share a store act as one gateway.  This is the core
  the development models: the store, and the gateway's promises that rest on it while several replicas call
  it at once.

  \<^bold>\<open>Theories and sources\<close> (paths under \<open>src/src/\<close>).

  \<^item> \<open>Mcpg_Prelude\<close>: durations, the pair of clocks a call reads (monotonic and wall), milliseconds
    and their cuts to \<open>u64\<close> and \<open>i64\<close>, byte strings with \<open>trim\<close>, the number parsers and printers of Rust's
    standard library, the JSON values the stores build.

  \<^item> \<open>Kv_Api\<close>: the store interface as a record of functions (\<open>kv_ops\<close>), polymorphic in the store's
    state, and the contracts its clients rely on as locales: \<open>kv_store\<close> (a live read, a write seen until
    its deadline, a conditional write that wins exactly when no live row is there, no effect on other
    keys), \<open>kv_listing\<close> (complete and sound listings), \<open>kv_counters\<close> (increments as additions).

  \<^item> \<open>Memory_Kv\<close> and \<open>Memory_Bus\<close>: \<open>builtins/cluster_primitives/memory.rs\<close>, the in-process store
    (\<open>DashMap\<close> as a map, \<open>StoredEntry\<close> as a record, the sweeper as one more operation) and the topic
    bus.  The interpretations \<open>mem\<close>, \<open>mem_all\<close> and \<open>mem_counting\<close> discharge the three contracts for it;
    every result about a capability store comes from its contract and reaches the in-process store
    through them.

  \<^item> \<open>Task_Store\<close>: \<open>runtime/stores/task_store.rs\<close>, all methods of \<open>KvBackedTaskStore\<close>.

  \<^item> \<open>Idempotency\<close>: \<open>runtime/idempotency/\<close>, key validation, the state machine of a record, and
    \<open>reserve_or_get\<close> both as one function and as a machine that does one store call per step.

  \<^item> \<open>Fleet_Semaphore\<close>: \<open>runtime/fleet_semaphore.rs\<close>, slots taken with \<open>put_if_absent\<close>, refreshed and
    freed.

  \<^item> \<open>Quota_Config\<close> and \<open>Quota_Gate\<close>: \<open>config/quotas.rs\<close>, the quota registry and its validation with the
    messages; \<open>runtime/quota_gate.rs\<close>, the rate limit (GCRA on a shared counter), the call, token and cost
    budgets, the concurrency caps, \<open>evaluate\<close> and \<open>charge_usage\<close>.

  \<^item> \<open>Request_Identity\<close>, \<open>Backend_Routes\<close> and \<open>Policy_Gate\<close>: who calls and with which trust
    (\<open>runtime/mod.rs\<close>), where a capability leads (\<open>backends/routes.rs\<close>), and whether the call may run
    (\<open>runtime/policy.rs\<close> and \<open>policy_eval.rs\<close>), with the decision cache.

  \<^item> \<open>Schema_Safety\<close>, \<open>Resource_Template\<close>, \<open>Capability_Registry\<close>, \<open>List_Cursor\<close> and \<open>Catalog_Listing\<close>: the
    checks on tool schemas, URI templates, the registry of tools, prompts and resources with the federated
    overlay (\<open>backends/registry.rs\<close>), signed cursors and the pages of the listings.

  \<^item> \<open>Session_Streams\<close>, \<open>Session_Store\<close> and \<open>Session_Slots\<close>: \<open>runtime/stores/session_store.rs\<close>, the event
    streams with their replay windows, all operations of \<open>KvBackedSessionStore\<close> on the shared rows and on a
    replica's copies, and the tenant slots as a step relation.

  \<^item> \<open>Pipeline_Config\<close>: the steps of a pipeline with their own serialiser (\<open>config/backend.rs\<close>) and the
    request context.  \<open>Pipeline_Store\<close>: \<open>runtime/stores/pipeline_store.rs\<close>, suspended pipelines, the requests
    they wait for and the deliveries of the sessions.  \<open>Pipeline_Engine\<close>: \<open>runtime/execution/pipeline.rs\<close> and
    the entry points in \<open>runtime/execution/mod.rs\<close>, both paths through the interpreter, every kind of step,
    suspension and resumption.

  \<^item> \<open>Request_State\<close>: \<open>protocol/v_2026_07_28/dispatch/request_state.rs\<close> and
    \<open>runtime/stores/request_state_store.rs\<close>, the encrypted or stored blobs a client of the modern wire echoes.

  \<^item> \<open>Pipeline_Resume\<close>: \<open>runtime/delivery.rs\<close>, the handlers of a client's answer on both wires,
    \<open>protocol/v_2026_07_28/dispatch/mrtr.rs\<close>, and the reaper \<open>runtime/reapers/pipeline_reaper.rs\<close>.

  The theories named \<open>..._Properties\<close> hold the step relations, the locales of the clients and the results;
  those of the quota registry, the schema checks, the templates, the streams, the slots and the blobs are in
  the theories of their models.

  \<^bold>\<open>Interfaces.\<close>  \<open>kv_store\<close> and its extensions are the contract every store rests on.  \<open>kv_buffering\<close> adds what
  the interpreter needs of a counter; \<open>engine_on_store\<close> is the interpreter on such a store with codecs that
  read back what they wrote, and \<open>gateway_on_store\<close> the gateway on that interpreter: the results on suspended
  runs and answers are proved in them once and reach the in-process store through \<open>mem_buffering\<close>,
  \<open>sample_run\<close> and \<open>sample_gateway\<close>.  \<open>request_state_contract\<close> is what the codec of resumption blobs needs of its
  store; both stores of the source are interpretations.  \<open>session_fleet\<close> is a fleet of replicas on one
  session store.

  \<^bold>\<open>How the code is read.\<close>  A method that changes a store takes the store's state and returns it with its
  result; an error is a value of a sum type with the source's constructors.  Every clock reading is
  an argument, or comes from the world the interpreter threads through its steps.  A lock held over a section
  makes the section one step; where the source drops the lock or awaits between two store calls, the calls are
  separate steps of an inductive relation, and the results quantify over every interleaving of the replicas
  (and of their clients, and of the passing of time).  Waiting for a wake-up is a list of wake-ups, each with
  what the rest of the fleet did before it.  Code outside the repository is a parameter: serde and base64
  codecs, BLAKE3, the AEAD cipher, UUIDs, the rendering of dates, CEL, \<open>f64\<close> arithmetic, backends and plugins,
  the types of the wire crate, the listing and counter helpers of the cluster API crate.  What a result needs of
  a parameter is a named hypothesis or locale assumption (a codec reads back what it wrote, a hash keeps two
  bodies apart), and its witness instantiates the parameter with a concrete function.

  \<^bold>\<open>What is shown.\<close>

  \<^item> The in-process store keeps the contract; its counters add up and never wrap.

  \<^item> Tasks: a terminal task is frozen under every sequence of calls, another session can neither read nor
    change a task, a created task lives for its TTL, and the pages of a listing cover it once and in order.

  \<^item> Idempotency: racing replicas never hold overlapping reservations, a completed request is replayed
    until its TTL, and \<open>reserve_or_get\<close> ends.

  \<^item> Concurrency: the fleet never holds more permits than the cap while each slot is refreshed in time;
    a tenant never has more live sessions than its cap.

  \<^item> Quotas: a validated registry is well formed; the calls granted by a shared bucket cost at most the
    time passed plus the capacity; a call budget is never exceeded and is exact once give-backs are
    done; a refused call is not counted.

  \<^item> Policies: a call is allowed exactly when the rules say so, native rules only tighten, and the cache is
    transparent for decisions that do not read what its key leaves out.

  \<^item> Catalog: a federation cannot take a native name, what is listed is what runs, following the cursors of a
    listing ends and covers it, matching a template inverts its expansion, a compiled schema is bounded.

  \<^item> Sessions: an ended session stays ended on every replica, and a reconnect continues a stream without
    gaps or repeats, or is refused.

  \<^item> Pipelines: a version is claimed once; a run that asks the client can be taken up exactly where it
    stopped; the owner's answer in time continues it; nobody else can answer or learn that it exists; the two
    paths of the interpreter agree; buffered deliveries are replayed in order; a sweep tells each waiting
    caller once; a resumption blob round-trips and an inline blob is bound to its owner.

  \<^item> Several results show interleavings or inputs on which the code does less than its comments promise: an
    update that overlaps a terminal write, a policy decision that crosses callers, a patch that undoes a claim,
    a spent blob that is accepted again, a second answer that runs the steps twice, an answered pipeline that
    is reaped, the lost answer of a last step.  The same holds of some theorems beside the main results (a
    read that removes a fresh claim, a late completion, a release after its slot was taken, two policies that
    share a bucket, a sweep under skewed clocks).

  \<^bold>\<open>Bounds.\<close>  \<open>reserve_or_get\<close> tries three times in the source, at most eight store calls; the machine
  needs no fuel and a theorem shows that it ends.  The interpreter's loop ends because every turn that goes on
  moves to the next step.  The slot result assumes that a slot in use was written less than its TTL ago, which
  is what the refresher is for.  The rate limit result assumes that a bucket row outlives its debt, which the
  bucket TTL gives, and integers in range where the source saturates.  Numbers are kept at their width where a
  result depends on it: counters are \<open>i64\<close> with an overflow error, deadlines are cut to \<open>u64\<close>, the age of a
  pipeline is a negative difference cast to \<open>u64\<close>.

  \<^bold>\<open>Not modelled.\<close>  Transports, plugin host, backends, observability, process wiring and the control plane are
  input and output around this core.  The federation engine drives third-party clients over the network.  The
  authorization server, the event log, subscriptions and the handlers of sessions and tools/call have logic of
  their own that is not covered; the file-based store has the interface of the in-process one over file
  system calls.
\<close>

end
